(* ===== verification/Prelude.thy ===== *)
theory Prelude
  imports Complex_Main "HOL-Library.Word" "HOL-Library.Char_ord"
    "HOL-Library.List_Lexorder" "HOL-Library.Multiset" "HOL-Library.Log_Nat"
begin

text \<open>
  The shared vocabulary of the development: how values of the Go language and of the part of
  its standard library that AquaOS uses are represented, and the lemmas about them that the
  component theories need.

  \<^item> \<^bold>\<open>Errors.\<close> A Go \<open>error\<close> is \<open>go_error option\<close>, with \<open>None\<close> for \<open>nil\<close>. The
    constructors keep the way an error was made (\<open>errors.New\<close>, \<open>fmt.Errorf\<close>, a package-level
    sentinel, wrapping with \<open>%w\<close>, \<open>errors.Join\<close>), because \<open>errors.Is\<close> depends on it; \<open>Validation\<close> is the
    \<open>ValidationError\<close> of the configuration, with its path, code and message.
  \<^item> \<^bold>\<open>Results.\<close> A function returning \<open>(T, error)\<close> returns a \<open>'a ret\<close>: the value (\<open>None\<close> for
    the zero value that accompanies an error) and the error.
  \<^item> \<^bold>\<open>Time.\<close> \<open>time.Time\<close> is the number of nanoseconds since 0001-01-01T00:00Z, so that the
    zero value of Go is \<open>0\<close>; \<open>time.Duration\<close> is a signed 64-bit number of nanoseconds kept as
    an \<open>int\<close>, with saturation and wrap-around written out.
  \<^item> \<^bold>\<open>Maps.\<close> A Go map is an Isabelle map. Ranging over it visits the keys in an order the
    runtime chooses: the operations that range over a map take that order as an argument and
    the theorems hold for every order.
  \<^item> \<^bold>\<open>JSON.\<close> A \<open>json.RawMessage\<close> is the encoding of a typed value or bytes that are no JSON.
\<close>

named_theorems validators \<open>definitions of validation functions, for unfolding\<close>

section \<open>Errors and results\<close>

datatype go_error =
    ErrorString string
  | ErrorFmt string "string list"
  | Sentinel string
  | Wrapped string go_error
  | Joined "go_error list"
  | Validation string string string

fun errors_is :: "go_error \<Rightarrow> string \<Rightarrow> bool" where
  "errors_is (Sentinel s) t = (s = t)"
| "errors_is (Wrapped _ e) t = errors_is e t"
| "errors_is (Joined es) t = list_ex (\<lambda>e. errors_is e t) es"
| "errors_is _ _ = False"

definition errors_join :: "go_error option list \<Rightarrow> go_error option" where
  "errors_join es = (case List.map_filter id es of [] \<Rightarrow> None | fs \<Rightarrow> Some (Joined fs))"

text \<open>
  A validation function of the source is a chain of guarded early returns. It is modelled as
  the first error of a list: \<open>guard b e\<close> is \<open>if b { return e }\<close>.
\<close>

definition guard :: "bool \<Rightarrow> go_error \<Rightarrow> go_error option" where
  "guard b e = (if b then Some e else None)"

definition wrap :: "string \<Rightarrow> go_error option \<Rightarrow> go_error option" where
  "wrap s r = map_option (Wrapped s) r"

fun first_error :: "go_error option list \<Rightarrow> go_error option" where
  "first_error [] = None"
| "first_error (None # es) = first_error es"
| "first_error (Some e # es) = Some e"

text \<open>
  A validation that walks a slice and keeps what it has seen: \<open>for index, x := range xs\<close> with an early
  return. \<open>check_then\<close> is the end of a body whose guards have been collected.
\<close>

fun each_indexed :: "(nat \<Rightarrow> 'a \<Rightarrow> 's \<Rightarrow> go_error + 's) \<Rightarrow> nat \<Rightarrow> 'a list \<Rightarrow> 's \<Rightarrow> go_error + 's" where
  "each_indexed f n [] s = Inr s"
| "each_indexed f n (x # xs) s = (case f n x s of Inl err \<Rightarrow> Inl err | Inr s' \<Rightarrow> each_indexed f (Suc n) xs s')"

definition check_then :: "go_error option \<Rightarrow> 's \<Rightarrow> go_error + 's" where
  "check_then e s = (case e of None \<Rightarrow> Inr s | Some err \<Rightarrow> Inl err)"

definition error_of :: "go_error + 'a \<Rightarrow> go_error option" where
  "error_of r = (case r of Inl err \<Rightarrow> Some err | Inr _ \<Rightarrow> None)"

lemma check_then_Inr [simp]: "check_then e s = Inr s' \<longleftrightarrow> e = None \<and> s' = s"
  by (auto simp: check_then_def split: option.splits)

lemma error_of_None [simp]: "error_of r = None \<longleftrightarrow> (\<exists>v. r = Inr v)"
  by (auto simp: error_of_def split: sum.splits)

type_synonym 'a ret = "'a option \<times> go_error option"

definition ok :: "'a \<Rightarrow> 'a ret" where
  "ok v = (Some v, None)"

definition fail :: "go_error \<Rightarrow> 'a ret" where
  "fail e = (None, Some e)"

lemma guard_None [simp]: "guard b e = None \<longleftrightarrow> \<not> b"
  by (simp add: guard_def)

lemma guard_Some [simp]: "guard b e = Some e' \<longleftrightarrow> b \<and> e' = e"
  by (auto simp: guard_def)

lemma guard_True [simp]: "guard True e = Some e"
  by (simp add: guard_def)

lemma guard_False [simp]: "guard False e = None"
  by (simp add: guard_def)

lemma wrap_None [simp]: "wrap s r = None \<longleftrightarrow> r = None"
  by (simp add: wrap_def)

lemma first_error_None: "first_error es = None \<longleftrightarrow> (\<forall>e \<in> set es. e = None)"
  by (induction es rule: first_error.induct) auto

lemma first_error_Cons_None [simp]:
  "first_error (e # es) = None \<longleftrightarrow> e = None \<and> first_error es = None"
  by (cases e) auto

lemma first_error_Some_in: "first_error es = Some e \<Longrightarrow> Some e \<in> set es"
  by (induction es rule: first_error.induct) auto

lemma ok_simps [simp]:
  "fst (ok v) = Some v" "snd (ok v) = None"
  "ok v = (a, b) \<longleftrightarrow> a = Some v \<and> b = None"
  "ok v = ok w \<longleftrightarrow> v = w"
  by (auto simp: ok_def)

lemma fail_simps [simp]:
  "fst (fail e) = None" "snd (fail e) = Some e"
  "fail e = (a, b) \<longleftrightarrow> a = None \<and> b = Some e"
  "fail e = fail e' \<longleftrightarrow> e = e'"
  "fail e \<noteq> ok v" "ok v \<noteq> fail e"
  by (auto simp: ok_def fail_def)

lemma errors_join_None: "errors_join es = None \<longleftrightarrow> (\<forall>e \<in> set es. e = None)"
proof -
  have "List.map_filter id es = [] \<longleftrightarrow> (\<forall>e \<in> set es. e = None)"
    by (induction es) (auto simp: List.map_filter_simps split: option.splits)
  then show ?thesis
    by (auto simp: errors_join_def split: list.splits)
qed

section \<open>Time and durations\<close>

type_synonym gotime = int
type_synonym duration = int

definition is_zero :: "gotime \<Rightarrow> bool" where
  "is_zero t \<longleftrightarrow> t = 0"

text \<open>\<open>Time.Sub\<close> saturates at the bounds of \<open>Duration\<close>; \<open>+\<close> on durations wraps.\<close>

definition time_sub :: "gotime \<Rightarrow> gotime \<Rightarrow> duration" where
  "time_sub a b = max (- (2 ^ 63)) (min (2 ^ 63 - 1) (a - b))"

definition wrap64 :: "int \<Rightarrow> int" where
  "wrap64 x = (x + 2 ^ 63) mod 2 ^ 64 - 2 ^ 63"

definition dur_add :: "duration \<Rightarrow> duration \<Rightarrow> duration" where
  "dur_add a b = wrap64 (a + b)"

definition day_ns :: int where
  "day_ns = 86400000000000"

text \<open>\<open>at.UTC().Format("2006-01-02")\<close> names the UTC day; the day number stands for the text.\<close>

definition utc_day :: "gotime \<Rightarrow> int" where
  "utc_day t = t div day_ns"

lemma is_zero_simps [simp]: "is_zero 0" "is_zero t \<longleftrightarrow> t = 0"
  by (auto simp: is_zero_def)

lemma wrap64_id: "- (2 ^ 63) \<le> x \<Longrightarrow> x < 2 ^ 63 \<Longrightarrow> wrap64 x = x"
  by (simp add: wrap64_def)

lemma wrap64_range: "- (2 ^ 63) \<le> wrap64 x \<and> wrap64 x < 2 ^ 63"
proof -
  have "0 \<le> (x + 2 ^ 63) mod 2 ^ 64" "(x + 2 ^ 63) mod 2 ^ 64 < (2::int) ^ 64"
    by (rule pos_mod_sign, simp, rule pos_mod_bound, simp)
  then show ?thesis by (simp add: wrap64_def)
qed

lemma time_sub_range: "- (2 ^ 63) \<le> time_sub a b \<and> time_sub a b < 2 ^ 63"
  by (auto simp: time_sub_def min_def max_def)

lemma time_sub_self [simp]: "time_sub a a = 0"
  by (simp add: time_sub_def)

lemma time_sub_mono: "a \<le> a' \<Longrightarrow> time_sub a b \<le> time_sub a' b"
  by (auto simp: time_sub_def min_def max_def)

lemma time_sub_exact: "- (2 ^ 63) \<le> a - b \<Longrightarrow> a - b < 2 ^ 63 \<Longrightarrow> time_sub a b = a - b"
  by (auto simp: time_sub_def min_def max_def)

lemma time_sub_pos: "0 < time_sub a b \<longleftrightarrow> b < a"
  by (auto simp: time_sub_def min_def max_def)

lemma time_sub_nonneg: "0 \<le> time_sub a b \<longleftrightarrow> b \<le> a"
  by (auto simp: time_sub_def min_def max_def)

lemma time_sub_less:
  "d < 2 ^ 63 \<Longrightarrow> - (2 ^ 63) < d \<Longrightarrow> time_sub a b < d \<longleftrightarrow> a - b < d"
  by (auto simp: time_sub_def min_def max_def)

lemma same_day_distance:
  assumes "utc_day a = utc_day b"
  shows "\<bar>a - b\<bar> < day_ns"
proof -
  have "a - b = a mod day_ns - b mod day_ns"
    using assms by (simp add: utc_day_def flip: minus_div_mult_eq_mod)
  moreover have "0 \<le> a mod day_ns" "a mod day_ns < day_ns" "0 \<le> b mod day_ns" "b mod day_ns < day_ns"
    by (simp_all add: day_ns_def)
  ultimately show ?thesis unfolding abs_less_iff by linarith
qed

section \<open>Maps and their iteration order\<close>

definition range_order :: "('k \<rightharpoonup> 'v) \<Rightarrow> 'k list \<Rightarrow> bool" where
  "range_order m ord \<longleftrightarrow> distinct ord \<and> set ord = dom m"

definition go_range :: "('k \<rightharpoonup> 'v) \<Rightarrow> 'k list \<Rightarrow> 'v list" where
  "go_range m ord = List.map_filter m ord"

lemma set_map_filter_map: "set (List.map_filter m ord) = {v. \<exists>k \<in> set ord. m k = Some v}"
  by (induction ord) (auto simp: List.map_filter_simps split: option.splits)

lemma set_go_range: "range_order m ord \<Longrightarrow> set (go_range m ord) = ran m"
  by (auto simp: go_range_def set_map_filter_map range_order_def ran_def)

lemma go_range_eq_map: "range_order m ord \<Longrightarrow> go_range m ord = map (\<lambda>k. the (m k)) ord"
proof -
  assume "range_order m ord"
  then have "set ord \<subseteq> dom m" by (simp add: range_order_def)
  then show ?thesis
    by (induction ord) (auto simp: go_range_def List.map_filter_simps)
qed

lemma mset_go_range:
  "range_order m ord \<Longrightarrow> range_order m ord' \<Longrightarrow> mset (go_range m ord) = mset (go_range m ord')"
proof -
  assume a: "range_order m ord" "range_order m ord'"
  then have "mset ord = mset ord'"
    by (metis range_order_def set_eq_iff_mset_eq_distinct)
  then have "mset (map (\<lambda>k. the (m k)) ord) = mset (map (\<lambda>k. the (m k)) ord')"
    by simp
  with a show ?thesis by (simp add: go_range_eq_map)
qed

text \<open>
  \<open>sort.Slice\<close> is not stable, so its result is determined only where the sort keys of the
  elements are distinct. Then it is also independent of the order in which the map was ranged.
\<close>

lemma sort_key_order_independent:
  assumes "range_order m ord" "range_order m ord'" "inj_on f (ran m)"
  shows "sort_key f (go_range m ord) = sort_key f (go_range m ord')"
proof -
  have "mset (go_range m ord) = mset (sort_key f (go_range m ord'))"
    using mset_go_range [OF assms(1,2)] by simp
  moreover have "inj_on f (set (go_range m ord))"
    using assms by (simp add: set_go_range)
  ultimately show ?thesis
    by (rule sort_key_inj_key_eq) simp
qed

section \<open>JSON payloads\<close>

datatype 'v raw_message = RawJSON 'v | RawBytes string

primrec json_valid :: "'v raw_message \<Rightarrow> bool" where
  "json_valid (RawJSON v) = True"
| "json_valid (RawBytes s) = False"

text \<open>
  \<open>json.Marshal\<close> fails on values without a JSON form: of what AquaOS encodes, floats that are
  not finite and times whose year is not in 0..9999 (the year 0 has 366 days and ends where the
  zero time begins). The predicate says which values have a form.
\<close>

definition json_time :: "gotime \<Rightarrow> bool" where
  "json_time t \<longleftrightarrow> - 366 * day_ns \<le> t \<and> t < 3652059 * day_ns"

definition json_marshal :: "('v \<Rightarrow> bool) \<Rightarrow> 'v \<Rightarrow> go_error + 'v raw_message" where
  "json_marshal enc v =
     (if enc v then Inr (RawJSON v) else Inl (ErrorString ''json: unsupported value''))"

end
