(* ===== verification/GoFloat.thy ===== *)
theory GoFloat
  imports Prelude
begin

text \<open>
  Go's \<open>float64\<close>: IEEE 754 binary64. A value is NaN, an infinity or a finite number, which is a
  rational; the sign of zero, which no code of AquaOS looks at, is not kept. Addition and
  multiplication round the exact result to the nearest representable number, ties to even.
  The comparisons are those of the language: every comparison with NaN is false.
\<close>

datatype float64 = NaN | Infinity bool | Finite rat

definition two_powi :: "int \<Rightarrow> rat" where
  "two_powi e = (if 0 \<le> e then 2 ^ nat e else 1 / 2 ^ nat (- e))"

text \<open>The binary exponent of a positive rational: \<open>2 ^ e \<le> x < 2 ^ (e + 1)\<close>.\<close>

definition bin_exponent :: "rat \<Rightarrow> int" where
  "bin_exponent x =
     (let (a, b) = quotient_of x;
          e = bitlen a - bitlen b
      in if two_powi e \<le> x then e else e - 1)"

definition round_half_even :: "rat \<Rightarrow> int" where
  "round_half_even x =
     (let n = \<lfloor>x\<rfloor>; d = x - of_int n
      in if d < 1 / 2 then n else if 1 / 2 < d then n + 1 else if even n then n else n + 1)"

definition f64_round :: "rat \<Rightarrow> float64" where
  "f64_round x =
     (if x = 0 then Finite 0
      else let ulp = two_powi (max (bin_exponent \<bar>x\<bar> - 52) (- 1074));
               v = of_int (round_half_even (x / ulp)) * ulp
           in if 2 ^ 1024 \<le> \<bar>v\<bar> then Infinity (v < 0) else Finite v)"

fun f64_is_nan :: "float64 \<Rightarrow> bool" where
  "f64_is_nan NaN = True"
| "f64_is_nan _ = False"

fun f64_is_inf :: "float64 \<Rightarrow> bool" where
  "f64_is_inf (Infinity _) = True"
| "f64_is_inf _ = False"

fun f64_lt :: "float64 \<Rightarrow> float64 \<Rightarrow> bool" where
  "f64_lt (Finite x) (Finite y) = (x < y)"
| "f64_lt (Finite x) (Infinity neg) = (\<not> neg)"
| "f64_lt (Infinity neg) (Finite y) = neg"
| "f64_lt (Infinity a) (Infinity b) = (a \<and> \<not> b)"
| "f64_lt _ _ = False"

fun f64_eq :: "float64 \<Rightarrow> float64 \<Rightarrow> bool" where
  "f64_eq (Finite x) (Finite y) = (x = y)"
| "f64_eq (Infinity a) (Infinity b) = (a = b)"
| "f64_eq _ _ = False"

fun f64_add :: "float64 \<Rightarrow> float64 \<Rightarrow> float64" where
  "f64_add (Finite x) (Finite y) = f64_round (x + y)"
| "f64_add (Finite x) (Infinity b) = Infinity b"
| "f64_add (Infinity a) (Finite y) = Infinity a"
| "f64_add (Infinity a) (Infinity b) = (if a = b then Infinity a else NaN)"
| "f64_add _ _ = NaN"

fun f64_mul :: "float64 \<Rightarrow> float64 \<Rightarrow> float64" where
  "f64_mul (Finite x) (Finite y) = f64_round (x * y)"
| "f64_mul (Finite x) (Infinity b) = (if x = 0 then NaN else Infinity (b \<noteq> (x < 0)))"
| "f64_mul (Infinity a) (Finite y) = (if y = 0 then NaN else Infinity (a \<noteq> (y < 0)))"
| "f64_mul (Infinity a) (Infinity b) = Infinity (a \<noteq> b)"
| "f64_mul _ _ = NaN"

fun f64_neg :: "float64 \<Rightarrow> float64" where
  "f64_neg NaN = NaN"
| "f64_neg (Infinity b) = Infinity (\<not> b)"
| "f64_neg (Finite x) = Finite (- x)"

definition f64_sub :: "float64 \<Rightarrow> float64 \<Rightarrow> float64" where
  "f64_sub x y = f64_add x (f64_neg y)"

fun f64_abs :: "float64 \<Rightarrow> float64" where
  "f64_abs NaN = NaN"
| "f64_abs (Infinity b) = Infinity False"
| "f64_abs (Finite x) = Finite \<bar>x\<bar>"

definition f64_le :: "float64 \<Rightarrow> float64 \<Rightarrow> bool" where
  "f64_le x y \<longleftrightarrow> f64_lt x y \<or> f64_eq x y"

definition f64_finite :: "float64 \<Rightarrow> bool" where
  "f64_finite x \<longleftrightarrow> \<not> f64_is_nan x \<and> \<not> f64_is_inf x"

lemma f64_finite_iff: "f64_finite x \<longleftrightarrow> (\<exists>r. x = Finite r)"
  by (cases x) (auto simp: f64_finite_def)

lemma f64_lt_irrefl [simp]: "\<not> f64_lt x x"
  by (cases x) auto

lemma f64_lt_asym: "f64_lt x y \<Longrightarrow> \<not> f64_lt y x"
  by (cases x; cases y) auto

lemma f64_lt_trans: "f64_lt x y \<Longrightarrow> f64_lt y z \<Longrightarrow> f64_lt x z"
  by (cases x; cases y; cases z) auto

lemma f64_lt_total: "f64_finite x \<Longrightarrow> f64_finite y \<Longrightarrow> f64_lt x y \<or> x = y \<or> f64_lt y x"
  by (auto simp: f64_finite_iff)

end
