(* ===== verification/Domain.thy ===== *)
theory Domain
  imports GoFloat
begin

text \<open>
  The package \<open>internal/domain\<close>: typed identifiers and their textual form (\<open>id.go\<close>),
  capabilities and entities (\<open>entity.go\<close>), quantities, measurements and their quality
  (\<open>measurement.go\<close>) and canonical values (\<open>value.go\<close>). \<open>internal/core/id.go\<close> repeats the
  identifier functions.

  A Go type declared as \<open>string\<close> with a closed set of constants is a datatype with one
  constructor per constant and one for every other string. The defensive copies
  (\<open>Clone\<close>) of the source are the identity on the immutable values of the model.
\<close>

unbundle bit_operations_syntax

section \<open>Identifiers\<close>

type_synonym ident = string
type_synonym byte = "8 word"
type_synonym revision = "64 word"

text \<open>\<open>encoding/hex\<close>: lower-case encoding, decoding of either case.\<close>

definition hex_digit :: "nat \<Rightarrow> char" where
  "hex_digit n = char_of (if n < 10 then 48 + n else 87 + n)"

definition hex_value :: "char \<Rightarrow> nat option" where
  "hex_value c =
     (let n = of_char c :: nat
      in if 48 \<le> n \<and> n \<le> 57 then Some (n - 48)
         else if 97 \<le> n \<and> n \<le> 102 then Some (n - 87)
         else if 65 \<le> n \<and> n \<le> 70 then Some (n - 55)
         else None)"

fun hex_encode :: "byte list \<Rightarrow> string" where
  "hex_encode [] = []"
| "hex_encode (b # bs) = hex_digit (unat b div 16) # hex_digit (unat b mod 16) # hex_encode bs"

fun hex_decode :: "string \<Rightarrow> go_error + byte list" where
  "hex_decode [] = Inr []"
| "hex_decode [c] =
     (if hex_value c = None then Inl (ErrorString ''encoding/hex: invalid byte'')
      else Inl (Sentinel ''hex.ErrLength''))"
| "hex_decode (a # b # cs) =
     (case (hex_value a, hex_value b) of
        (Some h, Some l) \<Rightarrow>
          (case hex_decode cs of
             Inl e \<Rightarrow> Inl e
           | Inr bs \<Rightarrow> Inr (of_nat (16 * h + l) # bs))
      | _ \<Rightarrow> Inl (ErrorString ''encoding/hex: invalid byte''))"

definition version4 :: "byte list \<Rightarrow> byte list" where
  "version4 value =
     (let v = value[6 := (value ! 6 AND 0x0f) OR 0x40]
      in v[8 := (v ! 8 AND 0x3f) OR 0x80])"

text \<open>\<open>newUUID\<close>: the argument is what \<open>rand.Read\<close> returns for the 16-byte array.\<close>

definition newUUID :: "go_error + byte list \<Rightarrow> go_error + string" where
  "newUUID rand =
     (case rand of
        Inl e \<Rightarrow> Inl e
      | Inr bytes \<Rightarrow>
          (let value = version4 bytes
           in Inr (hex_encode (take 4 value) @ ''-'' @
                   hex_encode (take 2 (drop 4 value)) @ ''-'' @
                   hex_encode (take 2 (drop 6 value)) @ ''-'' @
                   hex_encode (take 2 (drop 8 value)) @ ''-'' @
                   hex_encode (take 6 (drop 10 value)))))"

definition dash :: char where
  "dash = CHR ''-''"

definition validateUUID :: "string \<Rightarrow> go_error option" where
  "validateUUID value =
     (if length value \<noteq> 36 \<or> value ! 8 \<noteq> dash \<or> value ! 13 \<noteq> dash \<or> value ! 18 \<noteq> dash \<or> value ! 23 \<noteq> dash
      then Some (ErrorString ''must be a canonical RFC 4122 UUID'')
      else case hex_decode (filter (\<lambda>c. c \<noteq> dash) value) of
             Inl _ \<Rightarrow> Some (ErrorString ''must be a canonical RFC 4122 UUID'')
           | Inr _ \<Rightarrow> None)"

section \<open>Capabilities and entities\<close>

datatype capability =
    CapabilityObserve
  | CapabilitySwitch
  | CapabilityVariableOutput
  | CapabilityCommandAcknowledgement
  | CapabilityReportedState
  | CapabilityPowerTelemetry
  | CapabilityOther string

fun capability_string :: "capability \<Rightarrow> string" where
  "capability_string CapabilityObserve = ''observe''"
| "capability_string CapabilitySwitch = ''switch''"
| "capability_string CapabilityVariableOutput = ''variable-output''"
| "capability_string CapabilityCommandAcknowledgement = ''command-acknowledgement''"
| "capability_string CapabilityReportedState = ''reported-state''"
| "capability_string CapabilityPowerTelemetry = ''power-telemetry''"
| "capability_string (CapabilityOther s) = s"

fun capability_validate :: "capability \<Rightarrow> go_error option" where
  "capability_validate (CapabilityOther s) = Some (ErrorFmt ''unsupported capability %q'' [s])"
| "capability_validate _ = None"

type_synonym metadata = "(string \<rightharpoonup> string) option"

record device =
  device_id :: ident
  device_name :: string
  device_capabilities :: "capability list"
  device_metadata :: metadata

record endpoint =
  endpoint_id :: ident
  endpoint_device :: ident
  endpoint_name :: string
  endpoint_capabilities :: "capability list"

fun validate_capabilities_from :: "capability set \<Rightarrow> capability list \<Rightarrow> go_error option" where
  "validate_capabilities_from seen [] = None"
| "validate_capabilities_from seen (c # cs) =
     (case capability_validate c of
        Some e \<Rightarrow> Some e
      | None \<Rightarrow>
          if c \<in> seen then Some (ErrorFmt ''duplicate capability %q'' [capability_string c])
          else validate_capabilities_from (insert c seen) cs)"

definition ValidateCapabilities :: "capability list \<Rightarrow> go_error option" where
  "ValidateCapabilities values =
     (if values = [] then Some (ErrorString ''at least one capability is required'')
      else validate_capabilities_from {} values)"

definition SupportsAll :: "capability list \<Rightarrow> capability list \<Rightarrow> bool" where
  "SupportsAll available required = list_all (\<lambda>value. value \<in> set available) required"

section \<open>Quantities and measurements\<close>

datatype quantity_kind =
    QuantityTemperature | QuantityPH | QuantitySalinity | QuantityFlow | QuantityLevel
  | QuantityPower | QuantityVoltage | QuantityCurrent | QuantityOther string

datatype unit_kind =
    UnitCelsius | UnitPH | UnitPPT | UnitLitersPerHour | UnitPercent | UnitWatts | UnitVolts
  | UnitAmperes | UnitOther string

datatype quality =
    QualityGood | QualitySuspect | QualityStale | QualityInvalid | QualityUnavailable
  | QualityOther string

fun quantity_kind_string :: "quantity_kind \<Rightarrow> string" where
  "quantity_kind_string QuantityTemperature = ''temperature''"
| "quantity_kind_string QuantityPH = ''ph''"
| "quantity_kind_string QuantitySalinity = ''salinity''"
| "quantity_kind_string QuantityFlow = ''flow''"
| "quantity_kind_string QuantityLevel = ''level''"
| "quantity_kind_string QuantityPower = ''power''"
| "quantity_kind_string QuantityVoltage = ''voltage''"
| "quantity_kind_string QuantityCurrent = ''current''"
| "quantity_kind_string (QuantityOther s) = s"

fun unit_string :: "unit_kind \<Rightarrow> string" where
  "unit_string UnitCelsius = ''celsius''"
| "unit_string UnitPH = ''pH''"
| "unit_string UnitPPT = ''ppt''"
| "unit_string UnitLitersPerHour = ''liters_per_hour''"
| "unit_string UnitPercent = ''percent''"
| "unit_string UnitWatts = ''watts''"
| "unit_string UnitVolts = ''volts''"
| "unit_string UnitAmperes = ''amperes''"
| "unit_string (UnitOther s) = s"

fun quality_string :: "quality \<Rightarrow> string" where
  "quality_string QualityGood = ''good''"
| "quality_string QualitySuspect = ''suspect''"
| "quality_string QualityStale = ''stale''"
| "quality_string QualityInvalid = ''invalid''"
| "quality_string QualityUnavailable = ''unavailable''"
| "quality_string (QualityOther s) = s"

record quantity =
  quantity_kind :: quantity_kind
  quantity_value :: float64
  quantity_unit :: unit_kind

fun canonical_unit :: "quantity_kind \<Rightarrow> unit_kind option" where
  "canonical_unit QuantityTemperature = Some UnitCelsius"
| "canonical_unit QuantityPH = Some UnitPH"
| "canonical_unit QuantitySalinity = Some UnitPPT"
| "canonical_unit QuantityFlow = Some UnitLitersPerHour"
| "canonical_unit QuantityLevel = Some UnitPercent"
| "canonical_unit QuantityPower = Some UnitWatts"
| "canonical_unit QuantityVoltage = Some UnitVolts"
| "canonical_unit QuantityCurrent = Some UnitAmperes"
| "canonical_unit (QuantityOther _) = None"

definition quantity_validate :: "quantity \<Rightarrow> go_error option" where
  "quantity_validate q =
     (if f64_is_nan (quantity_value q) \<or> f64_is_inf (quantity_value q)
      then Some (ErrorString ''quantity value must be finite'')
      else case canonical_unit (quantity_kind q) of
        None \<Rightarrow> Some (ErrorFmt ''unsupported quantity kind %q'' [quantity_kind_string (quantity_kind q)])
      | Some unit \<Rightarrow>
          if quantity_unit q \<noteq> unit
          then Some (ErrorFmt ''unit %q is incompatible with quantity kind %q''
                       [unit_string (quantity_unit q), quantity_kind_string (quantity_kind q)])
          else if quantity_kind q = QuantityPH \<and>
             (f64_lt (quantity_value q) (Finite 0) \<or> f64_lt (Finite 14) (quantity_value q))
          then Some (ErrorString ''pH must be between 0 and 14'')
          else if quantity_kind q = QuantityLevel \<and>
             (f64_lt (quantity_value q) (Finite 0) \<or> f64_lt (Finite 100) (quantity_value q))
          then Some (ErrorString ''level percent must be between 0 and 100'')
          else None)"

definition NewQuantity :: "quantity_kind \<Rightarrow> float64 \<Rightarrow> unit_kind \<Rightarrow> quantity ret" where
  "NewQuantity kind value unit =
     (let quantity = \<lparr>quantity_kind = kind, quantity_value = value, quantity_unit = unit\<rparr>
      in case quantity_validate quantity of Some err \<Rightarrow> fail err | None \<Rightarrow> ok quantity)"

fun validQuality :: "quality \<Rightarrow> bool" where
  "validQuality (QualityOther _) = False"
| "validQuality _ = True"

record measurement =
  m_sensor :: ident
  m_value :: quantity
  m_quality :: quality
  m_observed :: gotime
  m_received :: gotime
  m_fresh_for :: duration

definition measurement_validate :: "measurement \<Rightarrow> go_error option" where
  "measurement_validate m = first_error [
     wrap ''sensor ID'' (validateUUID (m_sensor m)),
     wrap ''value'' (quantity_validate (m_value m)),
     guard (\<not> validQuality (m_quality m)) (ErrorFmt ''unsupported quality %q'' [quality_string (m_quality m)]),
     guard (is_zero (m_observed m) \<or> is_zero (m_received m))
       (ErrorString ''observedAt and receivedAt are required''),
     guard (m_observed m > m_received m) (ErrorString ''observedAt must not be after receivedAt''),
     guard (m_fresh_for m \<le> 0) (ErrorString ''freshFor must be positive'')]"

definition EffectiveQuality :: "measurement \<Rightarrow> gotime \<Rightarrow> quality" where
  "EffectiveQuality m now =
     (if m_quality m = QualityInvalid \<or> m_quality m = QualityUnavailable then m_quality m
      else if \<not> now < m_observed m + m_fresh_for m then QualityStale
      else m_quality m)"

section \<open>Entities that refer to quantities\<close>

record sensor =
  sensor_id :: ident
  sensor_device :: ident
  sensor_endpoint :: ident
  sensor_name :: string
  sensor_quantity :: quantity_kind
  sensor_unit :: unit_kind
  sensor_capabilities :: "capability list"
  sensor_metadata :: metadata

record equipment =
  equipment_id :: ident
  equipment_device :: ident
  equipment_endpoint :: ident
  equipment_name :: string
  equipment_capabilities :: "capability list"
  equipment_metadata :: metadata

section \<open>Canonical values\<close>

datatype value_kind = ValueQuantity | ValueBoolean | ValueText | ValueOther string

record canonical =
  value_kind :: value_kind
  value_quantity :: "quantity option"
  value_boolean :: "bool option"
  value_text :: "string option"

definition NewQuantityValue :: "quantity \<Rightarrow> canonical" where
  "NewQuantityValue v =
     \<lparr>value_kind = ValueQuantity, value_quantity = Some v, value_boolean = None, value_text = None\<rparr>"

definition NewBooleanValue :: "bool \<Rightarrow> canonical" where
  "NewBooleanValue v =
     \<lparr>value_kind = ValueBoolean, value_quantity = None, value_boolean = Some v, value_text = None\<rparr>"

definition NewTextValue :: "string \<Rightarrow> canonical" where
  "NewTextValue v =
     \<lparr>value_kind = ValueText, value_quantity = None, value_boolean = None, value_text = Some v\<rparr>"

definition value_validate :: "canonical \<Rightarrow> go_error option" where
  "value_validate v =
     (let count = (if value_quantity v \<noteq> None then 1 else 0)
                + (if value_boolean v \<noteq> None then 1 else 0)
                + (if value_text v \<noteq> None then 1 else (0::int))
      in if count \<noteq> 1
         then Some (ErrorString ''canonical value must contain exactly one member'')
         else case value_kind v of
           ValueQuantity \<Rightarrow>
             (case value_quantity v of
                None \<Rightarrow> Some (ErrorString ''quantity value is required'')
              | Some q \<Rightarrow> quantity_validate q)
         | ValueBoolean \<Rightarrow> guard (value_boolean v = None) (ErrorString ''boolean value is required'')
         | ValueText \<Rightarrow> guard (value_text v = None) (ErrorString ''text value is required'')
         | ValueOther _ \<Rightarrow> Some (ErrorString ''unsupported canonical value kind''))"

section \<open>Identifiers: lemmas\<close>

lemma hex_value_digit: "n < 16 \<Longrightarrow> hex_value (hex_digit n) = Some n"
  by (auto simp: hex_value_def hex_digit_def Let_def)

lemma hex_digit_not_dash: "n < 16 \<Longrightarrow> hex_digit n \<noteq> dash"
proof
  assume "n < 16" "hex_digit n = dash"
  then have "hex_value dash = Some n" using hex_value_digit by metis
  then show False by (simp add: hex_value_def dash_def)
qed

lemma hex_value_dash [simp]: "hex_value dash = None"
  by (simp add: hex_value_def dash_def)

lemma length_hex_encode [simp]: "length (hex_encode bs) = 2 * length bs"
  by (induction bs) auto

lemma hex_encode_append: "hex_encode (xs @ ys) = hex_encode xs @ hex_encode ys"
  by (induction xs) auto

lemma byte_nibbles:
  fixes b :: byte
  shows "unat b div 16 < 16" "unat b mod 16 < 16" "of_nat (16 * (unat b div 16) + unat b mod 16) = b"
proof -
  have "unat b < 2 ^ LENGTH(8)" by (rule unsigned_less)
  then show "unat b div 16 < 16" by simp
qed simp_all

lemma hex_encode_no_dash: "dash \<notin> set (hex_encode bs)"
  by (induction bs) (auto simp: byte_nibbles hex_digit_not_dash hex_digit_not_dash [THEN not_sym])

lemma filter_hex_encode [simp]: "filter (\<lambda>c. c \<noteq> dash) (hex_encode bs) = hex_encode bs"
  using hex_encode_no_dash [of bs] by (auto simp: filter_id_conv)

lemma hex_decode_encode [simp]: "hex_decode (hex_encode bs) = Inr bs"
  by (induction bs) (simp_all add: hex_value_digit byte_nibbles)

lemma hex_decode_ok:
  "(\<exists>bs. hex_decode s = Inr bs) \<longleftrightarrow> even (length s) \<and> (\<forall>c \<in> set s. hex_value c \<noteq> None)"
  by (induction s rule: hex_decode.induct) (auto split: option.splits sum.splits)

lemma length_version4 [simp]: "length (version4 bs) = length bs"
  by (simp add: version4_def Let_def)

text \<open>The concatenation of the five groups, without dashes, is the encoding of all bytes.\<close>

lemma uuid_groups:
  assumes "length (v::byte list) = 16"
  shows "hex_encode (take 4 v) @ hex_encode (take 2 (drop 4 v)) @ hex_encode (take 2 (drop 6 v)) @
         hex_encode (take 2 (drop 8 v)) @ hex_encode (take 6 (drop 10 v)) = hex_encode v"
proof -
  have "take 4 v @ take 2 (drop 4 v) @ take 2 (drop 6 v) @ take 2 (drop 8 v) @ take 6 (drop 10 v) = v"
    using assms by (simp add: list_eq_iff_nth_eq nth_append)
  then show ?thesis by (metis hex_encode_append)
qed

lemma filter_newUUID:
  assumes "length bytes = 16" "newUUID (Inr bytes) = Inr s"
  shows "filter (\<lambda>c. c \<noteq> dash) s = hex_encode (version4 bytes)"
proof -
  have d: "CHR ''-'' = dash" by (simp add: dash_def)
  show ?thesis
    using assms(2) uuid_groups [of "version4 bytes"] assms(1)
    by (auto simp: newUUID_def Let_def d)
qed

lemma newUUID_dashes:
  assumes "length bytes = 16" "newUUID (Inr bytes) = Inr s"
  shows "length s = 36 \<and> s ! 8 = dash \<and> s ! 13 = dash \<and> s ! 18 = dash \<and> s ! 23 = dash"
  using assms by (auto simp: newUUID_def Let_def nth_append dash_def)

lemma version_nibble: "unat (((b::byte) AND 0x0f) OR 0x40) div 16 = 4"
proof -
  have "drop_bit 4 ((b AND 0x0f) OR 0x40) = 4"
    by (rule bit_word_eqI) (auto simp: bit_simps numeral_eq_Suc less_Suc_eq)
  then have "unat ((b AND 0x0f OR 0x40) div 16) = 4" by (simp add: drop_bit_eq_div)
  then show ?thesis by (simp add: unat_div)
qed

lemma variant_bits: "unat (((b::byte) AND 0x3f) OR 0x80) div 64 = 2"
proof -
  have "drop_bit 6 ((b AND 0x3f) OR 0x80) = 2"
    by (rule bit_word_eqI) (auto simp: bit_simps numeral_eq_Suc less_Suc_eq)
  then have "unat ((b AND 0x3f OR 0x80) div 64) = 2" by (simp add: drop_bit_eq_div)
  then show ?thesis by (simp add: unat_div)
qed

lemma variant_nibble: "hex_digit (unat (((b::byte) AND 0x3f) OR 0x80) div 16) \<in> set ''89ab''"
proof -
  have "unat ((b AND 0x3f) OR 0x80) div 16 \<in> {8, 9, 10, 11}"
    using variant_bits [of b] by auto
  then show ?thesis by (auto simp: hex_digit_def char_of_eq_iff)
qed

lemma newUUID_version:
  assumes "length bytes = 16" "newUUID (Inr bytes) = Inr s"
  shows "s ! 14 = CHR ''4'' \<and> s ! 19 \<in> set ''89ab''"
proof -
  obtain b0 b1 b2 b3 b4 b5 b6 b7 b8 b9 b10 b11 b12 b13 b14 b15 where
    b: "bytes = [b0, b1, b2, b3, b4, b5, b6, b7, b8, b9, b10, b11, b12, b13, b14, b15]"
    using assms(1) by (auto simp: numeral_eq_Suc length_Suc_conv)
  have "s ! 14 = hex_digit (unat ((b6 AND 0x0f) OR 0x40) div 16)"
    "s ! 19 = hex_digit (unat ((b8 AND 0x3f) OR 0x80) div 16)"
    using assms(2) by (auto simp: newUUID_def version4_def b)
  moreover have "hex_digit 4 = CHR ''4''" by (simp add: hex_digit_def char_of_eq_iff)
  ultimately show ?thesis by (simp only: version_nibble variant_nibble)
qed

lemma newUUID_valid:
  assumes "length bytes = 16" "newUUID (Inr bytes) = Inr s"
  shows "validateUUID s = None"
  using newUUID_dashes [OF assms] filter_newUUID [OF assms] by (simp add: validateUUID_def)

lemma validateUUID_None:
  "validateUUID s = None \<longleftrightarrow>
     length s = 36 \<and> s ! 8 = dash \<and> s ! 13 = dash \<and> s ! 18 = dash \<and> s ! 23 = dash \<and>
     (\<forall>c \<in> set s. c = dash \<or> hex_value c \<noteq> None) \<and>
     even (length (filter (\<lambda>c. c \<noteq> dash) s))"
proof -
  let ?digits = "filter (\<lambda>c. c \<noteq> dash) s"
  have "validateUUID s = None \<longleftrightarrow>
     length s = 36 \<and> s ! 8 = dash \<and> s ! 13 = dash \<and> s ! 18 = dash \<and> s ! 23 = dash \<and>
     (\<exists>bs. hex_decode ?digits = Inr bs)"
    by (cases "hex_decode ?digits") (auto simp: validateUUID_def)
  then show ?thesis unfolding hex_decode_ok by auto
qed

lemma validateUUID_chars:
  "validateUUID s = None \<Longrightarrow> c \<in> set s \<Longrightarrow> c = dash \<or> hex_value c \<noteq> None"
  by (simp add: validateUUID_None)

lemma validateUUID_length: "validateUUID s = None \<Longrightarrow> length s = 36"
  by (simp add: validateUUID_None)

lemma validateUUID_nonempty [simp]: "validateUUID [] \<noteq> None"
  by (simp add: validateUUID_None)

section \<open>Capabilities, quantities and values: lemmas\<close>

definition known_capability :: "capability \<Rightarrow> bool" where
  "known_capability c \<longleftrightarrow> capability_validate c = None"

lemma validate_capabilities_from_None:
  "validate_capabilities_from seen cs = None \<longleftrightarrow>
     list_all known_capability cs \<and> distinct cs \<and> set cs \<inter> seen = {}"
  by (induction seen cs rule: validate_capabilities_from.induct)
     (auto simp: known_capability_def split: option.splits)

lemma ValidateCapabilities_None:
  "ValidateCapabilities cs = None \<longleftrightarrow> cs \<noteq> [] \<and> list_all known_capability cs \<and> distinct cs"
  by (simp add: ValidateCapabilities_def validate_capabilities_from_None)

lemma SupportsAll_subset: "SupportsAll available required \<longleftrightarrow> set required \<subseteq> set available"
  by (auto simp: SupportsAll_def list_all_iff)

lemma SupportsAll_trans: "SupportsAll a b \<Longrightarrow> SupportsAll b c \<Longrightarrow> SupportsAll a c"
  by (auto simp: SupportsAll_subset)

lemma quantity_validate_finite: "quantity_validate q = None \<Longrightarrow> f64_finite (quantity_value q)"
  by (auto simp: quantity_validate_def f64_finite_def split: if_splits)

lemma quantity_validate_unit:
  "quantity_validate q = None \<Longrightarrow> canonical_unit (quantity_kind q) = Some (quantity_unit q)"
  by (auto simp: quantity_validate_def split: if_splits option.splits)

lemma value_validate_None:
  "value_validate v = None \<longleftrightarrow>
     (\<exists>q. v = NewQuantityValue q \<and> quantity_validate q = None) \<or>
     (\<exists>b. v = NewBooleanValue b) \<or> (\<exists>t. v = NewTextValue t)"
  by (cases v; cases "value_kind v")
     (auto simp: value_validate_def NewQuantityValue_def NewBooleanValue_def NewTextValue_def
        Let_def split: option.splits)

section \<open>Sample identifiers\<close>

text \<open>Sixteen distinct valid identifiers, for the concrete instances of the theorems.\<close>

definition sample_id :: "nat \<Rightarrow> ident" where
  "sample_id n = ''00000000-0000-4000-8000-00000000000'' @ [hex_digit (n mod 16)]"

lemma sample_id_valid [simp]: "validateUUID (sample_id n) = None"
proof -
  have "hex_value (hex_digit (n mod 16)) \<noteq> None" "hex_digit (n mod 16) \<noteq> dash"
    by (simp_all add: hex_value_digit hex_digit_not_dash)
  then show ?thesis
    by (simp add: validateUUID_None sample_id_def) (simp add: dash_def hex_value_def)
qed

lemma hex_digit_inj: "m < 16 \<Longrightarrow> n < 16 \<Longrightarrow> hex_digit m = hex_digit n \<longleftrightarrow> m = n"
  using hex_value_digit by (metis option.inject)

lemma sample_id_eq [simp]: "sample_id m = sample_id n \<longleftrightarrow> m mod 16 = n mod 16"
  by (simp add: sample_id_def hex_digit_inj)

lemma sample_id_nonempty [simp]: "sample_id n \<noteq> []"
  by (simp add: sample_id_def)

section \<open>Properties\<close>

text \<open>
  Identifiers: from 16 random bytes \<open>newUUID\<close> makes a text that \<open>validateUUID\<close> accepts, that
  has the version digit 4 and an RFC 4122 variant digit in their places, and that decodes back to
  the bytes with version and variant set.
\<close>

theorem newUUID_roundtrip:
  assumes "length bytes = 16"
  shows "\<exists>s. newUUID (Inr bytes) = Inr s \<and> validateUUID s = None \<and>
    hex_decode (filter (\<lambda>c. c \<noteq> dash) s) = Inr (version4 bytes) \<and>
    s ! 14 = CHR ''4'' \<and> s ! 19 \<in> set ''89ab''"
proof -
  obtain s where s: "newUUID (Inr bytes) = Inr s" by (simp add: newUUID_def Let_def)
  with newUUID_dashes [OF assms s] filter_newUUID [OF assms s] newUUID_version [OF assms s]
  show ?thesis by (simp add: validateUUID_def)
qed

theorem newUUID_roundtrip_witness:
  "\<exists>s. newUUID (Inr (replicate 16 0xff)) = Inr s \<and> validateUUID s = None \<and>
    hex_decode (filter (\<lambda>c. c \<noteq> dash) s) = Inr (version4 (replicate 16 0xff)) \<and>
    s ! 14 = CHR ''4'' \<and> s ! 19 \<in> set ''89ab''"
  using newUUID_roundtrip [of "replicate 16 0xff"] by simp

text \<open>
  The exact language of \<open>validateUUID\<close>: 36 characters, dashes at the four positions, and
  everything else hexadecimal digits of either case or further dashes, an even number of digits
  in all. So 36 dashes are accepted as an identifier.
\<close>

theorem validateUUID_language:
  "(validateUUID s = None \<longleftrightarrow>
      length s = 36 \<and> s ! 8 = dash \<and> s ! 13 = dash \<and> s ! 18 = dash \<and> s ! 23 = dash \<and>
      set s \<subseteq> insert dash {c. hex_value c \<noteq> None} \<and> even (length (filter (\<lambda>c. c \<noteq> dash) s))) \<and>
   validateUUID (replicate 36 dash) = None"
  by (auto simp: validateUUID_None)

text \<open>
  Canonical values: what \<open>Validate\<close> accepts is exactly what the three constructors build, for
  quantities with a finite number in the canonical unit of their kind, a pH between 0 and 14 and
  a level between 0 and 100 percent.
\<close>

theorem value_validate_exact:
  "value_validate v = None \<longleftrightarrow>
     (\<exists>k x u. v = NewQuantityValue \<lparr>quantity_kind = k, quantity_value = Finite x, quantity_unit = u\<rparr> \<and>
        canonical_unit k = Some u \<and>
        (if k = QuantityPH then 0 \<le> x \<and> x \<le> 14 else if k = QuantityLevel then 0 \<le> x \<and> x \<le> 100 else True)) \<or>
     (\<exists>b. v = NewBooleanValue b) \<or> (\<exists>t. v = NewTextValue t)"
proof -
  have "quantity_validate q = None \<longleftrightarrow>
     (\<exists>k x u. q = \<lparr>quantity_kind = k, quantity_value = Finite x, quantity_unit = u\<rparr> \<and> canonical_unit k = Some u \<and>
        (if k = QuantityPH then 0 \<le> x \<and> x \<le> 14 else if k = QuantityLevel then 0 \<le> x \<and> x \<le> 100 else True))" for q
    by (cases q; cases "quantity_value q"; cases "quantity_kind q") (auto simp: quantity_validate_def)
  then show ?thesis unfolding value_validate_None by metis
qed

end
