(* ===== verification/Events.thy ===== *)
theory Events
  imports Domain
begin

text \<open>
  The package \<open>internal/events\<close>: event codes and severities, the event envelope and its factory
  (\<open>event.go\<close>), and the bounded synchronous bus (\<open>bus.go\<close>).

  The bus names its subscriptions by number. What a subscription's handler does is the
  argument \<open>run\<close> of \<open>publish\<close>: it maps the bus and the rest of the program state to their
  values after the handler returned, with the handler's error. A handler may publish again,
  subscribe, unsubscribe or stop the bus.
\<close>

section \<open>Event codes and severities\<close>

datatype event_type =
    DeviceRegistered | DeviceUpdated | DeviceRemoved
  | SensorRegistered | SensorUpdated | SensorRemoved
  | EquipmentRegistered | EquipmentUpdated | EquipmentRemoved
  | StateChanged
  | AlarmRaised | AlarmAcknowledged | AlarmCleared | AlarmEscalated
  | CommandValidated | CommandRejected | CommandDispatched | CommandAcknowledged
  | CommandReconciled | CommandExpired
  | SafetyModeChanged | SafetyOverrideChanged | SafetyWatchdogTripped
  | ConfigurationChanged
  | EventOther string

fun event_type_string :: "event_type \<Rightarrow> string" where
  "event_type_string DeviceRegistered = ''device.registered''"
| "event_type_string DeviceUpdated = ''device.updated''"
| "event_type_string DeviceRemoved = ''device.removed''"
| "event_type_string SensorRegistered = ''sensor.registered''"
| "event_type_string SensorUpdated = ''sensor.updated''"
| "event_type_string SensorRemoved = ''sensor.removed''"
| "event_type_string EquipmentRegistered = ''equipment.registered''"
| "event_type_string EquipmentUpdated = ''equipment.updated''"
| "event_type_string EquipmentRemoved = ''equipment.removed''"
| "event_type_string StateChanged = ''state.changed''"
| "event_type_string AlarmRaised = ''alarm.raised''"
| "event_type_string AlarmAcknowledged = ''alarm.acknowledged''"
| "event_type_string AlarmCleared = ''alarm.cleared''"
| "event_type_string AlarmEscalated = ''alarm.escalated''"
| "event_type_string CommandValidated = ''command.validated''"
| "event_type_string CommandRejected = ''command.rejected''"
| "event_type_string CommandDispatched = ''command.dispatched''"
| "event_type_string CommandAcknowledged = ''command.acknowledged''"
| "event_type_string CommandReconciled = ''command.reconciled''"
| "event_type_string CommandExpired = ''command.expired''"
| "event_type_string SafetyModeChanged = ''safety.mode_changed''"
| "event_type_string SafetyOverrideChanged = ''safety.override_changed''"
| "event_type_string SafetyWatchdogTripped = ''safety.watchdog_tripped''"
| "event_type_string ConfigurationChanged = ''configuration.changed''"
| "event_type_string (EventOther s) = s"

datatype severity =
  SeverityDebug | SeverityInfo | SeverityWarning | SeverityCritical | SeverityOther string

fun severity_rank :: "severity \<Rightarrow> nat" where
  "severity_rank SeverityDebug = 1"
| "severity_rank SeverityInfo = 2"
| "severity_rank SeverityWarning = 3"
| "severity_rank SeverityCritical = 4"
| "severity_rank (SeverityOther _) = 0"

section \<open>Events and their factory\<close>

record 'v event =
  ev_timestamp :: gotime
  ev_source :: string
  ev_type :: event_type
  ev_severity :: severity
  ev_payload :: "'v raw_message"
  ev_correlation :: ident

definition event_validate :: "'v event \<Rightarrow> go_error option" where
  "event_validate e = first_error [
     guard (is_zero (ev_timestamp e) \<or> ev_source e = [] \<or> ev_type e = EventOther [])
       (ErrorString ''event timestamp, source, and type are required''),
     guard (severity_rank (ev_severity e) = 0) (ErrorString ''event severity is invalid''),
     wrap ''invalid correlation ID'' (validateUUID (ev_correlation e)),
     guard (\<not> json_valid (ev_payload e)) (ErrorString ''event payload must be valid JSON'')]"

text \<open>
  \<open>Factory.New\<close>. The clock reading and the outcome of the correlation-ID generator are the
  first two arguments; \<open>enc\<close> says which payloads have a JSON form.
\<close>

definition factory_new ::
  "gotime \<Rightarrow> go_error + ident \<Rightarrow> ('v \<Rightarrow> bool) \<Rightarrow> string \<Rightarrow> event_type \<Rightarrow> severity \<Rightarrow> 'v \<Rightarrow> ident \<Rightarrow> 'v event ret"
where
  "factory_new now new_correlation enc source etype sev payload correlation =
     (case json_marshal enc payload of
        Inl err \<Rightarrow> fail (Wrapped ''encode event payload'' err)
      | Inr encoded \<Rightarrow>
          (case (if correlation = [] then new_correlation else Inr correlation) of
             Inl err \<Rightarrow> fail (Wrapped ''create correlation ID'' err)
           | Inr cid \<Rightarrow>
               let event = \<lparr>ev_timestamp = now, ev_source = source, ev_type = etype,
                            ev_severity = sev, ev_payload = encoded, ev_correlation = cid\<rparr>
               in (Some event, event_validate event)))"

text \<open>
  What an operation of a component reads from outside: the state of its context
  (\<open>ctx.Err()\<close> and the correlation ID it carries), the clock, the outcomes of the two identifier
  generators, and the publisher (\<open>None\<close> for a nil publisher).
\<close>

record 'v env =
  ctx_err :: "go_error option"
  ctx_correlation :: ident
  env_now :: gotime
  env_new_id :: "go_error + ident"
  env_new_correlation :: "go_error + ident"
  env_publish :: "('v event \<Rightarrow> go_error option) option"

text \<open>An identifier the caller left empty is generated (\<open>domain.New...ID\<close>).\<close>

definition assign_id :: "'v env \<Rightarrow> ident \<Rightarrow> go_error + ident" where
  "assign_id env given = (if given = [] then env_new_id env else Inr given)"

text \<open>The \<open>emit\<close> method shared by the registries and managers: build the event, then publish it.\<close>

definition emit ::
  "'v env \<Rightarrow> ('v \<Rightarrow> bool) \<Rightarrow> string \<Rightarrow> event_type \<Rightarrow> severity \<Rightarrow> 'v \<Rightarrow> ident \<Rightarrow> go_error option"
where
  "emit env enc source etype sev payload correlation =
     (case env_publish env of
        None \<Rightarrow> None
      | Some pub \<Rightarrow>
          (case factory_new (env_now env) (env_new_correlation env) enc source etype sev payload correlation of
             (_, Some err) \<Rightarrow> Some err
           | (None, None) \<Rightarrow> None
           | (Some event, None) \<Rightarrow> pub event))"

section \<open>The bus\<close>

record subscription =
  sub_topic :: event_type
  sub_active :: bool

record bus =
  bus_handlers :: "event_type \<Rightarrow> nat list"
  bus_subs :: "nat \<rightharpoonup> subscription"
  bus_next :: nat
  bus_closed :: bool
  bus_capacity :: nat
  bus_slots :: nat

definition ErrClosed :: go_error where
  "ErrClosed = Sentinel ''events.ErrClosed''"

definition ErrBackpressure :: go_error where
  "ErrBackpressure = Sentinel ''events.ErrBackpressure''"

definition NewBus :: "int list \<Rightarrow> bus" where
  "NewBus capacities =
     (let capacity = (case capacities of [] \<Rightarrow> 64 | c # _ \<Rightarrow> c);
          capacity = (if capacity < 1 then 1 else capacity)
      in \<lparr>bus_handlers = (\<lambda>_. []), bus_subs = Map.empty, bus_next = 0, bus_closed = False,
          bus_capacity = nat capacity, bus_slots = 0\<rparr>)"

definition bus_start :: "bus \<Rightarrow> go_error option" where
  "bus_start b = guard (bus_closed b) ErrClosed"

definition bus_stop :: "bus \<Rightarrow> bus" where
  "bus_stop b = b\<lparr>bus_closed := True, bus_handlers := (\<lambda>_. [])\<rparr>"

text \<open>\<open>Subscribe\<close>; the second argument says whether a handler was given (it is not nil).\<close>

definition subscribe :: "bus \<Rightarrow> event_type \<Rightarrow> bool \<Rightarrow> bus \<times> nat ret" where
  "subscribe b topic handler =
     (if topic = EventOther [] \<or> \<not> handler
      then (b, fail (ErrorString ''event type and handler are required''))
      else if bus_closed b then (b, fail ErrClosed)
      else let n = bus_next b
           in (b\<lparr>bus_handlers := (bus_handlers b)(topic := bus_handlers b topic @ [n]),
                 bus_subs := (bus_subs b)(n \<mapsto> \<lparr>sub_topic = topic, sub_active = True\<rparr>),
                 bus_next := Suc n\<rparr>, ok n))"

definition unsubscribe :: "bus \<Rightarrow> nat \<Rightarrow> bus" where
  "unsubscribe b n =
     (case bus_subs b n of
        None \<Rightarrow> b
      | Some s \<Rightarrow> b\<lparr>bus_subs := (bus_subs b)(n \<mapsto> s\<lparr>sub_active := False\<rparr>)\<rparr>)"

definition sub_is_active :: "bus \<Rightarrow> nat \<Rightarrow> bool" where
  "sub_is_active b n = (case bus_subs b n of None \<Rightarrow> False | Some s \<Rightarrow> sub_active s)"

type_synonym ('v, 'w) handler_run = "nat \<Rightarrow> 'v event \<Rightarrow> bus \<times> 'w \<Rightarrow> (bus \<times> 'w) \<times> go_error option"

text \<open>The delivery loop of \<open>Publish\<close> over the copied handler list, with the failures so far.\<close>

fun deliver ::
  "('w \<Rightarrow> go_error option) \<Rightarrow> ('v, 'w) handler_run \<Rightarrow> 'v event \<Rightarrow> nat list \<Rightarrow> go_error list \<Rightarrow>
   bus \<times> 'w \<Rightarrow> (bus \<times> 'w) \<times> go_error option"
where
  "deliver ctxerr run event [] failures bw = (bw, errors_join (map Some failures))"
| "deliver ctxerr run event (s # ss) failures bw =
     (case ctxerr (snd bw) of
        Some err \<Rightarrow> (bw, errors_join (map Some (failures @ [err])))
      | None \<Rightarrow>
          if \<not> sub_is_active (fst bw) s then deliver ctxerr run event ss failures bw
          else (case run s event bw of
                  (bw', None) \<Rightarrow> deliver ctxerr run event ss failures bw'
                | (bw', Some err) \<Rightarrow>
                    deliver ctxerr run event ss (failures @ [Wrapped (''handler for '' @ event_type_string (ev_type event)) err]) bw'))"

definition publish ::
  "('w \<Rightarrow> go_error option) \<Rightarrow> ('v, 'w) handler_run \<Rightarrow> 'v event \<Rightarrow> bus \<times> 'w \<Rightarrow> (bus \<times> 'w) \<times> go_error option"
where
  "publish ctxerr run event bw =
     (let b = fst bw
      in if bus_closed b then (bw, Some ErrClosed)
         else case event_validate event of
           Some err \<Rightarrow> (bw, Some err)
         | None \<Rightarrow>
             if bus_capacity b \<le> bus_slots b then (bw, Some ErrBackpressure)
             else let (bw', err) = deliver ctxerr run event (bus_handlers b (ev_type event)) []
                                     (b\<lparr>bus_slots := Suc (bus_slots b)\<rparr>, snd bw)
                  in (((fst bw')\<lparr>bus_slots := bus_slots (fst bw') - 1\<rparr>, snd bw'), err))"

section \<open>Lemmas\<close>

definition bus_inv :: "bus \<Rightarrow> bool" where
  "bus_inv b \<longleftrightarrow>
     1 \<le> bus_capacity b \<and> bus_slots b \<le> bus_capacity b \<and>
     (\<forall>t n. n \<in> set (bus_handlers b t) \<longrightarrow> (\<exists>s. bus_subs b n = Some s \<and> sub_topic s = t)) \<and>
     (\<forall>t. distinct (bus_handlers b t)) \<and> (\<forall>n. bus_subs b n \<noteq> None \<longrightarrow> n < bus_next b)"

lemma bus_inv_NewBus: "bus_inv (NewBus cs)"
  by (auto simp: bus_inv_def NewBus_def Let_def split: list.splits)

lemma bus_inv_subscribe: "bus_inv b \<Longrightarrow> bus_inv (fst (subscribe b t h))"
  by (fastforce simp: bus_inv_def subscribe_def Let_def)

lemma bus_inv_unsubscribe: "bus_inv b \<Longrightarrow> bus_inv (unsubscribe b n)"
  by (fastforce simp: bus_inv_def unsubscribe_def split: option.splits)

lemma bus_inv_stop: "bus_inv b \<Longrightarrow> bus_inv (bus_stop b)"
  by (auto simp: bus_inv_def bus_stop_def)

lemma bus_inv_release: "bus_inv b \<Longrightarrow> bus_inv (b\<lparr>bus_slots := bus_slots b - Suc 0\<rparr>)"
  by (auto simp: bus_inv_def)

text \<open>
  The contract of handlers: they return every delivery slot they took and keep the bus
  well-formed. \<open>publish\<close> keeps the same contract, so a handler may publish.
\<close>

locale event_handlers =
  fixes run :: "('v, 'w) handler_run"
  assumes run_slots: "bus_slots (fst (fst (run n e bw))) = bus_slots (fst bw)"
    and run_inv: "bus_inv (fst bw) \<Longrightarrow> bus_inv (fst (fst (run n e bw)))"
begin

lemma deliver_slots: "bus_slots (fst (fst (deliver ctxerr run e ss fs bw))) = bus_slots (fst bw)"
proof (induction ss arbitrary: fs bw)
  case (Cons s ss)
  show ?case
    using run_slots [of s e bw] by (auto simp: Cons.IH split: option.splits prod.splits)
qed simp

lemma deliver_inv: "bus_inv (fst bw) \<Longrightarrow> bus_inv (fst (fst (deliver ctxerr run e ss fs bw)))"
proof (induction ss arbitrary: fs bw)
  case (Cons s ss)
  show ?case
    using Cons.prems run_inv [of bw s e] by (auto intro: Cons.IH split: option.splits prod.splits)
qed simp

lemma publish_slots: "bus_slots (fst (fst (publish ctxerr run e bw))) = bus_slots (fst bw)"
proof -
  let ?taken = "((fst bw)\<lparr>bus_slots := Suc (bus_slots (fst bw))\<rparr>, snd bw)"
  obtain bw' err where d: "deliver ctxerr run e (bus_handlers (fst bw) (ev_type e)) [] ?taken = (bw', err)"
    by fastforce
  then have "bus_slots (fst bw') = Suc (bus_slots (fst bw))"
    using deliver_slots [of ctxerr e "bus_handlers (fst bw) (ev_type e)" "[]" ?taken] by simp
  with d show ?thesis by (simp add: publish_def Let_def split: option.splits)
qed

lemma publish_inv:
  assumes inv: "bus_inv (fst bw)"
  shows "bus_inv (fst (fst (publish ctxerr run e bw)))"
proof -
  let ?taken = "((fst bw)\<lparr>bus_slots := Suc (bus_slots (fst bw))\<rparr>, snd bw)"
  obtain bw' err where d: "deliver ctxerr run e (bus_handlers (fst bw) (ev_type e)) [] ?taken = (bw', err)"
    by fastforce
  have "\<not> bus_capacity (fst bw) \<le> bus_slots (fst bw) \<Longrightarrow> bus_inv (fst ?taken)"
    using inv by (simp add: bus_inv_def)
  then have "\<not> bus_capacity (fst bw) \<le> bus_slots (fst bw) \<Longrightarrow> bus_inv (fst bw')"
    using deliver_inv [of ?taken ctxerr e "bus_handlers (fst bw) (ev_type e)" "[]"] d by simp
  then show ?thesis
    using inv d by (simp add: publish_def Let_def bus_inv_release split: option.splits)
qed

end

section \<open>Delivery\<close>

text \<open>The specification of a delivery: the handlers in order, each once, and the errors they return.\<close>

fun run_all :: "('v, 'w) handler_run \<Rightarrow> 'v event \<Rightarrow> bus \<Rightarrow> nat list \<Rightarrow> 'w \<Rightarrow> 'w \<times> go_error list" where
  "run_all run e b [] w = (w, [])"
| "run_all run e b (n # ns) w =
     (let (bw, err) = run n e (b, w); (w', errs) = run_all run e b ns (snd bw)
      in (w', (case err of None \<Rightarrow> errs
                 | Some x \<Rightarrow> Wrapped (''handler for '' @ event_type_string (ev_type e)) x # errs)))"

lemma deliver_run_all:
  assumes "\<And>n bw. fst (fst (run n e bw)) = fst bw" "\<And>w. ctxerr w = None"
  shows "deliver ctxerr run e ns fs (b, w) =
    ((b, fst (run_all run e b (filter (sub_is_active b) ns) w)),
     errors_join (map Some (fs @ snd (run_all run e b (filter (sub_is_active b) ns) w))))"
proof (induction ns arbitrary: fs w)
  case (Cons n ns)
  obtain w' err where r: "run n e (b, w) = ((b, w'), err)"
    using assms(1) [of n "(b, w)"] by (metis fst_conv prod.exhaust)
  show ?case
    using Cons.IH [of _ w'] Cons.IH [of _ w] r assms(2)
    by (cases err) (simp_all add: Let_def case_prod_beta)
qed (simp add: assms)

text \<open>
  \<open>Publish\<close> on an open bus with a free slot: every active handler of the event's type runs
  exactly once, in the order of registration, whether or not others fail; the errors are joined
  in that order, and the bus is left as it was, with the slot returned.
\<close>

theorem publish_delivers:
  assumes "\<not> bus_closed b" "event_validate e = None" "bus_slots b < bus_capacity b"
    and "\<And>n bw. fst (fst (run n e bw)) = fst bw" "\<And>w. ctxerr w = None"
  shows "publish ctxerr run e (b, w) =
    (let (w', errs) = run_all run e (b\<lparr>bus_slots := Suc (bus_slots b)\<rparr>)
                        (filter (sub_is_active b) (bus_handlers b (ev_type e))) w
     in ((b, w'), errors_join (map Some errs)))"
proof -
  let ?b = "b\<lparr>bus_slots := Suc (bus_slots b)\<rparr>"
  have "sub_is_active ?b = sub_is_active b" by (simp add: sub_is_active_def fun_eq_iff)
  then show ?thesis
    using assms(1-3) deliver_run_all [of run e ctxerr, OF assms(4,5)]
    by (simp add: publish_def Let_def case_prod_beta)
qed

definition sample_event :: "unit event" where
  "sample_event =
     \<lparr>ev_timestamp = 1, ev_source = ''state'', ev_type = StateChanged, ev_severity = SeverityInfo,
      ev_payload = RawJSON (), ev_correlation = sample_id 1\<rparr>"

definition sample_bus :: bus where
  "sample_bus = unsubscribe (fst (subscribe (fst (subscribe (fst (subscribe (NewBus [])
     StateChanged True)) StateChanged True)) StateChanged True)) 1"

theorem publish_delivers_witness:
  "publish (\<lambda>_. None) (\<lambda>n e (b, ns). ((b, ns @ [n]), guard (n = 2) (ErrorString ''full''))) sample_event (sample_bus, []) =
     ((sample_bus, [0, 2]), Some (Joined [Wrapped ''handler for state.changed'' (ErrorString ''full'')]))"
proof -
  have b: "\<not> bus_closed sample_bus" "bus_slots sample_bus < bus_capacity sample_bus"
    "event_validate sample_event = None"
    by (simp_all add: sample_bus_def sample_event_def event_validate_def NewBus_def subscribe_def unsubscribe_def Let_def)
  show ?thesis
    using publish_delivers [OF b(1,3,2),
        of "\<lambda>n e (b, ns). ((b, ns @ [n]), guard (n = 2) (ErrorString ''full''))" "\<lambda>_. None" "[]"]
    by (simp add: case_prod_beta sample_bus_def sample_event_def NewBus_def subscribe_def unsubscribe_def
        sub_is_active_def Let_def guard_def errors_join_def List.map_filter_simps)
qed

text \<open>A context without error and an environment without publisher, for concrete runs.\<close>

definition sample_env :: "'v env" where
  "sample_env =
     \<lparr>ctx_err = None, ctx_correlation = sample_id 1, env_now = 86400000000000 * 738000,
      env_new_id = Inr (sample_id 2), env_new_correlation = Inr (sample_id 3), env_publish = None\<rparr>"

lemma sample_env_fields [simp]:
  "ctx_err sample_env = None" "ctx_correlation sample_env = sample_id 1"
  "env_now sample_env = 86400000000000 * 738000" "env_new_id sample_env = Inr (sample_id 2)"
  "env_new_correlation sample_env = Inr (sample_id 3)" "env_publish sample_env = None"
  by (simp_all add: sample_env_def)

end
