(* ===== verification/Health.thy ===== *)
theory Health
  imports Events
begin

text \<open>
  The package \<open>internal/health\<close>: component status and the aggregate report; the interface
  \<open>health.Component\<close> as a locale; and \<open>internal/subsystem/passive.go\<close>, the smallest component.
\<close>

section \<open>Status\<close>

datatype health_state = StateHealthy | StateDegraded | StateUnhealthy | StateOther string

record status =
  status_name :: string
  status_state :: health_state
  status_healthy :: bool
  status_message :: string
  status_checked :: gotime

definition NewStatus :: "string \<Rightarrow> health_state \<Rightarrow> string \<Rightarrow> gotime \<Rightarrow> status" where
  "NewStatus name state message checked =
     \<lparr>status_name = name, status_state = state, status_healthy = (state = StateHealthy),
      status_message = message, status_checked = checked\<rparr>"

definition normalize :: "status \<Rightarrow> status" where
  "normalize s =
     (let s = (if status_state s = StateOther []
               then s\<lparr>status_state := (if status_healthy s then StateHealthy else StateUnhealthy)\<rparr>
               else s)
      in s\<lparr>status_healthy := (status_state s = StateHealthy)\<rparr>)"

text \<open>The \<open>Health\<close> method of the components that only record whether they were started.\<close>

definition started_status :: "string \<Rightarrow> bool \<Rightarrow> gotime \<Rightarrow> status" where
  "started_status name started now =
     NewStatus name (if started then StateHealthy else StateUnhealthy) [] now"

section \<open>The health manager\<close>

record 'c registration =
  reg_component :: 'c
  reg_required :: bool

record 'c health_manager =
  hm_components :: "'c registration list"
  hm_started :: bool

record report =
  report_live :: bool
  report_ready :: bool
  report_state :: health_state
  report_components :: "status list"

definition NewHealthManager :: "'c health_manager" where
  "NewHealthManager = \<lparr>hm_components = [], hm_started = False\<rparr>"

definition RegisterComponent :: "'c health_manager \<Rightarrow> 'c \<Rightarrow> bool \<Rightarrow> 'c health_manager" where
  "RegisterComponent m component required =
     m\<lparr>hm_components := hm_components m @ [\<lparr>reg_component = component, reg_required = required\<rparr>]\<rparr>"

definition hm_register :: "'c health_manager \<Rightarrow> 'c list \<Rightarrow> 'c health_manager" where
  "hm_register m components = foldl (\<lambda>m c. RegisterComponent m c True) m components"

definition hm_start :: "'c health_manager \<Rightarrow> 'c health_manager" where
  "hm_start m = m\<lparr>hm_started := True\<rparr>"

definition hm_stop :: "'c health_manager \<Rightarrow> 'c health_manager" where
  "hm_stop m = m\<lparr>hm_started := False\<rparr>"

definition hm_health :: "gotime \<Rightarrow> 'c health_manager \<Rightarrow> status" where
  "hm_health now m = started_status ''health'' (hm_started m) now"

text \<open>The loop of \<open>Report\<close>: statuses, aggregate state and readiness so far.\<close>

fun report_loop ::
  "('c \<Rightarrow> status) \<Rightarrow> 'c registration list \<Rightarrow> status list \<Rightarrow> health_state \<Rightarrow> bool \<Rightarrow>
   status list \<times> health_state \<times> bool"
where
  "report_loop health [] statuses state ready = (statuses, state, ready)"
| "report_loop health (r # rs) statuses state ready =
     (let status = normalize (health (reg_component r));
          statuses = statuses @ [status]
      in if status_state status \<noteq> StateHealthy
         then if reg_required r then report_loop health rs statuses StateUnhealthy False
              else if state = StateHealthy then report_loop health rs statuses StateDegraded ready
              else report_loop health rs statuses state ready
         else report_loop health rs statuses state ready)"

definition Report :: "gotime \<Rightarrow> ('c \<Rightarrow> status) \<Rightarrow> 'c health_manager \<Rightarrow> report" where
  "Report now health m =
     (let (statuses, state, ready) =
            report_loop health (hm_components m) [hm_health now m] StateHealthy (hm_started m)
      in \<lparr>report_live = True, report_ready = ready,
          report_state = (if \<not> hm_started m then StateUnhealthy else state),
          report_components = statuses\<rparr>)"

section \<open>Components\<close>

text \<open>
  \<open>health.Component\<close>: what a long-running subsystem promises its lifecycle owner. A component
  that started reports itself healthy, one that stopped does not, and both reports carry its name.
\<close>

locale component =
  fixes name :: "'s \<Rightarrow> string"
    and start :: "'s \<Rightarrow> 's"
    and stop :: "'s \<Rightarrow> 's"
    and health :: "gotime \<Rightarrow> 's \<Rightarrow> status"
  assumes health_name: "status_name (health now s) = name s"
    and name_start: "name (start s) = name s"
    and name_stop: "name (stop s) = name s"
    and health_consistent: "status_healthy (health now s) \<longleftrightarrow> status_state (health now s) = StateHealthy"
    and start_healthy: "status_state (health now (start s)) = StateHealthy"
    and stop_unhealthy: "status_state (health now (stop s)) = StateUnhealthy"
begin

lemma restart_healthy:
  "status_healthy (health now (start (stop s))) \<and> status_name (health now (start (stop s))) = name s"
  by (simp add: health_consistent start_healthy health_name name_start name_stop)

lemma normalize_health: "normalize (health now (start s)) = health now (start s)"
  using start_healthy [of now s] health_consistent [of now "start s"]
  by (simp add: normalize_def Let_def)

end

record passive_component =
  passive_name :: string
  passive_started :: bool

definition NewPassive :: "string \<Rightarrow> passive_component" where
  "NewPassive name = \<lparr>passive_name = name, passive_started = False\<rparr>"

definition passive_start :: "passive_component \<Rightarrow> passive_component" where
  "passive_start p = p\<lparr>passive_started := True\<rparr>"

definition passive_stop :: "passive_component \<Rightarrow> passive_component" where
  "passive_stop p = p\<lparr>passive_started := False\<rparr>"

definition passive_health :: "gotime \<Rightarrow> passive_component \<Rightarrow> status" where
  "passive_health now p = started_status (passive_name p) (passive_started p) now"

lemma started_status_simps [simp]:
  "status_name (started_status n b now) = n"
  "status_state (started_status n b now) = (if b then StateHealthy else StateUnhealthy)"
  "status_healthy (started_status n b now) = b"
  by (auto simp: started_status_def NewStatus_def)

interpretation hm: component "\<lambda>_. ''health''" hm_start hm_stop hm_health
  by unfold_locales (auto simp: hm_health_def hm_start_def hm_stop_def)

interpretation passive_subsystem: component passive_name passive_start passive_stop passive_health
  by unfold_locales (auto simp: passive_health_def passive_start_def passive_stop_def)

section \<open>Lemmas on the report\<close>

abbreviation component_healthy :: "('c \<Rightarrow> status) \<Rightarrow> 'c registration \<Rightarrow> bool" where
  "component_healthy health r \<equiv> status_state (normalize (health (reg_component r))) = StateHealthy"

lemma report_loop_ready:
  "snd (snd (report_loop health rs ss st ready)) \<longleftrightarrow>
     ready \<and> (\<forall>r \<in> set rs. reg_required r \<longrightarrow> component_healthy health r)"
  by (induction health rs ss st ready rule: report_loop.induct) (auto simp: Let_def)

lemma report_loop_statuses:
  "fst (report_loop health rs ss st ready) = ss @ map (\<lambda>r. normalize (health (reg_component r))) rs"
  by (induction health rs ss st ready rule: report_loop.induct) (auto simp: Let_def)

definition aggregate :: "('c \<Rightarrow> status) \<Rightarrow> 'c registration list \<Rightarrow> health_state" where
  "aggregate health rs =
     (if \<exists>r \<in> set rs. reg_required r \<and> \<not> component_healthy health r then StateUnhealthy
      else if \<exists>r \<in> set rs. \<not> component_healthy health r then StateDegraded
      else StateHealthy)"

lemma report_loop_unhealthy:
  "fst (snd (report_loop health rs ss StateUnhealthy ready)) = StateUnhealthy"
  by (induction rs arbitrary: ss ready) (auto simp: Let_def)

lemma report_loop_degraded:
  "fst (snd (report_loop health rs ss StateDegraded ready)) =
     (if \<exists>r \<in> set rs. reg_required r \<and> \<not> component_healthy health r then StateUnhealthy
      else StateDegraded)"
  by (induction rs arbitrary: ss ready) (auto simp: Let_def report_loop_unhealthy)

lemma report_loop_state:
  "fst (snd (report_loop health rs ss StateHealthy ready)) = aggregate health rs"
  by (induction rs arbitrary: ss ready)
     (auto simp: Let_def aggregate_def report_loop_unhealthy report_loop_degraded)

section \<open>Properties\<close>

text \<open>
  The report: the system is ready exactly when the manager is started and every required
  component is healthy; it is unhealthy when the manager is stopped or a required component is
  not healthy, degraded when only optional ones are not, and healthy otherwise. The manager's own
  status comes first, then one status per component in the order of registration.
\<close>

theorem Report_exact:
  "Report now health m =
     \<lparr>report_live = True,
      report_ready = (hm_started m \<and> list_all (component_healthy health) (filter reg_required (hm_components m))),
      report_state = (if hm_started m then aggregate health (hm_components m) else StateUnhealthy),
      report_components = hm_health now m # map (\<lambda>r. normalize (health (reg_component r))) (hm_components m)\<rparr>"
proof -
  let ?l = "report_loop health (hm_components m) [hm_health now m] StateHealthy (hm_started m)"
  have "snd (snd ?l) \<longleftrightarrow> hm_started m \<and> list_all (component_healthy health) (filter reg_required (hm_components m))"
    by (auto simp: report_loop_ready list_all_iff)
  moreover have "fst (snd ?l) = aggregate health (hm_components m)" by (rule report_loop_state)
  moreover have "fst ?l = hm_health now m # map (\<lambda>r. normalize (health (reg_component r))) (hm_components m)"
    by (simp add: report_loop_statuses)
  ultimately show ?thesis by (auto simp: Report_def case_prod_beta report_loop_state)
qed

end
