(* ===== verification/Lifecycle.thy ===== *)
theory Lifecycle
  imports Health
begin

text \<open>
  The package \<open>internal/lifecycle\<close>: ordered startup with rollback and reverse-order shutdown
  (\<open>manager.go\<close>), and the wrapper for optional components (\<open>optional.go\<close>).

  A component is named by a value of \<open>'c\<close>. What its \<open>Start\<close> and \<open>Stop\<close> do is given by
  arguments: \<open>await c w\<close> is the branch of the startup \<open>select\<close> that fires for \<open>c\<close> in the
  program state \<open>w\<close> (the component returned, the caller's context ended, or one of the two
  deadlines passed, each with what \<open>Start\<close> returned in the end); \<open>stop c w\<close> is the component's
  \<open>Stop\<close>. The log records the calls in the order in which the manager makes them.
\<close>

datatype start_outcome =
    Returned "go_error option"
  | ContextDone go_error "go_error option"
  | StartupDeadline "go_error option"
  | ComponentDeadline "go_error option"

datatype 'c action = ActStart 'c | ActCancel 'c | ActStop 'c

definition DeadlineExceeded :: go_error where
  "DeadlineExceeded = Sentinel ''context.DeadlineExceeded''"

record 'c lifecycle =
  lc_components :: "'c list"
  lc_started :: "'c list"

definition NewLifecycle :: "'c list \<Rightarrow> 'c lifecycle" where
  "NewLifecycle components = \<lparr>lc_components = components, lc_started = []\<rparr>"

fun start_error :: "start_outcome \<Rightarrow> go_error option" where
  "start_error (Returned r) = r"
| "start_error (ContextDone e r) = errors_join [Some e, r]"
| "start_error (StartupDeadline r) = errors_join [Some DeadlineExceeded, r]"
| "start_error (ComponentDeadline r) = errors_join [Some DeadlineExceeded, r]"

text \<open>
  The calls for one component: \<open>Start\<close>, then a cancellation where the outcome is an error
  (a deadline or the context cancels the component before its result is awaited, and the error
  path cancels it again).
\<close>

fun start_actions :: "'c \<Rightarrow> start_outcome \<Rightarrow> 'c action list" where
  "start_actions c (Returned None) = [ActStart c]"
| "start_actions c (Returned (Some _)) = [ActStart c, ActCancel c]"
| "start_actions c _ = [ActStart c, ActCancel c, ActCancel c]"

text \<open>\<open>stopLocked\<close>, over the started components already reversed.\<close>

fun stop_loop ::
  "('c \<Rightarrow> string) \<Rightarrow> ('c \<Rightarrow> 'w \<Rightarrow> 'w \<times> go_error option) \<Rightarrow> 'c list \<Rightarrow> 'w \<Rightarrow>
   'w \<times> 'c action list \<times> go_error option list"
where
  "stop_loop name stop [] w = (w, [], [])"
| "stop_loop name stop (c # cs) w =
     (let (w', err) = stop c w;
          (w'', acts, errs) = stop_loop name stop cs w'
      in (w'', ActCancel c # ActStop c # acts, wrap (''stop '' @ name c) err # errs))"

definition stopLocked ::
  "('c \<Rightarrow> string) \<Rightarrow> ('c \<Rightarrow> 'w \<Rightarrow> 'w \<times> go_error option) \<Rightarrow> 'c lifecycle \<Rightarrow> 'w \<Rightarrow>
   'c lifecycle \<times> 'w \<times> 'c action list \<times> go_error option"
where
  "stopLocked name stop m w =
     (let (w', acts, errs) = stop_loop name stop (rev (lc_started m)) w
      in (m\<lparr>lc_started := []\<rparr>, w', acts, errors_join errs))"

fun start_loop ::
  "('c \<Rightarrow> string) \<Rightarrow> ('c \<Rightarrow> 'w \<Rightarrow> 'w \<times> start_outcome) \<Rightarrow> ('c \<Rightarrow> 'w \<Rightarrow> 'w \<times> go_error option) \<Rightarrow>
   'c list \<Rightarrow> 'c lifecycle \<Rightarrow> 'w \<Rightarrow> 'c lifecycle \<times> 'w \<times> 'c action list \<times> go_error option"
where
  "start_loop name await stop [] m w = (m, w, [], None)"
| "start_loop name await stop (c # cs) m w =
     (let (w', outcome) = await c w
      in case start_error outcome of
           Some err \<Rightarrow>
             (let (m', w'', acts, rollback) = stopLocked name stop m w'
              in (m', w'', start_actions c outcome @ acts,
                  errors_join [Some (Wrapped (''start '' @ name c) err), rollback]))
         | None \<Rightarrow>
             (let (m', w'', acts, err) =
                    start_loop name await stop cs (m\<lparr>lc_started := lc_started m @ [c]\<rparr>) w'
              in (m', w'', start_actions c outcome @ acts, err)))"

definition lc_start ::
  "('c \<Rightarrow> string) \<Rightarrow> ('c \<Rightarrow> 'w \<Rightarrow> 'w \<times> start_outcome) \<Rightarrow> ('c \<Rightarrow> 'w \<Rightarrow> 'w \<times> go_error option) \<Rightarrow>
   'c lifecycle \<Rightarrow> 'w \<Rightarrow> 'c lifecycle \<times> 'w \<times> 'c action list \<times> go_error option"
where
  "lc_start name await stop m w =
     (if length (lc_started m) \<noteq> 0 then (m, w, [], Some (ErrorString ''lifecycle already started''))
      else start_loop name await stop (lc_components m) m w)"

definition lc_stop ::
  "('c \<Rightarrow> string) \<Rightarrow> ('c \<Rightarrow> 'w \<Rightarrow> 'w \<times> go_error option) \<Rightarrow> 'c lifecycle \<Rightarrow> 'w \<Rightarrow>
   'c lifecycle \<times> 'w \<times> 'c action list \<times> go_error option"
where
  "lc_stop name stop m w = stopLocked name stop m w"

section \<open>Optional components\<close>

record 's optional_component =
  opt_component :: 's
  opt_started :: bool

definition NewOptional :: "'s \<Rightarrow> 's optional_component" where
  "NewOptional c = \<lparr>opt_component = c, opt_started = False\<rparr>"

definition optional_start ::
  "('s \<Rightarrow> 's \<times> go_error option) \<Rightarrow> 's optional_component \<Rightarrow> 's optional_component \<times> go_error option"
where
  "optional_start start o1 =
     (let (s, err) = start (opt_component o1)
      in (o1\<lparr>opt_component := s, opt_started := (err = None)\<rparr>, None))"

definition optional_stop ::
  "('s \<Rightarrow> 's \<times> go_error option) \<Rightarrow> 's optional_component \<Rightarrow> 's optional_component \<times> go_error option"
where
  "optional_stop stop o1 =
     (if \<not> opt_started o1 then (o1\<lparr>opt_started := False\<rparr>, None)
      else let (s, err) = stop (opt_component o1)
           in (o1\<lparr>opt_component := s, opt_started := False\<rparr>, err))"

definition optional_health :: "(gotime \<Rightarrow> 's \<Rightarrow> status) \<Rightarrow> gotime \<Rightarrow> 's optional_component \<Rightarrow> status" where
  "optional_health health now o1 = health now (opt_component o1)"

section \<open>Lemmas\<close>

abbreviation stop_actions :: "'c list \<Rightarrow> 'c action list" where
  "stop_actions cs \<equiv> concat (map (\<lambda>c. [ActCancel c, ActStop c]) cs)"

lemma stop_loop_log: "fst (snd (stop_loop name stop cs w)) = stop_actions cs"
proof (induction cs arbitrary: w)
  case (Cons c cs)
  obtain w1 err where "stop c w = (w1, err)" by fastforce
  then show ?case using Cons.IH [of w1] by (auto simp: Let_def split: prod.splits)
qed simp

lemma stopLocked_simps:
  "fst (stopLocked name stop m w) = m\<lparr>lc_started := []\<rparr>"
  "fst (snd (snd (stopLocked name stop m w))) = stop_actions (rev (lc_started m))"
  using stop_loop_log [of name stop "rev (lc_started m)" w]
  by (auto simp: stopLocked_def Let_def split: prod.splits)

lemma errors_join_Some [simp]:
  "errors_join (Some e # es) = Some (Joined (e # List.map_filter id es))"
  by (simp add: errors_join_def List.map_filter_simps)

lemma start_error_None: "start_error oc = None \<longleftrightarrow> oc = Returned None"
  by (cases oc) auto

text \<open>
  The run of the startup loop: either every component started, in order, or a first one failed
  and everything started before is stopped in reverse.
\<close>

lemma start_loop_run:
  assumes "start_loop name await stop cs m w = (m', w', acts, err)"
  shows "(err = None \<and> lc_started m' = lc_started m @ cs \<and> acts = map ActStart cs) \<or>
    (\<exists>ds c es oc. cs = ds @ c # es \<and> err \<noteq> None \<and> lc_started m' = [] \<and> start_error oc \<noteq> None \<and>
       acts = map ActStart ds @ start_actions c oc @ stop_actions (rev (lc_started m @ ds)))"
  using assms
proof (induction cs arbitrary: m w m' w' acts err)
  case Nil
  then show ?case by simp
next
  case (Cons c cs)
  obtain w1 oc where aw: "await c w = (w1, oc)" by fastforce
  show ?case
  proof (cases "start_error oc")
    case None
    then have oc: "oc = Returned None" by (simp add: start_error_None)
    obtain acts' where rest: "start_loop name await stop cs (m\<lparr>lc_started := lc_started m @ [c]\<rparr>) w1
        = (m', w', acts', err)" and acts: "acts = ActStart c # acts'"
      using Cons.prems aw oc by (auto split: prod.splits)
    from Cons.IH [OF rest] show ?thesis
    proof (elim disjE exE conjE)
      assume "err = None" "lc_started m' = lc_started (m\<lparr>lc_started := lc_started m @ [c]\<rparr>) @ cs"
        "acts' = map ActStart cs"
      with acts show ?thesis by simp
    next
      fix ds d es oc'
      assume "cs = ds @ d # es" "err \<noteq> None" "lc_started m' = []" "start_error oc' \<noteq> None"
        "acts' = map ActStart ds @ start_actions d oc' @
           stop_actions (rev (lc_started (m\<lparr>lc_started := lc_started m @ [c]\<rparr>) @ ds))"
      with acts show ?thesis
        by (intro disjI2 exI [of _ "c # ds"] exI [of _ d] exI [of _ es] exI [of _ oc']) simp
    qed
  next
    case (Some e)
    then have "lc_started m' = [] \<and> err \<noteq> None \<and>
        acts = start_actions c oc @ stop_actions (rev (lc_started m))"
      using Cons.prems aw stopLocked_simps [of name stop m w1]
      by (auto simp: Let_def split: prod.splits)
    with Some show ?thesis
      by (intro disjI2 exI [of _ "[]"] exI [of _ c] exI [of _ cs] exI [of _ oc]) simp
  qed
qed

section \<open>Properties\<close>



end
