(* ===== verification/Registry.thy ===== *)
theory Registry
  imports Health
begin

text \<open>
  The two interfaces shared by the registries of \<open>internal/devices\<close>, \<open>internal/sensors\<close> and
  \<open>internal/equipment\<close>, as locales: a keyed in-memory registry, and the endpoint lookup through
  which sensors and equipment find the owner of an adapter endpoint. The three registries
  interpret the first, the device registry the second.
\<close>

section \<open>Keyed registries\<close>

text \<open>
  \<open>entries\<close> is the map the registry keeps under its lock. An operation either leaves the
  registry alone and reports an error, or changes exactly one entry; it may then still report
  the error of publishing the change. \<open>ord\<close> is the order in which a map is ranged over.
\<close>

locale keyed_registry =
  fixes entries :: "'r \<Rightarrow> ident \<rightharpoonup> 'a"
    and key :: "'a \<Rightarrow> ident"
    and inv :: "'r \<Rightarrow> bool"
    and not_found :: go_error
    and get :: "'p env \<Rightarrow> 'r \<Rightarrow> ident \<Rightarrow> 'a ret"
    and list_all_entries :: "'p env \<Rightarrow> ident list \<Rightarrow> 'r \<Rightarrow> 'a list ret"
    and register :: "'p env \<Rightarrow> 'r \<Rightarrow> 'a \<Rightarrow> 'r \<times> 'a ret"
    and update :: "'p env \<Rightarrow> ident list \<Rightarrow> 'r \<Rightarrow> 'a \<Rightarrow> 'r \<times> go_error option"
    and remove :: "'p env \<Rightarrow> ident list \<Rightarrow> 'r \<Rightarrow> ident \<Rightarrow> 'r \<times> go_error option"
  assumes get_entries: "ctx_err env = None \<Longrightarrow>
      get env r i = (case entries r i of None \<Rightarrow> fail not_found | Some v \<Rightarrow> ok v)"
    and list_entries: "ctx_err env = None \<Longrightarrow>
      list_all_entries env ord r = ok (sort_key key (go_range (entries r) ord))"
    and keyed: "inv r \<Longrightarrow> entries r i = Some v \<Longrightarrow> key v = i"
    and register_effect: "register env r v = (r', res) \<Longrightarrow>
      (r' = r \<and> (\<exists>e. res = fail e)) \<or>
      (\<exists>v' e. res = (Some v', e) \<and> entries r (key v') = None \<and> entries r' = (entries r)(key v' \<mapsto> v'))"
    and update_effect: "update env ord r v = (r', e) \<Longrightarrow>
      (r' = r \<and> e \<noteq> None) \<or>
      (entries r (key v) \<noteq> None \<and> entries r' = (entries r)(key v \<mapsto> v))"
    and remove_effect: "remove env ord r i = (r', e) \<Longrightarrow>
      (r' = r \<and> e \<noteq> None) \<or> (entries r i \<noteq> None \<and> entries r' = (entries r)(i := None))"
begin

lemma register_get:
  assumes "register env r v = (r', (Some v', e))" "ctx_err env' = None"
  shows "get env' r' (key v') = ok v'"
  using register_effect [OF assms(1)] assms(2) by (auto simp: get_entries fail_def)

lemma register_never_overwrites:
  assumes "register env r v = (r', res)" "entries r i = Some w"
  shows "entries r' i = Some w"
  using register_effect [OF assms(1)] assms(2) by auto

lemma update_get:
  assumes "update env ord r v = (r', None)" "ctx_err env' = None"
  shows "get env' r' (key v) = ok v"
  using update_effect [OF assms(1)] assms(2) by (auto simp: get_entries)

lemma remove_get:
  assumes "remove env ord r i = (r', None)" "ctx_err env' = None"
  shows "get env' r' i = fail not_found"
  using remove_effect [OF assms(1)] assms(2) by (auto simp: get_entries)

lemma key_inj: "inv r \<Longrightarrow> inj_on key (ran (entries r))"
proof (rule inj_onI)
  fix v w assume inv: "inv r" and "v \<in> ran (entries r)" "w \<in> ran (entries r)" and eq: "key v = key w"
  then obtain i j where ij: "entries r i = Some v" "entries r j = Some w"
    by (auto simp: ran_def)
  with inv eq have "i = j" using keyed [OF inv ij(1)] keyed [OF inv ij(2)] by simp
  with ij show "v = w" by simp
qed

lemma list_sorted:
  assumes "inv r" "ctx_err env = None" "range_order (entries r) ord"
  obtains vs where "list_all_entries env ord r = ok vs" "sorted (map key vs)" "set vs = ran (entries r)"
    "distinct (map key vs)"
proof
  let ?vs = "sort_key key (go_range (entries r) ord)"
  show "list_all_entries env ord r = ok ?vs" using assms(2) by (rule list_entries)
  show "sorted (map key ?vs)" by simp
  show "set ?vs = ran (entries r)" using assms(3) by (simp add: set_go_range)
  have "map key (go_range (entries r) ord) = ord"
  proof -
    have "key (the (entries r k)) = k" if "k \<in> set ord" for k
    proof -
      have "k \<in> dom (entries r)" using assms(3) that by (simp add: range_order_def)
      then obtain v where "entries r k = Some v" by blast
      with keyed [OF assms(1) this] show ?thesis by simp
    qed
    then show ?thesis using assms(3) by (simp add: go_range_eq_map map_idI)
  qed
  then have "distinct (map key (go_range (entries r) ord))"
    using assms(3) by (simp add: range_order_def)
  moreover have "mset (map key ?vs) = mset (map key (go_range (entries r) ord))" by simp
  ultimately show "distinct (map key ?vs)" using mset_eq_imp_distinct_iff by blast
qed

lemma list_order_independent:
  assumes "inv r" "ctx_err env = None" "range_order (entries r) ord" "range_order (entries r) ord'"
  shows "list_all_entries env ord r = list_all_entries env ord' r"
  using sort_key_order_independent [OF assms(3,4) key_inj [OF assms(1)]] assms(2)
  by (simp add: list_entries)

end

section \<open>Endpoint ownership\<close>

text \<open>
  \<open>EndpointLookup\<close>: the consumer-owned boundary of the sensor and equipment registries. A lookup
  that succeeds returns the endpoint of that name, with capabilities that were validated, owned
  by a device that has them.
\<close>

type_synonym owners = "(ident \<Rightarrow> endpoint ret) option"

definition zero_endpoint :: endpoint where
  "zero_endpoint =
     \<lparr>endpoint_id = [], endpoint_device = [], endpoint_name = [], endpoint_capabilities = []\<rparr>"

locale endpoint_lookup =
  fixes lookup_inv :: "'r \<Rightarrow> bool"
    and owner_capabilities :: "'r \<Rightarrow> ident \<Rightarrow> capability list option"
    and endpoint_of :: "'r \<Rightarrow> ident \<Rightarrow> endpoint ret"
  assumes endpoint_id_of: "lookup_inv r \<Longrightarrow> endpoint_of r i = (Some e, None) \<Longrightarrow> endpoint_id e = i"
    and endpoint_owner: "lookup_inv r \<Longrightarrow> endpoint_of r i = (Some e, None) \<Longrightarrow>
      \<exists>cs. owner_capabilities r (endpoint_device e) = Some cs \<and> SupportsAll cs (endpoint_capabilities e)"
begin

text \<open>
  An entity whose capabilities an endpoint of its device supports has only capabilities of that
  device.
\<close>

lemma entity_within_device:
  assumes "lookup_inv r" "endpoint_of r i = (Some e, None)" "SupportsAll (endpoint_capabilities e) cs"
  shows "\<exists>ds. owner_capabilities r (endpoint_device e) = Some ds \<and> SupportsAll ds cs"
  using endpoint_owner [OF assms(1,2)] assms(3) SupportsAll_trans by blast

end

end
