(* ===== verification/Devices.thy ===== *)
theory Devices
  imports Registry
begin

text \<open>
  The package \<open>internal/devices\<close>: the registry of devices and of the adapter endpoints they own.
\<close>

section \<open>State and operations\<close>

record device_registry =
  dr_devices :: "ident \<rightharpoonup> device"
  dr_endpoints :: "ident \<rightharpoonup> endpoint"
  dr_started :: bool

datatype device_payload = DevicePayload device | DeviceIDPayload ident

definition dr_ErrNotFound :: go_error where
  "dr_ErrNotFound = Sentinel ''devices.ErrNotFound''"

definition dr_ErrExists :: go_error where
  "dr_ErrExists = Sentinel ''devices.ErrExists''"

definition dr_ErrOwned :: go_error where
  "dr_ErrOwned = Sentinel ''devices.ErrOwned''"

definition NewDeviceRegistry :: device_registry where
  "NewDeviceRegistry = \<lparr>dr_devices = Map.empty, dr_endpoints = Map.empty, dr_started = False\<rparr>"

definition dr_start :: "device_registry \<Rightarrow> device_registry" where
  "dr_start r = r\<lparr>dr_started := True\<rparr>"

definition dr_stop :: "device_registry \<Rightarrow> device_registry" where
  "dr_stop r = r\<lparr>dr_started := False\<rparr>"

definition dr_health :: "gotime \<Rightarrow> device_registry \<Rightarrow> status" where
  "dr_health now r = started_status ''devices'' (dr_started r) now"

definition dr_emit :: "device_payload env \<Rightarrow> event_type \<Rightarrow> device_payload \<Rightarrow> go_error option" where
  "dr_emit env etype payload =
     emit env (\<lambda>_. True) ''devices'' etype SeverityInfo payload (ctx_correlation env)"

definition validateDevice :: "device \<Rightarrow> go_error option" where
  "validateDevice value = first_error [
     wrap ''device ID'' (validateUUID (device_id value)),
     guard (device_name value = []) (ErrorString ''device name is required''),
     ValidateCapabilities (device_capabilities value)]"

definition dr_update ::
  "device_payload env \<Rightarrow> ident list \<Rightarrow> device_registry \<Rightarrow> device \<Rightarrow> device_registry \<times> go_error option"
where
  "dr_update env ord r device =
     (case first_error [ctx_err env, validateDevice device] of
        Some err \<Rightarrow> (r, Some err)
      | None \<Rightarrow>
          if dr_devices r (device_id device) = None then (r, Some dr_ErrNotFound)
          else if list_ex (\<lambda>endpoint. endpoint_device endpoint = device_id device \<and>
                    \<not> SupportsAll (device_capabilities device) (endpoint_capabilities endpoint))
                  (go_range (dr_endpoints r) ord)
          then (r, Some (ErrorString ''device update would orphan endpoint capabilities''))
          else (r\<lparr>dr_devices := (dr_devices r)(device_id device \<mapsto> device)\<rparr>,
                dr_emit env DeviceUpdated (DevicePayload device)))"

definition dr_register ::
  "device_payload env \<Rightarrow> device_registry \<Rightarrow> device \<Rightarrow> device_registry \<times> device ret"
where
  "dr_register env r device =
     (case ctx_err env of
        Some err \<Rightarrow> (r, fail err)
      | None \<Rightarrow>
          (case assign_id env (device_id device) of
             Inl err \<Rightarrow> (r, fail err)
           | Inr i \<Rightarrow>
               (let device = device\<lparr>device_id := i\<rparr>
                in case validateDevice device of
                     Some err \<Rightarrow> (r, fail err)
                   | None \<Rightarrow>
                       if dr_devices r i \<noteq> None then (r, fail dr_ErrExists)
                       else (r\<lparr>dr_devices := (dr_devices r)(i \<mapsto> device)\<rparr>,
                             (Some device, dr_emit env DeviceRegistered (DevicePayload device))))))"

definition dr_get :: "device_payload env \<Rightarrow> device_registry \<Rightarrow> ident \<Rightarrow> device ret" where
  "dr_get env r i =
     (case ctx_err env of
        Some err \<Rightarrow> fail err
      | None \<Rightarrow> (case dr_devices r i of None \<Rightarrow> fail dr_ErrNotFound | Some value \<Rightarrow> ok value))"

definition dr_list :: "device_payload env \<Rightarrow> ident list \<Rightarrow> device_registry \<Rightarrow> device list ret" where
  "dr_list env ord r =
     (case ctx_err env of
        Some err \<Rightarrow> fail err
      | None \<Rightarrow> ok (sort_key device_id (go_range (dr_devices r) ord)))"

definition dr_remove ::
  "device_payload env \<Rightarrow> ident list \<Rightarrow> device_registry \<Rightarrow> ident \<Rightarrow> device_registry \<times> go_error option"
where
  "dr_remove env ord r i =
     (case ctx_err env of
        Some err \<Rightarrow> (r, Some err)
      | None \<Rightarrow>
          if dr_devices r i = None then (r, Some dr_ErrNotFound)
          else if list_ex (\<lambda>endpoint. endpoint_device endpoint = i) (go_range (dr_endpoints r) ord)
          then (r, Some dr_ErrOwned)
          else (r\<lparr>dr_devices := (dr_devices r)(i := None)\<rparr>,
                dr_emit env DeviceRemoved (DeviceIDPayload i)))"

definition dr_register_endpoint ::
  "device_payload env \<Rightarrow> device_registry \<Rightarrow> endpoint \<Rightarrow> device_registry \<times> endpoint ret"
where
  "dr_register_endpoint env r endpoint =
     (case ctx_err env of
        Some err \<Rightarrow> (r, fail err)
      | None \<Rightarrow>
          (case assign_id env (endpoint_id endpoint) of
             Inl err \<Rightarrow> (r, fail err)
           | Inr i \<Rightarrow>
               (let endpoint = endpoint\<lparr>endpoint_id := i\<rparr>
                in case first_error [
                          wrap ''endpoint ID'' (validateUUID i),
                          guard (endpoint_name endpoint = []) (ErrorString ''endpoint name is required''),
                          ValidateCapabilities (endpoint_capabilities endpoint)] of
                     Some err \<Rightarrow> (r, fail err)
                   | None \<Rightarrow>
                       (case dr_devices r (endpoint_device endpoint) of
                          None \<Rightarrow> (r, fail (Wrapped ''device ownership'' dr_ErrNotFound))
                        | Some device \<Rightarrow>
                            if dr_endpoints r i \<noteq> None then (r, fail dr_ErrExists)
                            else if \<not> SupportsAll (device_capabilities device) (endpoint_capabilities endpoint)
                            then (r, fail (ErrorString
                                    ''endpoint capabilities exceed owning device capabilities''))
                            else (r\<lparr>dr_endpoints := (dr_endpoints r)(i \<mapsto> endpoint)\<rparr>, ok endpoint)))))"

definition dr_endpoint :: "device_payload env \<Rightarrow> device_registry \<Rightarrow> ident \<Rightarrow> endpoint ret" where
  "dr_endpoint env r i =
     (case ctx_err env of
        Some err \<Rightarrow> fail err
      | None \<Rightarrow> (case dr_endpoints r i of None \<Rightarrow> fail dr_ErrNotFound | Some value \<Rightarrow> ok value))"

section \<open>Invariant\<close>

text \<open>
  Entries are filed under their own validated identifier; every endpoint belongs to a registered
  device that has all its capabilities.
\<close>

definition dr_inv :: "device_registry \<Rightarrow> bool" where
  "dr_inv r \<longleftrightarrow>
     (\<forall>i d. dr_devices r i = Some d \<longrightarrow> device_id d = i \<and> validateDevice d = None) \<and>
     (\<forall>i e. dr_endpoints r i = Some e \<longrightarrow>
        endpoint_id e = i \<and> validateUUID i = None \<and> ValidateCapabilities (endpoint_capabilities e) = None \<and>
        (\<exists>d. dr_devices r (endpoint_device e) = Some d \<and>
             SupportsAll (device_capabilities d) (endpoint_capabilities e)))"

lemma dr_deviceD:
  "dr_inv r \<Longrightarrow> dr_devices r i = Some d \<Longrightarrow> device_id d = i \<and> validateDevice d = None"
  by (simp add: dr_inv_def)

lemma dr_endpointD:
  "dr_inv r \<Longrightarrow> dr_endpoints r i = Some e \<Longrightarrow>
     endpoint_id e = i \<and> validateUUID i = None \<and> ValidateCapabilities (endpoint_capabilities e) = None \<and>
     (\<exists>d. dr_devices r (endpoint_device e) = Some d \<and>
          SupportsAll (device_capabilities d) (endpoint_capabilities e))"
  by (simp add: dr_inv_def)

lemma dr_inv_new: "dr_inv NewDeviceRegistry"
  by (simp add: dr_inv_def NewDeviceRegistry_def)

lemma dr_inv_start_stop: "dr_inv r \<Longrightarrow> dr_inv (dr_start r)" "dr_inv r \<Longrightarrow> dr_inv (dr_stop r)"
  by (simp_all add: dr_inv_def dr_start_def dr_stop_def)

text \<open>Storing a device keeps the invariant when the endpoints it owns fit its capabilities.\<close>

lemma dr_inv_store_device:
  assumes "dr_inv r" "validateDevice d = None"
    and "\<And>e. e \<in> ran (dr_endpoints r) \<Longrightarrow> endpoint_device e = device_id d \<Longrightarrow>
           SupportsAll (device_capabilities d) (endpoint_capabilities e)"
  shows "dr_inv (r\<lparr>dr_devices := (dr_devices r)(device_id d \<mapsto> d)\<rparr>)"
  unfolding dr_inv_def
proof (intro conjI allI impI)
  fix i e
  assume "dr_endpoints (r\<lparr>dr_devices := (dr_devices r)(device_id d \<mapsto> d)\<rparr>) i = Some e"
  then have e: "dr_endpoints r i = Some e" by simp
  then have ran: "e \<in> ran (dr_endpoints r)" by (rule ranI)
  show "\<exists>d'. dr_devices (r\<lparr>dr_devices := (dr_devices r)(device_id d \<mapsto> d)\<rparr>) (endpoint_device e) = Some d' \<and>
      SupportsAll (device_capabilities d') (endpoint_capabilities e)"
    using assms(3) [OF ran] dr_endpointD [OF assms(1) e] by auto
qed (use assms(1,2) in \<open>auto dest: dr_deviceD dr_endpointD split: if_splits\<close>)

lemma dr_inv_register:
  assumes "dr_inv r"
  shows "dr_inv (fst (dr_register env r d))"
proof -
  have "dr_inv (r\<lparr>dr_devices := (dr_devices r)(i \<mapsto> d\<lparr>device_id := i\<rparr>)\<rparr>)"
    if "dr_devices r i = None" "validateDevice (d\<lparr>device_id := i\<rparr>) = None" for i
  proof -
    have "dr_inv (r\<lparr>dr_devices := (dr_devices r)(device_id (d\<lparr>device_id := i\<rparr>) \<mapsto> d\<lparr>device_id := i\<rparr>)\<rparr>)"
      by (rule dr_inv_store_device [OF assms that(2)])
         (use that(1) in \<open>auto simp: ran_def dest!: dr_endpointD [OF assms]\<close>)
    then show ?thesis by simp
  qed
  with assms show ?thesis
    by (simp add: dr_register_def Let_def split: option.splits sum.splits)
qed

lemma dr_inv_update:
  assumes "dr_inv r" "range_order (dr_endpoints r) ord"
  shows "dr_inv (fst (dr_update env ord r d))"
proof -
  have "dr_inv (r\<lparr>dr_devices := (dr_devices r)(device_id d \<mapsto> d)\<rparr>)"
    if "validateDevice d = None" "\<not> list_ex (\<lambda>e. endpoint_device e = device_id d \<and>
          \<not> SupportsAll (device_capabilities d) (endpoint_capabilities e)) (go_range (dr_endpoints r) ord)"
    by (rule dr_inv_store_device [OF assms(1) that(1)])
       (use that(2) in \<open>auto simp: list_ex_iff set_go_range [OF assms(2)]\<close>)
  with assms(1) show ?thesis
    by (auto simp: dr_update_def split: option.splits)
qed

lemma dr_inv_remove:
  assumes "dr_inv r" "range_order (dr_endpoints r) ord"
  shows "dr_inv (fst (dr_remove env ord r i))"
proof -
  have "dr_inv (r\<lparr>dr_devices := (dr_devices r)(i := None)\<rparr>)"
    if unowned: "\<not> list_ex (\<lambda>e. endpoint_device e = i) (go_range (dr_endpoints r) ord)"
  proof -
    have "endpoint_device e \<noteq> i" if "dr_endpoints r j = Some e" for j e
      using unowned that set_go_range [OF assms(2)] by (auto simp: list_ex_iff ran_def)
    then show ?thesis
      unfolding dr_inv_def by (auto dest: dr_deviceD [OF assms(1)] dr_endpointD [OF assms(1)])
  qed
  with assms(1) show ?thesis
    by (auto simp: dr_remove_def split: option.splits)
qed

lemma dr_inv_register_endpoint:
  assumes "dr_inv r"
  shows "dr_inv (fst (dr_register_endpoint env r e))"
proof -
  have "dr_inv (r\<lparr>dr_endpoints := (dr_endpoints r)(i \<mapsto> e\<lparr>endpoint_id := i\<rparr>)\<rparr>)"
    if "validateUUID i = None" "ValidateCapabilities (endpoint_capabilities e) = None"
      "dr_devices r (endpoint_device e) = Some d"
      "SupportsAll (device_capabilities d) (endpoint_capabilities e)" for i d
    using that unfolding dr_inv_def by (auto dest: dr_deviceD [OF assms] dr_endpointD [OF assms])
  with assms show ?thesis
    by (simp add: dr_register_endpoint_def Let_def split: option.splits sum.splits)
qed

section \<open>Interfaces\<close>

interpretation device_component: component "\<lambda>_. ''devices''" dr_start dr_stop dr_health
  by unfold_locales (auto simp: dr_health_def dr_start_def dr_stop_def)

interpretation device_entries: keyed_registry dr_devices device_id dr_inv dr_ErrNotFound
  dr_get dr_list dr_register dr_update dr_remove
proof unfold_locales
  fix env and r :: device_registry and v r' res
  assume "dr_register env r v = (r', res)"
  then show "(r' = r \<and> (\<exists>e. res = fail e)) \<or>
      (\<exists>v' e. res = (Some v', e) \<and> dr_devices r (device_id v') = None \<and>
         dr_devices r' = (dr_devices r)(device_id v' \<mapsto> v'))"
    by (auto simp: dr_register_def Let_def split: option.splits sum.splits if_splits)
qed (auto simp: dr_get_def dr_list_def dr_inv_def dr_update_def dr_remove_def
      split: option.splits if_splits)

interpretation device_lookup: endpoint_lookup dr_inv
  "\<lambda>r i. map_option device_capabilities (dr_devices r i)" "dr_endpoint env" for env
  by unfold_locales
     (fastforce simp: dr_endpoint_def dr_inv_def ok_def fail_def split: option.splits)+

section \<open>Properties\<close>

text \<open>
  A device that \<open>Register\<close> returns, whether or not publishing it failed, is what \<open>Get\<close> finds
  under its identifier afterwards; what \<open>Get\<close> finds under every other identifier is unchanged.
\<close>

theorem device_register_get:
  assumes "dr_register env r d = (r', (Some d', e))" "ctx_err env' = None"
  shows "dr_get env' r' i = (if i = device_id d' then ok d' else dr_get env' r i)"
  using device_entries.register_effect [OF assms(1)] assms(2)
  by (auto simp: device_entries.get_entries fail_def)

definition sample_device :: device where
  "sample_device =
     \<lparr>device_id = [], device_name = ''relay'', device_capabilities = [CapabilityObserve, CapabilitySwitch],
      device_metadata = None\<rparr>"

lemma sample_registered:
  "dr_register sample_env NewDeviceRegistry sample_device =
     (NewDeviceRegistry\<lparr>dr_devices := [sample_id 2 \<mapsto> sample_device\<lparr>device_id := sample_id 2\<rparr>]\<rparr>,
      (Some (sample_device\<lparr>device_id := sample_id 2\<rparr>), None))"
  by (simp add: dr_register_def assign_id_def sample_device_def validateDevice_def ValidateCapabilities_def
      NewDeviceRegistry_def dr_emit_def emit_def wrap_def Let_def)

theorem device_register_get_witness:
  "dr_get sample_env (fst (dr_register sample_env NewDeviceRegistry sample_device)) (sample_id 2) =
     ok (sample_device\<lparr>device_id := sample_id 2\<rparr>)"
  using device_register_get [OF sample_registered, of sample_env "sample_id 2"]
  by (simp add: sample_registered)

text \<open>
  \<open>List\<close> returns every device exactly once in the order of identifiers, and the same list
  whatever the order in which the runtime ranges over the map.
\<close>

theorem device_list_sorted:
  assumes "dr_inv r" "ctx_err env = None" "range_order (dr_devices r) ord" "range_order (dr_devices r) ord'"
  shows "\<exists>ds. dr_list env ord r = ok ds \<and> dr_list env ord' r = ok ds \<and> set ds = ran (dr_devices r) \<and>
    sorted (map device_id ds) \<and> distinct (map device_id ds)"
  using device_entries.list_sorted [OF assms(1-3)] device_entries.list_order_independent [OF assms] by metis

theorem device_list_sorted_witness:
  "\<exists>ds. dr_list sample_env [sample_id 2] (fst (dr_register sample_env NewDeviceRegistry sample_device)) = ok ds \<and>
    set ds = ran (dr_devices (fst (dr_register sample_env NewDeviceRegistry sample_device))) \<and> length ds = 1"
proof -
  let ?r = "fst (dr_register sample_env NewDeviceRegistry sample_device)"
  have r: "dr_devices ?r = [sample_id 2 \<mapsto> sample_device\<lparr>device_id := sample_id 2\<rparr>]"
    by (simp add: sample_registered)
  have "dr_inv ?r" by (rule dr_inv_register [OF dr_inv_new])
  moreover have "range_order (dr_devices ?r) [sample_id 2]" by (simp add: range_order_def r)
  ultimately obtain ds where ds: "dr_list sample_env [sample_id 2] ?r = ok ds" "set ds = ran (dr_devices ?r)"
    "distinct (map device_id ds)"
    using device_list_sorted [of ?r sample_env "[sample_id 2]" "[sample_id 2]"] by auto
  then have "length ds = card (ran (dr_devices ?r))" using distinct_card distinct_map by metis
  with ds show ?thesis by (auto simp: r)
qed

end
