(* ===== verification/Sensors.thy ===== *)
theory Sensors
  imports Registry
begin

text \<open>
  The package \<open>internal/sensors\<close>: the registry of measurement sources.
  \<open>owners\<close> is the \<open>EndpointLookup\<close> of the registry at the time of the call, \<open>None\<close> where none
  was given.
\<close>

section \<open>State and operations\<close>

record sensor_registry =
  sr_sensors :: "ident \<rightharpoonup> sensor"
  sr_started :: bool

datatype sensor_payload = SensorPayload sensor | SensorIDPayload ident

definition sr_ErrNotFound :: go_error where
  "sr_ErrNotFound = Sentinel ''sensors.ErrNotFound''"

definition sr_ErrExists :: go_error where
  "sr_ErrExists = Sentinel ''sensors.ErrExists''"

definition NewSensorRegistry :: sensor_registry where
  "NewSensorRegistry = \<lparr>sr_sensors = Map.empty, sr_started = False\<rparr>"

definition sr_start :: "sensor_registry \<Rightarrow> sensor_registry" where
  "sr_start r = r\<lparr>sr_started := True\<rparr>"

definition sr_stop :: "sensor_registry \<Rightarrow> sensor_registry" where
  "sr_stop r = r\<lparr>sr_started := False\<rparr>"

definition sr_health :: "gotime \<Rightarrow> sensor_registry \<Rightarrow> status" where
  "sr_health now r = started_status ''sensors'' (sr_started r) now"

definition sr_emit :: "sensor_payload env \<Rightarrow> event_type \<Rightarrow> sensor_payload \<Rightarrow> go_error option" where
  "sr_emit env etype payload =
     emit env (\<lambda>_. True) ''sensors'' etype SeverityInfo payload (ctx_correlation env)"

definition sr_validate :: "owners \<Rightarrow> sensor \<Rightarrow> go_error option" where
  "sr_validate owners value = first_error [
     wrap ''sensor ID'' (validateUUID (sensor_id value)),
     guard (sensor_name value = []) (ErrorString ''sensor name is required''),
     ValidateCapabilities (sensor_capabilities value),
     guard (length (sensor_capabilities value) \<noteq> 1 \<or> hd (sensor_capabilities value) \<noteq> CapabilityObserve)
       (ErrorString ''sensor supports only the observe capability''),
     snd (NewQuantity (sensor_quantity value) (Finite 0) (sensor_unit value)),
     (case owners of
        None \<Rightarrow> Some (ErrorString ''sensor ownership lookup is required'')
      | Some lookup \<Rightarrow>
          (case lookup (sensor_endpoint value) of
             (_, Some err) \<Rightarrow> Some (Wrapped ''endpoint ownership'' err)
           | (found, None) \<Rightarrow> let endpoint = (case found of None \<Rightarrow> zero_endpoint | Some e \<Rightarrow> e) in first_error [
               guard (endpoint_device endpoint \<noteq> sensor_device value)
                 (ErrorString ''sensor device does not own endpoint''),
               guard (\<not> SupportsAll (endpoint_capabilities endpoint) (sensor_capabilities value))
                 (ErrorString ''sensor capabilities exceed endpoint capabilities'')]))]"

definition sr_update ::
  "sensor_payload env \<Rightarrow> owners \<Rightarrow> sensor_registry \<Rightarrow> sensor \<Rightarrow> sensor_registry \<times> go_error option"
where
  "sr_update env owners r value =
     (case first_error [ctx_err env, sr_validate owners value] of
        Some err \<Rightarrow> (r, Some err)
      | None \<Rightarrow>
          if sr_sensors r (sensor_id value) = None then (r, Some sr_ErrNotFound)
          else (r\<lparr>sr_sensors := (sr_sensors r)(sensor_id value \<mapsto> value)\<rparr>,
                sr_emit env SensorUpdated (SensorPayload value)))"

definition sr_register ::
  "sensor_payload env \<Rightarrow> owners \<Rightarrow> sensor_registry \<Rightarrow> sensor \<Rightarrow> sensor_registry \<times> sensor ret"
where
  "sr_register env owners r value =
     (case ctx_err env of
        Some err \<Rightarrow> (r, fail err)
      | None \<Rightarrow>
          (case assign_id env (sensor_id value) of
             Inl err \<Rightarrow> (r, fail err)
           | Inr i \<Rightarrow>
               (let value = value\<lparr>sensor_id := i\<rparr>
                in case sr_validate owners value of
                     Some err \<Rightarrow> (r, fail err)
                   | None \<Rightarrow>
                       if sr_sensors r i \<noteq> None then (r, fail sr_ErrExists)
                       else (r\<lparr>sr_sensors := (sr_sensors r)(i \<mapsto> value)\<rparr>,
                             (Some value, sr_emit env SensorRegistered (SensorPayload value))))))"

definition sr_get :: "sensor_payload env \<Rightarrow> sensor_registry \<Rightarrow> ident \<Rightarrow> sensor ret" where
  "sr_get env r i =
     (case ctx_err env of
        Some err \<Rightarrow> fail err
      | None \<Rightarrow> (case sr_sensors r i of None \<Rightarrow> fail sr_ErrNotFound | Some value \<Rightarrow> ok value))"

definition sr_list :: "sensor_payload env \<Rightarrow> ident list \<Rightarrow> sensor_registry \<Rightarrow> sensor list ret" where
  "sr_list env ord r =
     (case ctx_err env of
        Some err \<Rightarrow> fail err
      | None \<Rightarrow> ok (sort_key sensor_id (go_range (sr_sensors r) ord)))"

definition sr_remove ::
  "sensor_payload env \<Rightarrow> sensor_registry \<Rightarrow> ident \<Rightarrow> sensor_registry \<times> go_error option"
where
  "sr_remove env r i =
     (case ctx_err env of
        Some err \<Rightarrow> (r, Some err)
      | None \<Rightarrow>
          if sr_sensors r i = None then (r, Some sr_ErrNotFound)
          else (r\<lparr>sr_sensors := (sr_sensors r)(i := None)\<rparr>,
                sr_emit env SensorRemoved (SensorIDPayload i)))"

section \<open>Invariant\<close>

text \<open>
  Entries are filed under their own validated identifier, and what the validation checks of an
  entry alone holds of every entry. Which endpoint owns an entry depends on the device registry
  as well and is the subject of the inventory theory.
\<close>

definition sensor_wf :: "sensor \<Rightarrow> bool" where
  "sensor_wf v \<longleftrightarrow>
     validateUUID (sensor_id v) = None \<and> sensor_name v \<noteq> [] \<and>
     sensor_capabilities v = [CapabilityObserve] \<and>
     canonical_unit (sensor_quantity v) = Some (sensor_unit v)"

definition sr_inv :: "sensor_registry \<Rightarrow> bool" where
  "sr_inv r \<longleftrightarrow> (\<forall>i v. sr_sensors r i = Some v \<longrightarrow> sensor_id v = i \<and> sensor_wf v)"

lemma sr_validate_wf: "sr_validate owners v = None \<Longrightarrow> sensor_wf v"
  using quantity_validate_unit [of "\<lparr>quantity_kind = sensor_quantity v, quantity_value = Finite 0,
            quantity_unit = sensor_unit v\<rparr>"]
  by (cases "sensor_capabilities v")
     (auto simp: sr_validate_def sensor_wf_def NewQuantity_def Let_def length_Suc_conv
       split: option.splits)

text \<open>A validated entry names an endpoint of its device that supports its capabilities.\<close>

lemma sr_validate_owner:
  assumes "sr_validate (Some lookup) v = None"
  shows "\<exists>e. lookup (sensor_endpoint v) = (e, None) \<and>
    (\<forall>e'. e = Some e' \<longrightarrow> endpoint_device e' = sensor_device v \<and>
       SupportsAll (endpoint_capabilities e') (sensor_capabilities v))"
  using assms by (auto simp: sr_validate_def Let_def split: option.splits prod.splits)

lemma sr_validate_no_owners: "sr_validate None v \<noteq> None"
  by (simp add: sr_validate_def)

lemma sr_inv_new: "sr_inv NewSensorRegistry"
  by (simp add: sr_inv_def NewSensorRegistry_def)

lemma sr_inv_register: "sr_inv r \<Longrightarrow> sr_inv (fst (sr_register env owners r v))"
  by (auto simp: sr_register_def sr_inv_def Let_def dest: sr_validate_wf
      split: option.splits sum.splits)

lemma sr_inv_update: "sr_inv r \<Longrightarrow> sr_inv (fst (sr_update env owners r v))"
  by (auto simp: sr_update_def sr_inv_def dest: sr_validate_wf split: option.splits)

lemma sr_inv_remove: "sr_inv r \<Longrightarrow> sr_inv (fst (sr_remove env r i))"
  by (auto simp: sr_remove_def sr_inv_def split: option.splits)

section \<open>Interfaces\<close>

interpretation sensor_component: component "\<lambda>_. ''sensors''" sr_start sr_stop sr_health
  by unfold_locales (auto simp: sr_health_def sr_start_def sr_stop_def)

interpretation sensor_entries: keyed_registry sr_sensors sensor_id sr_inv sr_ErrNotFound
  sr_get sr_list "\<lambda>env. sr_register env owners" "\<lambda>env ord. sr_update env owners"
  "\<lambda>env ord. sr_remove env" for owners
proof unfold_locales
  fix env and r :: sensor_registry and v r' res
  assume "sr_register env owners r v = (r', res)"
  then show "(r' = r \<and> (\<exists>e. res = fail e)) \<or>
      (\<exists>v' e. res = (Some v', e) \<and> sr_sensors r (sensor_id v') = None \<and>
         sr_sensors r' = (sr_sensors r)(sensor_id v' \<mapsto> v'))"
    by (auto simp: sr_register_def Let_def split: option.splits sum.splits if_splits)
qed (auto simp: sr_get_def sr_list_def sr_inv_def sr_update_def sr_remove_def
      split: option.splits if_splits)

end
