(* ===== verification/EquipmentRegistry.thy ===== *)
theory EquipmentRegistry
  imports Registry
begin

text \<open>
  The package \<open>internal/equipment/registry.go\<close>: the registry of logical outputs.
  \<open>owners\<close> is the \<open>EndpointLookup\<close> of the registry at the time of the call, \<open>None\<close> where none
  was given.
\<close>

section \<open>State and operations\<close>

record equipment_registry =
  er_equipment :: "ident \<rightharpoonup> equipment"
  er_started :: bool

datatype equipment_payload = EquipmentPayload equipment | EquipmentIDPayload ident

definition er_ErrNotFound :: go_error where
  "er_ErrNotFound = Sentinel ''equipment.ErrNotFound''"

definition er_ErrExists :: go_error where
  "er_ErrExists = Sentinel ''equipment.ErrExists''"

definition NewEquipmentRegistry :: equipment_registry where
  "NewEquipmentRegistry = \<lparr>er_equipment = Map.empty, er_started = False\<rparr>"

definition er_start :: "equipment_registry \<Rightarrow> equipment_registry" where
  "er_start r = r\<lparr>er_started := True\<rparr>"

definition er_stop :: "equipment_registry \<Rightarrow> equipment_registry" where
  "er_stop r = r\<lparr>er_started := False\<rparr>"

definition er_health :: "gotime \<Rightarrow> equipment_registry \<Rightarrow> status" where
  "er_health now r = started_status ''equipment'' (er_started r) now"

definition er_emit :: "equipment_payload env \<Rightarrow> event_type \<Rightarrow> equipment_payload \<Rightarrow> go_error option" where
  "er_emit env etype payload =
     emit env (\<lambda>_. True) ''equipment'' etype SeverityInfo payload (ctx_correlation env)"

definition er_validate :: "owners \<Rightarrow> equipment \<Rightarrow> go_error option" where
  "er_validate owners value = first_error [
     wrap ''equipment ID'' (validateUUID (equipment_id value)),
     guard (equipment_name value = []) (ErrorString ''equipment name is required''),
     ValidateCapabilities (equipment_capabilities value),
     guard (\<not> SupportsAll (equipment_capabilities value) [CapabilitySwitch] \<and>
            \<not> SupportsAll (equipment_capabilities value) [CapabilityVariableOutput])
       (ErrorString ''equipment requires switch or variable-output capability''),
     (case owners of
        None \<Rightarrow> Some (ErrorString ''equipment ownership lookup is required'')
      | Some lookup \<Rightarrow>
          (case lookup (equipment_endpoint value) of
             (_, Some err) \<Rightarrow> Some (Wrapped ''endpoint ownership'' err)
           | (found, None) \<Rightarrow> let endpoint = (case found of None \<Rightarrow> zero_endpoint | Some e \<Rightarrow> e) in first_error [
               guard (endpoint_device endpoint \<noteq> equipment_device value)
                 (ErrorString ''equipment device does not own endpoint''),
               guard (\<not> SupportsAll (endpoint_capabilities endpoint) (equipment_capabilities value))
                 (ErrorString ''equipment capabilities exceed endpoint capabilities'')]))]"

definition er_update ::
  "equipment_payload env \<Rightarrow> owners \<Rightarrow> equipment_registry \<Rightarrow> equipment \<Rightarrow> equipment_registry \<times> go_error option"
where
  "er_update env owners r value =
     (case first_error [ctx_err env, er_validate owners value] of
        Some err \<Rightarrow> (r, Some err)
      | None \<Rightarrow>
          if er_equipment r (equipment_id value) = None then (r, Some er_ErrNotFound)
          else (r\<lparr>er_equipment := (er_equipment r)(equipment_id value \<mapsto> value)\<rparr>,
                er_emit env EquipmentUpdated (EquipmentPayload value)))"

definition er_register ::
  "equipment_payload env \<Rightarrow> owners \<Rightarrow> equipment_registry \<Rightarrow> equipment \<Rightarrow> equipment_registry \<times> equipment ret"
where
  "er_register env owners r value =
     (case ctx_err env of
        Some err \<Rightarrow> (r, fail err)
      | None \<Rightarrow>
          (case assign_id env (equipment_id value) of
             Inl err \<Rightarrow> (r, fail err)
           | Inr i \<Rightarrow>
               (let value = value\<lparr>equipment_id := i\<rparr>
                in case er_validate owners value of
                     Some err \<Rightarrow> (r, fail err)
                   | None \<Rightarrow>
                       if er_equipment r i \<noteq> None then (r, fail er_ErrExists)
                       else (r\<lparr>er_equipment := (er_equipment r)(i \<mapsto> value)\<rparr>,
                             (Some value, er_emit env EquipmentRegistered (EquipmentPayload value))))))"

definition er_get :: "equipment_payload env \<Rightarrow> equipment_registry \<Rightarrow> ident \<Rightarrow> equipment ret" where
  "er_get env r i =
     (case ctx_err env of
        Some err \<Rightarrow> fail err
      | None \<Rightarrow> (case er_equipment r i of None \<Rightarrow> fail er_ErrNotFound | Some value \<Rightarrow> ok value))"

definition er_list :: "equipment_payload env \<Rightarrow> ident list \<Rightarrow> equipment_registry \<Rightarrow> equipment list ret" where
  "er_list env ord r =
     (case ctx_err env of
        Some err \<Rightarrow> fail err
      | None \<Rightarrow> ok (sort_key equipment_id (go_range (er_equipment r) ord)))"

definition er_remove ::
  "equipment_payload env \<Rightarrow> equipment_registry \<Rightarrow> ident \<Rightarrow> equipment_registry \<times> go_error option"
where
  "er_remove env r i =
     (case ctx_err env of
        Some err \<Rightarrow> (r, Some err)
      | None \<Rightarrow>
          if er_equipment r i = None then (r, Some er_ErrNotFound)
          else (r\<lparr>er_equipment := (er_equipment r)(i := None)\<rparr>,
                er_emit env EquipmentRemoved (EquipmentIDPayload i)))"

section \<open>Invariant\<close>

text \<open>
  Entries are filed under their own validated identifier, and what the validation checks of an
  entry alone holds of every entry. Which endpoint owns an entry depends on the device registry
  as well and is the subject of the inventory theory.
\<close>

definition equipment_wf :: "equipment \<Rightarrow> bool" where
  "equipment_wf v \<longleftrightarrow>
     validateUUID (equipment_id v) = None \<and> equipment_name v \<noteq> [] \<and>
     ValidateCapabilities (equipment_capabilities v) = None \<and>
     (CapabilitySwitch \<in> set (equipment_capabilities v) \<or>
      CapabilityVariableOutput \<in> set (equipment_capabilities v))"

definition er_inv :: "equipment_registry \<Rightarrow> bool" where
  "er_inv r \<longleftrightarrow> (\<forall>i v. er_equipment r i = Some v \<longrightarrow> equipment_id v = i \<and> equipment_wf v)"

lemma er_validate_wf: "er_validate owners v = None \<Longrightarrow> equipment_wf v"
  by (auto simp: er_validate_def equipment_wf_def SupportsAll_subset)

text \<open>A validated entry names an endpoint of its device that supports its capabilities.\<close>

lemma er_validate_owner:
  assumes "er_validate (Some lookup) v = None"
  shows "\<exists>e. lookup (equipment_endpoint v) = (e, None) \<and>
    (\<forall>e'. e = Some e' \<longrightarrow> endpoint_device e' = equipment_device v \<and>
       SupportsAll (endpoint_capabilities e') (equipment_capabilities v))"
  using assms by (auto simp: er_validate_def Let_def split: option.splits prod.splits)

lemma er_validate_no_owners: "er_validate None v \<noteq> None"
  by (simp add: er_validate_def)

lemma er_inv_new: "er_inv NewEquipmentRegistry"
  by (simp add: er_inv_def NewEquipmentRegistry_def)

lemma er_inv_register: "er_inv r \<Longrightarrow> er_inv (fst (er_register env owners r v))"
  by (auto simp: er_register_def er_inv_def Let_def dest: er_validate_wf
      split: option.splits sum.splits)

lemma er_inv_update: "er_inv r \<Longrightarrow> er_inv (fst (er_update env owners r v))"
  by (auto simp: er_update_def er_inv_def dest: er_validate_wf split: option.splits)

lemma er_inv_remove: "er_inv r \<Longrightarrow> er_inv (fst (er_remove env r i))"
  by (auto simp: er_remove_def er_inv_def split: option.splits)

section \<open>Interfaces\<close>

interpretation equipment_component: component "\<lambda>_. ''equipment''" er_start er_stop er_health
  by unfold_locales (auto simp: er_health_def er_start_def er_stop_def)

interpretation equipment_entries: keyed_registry er_equipment equipment_id er_inv er_ErrNotFound
  er_get er_list "\<lambda>env. er_register env owners" "\<lambda>env ord. er_update env owners"
  "\<lambda>env ord. er_remove env" for owners
proof unfold_locales
  fix env and r :: equipment_registry and v r' res
  assume "er_register env owners r v = (r', res)"
  then show "(r' = r \<and> (\<exists>e. res = fail e)) \<or>
      (\<exists>v' e. res = (Some v', e) \<and> er_equipment r (equipment_id v') = None \<and>
         er_equipment r' = (er_equipment r)(equipment_id v' \<mapsto> v'))"
    by (auto simp: er_register_def Let_def split: option.splits sum.splits if_splits)
qed (auto simp: er_get_def er_list_def er_inv_def er_update_def er_remove_def
      split: option.splits if_splits)

end
