(* ===== verification/Inventory.thy ===== *)
theory Inventory
  imports Devices Sensors EquipmentRegistry
begin

text \<open>
  The three registries together, as the composition root wires them: the sensor and the equipment
  registry look endpoints up in the device registry. Each registry keeps its own invariant; that
  a sensor or a piece of equipment stays owned by a device with its capabilities is a property
  of all three and of the order of operations on them.
\<close>

record inventory =
  inv_devices :: device_registry
  inv_sensors :: sensor_registry
  inv_equipment :: equipment_registry

abbreviation inv_owners :: "device_payload env \<Rightarrow> inventory \<Rightarrow> owners" where
  "inv_owners env v \<equiv> Some (dr_endpoint env (inv_devices v))"

definition NewInventory :: inventory where
  "NewInventory =
     \<lparr>inv_devices = NewDeviceRegistry, inv_sensors = NewSensorRegistry, inv_equipment = NewEquipmentRegistry\<rparr>"

text \<open>One operation of one registry.\<close>

inductive inv_step :: "inventory \<Rightarrow> inventory \<Rightarrow> bool" where
  device_register: "inv_step v (v\<lparr>inv_devices := fst (dr_register env (inv_devices v) d)\<rparr>)"
| device_update: "range_order (dr_endpoints (inv_devices v)) ord \<Longrightarrow>
    inv_step v (v\<lparr>inv_devices := fst (dr_update env ord (inv_devices v) d)\<rparr>)"
| device_remove: "range_order (dr_endpoints (inv_devices v)) ord \<Longrightarrow>
    inv_step v (v\<lparr>inv_devices := fst (dr_remove env ord (inv_devices v) i)\<rparr>)"
| endpoint_register: "inv_step v (v\<lparr>inv_devices := fst (dr_register_endpoint env (inv_devices v) e)\<rparr>)"
| sensor_register: "inv_step v (v\<lparr>inv_sensors := fst (sr_register env (inv_owners env' v) (inv_sensors v) s)\<rparr>)"
| sensor_update: "inv_step v (v\<lparr>inv_sensors := fst (sr_update env (inv_owners env' v) (inv_sensors v) s)\<rparr>)"
| sensor_remove: "inv_step v (v\<lparr>inv_sensors := fst (sr_remove env (inv_sensors v) i)\<rparr>)"
| equipment_register:
    "inv_step v (v\<lparr>inv_equipment := fst (er_register env (inv_owners env' v) (inv_equipment v) q)\<rparr>)"
| equipment_update:
    "inv_step v (v\<lparr>inv_equipment := fst (er_update env (inv_owners env' v) (inv_equipment v) q)\<rparr>)"
| equipment_remove: "inv_step v (v\<lparr>inv_equipment := fst (er_remove env (inv_equipment v) i)\<rparr>)"

inductive inv_reach :: "inventory \<Rightarrow> bool" where
  reach_empty: "inv_reach NewInventory"
| reach_more: "inv_reach v \<Longrightarrow> inv_step v v' \<Longrightarrow> inv_reach v'"

text \<open>An entity's endpoint belongs to its device and supports its capabilities.\<close>

definition owned :: "device_registry \<Rightarrow> ident \<Rightarrow> ident \<Rightarrow> capability list \<Rightarrow> bool" where
  "owned r endpoint device cs \<longleftrightarrow>
     (\<exists>e. dr_endpoints r endpoint = Some e \<and> endpoint_device e = device \<and> SupportsAll (endpoint_capabilities e) cs)"

definition inventory_ok :: "inventory \<Rightarrow> bool" where
  "inventory_ok v \<longleftrightarrow>
     dr_inv (inv_devices v) \<and> sr_inv (inv_sensors v) \<and> er_inv (inv_equipment v) \<and>
     (\<forall>i s. sr_sensors (inv_sensors v) i = Some s \<longrightarrow>
        owned (inv_devices v) (sensor_endpoint s) (sensor_device s) (sensor_capabilities s)) \<and>
     (\<forall>i q. er_equipment (inv_equipment v) i = Some q \<longrightarrow>
        owned (inv_devices v) (equipment_endpoint q) (equipment_device q) (equipment_capabilities q))"

lemma dr_endpoint_ok: "dr_endpoint env r i = (x, None) \<Longrightarrow> \<exists>e. x = Some e \<and> dr_endpoints r i = Some e"
  by (auto simp: dr_endpoint_def split: option.splits)

lemma sr_validate_owned:
  assumes "sr_validate (Some (dr_endpoint env r)) s = None"
  shows "owned r (sensor_endpoint s) (sensor_device s) (sensor_capabilities s)"
  using sr_validate_owner [OF assms] by (auto simp: owned_def dest!: dr_endpoint_ok)

lemma er_validate_owned:
  assumes "er_validate (Some (dr_endpoint env r)) q = None"
  shows "owned r (equipment_endpoint q) (equipment_device q) (equipment_capabilities q)"
  using er_validate_owner [OF assms] by (auto simp: owned_def dest!: dr_endpoint_ok)

text \<open>No operation of the device registry changes or removes an endpoint.\<close>

lemma device_ops_endpoints:
  "dr_endpoints (fst (dr_register env r d)) = dr_endpoints r"
  "dr_endpoints (fst (dr_update env ord r d)) = dr_endpoints r"
  "dr_endpoints (fst (dr_remove env ord r i)) = dr_endpoints r"
  by (auto simp: dr_register_def dr_update_def dr_remove_def Let_def split: option.splits sum.splits)

lemma register_endpoint_keeps:
  "dr_endpoints r i = Some e \<Longrightarrow> dr_endpoints (fst (dr_register_endpoint env r x)) i = Some e"
  by (auto simp: dr_register_endpoint_def Let_def split: option.splits sum.splits)

lemma owned_mono:
  "owned r e d cs \<Longrightarrow> (\<And>i x. dr_endpoints r i = Some x \<Longrightarrow> dr_endpoints r' i = Some x) \<Longrightarrow> owned r' e d cs"
  by (auto simp: owned_def)

lemma inventory_devices:
  assumes "inventory_ok v" "dr_inv r'" "\<And>i x. dr_endpoints (inv_devices v) i = Some x \<Longrightarrow> dr_endpoints r' i = Some x"
  shows "inventory_ok (v\<lparr>inv_devices := r'\<rparr>)"
  using assms(1,2) owned_mono [of "inv_devices v", OF _ assms(3)] by (simp add: inventory_ok_def)

lemma sensor_ops_owned:
  assumes "\<forall>i s. sr_sensors r i = Some s \<longrightarrow> owned w (sensor_endpoint s) (sensor_device s) (sensor_capabilities s)"
    and "sr_sensors r' i = Some s"
    and "r' \<in> {fst (sr_register env (Some (dr_endpoint env' w)) r x), fst (sr_update env (Some (dr_endpoint env' w)) r x),
           fst (sr_remove env r j)}"
  shows "owned w (sensor_endpoint s) (sensor_device s) (sensor_capabilities s)"
  using assms sr_validate_owned
  by (auto simp: sr_register_def sr_update_def sr_remove_def Let_def split: option.splits sum.splits if_splits)

lemma equipment_ops_owned:
  assumes "\<forall>i q. er_equipment r i = Some q \<longrightarrow> owned w (equipment_endpoint q) (equipment_device q) (equipment_capabilities q)"
    and "er_equipment r' i = Some q"
    and "r' \<in> {fst (er_register env (Some (dr_endpoint env' w)) r x), fst (er_update env (Some (dr_endpoint env' w)) r x),
           fst (er_remove env r j)}"
  shows "owned w (equipment_endpoint q) (equipment_device q) (equipment_capabilities q)"
  using assms er_validate_owned
  by (auto simp: er_register_def er_update_def er_remove_def Let_def split: option.splits sum.splits if_splits)

lemma inventory_ok_new: "inventory_ok NewInventory"
  by (simp add: inventory_ok_def NewInventory_def dr_inv_new sr_inv_new er_inv_new)
     (simp add: NewSensorRegistry_def NewEquipmentRegistry_def)

lemma inventory_sensors:
  assumes "inventory_ok v" "sr_inv r'"
    and "\<And>i s. sr_sensors r' i = Some s \<Longrightarrow>
           owned (inv_devices v) (sensor_endpoint s) (sensor_device s) (sensor_capabilities s)"
  shows "inventory_ok (v\<lparr>inv_sensors := r'\<rparr>)"
  using assms by (simp add: inventory_ok_def)

lemma inventory_equipment:
  assumes "inventory_ok v" "er_inv r'"
    and "\<And>i q. er_equipment r' i = Some q \<Longrightarrow>
           owned (inv_devices v) (equipment_endpoint q) (equipment_device q) (equipment_capabilities q)"
  shows "inventory_ok (v\<lparr>inv_equipment := r'\<rparr>)"
  using assms by (simp add: inventory_ok_def)

lemma inv_step_ok:
  assumes "inv_step v v'" "inventory_ok v"
  shows "inventory_ok v'"
proof -
  note v = assms(2) [unfolded inventory_ok_def]
  have sensors: "\<forall>i s. sr_sensors (inv_sensors v) i = Some s \<longrightarrow>
      owned (inv_devices v) (sensor_endpoint s) (sensor_device s) (sensor_capabilities s)"
    and equipment: "\<forall>i q. er_equipment (inv_equipment v) i = Some q \<longrightarrow>
      owned (inv_devices v) (equipment_endpoint q) (equipment_device q) (equipment_capabilities q)"
    using v by simp_all
  show ?thesis
    using assms(1)
  proof cases
    case (device_register env d)
    then show ?thesis using inventory_devices [OF assms(2)] dr_inv_register v by (simp add: device_ops_endpoints)
  next
    case (device_update ord env d)
    then show ?thesis using inventory_devices [OF assms(2)] dr_inv_update v by (simp add: device_ops_endpoints)
  next
    case (device_remove ord env i)
    then show ?thesis using inventory_devices [OF assms(2)] dr_inv_remove v by (simp add: device_ops_endpoints)
  next
    case (endpoint_register env e)
    then show ?thesis
      using inventory_devices [OF assms(2)] dr_inv_register_endpoint v by (simp add: register_endpoint_keeps)
  next
    case (sensor_register env env' s)
    then show ?thesis
      using inventory_sensors [OF assms(2) sr_inv_register] sensor_ops_owned [OF sensors] v by blast
  next
    case (sensor_update env env' s)
    then show ?thesis
      using inventory_sensors [OF assms(2) sr_inv_update] sensor_ops_owned [OF sensors] v by blast
  next
    case (sensor_remove env i)
    then show ?thesis
      using inventory_sensors [OF assms(2) sr_inv_remove] sensor_ops_owned [OF sensors] v by blast
  next
    case (equipment_register env env' q)
    then show ?thesis
      using inventory_equipment [OF assms(2) er_inv_register] equipment_ops_owned [OF equipment] v by blast
  next
    case (equipment_update env env' q)
    then show ?thesis
      using inventory_equipment [OF assms(2) er_inv_update] equipment_ops_owned [OF equipment] v by blast
  next
    case (equipment_remove env i)
    then show ?thesis
      using inventory_equipment [OF assms(2) er_inv_remove] equipment_ops_owned [OF equipment] v by blast
  qed
qed

lemma inv_reach_ok: "inv_reach v \<Longrightarrow> inventory_ok v"
  by (induction rule: inv_reach.induct) (auto intro: inventory_ok_new inv_step_ok)

lemma owned_device:
  assumes "dr_inv r" "owned r e d cs"
  shows "\<exists>x. dr_devices r d = Some x \<and> SupportsAll (device_capabilities x) cs"
  using assms(2) SupportsAll_trans by (fastforce simp: owned_def dest: dr_endpointD [OF assms(1)])

section \<open>Properties\<close>

text \<open>
  C21. Whatever sequence of register, update, remove and endpoint operations the three registries
  have seen, every registered piece of equipment has an endpoint that is registered, belongs to the
  equipment's device and supports its capabilities, and that device is registered and supports them
  too: neither a removal nor an update of a device ever orphans it.
\<close>

theorem equipment_owned:
  assumes "inv_reach v" "er_equipment (inv_equipment v) i = Some q"
  shows "\<exists>e d. dr_endpoints (inv_devices v) (equipment_endpoint q) = Some e \<and>
    endpoint_device e = equipment_device q \<and> SupportsAll (endpoint_capabilities e) (equipment_capabilities q) \<and>
    dr_devices (inv_devices v) (equipment_device q) = Some d \<and>
    SupportsAll (device_capabilities d) (equipment_capabilities q)"
proof -
  have v: "dr_inv (inv_devices v)"
    "owned (inv_devices v) (equipment_endpoint q) (equipment_device q) (equipment_capabilities q)"
    using inv_reach_ok [OF assms(1)] assms(2) by (auto simp: inventory_ok_def)
  then show ?thesis using owned_device [OF v] by (auto simp: owned_def)
qed

definition sample_endpoint :: endpoint where
  "sample_endpoint =
     \<lparr>endpoint_id = sample_id 4, endpoint_device = sample_id 2, endpoint_name = ''relay 0'',
      endpoint_capabilities = [CapabilitySwitch]\<rparr>"

definition sample_equipment :: equipment where
  "sample_equipment =
     \<lparr>equipment_id = sample_id 5, equipment_device = sample_id 2, equipment_endpoint = sample_id 4,
      equipment_name = ''heater'', equipment_capabilities = [CapabilitySwitch], equipment_metadata = None\<rparr>"

definition sample_inventory :: inventory where
  "sample_inventory =
     (let v = NewInventory;
          v = v\<lparr>inv_devices := fst (dr_register sample_env (inv_devices v) sample_device)\<rparr>;
          v = v\<lparr>inv_devices := fst (dr_register_endpoint sample_env (inv_devices v) sample_endpoint)\<rparr>;
          v = v\<lparr>inv_equipment := fst (er_register sample_env (inv_owners sample_env v) (inv_equipment v) sample_equipment)\<rparr>
      in v\<lparr>inv_devices := fst (dr_remove sample_env [sample_id 4] (inv_devices v) (sample_id 2))\<rparr>)"

theorem equipment_owned_witness:
  "\<exists>e d. dr_endpoints (inv_devices sample_inventory) (sample_id 4) = Some e \<and>
    endpoint_device e = sample_id 2 \<and> dr_devices (inv_devices sample_inventory) (sample_id 2) = Some d"
proof -
  let ?v1 = "NewInventory\<lparr>inv_devices := fst (dr_register sample_env (inv_devices NewInventory) sample_device)\<rparr>"
  let ?v2 = "?v1\<lparr>inv_devices := fst (dr_register_endpoint sample_env (inv_devices ?v1) sample_endpoint)\<rparr>"
  let ?v3 = "?v2\<lparr>inv_equipment :=
    fst (er_register sample_env (inv_owners sample_env ?v2) (inv_equipment ?v2) sample_equipment)\<rparr>"
  have endpoints: "dr_endpoints (inv_devices ?v3) = [sample_id 4 \<mapsto> sample_endpoint]"
    by (simp add: NewInventory_def sample_registered)
       (simp add: dr_register_endpoint_def sample_endpoint_def assign_id_def wrap_def
         Let_def ValidateCapabilities_def NewDeviceRegistry_def SupportsAll_def sample_device_def)
  have "inv_reach ?v3"
    by (rule reach_more [OF reach_more [OF reach_more [OF reach_empty device_register] endpoint_register]
        equipment_register])
  then have "inv_reach (?v3\<lparr>inv_devices := fst (dr_remove sample_env [sample_id 4] (inv_devices ?v3) (sample_id 2))\<rparr>)"
    by (rule reach_more) (rule device_remove, simp add: range_order_def endpoints [simplified])
  then have reach: "inv_reach sample_inventory" by (simp add: sample_inventory_def)
  have "er_equipment (inv_equipment sample_inventory) (sample_id 5) = Some sample_equipment"
    using endpoints
    by (simp add: sample_inventory_def Let_def er_register_def assign_id_def sample_equipment_def er_validate_def
        wrap_def ValidateCapabilities_def SupportsAll_def dr_endpoint_def sample_endpoint_def ok_def
        NewInventory_def NewEquipmentRegistry_def)
  from equipment_owned [OF reach this] show ?thesis by (auto simp: sample_equipment_def)
qed

end
