(* ===== verification/StateManager.thy ===== *)
theory StateManager
  imports Health
begin

text \<open>
  The package \<open>internal/state\<close>: revisioned canonical state with freshness, stable snapshots and
  bounded, non-blocking fan-out to subscribers.

  A subscriber's Go channel is a bounded queue with a closed flag. An operation on it that would
  panic or block for ever in Go has the outcome \<open>Panic\<close> or \<open>Blocked\<close>; the manager's operations
  are modelled with these outcomes and shown never to reach them. Receiving by the subscriber
  (\<open>receive\<close>) is a step of its own between the manager's operations.
\<close>

section \<open>Keys, values and snapshots\<close>

datatype entity_kind = EntitySensor | EntityEquipment | EntityOther string

datatype plane = PlaneObservation | PlaneDesired | PlaneReported | PlaneOther string

record state_key =
  key_kind :: entity_kind
  key_entity :: ident
  key_plane :: plane
  key_attribute :: string

record state_value =
  sv_key :: state_key
  sv_value :: canonical
  sv_quality :: quality
  sv_observed :: gotime
  sv_received :: gotime
  sv_fresh_for :: duration
  sv_source :: ident
  sv_revision :: revision

record snapshot =
  snap_revision :: revision
  snap_values :: "state_value list"

record update =
  upd_snapshot :: snapshot
  upd_dropped :: "64 word"

definition sm_ErrNotFound :: go_error where
  "sm_ErrNotFound = Sentinel ''state.ErrNotFound''"

fun entity_kind_string :: "entity_kind \<Rightarrow> string" where
  "entity_kind_string EntitySensor = ''sensor''"
| "entity_kind_string EntityEquipment = ''equipment''"
| "entity_kind_string (EntityOther s) = s"

fun plane_string :: "plane \<Rightarrow> string" where
  "plane_string PlaneObservation = ''observation''"
| "plane_string PlaneDesired = ''desired''"
| "plane_string PlaneReported = ''reported''"
| "plane_string (PlaneOther s) = s"

definition keyString :: "state_key \<Rightarrow> string" where
  "keyString key =
     entity_kind_string (key_kind key) @ ''/'' @ key_entity key @ ''/'' @
     plane_string (key_plane key) @ ''/'' @ key_attribute key"

fun known_kind :: "entity_kind \<Rightarrow> bool" where
  "known_kind (EntityOther _) = False"
| "known_kind _ = True"

fun known_plane :: "plane \<Rightarrow> bool" where
  "known_plane (PlaneOther _) = False"
| "known_plane _ = True"

definition sv_validate :: "state_value \<Rightarrow> go_error option" where
  "sv_validate v = first_error [
     guard (\<not> known_kind (key_kind (sv_key v))) (ErrorString ''unsupported entity kind''),
     guard (\<not> known_plane (key_plane (sv_key v))) (ErrorString ''unsupported state plane''),
     guard (key_kind (sv_key v) = EntitySensor \<and> key_plane (sv_key v) \<noteq> PlaneObservation)
       (ErrorString ''sensor state must use observation plane''),
     guard (key_kind (sv_key v) = EntityEquipment \<and> key_plane (sv_key v) = PlaneObservation)
       (ErrorString ''equipment state must use desired or reported plane''),
     wrap ''entity ID'' (validateUUID (key_entity (sv_key v))),
     guard (key_attribute (sv_key v) = []) (ErrorString ''state attribute is required''),
     value_validate (sv_value v),
     guard (\<not> validQuality (sv_quality v)) (ErrorString ''unsupported state quality''),
     guard (is_zero (sv_observed v) \<or> is_zero (sv_received v) \<or> sv_observed v > sv_received v)
       (ErrorString ''invalid state timestamps''),
     guard (sv_fresh_for v \<le> 0) (ErrorString ''freshness duration must be positive''),
     wrap ''source endpoint'' (validateUUID (sv_source v))]"

section \<open>Subscriber channels\<close>

datatype 'a outcome = Done 'a | Panic | Blocked

record channel =
  ch_capacity :: nat
  ch_queue :: "update list"
  ch_closed :: bool

definition chan_send :: "channel \<Rightarrow> update \<Rightarrow> channel outcome" where
  "chan_send c u =
     (if ch_closed c then Panic
      else if length (ch_queue c) < ch_capacity c then Done (c\<lparr>ch_queue := ch_queue c @ [u]\<rparr>)
      else Blocked)"

definition chan_close :: "channel \<Rightarrow> channel outcome" where
  "chan_close c = (if ch_closed c then Panic else Done (c\<lparr>ch_closed := True\<rparr>))"

text \<open>The body of the loop of \<open>deliverLocked\<close>: the two nested \<open>select\<close> statements.\<close>

definition offer :: "snapshot \<Rightarrow> channel \<Rightarrow> channel outcome" where
  "offer snap c =
     (let u = \<lparr>upd_snapshot = snap, upd_dropped = 0\<rparr>
      in case chan_send c u of
           Done c' \<Rightarrow> Done c'
         | Panic \<Rightarrow> Panic
         | Blocked \<Rightarrow>
             (case ch_queue c of
                [] \<Rightarrow> chan_send c u
              | previous # rest \<Rightarrow>
                  chan_send (c\<lparr>ch_queue := rest\<rparr>) (u\<lparr>upd_dropped := upd_dropped previous + 1\<rparr>)))"

section \<open>The manager\<close>

text \<open>
  \<open>sm_channels\<close> holds every channel made; \<open>sm_subscribers\<close> the identifiers still registered.
\<close>

record state_manager =
  sm_values :: "state_key \<rightharpoonup> state_value"
  sm_started :: bool
  sm_revision :: revision
  sm_subscribers :: "64 word \<Rightarrow> bool"
  sm_channels :: "64 word \<rightharpoonup> channel"
  sm_next :: "64 word"

text \<open>The orders in which the runtime ranges over the two maps.\<close>

record orders =
  ord_values :: "state_key list"
  ord_subscribers :: "64 word list"

definition NewStateManager :: state_manager where
  "NewStateManager =
     \<lparr>sm_values = Map.empty, sm_started = False, sm_revision = 0,
      sm_subscribers = (\<lambda>_. False), sm_channels = Map.empty, sm_next = 0\<rparr>"

definition refresh :: "gotime \<Rightarrow> state_value \<Rightarrow> state_value" where
  "refresh now v =
     (if \<not> now < sv_observed v + sv_fresh_for v then v\<lparr>sv_quality := QualityStale\<rparr> else v)"

definition snapshotLocked :: "gotime \<Rightarrow> state_key list \<Rightarrow> state_manager \<Rightarrow> snapshot" where
  "snapshotLocked now ord m =
     \<lparr>snap_revision = sm_revision m,
      snap_values = sort_key (\<lambda>v. keyString (sv_key v)) (map (refresh now) (go_range (sm_values m) ord))\<rparr>"

fun deliverLocked :: "snapshot \<Rightarrow> 64 word list \<Rightarrow> state_manager \<Rightarrow> state_manager outcome" where
  "deliverLocked snap [] m = Done m"
| "deliverLocked snap (i # ids) m =
     (case sm_channels m i of
        None \<Rightarrow> deliverLocked snap ids m
      | Some c \<Rightarrow>
          (case offer snap c of
             Done c' \<Rightarrow> deliverLocked snap ids (m\<lparr>sm_channels := (sm_channels m)(i \<mapsto> c')\<rparr>)
           | Panic \<Rightarrow> Panic
           | Blocked \<Rightarrow> Blocked))"

definition sm_start :: "state_manager \<Rightarrow> state_manager" where
  "sm_start m = m\<lparr>sm_started := True\<rparr>"

definition sm_unregister :: "64 word \<Rightarrow> state_manager \<Rightarrow> state_manager outcome" where
  "sm_unregister i m =
     (case sm_channels m i of
        None \<Rightarrow> Panic
      | Some c \<Rightarrow>
          (case chan_close c of
             Done c' \<Rightarrow> Done (m\<lparr>sm_subscribers := (sm_subscribers m)(i := False),
                              sm_channels := (sm_channels m)(i \<mapsto> c')\<rparr>)
           | Panic \<Rightarrow> Panic
           | Blocked \<Rightarrow> Blocked))"

fun sm_stop_loop :: "64 word list \<Rightarrow> state_manager \<Rightarrow> state_manager outcome" where
  "sm_stop_loop [] m = Done m"
| "sm_stop_loop (i # ids) m =
     (case sm_unregister i m of Done m' \<Rightarrow> sm_stop_loop ids m' | Panic \<Rightarrow> Panic | Blocked \<Rightarrow> Blocked)"

definition sm_stop :: "64 word list \<Rightarrow> state_manager \<Rightarrow> state_manager outcome" where
  "sm_stop ord m = sm_stop_loop ord (m\<lparr>sm_started := False\<rparr>)"

definition sm_health :: "gotime \<Rightarrow> state_manager \<Rightarrow> status" where
  "sm_health now m = started_status ''state'' (sm_started m) now"

definition sv_encodable :: "state_value \<Rightarrow> bool" where
  "sv_encodable v \<longleftrightarrow>
     (case value_quantity (sv_value v) of None \<Rightarrow> True | Some q \<Rightarrow> f64_finite (quantity_value q)) \<and>
     json_time (sv_observed v) \<and> json_time (sv_received v)"

definition sm_set ::
  "state_value env \<Rightarrow> orders \<Rightarrow> state_value \<Rightarrow> state_manager \<Rightarrow> (state_manager \<times> state_value ret) outcome"
where
  "sm_set env ord value m =
     (case first_error [ctx_err env, sv_validate value] of
        Some err \<Rightarrow> Done (m, fail err)
      | None \<Rightarrow>
          (let rev = sm_revision m + 1;
               value = value\<lparr>sv_revision := rev\<rparr>;
               m = m\<lparr>sm_revision := rev, sm_values := (sm_values m)(sv_key value \<mapsto> value)\<rparr>
           in case deliverLocked (snapshotLocked (env_now env) (ord_values ord) m) (ord_subscribers ord) m of
                Panic \<Rightarrow> Panic
              | Blocked \<Rightarrow> Blocked
              | Done m' \<Rightarrow>
                  (case emit env sv_encodable ''state'' StateChanged SeverityInfo value (ctx_correlation env) of
                     Some err \<Rightarrow> Done (m', fail err)
                   | None \<Rightarrow> Done (m', ok value))))"

definition sm_get :: "state_value env \<Rightarrow> state_manager \<Rightarrow> state_key \<Rightarrow> state_value ret" where
  "sm_get env m key =
     (case ctx_err env of
        Some err \<Rightarrow> fail err
      | None \<Rightarrow>
          (case sm_values m key of
             None \<Rightarrow> fail sm_ErrNotFound
           | Some value \<Rightarrow> ok (refresh (env_now env) value)))"

definition sm_snapshot :: "state_value env \<Rightarrow> state_key list \<Rightarrow> state_manager \<Rightarrow> snapshot ret" where
  "sm_snapshot env ord m =
     (case ctx_err env of
        Some err \<Rightarrow> fail err
      | None \<Rightarrow> ok (snapshotLocked (env_now env) ord m))"

definition sm_delete ::
  "state_value env \<Rightarrow> orders \<Rightarrow> state_key \<Rightarrow> state_manager \<Rightarrow> (state_manager \<times> go_error option) outcome"
where
  "sm_delete env ord key m =
     (case ctx_err env of
        Some err \<Rightarrow> Done (m, Some err)
      | None \<Rightarrow>
          if sm_values m key = None then Done (m, Some sm_ErrNotFound)
          else let m = m\<lparr>sm_values := (sm_values m)(key := None), sm_revision := sm_revision m + 1\<rparr>
               in case deliverLocked (snapshotLocked (env_now env) (ord_values ord) m) (ord_subscribers ord) m of
                    Panic \<Rightarrow> Panic
                  | Blocked \<Rightarrow> Blocked
                  | Done m' \<Rightarrow> Done (m', None))"

definition sm_subscribe ::
  "state_value env \<Rightarrow> state_key list \<Rightarrow> int \<Rightarrow> state_manager \<Rightarrow> (state_manager \<times> 64 word ret) outcome"
where
  "sm_subscribe env ord capacity m =
     (case ctx_err env of
        Some err \<Rightarrow> Done (m, fail err)
      | None \<Rightarrow>
          if capacity < 1 \<or> capacity > 1024
          then Done (m, fail (ErrorString ''subscription capacity must be between 1 and 1024''))
          else let i = sm_next m + 1;
                   c = \<lparr>ch_capacity = nat capacity, ch_queue = [], ch_closed = False\<rparr>;
                   u = \<lparr>upd_snapshot = snapshotLocked (env_now env) ord m, upd_dropped = 0\<rparr>
               in case chan_send c u of
                    Panic \<Rightarrow> Panic
                  | Blocked \<Rightarrow> Blocked
                  | Done c' \<Rightarrow>
                      Done (m\<lparr>sm_next := i, sm_subscribers := (sm_subscribers m)(i := True),
                              sm_channels := (sm_channels m)(i \<mapsto> c')\<rparr>, ok i))"

definition removeSubscription :: "64 word \<Rightarrow> state_manager \<Rightarrow> state_manager outcome" where
  "removeSubscription i m = (if sm_subscribers m i then sm_unregister i m else Done m)"

text \<open>A subscriber takes the oldest pending update from its channel.\<close>

definition receive :: "64 word \<Rightarrow> state_manager \<Rightarrow> state_manager \<times> update option" where
  "receive i m =
     (case sm_channels m i of
        None \<Rightarrow> (m, None)
      | Some c \<Rightarrow>
          (case ch_queue c of
             [] \<Rightarrow> (m, None)
           | u # us \<Rightarrow> (m\<lparr>sm_channels := (sm_channels m)(i \<mapsto> c\<lparr>ch_queue := us\<rparr>)\<rparr>, Some u)))"

section \<open>Channels: lemmas\<close>

definition chan_ok :: "channel \<Rightarrow> bool" where
  "chan_ok c \<longleftrightarrow> \<not> ch_closed c \<and> 1 \<le> ch_capacity c \<and> length (ch_queue c) \<le> ch_capacity c"

text \<open>The channel after an update was offered to it, in closed form.\<close>

definition offered :: "snapshot \<Rightarrow> channel \<Rightarrow> channel" where
  "offered snap c =
     (if length (ch_queue c) < ch_capacity c
      then c\<lparr>ch_queue := ch_queue c @ [\<lparr>upd_snapshot = snap, upd_dropped = 0\<rparr>]\<rparr>
      else c\<lparr>ch_queue := tl (ch_queue c) @
                [\<lparr>upd_snapshot = snap, upd_dropped = upd_dropped (hd (ch_queue c)) + 1\<rparr>]\<rparr>)"

text \<open>
  The number of snapshots a queue stands for: each pending update counts for itself and for the
  ones it superseded.
\<close>

definition weight :: "channel \<Rightarrow> 64 word" where
  "weight c = sum_list (map (\<lambda>u. 1 + upd_dropped u) (ch_queue c))"

lemma offer_offered: "chan_ok c \<Longrightarrow> offer snap c = Done (offered snap c)"
  by (cases "ch_queue c") (auto simp: offer_def offered_def chan_ok_def chan_send_def Let_def)

lemma chan_ok_offered: "chan_ok c \<Longrightarrow> chan_ok (offered snap c)"
  by (cases "ch_queue c") (auto simp: offered_def chan_ok_def)

lemma last_offered: "ch_queue (offered snap c) \<noteq> [] \<and> upd_snapshot (last (ch_queue (offered snap c))) = snap"
  by (simp add: offered_def)

lemma weight_offered: "chan_ok c \<Longrightarrow> weight (offered snap c) = weight c + 1"
  by (cases "ch_queue c") (auto simp: offered_def weight_def chan_ok_def algebra_simps)

lemma capacity_offered [simp]: "ch_capacity (offered snap c) = ch_capacity c"
  by (simp add: offered_def)

definition deliver_to :: "snapshot \<Rightarrow> 64 word set \<Rightarrow> state_manager \<Rightarrow> state_manager" where
  "deliver_to snap I m =
     m\<lparr>sm_channels := (\<lambda>i. if i \<in> I then map_option (offered snap) (sm_channels m i) else sm_channels m i)\<rparr>"

lemma deliverLocked_deliver_to:
  assumes "distinct ids" "\<And>i. i \<in> set ids \<Longrightarrow> \<exists>c. sm_channels m i = Some c \<and> chan_ok c"
  shows "deliverLocked snap ids m = Done (deliver_to snap (set ids) m)"
  using assms
proof (induction ids arbitrary: m)
  case Nil
  then show ?case by (simp add: deliver_to_def)
next
  case (Cons i ids)
  obtain c where c: "sm_channels m i = Some c" "chan_ok c" using Cons.prems(2) by auto
  let ?m = "m\<lparr>sm_channels := (sm_channels m)(i \<mapsto> offered snap c)\<rparr>"
  have "deliverLocked snap ids ?m = Done (deliver_to snap (set ids) ?m)"
    using Cons.prems by (intro Cons.IH) auto
  moreover have "deliver_to snap (set ids) ?m = deliver_to snap (set (i # ids)) m"
    using Cons.prems(1) c by (auto simp: deliver_to_def fun_eq_iff)
  ultimately show ?case using c by (simp add: offer_offered)
qed

section \<open>The manager's invariant\<close>

text \<open>
  Values are filed under their own key and were validated; a registered subscriber has an open
  channel within its capacity.
\<close>

definition sm_inv :: "state_manager \<Rightarrow> bool" where
  "sm_inv m \<longleftrightarrow>
     (\<forall>k v. sm_values m k = Some v \<longrightarrow> sv_key v = k \<and> sv_validate v = None) \<and>
     (\<forall>i. sm_subscribers m i \<longrightarrow> (\<exists>c. sm_channels m i = Some c \<and> chan_ok c))"

definition orders_ok :: "orders \<Rightarrow> state_manager \<Rightarrow> bool" where
  "orders_ok ord m \<longleftrightarrow> distinct (ord_subscribers ord) \<and> set (ord_subscribers ord) = {i. sm_subscribers m i}"

lemma sm_inv_channel: "sm_inv m \<Longrightarrow> sm_subscribers m i \<Longrightarrow> \<exists>c. sm_channels m i = Some c \<and> chan_ok c"
  by (simp add: sm_inv_def)

lemma sm_inv_value: "sm_inv m \<Longrightarrow> sm_values m k = Some v \<Longrightarrow> sv_key v = k \<and> sv_validate v = None"
  by (simp add: sm_inv_def)

lemma sv_validate_revision [simp]: "sv_validate (v\<lparr>sv_revision := r\<rparr>) = sv_validate v"
  by (simp add: sv_validate_def)

lemma sm_inv_new: "sm_inv NewStateManager"
  by (simp add: sm_inv_def NewStateManager_def)

lemma sm_inv_deliver_to:
  "sm_inv m \<Longrightarrow> sm_inv (deliver_to snap I m)"
  by (fastforce simp: sm_inv_def deliver_to_def chan_ok_offered)

lemma deliverLocked_subscribers:
  assumes "sm_inv m" "orders_ok ord m"
  shows "deliverLocked snap (ord_subscribers ord) m = Done (deliver_to snap {i. sm_subscribers m i} m)"
  using deliverLocked_deliver_to [of "ord_subscribers ord" m snap] assms sm_inv_channel
  by (auto simp: orders_ok_def)

text \<open>The state after the locked part of \<open>Set\<close>, before delivery.\<close>

abbreviation stored :: "state_value \<Rightarrow> state_manager \<Rightarrow> state_manager" where
  "stored v m \<equiv> m\<lparr>sm_revision := sm_revision m + 1,
     sm_values := (sm_values m)(sv_key v \<mapsto> v\<lparr>sv_revision := sm_revision m + 1\<rparr>)\<rparr>"

lemma sm_inv_stored: "sm_inv m \<Longrightarrow> sv_validate v = None \<Longrightarrow> sm_inv (stored v m)"
  by (auto simp: sm_inv_def)

lemma sm_set_result:
  assumes "sm_inv m" "orders_ok ord m" "ctx_err env = None" "sv_validate v = None"
  shows "sm_set env ord v m =
    Done (deliver_to (snapshotLocked (env_now env) (ord_values ord) (stored v m)) {i. sm_subscribers m i} (stored v m),
      (case emit env sv_encodable ''state'' StateChanged SeverityInfo (v\<lparr>sv_revision := sm_revision m + 1\<rparr>)
              (ctx_correlation env) of
         Some err \<Rightarrow> fail err
       | None \<Rightarrow> ok (v\<lparr>sv_revision := sm_revision m + 1\<rparr>)))"
proof -
  have "orders_ok ord (stored v m)" using assms(2) by (simp add: orders_ok_def)
  then have "deliverLocked snap (ord_subscribers ord) (stored v m) =
      Done (deliver_to snap {i. sm_subscribers m i} (stored v m))" for snap
    using deliverLocked_subscribers [OF sm_inv_stored [OF assms(1,4)], of ord snap] by simp
  with assms(3,4) show ?thesis
    by (simp add: sm_set_def Let_def split: option.splits)
qed

lemma sm_set_rejected:
  "first_error [ctx_err env, sv_validate v] = Some err \<Longrightarrow> sm_set env ord v m = Done (m, fail err)"
  by (simp add: sm_set_def)

abbreviation removed :: "state_key \<Rightarrow> state_manager \<Rightarrow> state_manager" where
  "removed k m \<equiv> m\<lparr>sm_values := (sm_values m)(k := None), sm_revision := sm_revision m + 1\<rparr>"

lemma sm_inv_removed: "sm_inv m \<Longrightarrow> sm_inv (removed k m)"
  by (auto simp: sm_inv_def)

lemma sm_delete_result:
  assumes "sm_inv m" "orders_ok ord m" "ctx_err env = None" "sm_values m k \<noteq> None"
  shows "sm_delete env ord k m =
    Done (deliver_to (snapshotLocked (env_now env) (ord_values ord) (removed k m)) {i. sm_subscribers m i}
            (removed k m), None)"
proof -
  have "orders_ok ord (removed k m)" using assms(2) by (simp add: orders_ok_def)
  then have "deliverLocked snap (ord_subscribers ord) (removed k m) =
      Done (deliver_to snap {i. sm_subscribers m i} (removed k m))" for snap
    using deliverLocked_subscribers [OF sm_inv_removed [OF assms(1)], of ord k snap] by simp
  with assms(3,4) show ?thesis
    by (auto simp: sm_delete_def Let_def)
qed

lemma sm_unregister_result:
  assumes "sm_channels m i = Some c" "chan_ok c"
  shows "sm_unregister i m = Done (m\<lparr>sm_subscribers := (sm_subscribers m)(i := False),
           sm_channels := (sm_channels m)(i \<mapsto> c\<lparr>ch_closed := True\<rparr>)\<rparr>)"
  using assms by (simp add: sm_unregister_def chan_close_def chan_ok_def)

lemma sm_unregister_inv:
  assumes "sm_inv m" "sm_subscribers m i"
  obtains m' where "sm_unregister i m = Done m'" "sm_inv m'"
    "sm_subscribers m' = (sm_subscribers m)(i := False)"
proof -
  obtain c where c: "sm_channels m i = Some c" "chan_ok c" using sm_inv_channel [OF assms] by blast
  have "sm_inv (m\<lparr>sm_subscribers := (sm_subscribers m)(i := False),
           sm_channels := (sm_channels m)(i \<mapsto> c\<lparr>ch_closed := True\<rparr>)\<rparr>)"
    using assms(1) by (auto simp: sm_inv_def)
  then show thesis by (rule that [OF sm_unregister_result [OF c]]) simp
qed

lemma sm_stop_loop_inv:
  assumes "sm_inv m" "distinct ids" "\<And>i. i \<in> set ids \<Longrightarrow> sm_subscribers m i"
  shows "\<exists>m'. sm_stop_loop ids m = Done m' \<and> sm_inv m'"
  using assms
proof (induction ids arbitrary: m)
  case (Cons i ids)
  obtain m1 where m1: "sm_unregister i m = Done m1" "sm_inv m1"
    "sm_subscribers m1 = (sm_subscribers m)(i := False)"
    using sm_unregister_inv [of m i] Cons.prems by auto
  have "\<exists>m'. sm_stop_loop ids m1 = Done m' \<and> sm_inv m'"
    using Cons.prems m1 by (intro Cons.IH) auto
  with m1(1) show ?case by simp
qed simp

lemma sm_stop_inv:
  assumes "sm_inv m" "orders_ok ord m"
  shows "\<exists>m'. sm_stop (ord_subscribers ord) m = Done m' \<and> sm_inv m'"
proof -
  have "sm_inv (m\<lparr>sm_started := False\<rparr>)" using assms(1) by (simp add: sm_inv_def)
  then show ?thesis
    unfolding sm_stop_def using assms(2) by (intro sm_stop_loop_inv) (auto simp: orders_ok_def)
qed

lemma sm_subscribe_inv:
  assumes "sm_inv m"
  shows "\<exists>m' r. sm_subscribe env ord cap m = Done (m', r) \<and> sm_inv m'"
  using assms by (auto simp: sm_subscribe_def sm_inv_def chan_send_def chan_ok_def Let_def split: option.splits)

lemma sm_set_inv:
  assumes "sm_inv m" "orders_ok ord m"
  shows "\<exists>m' r. sm_set env ord v m = Done (m', r) \<and> sm_inv m'"
proof (cases "first_error [ctx_err env, sv_validate v]")
  case None
  then have v: "ctx_err env = None" "sv_validate v = None" by simp_all
  show ?thesis
    unfolding sm_set_result [OF assms v]
    using sm_inv_deliver_to [OF sm_inv_stored [OF assms(1) v(2)]] by blast
next
  case (Some err)
  with assms(1) show ?thesis by (simp add: sm_set_rejected)
qed

lemma sm_delete_inv:
  assumes "sm_inv m" "orders_ok ord m"
  shows "\<exists>m' r. sm_delete env ord k m = Done (m', r) \<and> sm_inv m'"
proof (cases "ctx_err env = None \<and> sm_values m k \<noteq> None")
  case True
  then show ?thesis
    using sm_delete_result [OF assms] sm_inv_deliver_to [OF sm_inv_removed [OF assms(1)]] by blast
next
  case False
  with assms(1) show ?thesis by (auto simp: sm_delete_def split: option.splits)
qed

lemma receive_inv: "sm_inv m \<Longrightarrow> sm_inv (fst (receive i m))"
  by (fastforce simp: receive_def sm_inv_def chan_ok_def split: option.splits list.splits)

section \<open>Reachable states\<close>

text \<open>
  The steps of the manager and its subscribers, in any interleaving: each is one critical section
  of the manager's mutex or one receive of a subscriber.
\<close>

inductive sm_step :: "state_manager \<Rightarrow> state_manager \<Rightarrow> bool" where
  step_start: "sm_step m (sm_start m)"
| step_stop: "orders_ok ord m \<Longrightarrow> sm_stop (ord_subscribers ord) m = Done m' \<Longrightarrow> sm_step m m'"
| step_set: "orders_ok ord m \<Longrightarrow> sm_set env ord v m = Done (m', r) \<Longrightarrow> sm_step m m'"
| step_delete: "orders_ok ord m \<Longrightarrow> sm_delete env ord k m = Done (m', e) \<Longrightarrow> sm_step m m'"
| step_subscribe: "sm_subscribe env vs cap m = Done (m', s) \<Longrightarrow> sm_step m m'"
| step_close: "removeSubscription i m = Done m' \<Longrightarrow> sm_step m m'"
| step_receive: "receive i m = (m', u) \<Longrightarrow> sm_step m m'"

inductive sm_reach :: "state_manager \<Rightarrow> bool" where
  reach_new: "sm_reach NewStateManager"
| reach_step: "sm_reach m \<Longrightarrow> sm_step m m' \<Longrightarrow> sm_reach m'"

lemma removeSubscription_inv:
  assumes "sm_inv m"
  shows "\<exists>m'. removeSubscription i m = Done m' \<and> sm_inv m'"
proof (cases "sm_subscribers m i")
  case True
  with assms obtain m' where "sm_unregister i m = Done m'" "sm_inv m'"
    by (rule sm_unregister_inv)
  with True show ?thesis by (simp add: removeSubscription_def)
next
  case False
  with assms show ?thesis by (simp add: removeSubscription_def)
qed

lemma sm_step_inv: "sm_step m m' \<Longrightarrow> sm_inv m \<Longrightarrow> sm_inv m'"
proof (induction rule: sm_step.induct)
  case (step_start m)
  then show ?case by (simp add: sm_inv_def sm_start_def)
next
  case (step_stop ord m m')
  then show ?case using sm_stop_inv [of m ord] by auto
next
  case (step_set ord m env v m' r)
  then show ?case using sm_set_inv [of m ord env v] by auto
next
  case (step_delete ord m env k m' e)
  then show ?case using sm_delete_inv [of m ord env k] by auto
next
  case (step_subscribe env vs cap m m' s)
  then show ?case using sm_subscribe_inv [of m env vs cap] by auto
next
  case (step_close i m m')
  then show ?case using removeSubscription_inv [of m i] by auto
next
  case (step_receive i m m' u)
  then show ?case using receive_inv [of m i] by simp
qed

lemma sm_reach_inv: "sm_reach m \<Longrightarrow> sm_inv m"
  by (induction rule: sm_reach.induct) (auto intro: sm_inv_new sm_step_inv)

section \<open>Snapshots: lemmas\<close>

lemma refresh_key [simp]: "sv_key (refresh now v) = sv_key v"
  by (simp add: refresh_def)

lemma refresh_good:
  "sv_quality (refresh now v) = QualityGood \<longleftrightarrow>
     sv_quality v = QualityGood \<and> now < sv_observed v + sv_fresh_for v"
  by (simp add: refresh_def)

definition valid_key :: "state_key \<Rightarrow> bool" where
  "valid_key k \<longleftrightarrow> known_kind (key_kind k) \<and> known_plane (key_plane k) \<and> validateUUID (key_entity k) = None"

lemma sv_validate_key: "sv_validate v = None \<Longrightarrow> valid_key (sv_key v)"
  by (auto simp: sv_validate_def valid_key_def)

lemma known_kindE:
  assumes "known_kind k"
  obtains "k = EntitySensor" | "k = EntityEquipment"
  using assms by (cases k) auto

lemma known_planeE:
  assumes "known_plane p"
  obtains "p = PlaneObservation" | "p = PlaneDesired" | "p = PlaneReported"
  using assms by (cases p) auto

lemma keyString_inj:
  assumes "valid_key k" "valid_key k'" "keyString k = keyString k'"
  shows "k = k'"
proof -
  have kinds: "known_kind (key_kind k)" "known_kind (key_kind k')" using assms by (auto simp: valid_key_def)
  have len: "length (key_entity k) = length (key_entity k')"
    using assms validateUUID_length by (simp add: valid_key_def)
  have kind: "key_kind k = key_kind k'"
    using kinds assms(3) by (elim known_kindE) (auto simp: keyString_def)
  then have "key_entity k @ ''/'' @ plane_string (key_plane k) @ ''/'' @ key_attribute k =
      key_entity k' @ ''/'' @ plane_string (key_plane k') @ ''/'' @ key_attribute k'"
    using assms(3) by (simp add: keyString_def)
  then have entity: "key_entity k = key_entity k'" and
    rest: "plane_string (key_plane k) @ ''/'' @ key_attribute k = plane_string (key_plane k') @ ''/'' @ key_attribute k'"
    using len by (simp_all add: append_eq_append_conv)
  have "known_plane (key_plane k)" "known_plane (key_plane k')" using assms by (auto simp: valid_key_def)
  then have "key_plane k = key_plane k' \<and> key_attribute k = key_attribute k'"
    using rest by (elim known_planeE) auto
  with kind entity show ?thesis by (simp add: state_key.equality)
qed

lemma snapshotLocked_order_independent:
  assumes "sm_inv m" "range_order (sm_values m) ord" "range_order (sm_values m) ord'"
  shows "snapshotLocked now ord m = snapshotLocked now ord' m"
proof -
  let ?f = "\<lambda>v. keyString (sv_key v)"
  let ?xs = "map (refresh now) (go_range (sm_values m) ord)"
  let ?ys = "map (refresh now) (go_range (sm_values m) ord')"
  have "inj_on ?f (set ?xs)"
  proof (rule inj_onI)
    fix v w assume "v \<in> set ?xs" "w \<in> set ?xs" and eq: "?f v = ?f w"
    then obtain a b i j where ab: "v = refresh now a" "sm_values m i = Some a"
      "w = refresh now b" "sm_values m j = Some b"
      by (auto simp: set_go_range [OF assms(2)] ran_def)
    then have "valid_key i" "valid_key j" "keyString i = keyString j" "sv_key a = i" "sv_key b = j"
      using sm_inv_value [OF assms(1)] sv_validate_key eq by fastforce+
    then have "i = j" using keyString_inj by blast
    with ab show "v = w" by simp
  qed
  moreover have "mset ?xs = mset (sort_key ?f ?ys)"
    using mset_go_range [OF assms(2,3)] by simp
  ultimately have "sort_key ?f ?xs = sort_key ?f ?ys"
    by (intro sort_key_inj_key_eq) simp_all
  then show ?thesis by (simp add: snapshotLocked_def)
qed

lemma snapshotLocked_values:
  assumes "range_order (sm_values m) ord"
  shows "set (snap_values (snapshotLocked now ord m)) = refresh now ` ran (sm_values m)"
  by (simp add: snapshotLocked_def set_go_range [OF assms])

section \<open>Interfaces\<close>

interpretation state_component: component "\<lambda>_. ''state''" sm_start "\<lambda>m. m\<lparr>sm_started := False\<rparr>" sm_health
  by unfold_locales (auto simp: sm_health_def sm_start_def)

text \<open>
  \<open>StateReader\<close>: the input boundary of the safety engine. A value that is returned belongs to
  the key asked for, and one returned as good is fresh at the time of the call.
\<close>

locale state_reader =
  fixes reader_inv :: "'s \<Rightarrow> bool"
    and read_state :: "state_value env \<Rightarrow> 's \<Rightarrow> state_key \<Rightarrow> state_value ret"
  assumes read_key: "reader_inv s \<Longrightarrow> read_state env s k = (Some v, e) \<Longrightarrow> sv_key v = k"
    and read_fresh: "read_state env s k = (Some v, e) \<Longrightarrow> sv_quality v = QualityGood \<Longrightarrow>
      env_now env < sv_observed v + sv_fresh_for v"
    and read_error: "read_state env s k = (None, e) \<Longrightarrow> e \<noteq> None"

interpretation state_get: state_reader sm_inv sm_get
  by unfold_locales
     (auto simp: sm_get_def refresh_good sm_inv_value split: option.splits, auto simp: refresh_def split: if_splits)

section \<open>Accounting for subscribers\<close>

text \<open>
  \<open>sub_run i m w m'\<close>: the manager goes from \<open>m\<close> to \<open>m'\<close> while subscription \<open>i\<close> stays open, and
  its owner receives updates that stand for \<open>w\<close> snapshots in all, each update counting for itself
  and the ones it superseded.
\<close>

inductive sub_run :: "64 word \<Rightarrow> state_manager \<Rightarrow> 64 word \<Rightarrow> state_manager \<Rightarrow> bool" where
  run_none: "sub_run i m 0 m"
| run_set: "sub_run i m0 w m \<Longrightarrow> orders_ok ord m \<Longrightarrow> sm_set env ord v m = Done (m', r) \<Longrightarrow> sub_run i m0 w m'"
| run_delete:
    "sub_run i m0 w m \<Longrightarrow> orders_ok ord m \<Longrightarrow> sm_delete env ord k m = Done (m', e) \<Longrightarrow> sub_run i m0 w m'"
| run_subscribe:
    "sub_run i m0 w m \<Longrightarrow> sm_subscribe env vs cap m = Done (m', s) \<Longrightarrow> fst s \<noteq> Some i \<Longrightarrow> sub_run i m0 w m'"
| run_close: "sub_run i m0 w m \<Longrightarrow> j \<noteq> i \<Longrightarrow> removeSubscription j m = Done m' \<Longrightarrow> sub_run i m0 w m'"
| run_others: "sub_run i m0 w m \<Longrightarrow> j \<noteq> i \<Longrightarrow> receive j m = (m', u) \<Longrightarrow> sub_run i m0 w m'"
| run_receive:
    "sub_run i m0 w m \<Longrightarrow> receive i m = (m', Some u) \<Longrightarrow> sub_run i m0 (w + (1 + upd_dropped u)) m'"

text \<open>What is pending for subscription \<open>i\<close>, beyond the number of commits.\<close>

definition owed :: "64 word \<Rightarrow> state_manager \<Rightarrow> 64 word" where
  "owed i m = (case sm_channels m i of None \<Rightarrow> 0 | Some c \<Rightarrow> weight c) - sm_revision m"

lemma owed_deliver_to:
  assumes "sm_inv m" "sm_subscribers m i" "sm_channels m' = sm_channels m" "sm_revision m' = sm_revision m + 1"
  shows "owed i (deliver_to snap {i. sm_subscribers m i} m') = owed i m"
proof -
  obtain c where "sm_channels m i = Some c" "chan_ok c" using sm_inv_channel [OF assms(1,2)] by blast
  with assms show ?thesis by (simp add: owed_def deliver_to_def weight_offered)
qed

lemma owed_set:
  assumes "sm_inv m" "orders_ok ord m" "sm_subscribers m i" "sm_set env ord v m = Done (m', r)"
  shows "owed i m' = owed i m \<and> sm_subscribers m' i"
proof (cases "first_error [ctx_err env, sv_validate v]")
  case None
  then have v: "ctx_err env = None" "sv_validate v = None" by simp_all
  show ?thesis
    using assms(4) owed_deliver_to [OF assms(1,3), of "stored v m"] assms(3)
    by (auto simp: sm_set_result [OF assms(1,2) v] deliver_to_def)
next
  case (Some err)
  with assms(3,4) show ?thesis by (simp add: sm_set_rejected)
qed

lemma owed_delete:
  assumes "sm_inv m" "orders_ok ord m" "sm_subscribers m i" "sm_delete env ord k m = Done (m', e)"
  shows "owed i m' = owed i m \<and> sm_subscribers m' i"
proof (cases "ctx_err env = None \<and> sm_values m k \<noteq> None")
  case True
  then show ?thesis
    using assms(4) owed_deliver_to [OF assms(1,3), of "removed k m"] assms(3)
    by (auto simp: sm_delete_result [OF assms(1,2)] deliver_to_def)
next
  case False
  with assms(3,4) show ?thesis by (auto simp: sm_delete_def split: option.splits)
qed

lemma owed_subscribe:
  assumes "sm_subscribers m i" "sm_subscribe env vs cap m = Done (m', s)" "fst s \<noteq> Some i"
  shows "owed i m' = owed i m \<and> sm_subscribers m' i"
  using assms
  by (auto simp: sm_subscribe_def Let_def chan_send_def owed_def ok_def fail_def split: option.splits if_splits)

lemma owed_close:
  assumes "sm_subscribers m i" "j \<noteq> i" "removeSubscription j m = Done m'"
  shows "owed i m' = owed i m \<and> sm_subscribers m' i"
  using assms
  by (auto simp: removeSubscription_def sm_unregister_def chan_close_def owed_def split: option.splits if_splits)

lemma owed_receive:
  assumes "receive j m = (m', u)"
  shows "owed i m' + (if i = j then case u of None \<Rightarrow> 0 | Some u \<Rightarrow> 1 + upd_dropped u else 0) = owed i m"
    and "sm_subscribers m' = sm_subscribers m"
  using assms by (auto simp: receive_def owed_def weight_def split: option.splits list.splits)

lemma sub_run_owed:
  assumes "sub_run i m w m'" "sm_inv m" "sm_subscribers m i"
  shows "sm_inv m' \<and> sm_subscribers m' i \<and> owed i m' + w = owed i m"
  using assms
proof (induction rule: sub_run.induct)
  case (run_set i m0 w m ord env v m' r)
  then show ?case using owed_set [of m ord i env v m' r] sm_set_inv [of m ord env v] by auto
next
  case (run_delete i m0 w m ord env k m' e)
  then show ?case using owed_delete [of m ord i env k m' e] sm_delete_inv [of m ord env k] by auto
next
  case (run_subscribe i m0 w m env vs cap m' s)
  then show ?case using owed_subscribe [of m i env vs cap m' s] sm_subscribe_inv [of m env vs cap] by auto
next
  case (run_close i m0 w m j m')
  then show ?case using owed_close [of m i j m'] removeSubscription_inv [of m j] by auto
next
  case (run_others i m0 w m j m' u)
  then show ?case using owed_receive(1) [of j m m' u i] owed_receive(2) [of j m m' u] receive_inv [of m j] by auto
next
  case (run_receive i m0 w m m' u)
  have "owed i m' + (w + (1 + upd_dropped u)) = owed i m' + (1 + upd_dropped u) + w" by (simp add: algebra_simps)
  also have "\<dots> = owed i m + w" using owed_receive(1) [OF run_receive.hyps(2), of i] by simp
  finally show ?case
    using run_receive owed_receive(2) [OF run_receive.hyps(2)] receive_inv [of m i] by simp
qed simp

section \<open>Properties\<close>

text \<open>
  C12. In every state the manager and its subscribers can reach, no operation blocks or panics:
  a write, a delete, a stop, a new subscription and the closing of any subscription, closed
  before or not, all return, however full the subscribers' channels are.
\<close>

theorem state_never_blocks:
  assumes "sm_reach m" "orders_ok ord m"
  shows "(\<exists>m' r. sm_set env ord v m = Done (m', r)) \<and> (\<exists>m' e. sm_delete env ord k m = Done (m', e)) \<and>
    (\<exists>m'. sm_stop (ord_subscribers ord) m = Done m') \<and> (\<exists>m' s. sm_subscribe env vs cap m = Done (m', s)) \<and>
    (\<exists>m'. removeSubscription i m = Done m')"
  using sm_set_inv sm_delete_inv sm_stop_inv sm_subscribe_inv removeSubscription_inv
    sm_reach_inv [OF assms(1)] assms(2) by meson

text \<open>
  C13. The bounded channels lose nothing unaccounted: whatever happens while a subscription is
  open, what its owner received and what is pending for it, each update counted with its
  \<open>Dropped\<close> number, grows by exactly one per committed change of state, that is per revision.
\<close>

theorem dropped_accounts_for_every_commit:
  assumes "sm_reach m" "sm_subscribers m i" "sub_run i m w m'"
  shows "\<exists>c c'. sm_channels m i = Some c \<and> sm_channels m' i = Some c' \<and>
    w + weight c' = weight c + (sm_revision m' - sm_revision m) \<and> length (ch_queue c') \<le> ch_capacity c'"
proof -
  have inv: "sm_inv m" by (rule sm_reach_inv [OF assms(1)])
  note run = sub_run_owed [OF assms(3) inv assms(2)]
  obtain c c' where "sm_channels m i = Some c" "sm_channels m' i = Some c'" "chan_ok c'"
    using sm_inv_channel [OF inv assms(2)] sm_inv_channel [of m' i] run by blast
  moreover have "owed i m' + w = owed i m" using run by blast
  ultimately show ?thesis by (simp add: owed_def chan_ok_def algebra_simps)
qed

text \<open>
  A committed write of a valid value takes the next revision, is what \<open>Get\<close> returns for its
  key from then on (as stale once its freshness has run out), leaves what \<open>Get\<close> returns for any other key, and makes
  the new snapshot the newest update of every subscriber.
\<close>

theorem set_get:
  assumes "sm_reach m" "orders_ok ord m" "ctx_err env = None" "sv_validate v = None" "ctx_err env' = None"
    and "sm_set env ord v m = Done (m', r)"
  shows "sm_revision m' = sm_revision m + 1 \<and>
    sm_get env' m' k =
      (if k = sv_key v
       then ok (v\<lparr>sv_revision := sm_revision m + 1,
                  sv_quality := if sv_observed v + sv_fresh_for v \<le> env_now env' then QualityStale else sv_quality v\<rparr>)
       else sm_get env' m k) \<and>
    (sm_subscribers m i = (\<exists>c'. sm_subscribers m' i \<and> sm_channels m' i = Some c' \<and>
       upd_snapshot (last (ch_queue c')) = snapshotLocked (env_now env) (ord_values ord) m'))"
proof -
  have inv: "sm_inv m" by (rule sm_reach_inv [OF assms(1)])
  have m': "m' = deliver_to (snapshotLocked (env_now env) (ord_values ord) (stored v m)) {i. sm_subscribers m i} (stored v m)"
    using assms(6) by (simp add: sm_set_result [OF inv assms(2-4)])
  have snap: "snapshotLocked (env_now env) (ord_values ord) m' = snapshotLocked (env_now env) (ord_values ord) (stored v m)"
    by (simp add: m' snapshotLocked_def deliver_to_def)
  have "sm_subscribers m i = (\<exists>c'. sm_subscribers m' i \<and> sm_channels m' i = Some c' \<and>
       upd_snapshot (last (ch_queue c')) = snapshotLocked (env_now env) (ord_values ord) m')"
    unfolding snap using sm_inv_channel [OF inv, of i] last_offered by (auto simp: m' deliver_to_def)
  moreover have "refresh (env_now env') (v\<lparr>sv_revision := n\<rparr>) = v\<lparr>sv_revision := n,
      sv_quality := if sv_observed v + sv_fresh_for v \<le> env_now env' then QualityStale else sv_quality v\<rparr>" for n
    by (simp add: refresh_def not_less)
  ultimately show ?thesis using assms(5) by (simp add: m' deliver_to_def sm_get_def)
qed

definition sample_key :: state_key where
  "sample_key = \<lparr>key_kind = EntitySensor, key_entity = sample_id 6, key_plane = PlaneObservation, key_attribute = ''level''\<rparr>"

definition sample_value :: state_value where
  "sample_value =
     \<lparr>sv_key = sample_key, sv_value = NewBooleanValue True, sv_quality = QualityGood,
      sv_observed = 86400000000000 * 738000, sv_received = 86400000000000 * 738000, sv_fresh_for = 60000000000,
      sv_source = sample_id 4, sv_revision = 0\<rparr>"

definition sample_orders :: orders where
  "sample_orders = \<lparr>ord_values = [sample_key], ord_subscribers = [1]\<rparr>"

text \<open>A manager with one subscription of capacity one, before and after two writes.\<close>

definition subscribed_manager :: state_manager where
  "subscribed_manager =
     NewStateManager\<lparr>sm_next := 1, sm_subscribers := (\<lambda>_. False)(1 := True),
       sm_channels := [1 \<mapsto> \<lparr>ch_capacity = 1,
         ch_queue = [\<lparr>upd_snapshot = \<lparr>snap_revision = 0, snap_values = []\<rparr>, upd_dropped = 0\<rparr>], ch_closed = False\<rparr>]\<rparr>"

lemma sample_value_valid: "sv_validate sample_value = None"
  by (simp add: sv_validate_def sample_value_def sample_key_def value_validate_def NewBooleanValue_def is_zero_def)

lemma subscribed_manager_reach: "sm_reach subscribed_manager"
proof -
  have "sm_subscribe sample_env [] 1 NewStateManager = Done (subscribed_manager, ok 1)"
    by (simp add: sm_subscribe_def NewStateManager_def subscribed_manager_def Let_def chan_send_def
        snapshotLocked_def go_range_def)
  then show ?thesis using reach_step [OF reach_new step_subscribe] by blast
qed

lemma subscribed_orders: "sm_subscribers m = sm_subscribers subscribed_manager \<Longrightarrow> orders_ok sample_orders m"
  by (auto simp: orders_ok_def sample_orders_def subscribed_manager_def NewStateManager_def)

theorem state_never_blocks_witness:
  "\<exists>m' r. sm_set sample_env sample_orders sample_value subscribed_manager = Done (m', r)"
  using state_never_blocks [OF subscribed_manager_reach subscribed_orders [OF refl]] by blast

theorem dropped_accounts_for_every_commit_witness:
  "\<exists>m1 m2 r1 r2 c'. sm_set sample_env sample_orders sample_value subscribed_manager = Done (m1, r1) \<and>
     sm_set sample_env sample_orders sample_value m1 = Done (m2, r2) \<and>
     sm_channels m2 1 = Some c' \<and> length (ch_queue c') \<le> 1 \<and> weight c' = 3"
proof -
  have inv: "sm_inv subscribed_manager" by (rule sm_reach_inv [OF subscribed_manager_reach])
  note set = sm_set_result [OF _ _ _ sample_value_valid, of _ sample_orders sample_env]
  obtain m1 r1 where m1: "sm_set sample_env sample_orders sample_value subscribed_manager = Done (m1, r1)"
    "sm_inv m1" using sm_set_inv [OF inv subscribed_orders [OF refl]] by blast
  have d1: "sm_subscribers m1 = sm_subscribers subscribed_manager" "sm_revision m1 = 1"
    "map_option ch_capacity (sm_channels m1 1) = Some 1"
    using m1(1) set [OF inv subscribed_orders [OF refl]]
    by (auto simp: deliver_to_def subscribed_manager_def NewStateManager_def)
  obtain m2 r2 where m2: "sm_set sample_env sample_orders sample_value m1 = Done (m2, r2)"
    using sm_set_inv [OF m1(2) subscribed_orders [OF d1(1)]] by blast
  have d2: "sm_revision m2 = 2" "map_option ch_capacity (sm_channels m2 1) = Some 1"
    using m2(1) set [OF m1(2) subscribed_orders [OF d1(1)]] d1
    by (auto simp: deliver_to_def subscribed_manager_def)
  have run: "sub_run 1 subscribed_manager 0 m2"
    using run_set [OF run_set [OF run_none subscribed_orders [OF refl] m1(1)] subscribed_orders [OF d1(1)] m2(1)] .
  have "sm_subscribers subscribed_manager 1" by (simp add: subscribed_manager_def)
  from dropped_accounts_for_every_commit [OF subscribed_manager_reach this run] d2 m1(1) m2
  show ?thesis by (auto simp: subscribed_manager_def NewStateManager_def weight_def)
qed

theorem set_get_witness:
  "\<exists>m' r. sm_set sample_env sample_orders sample_value subscribed_manager = Done (m', r) \<and>
     sm_get sample_env m' sample_key = ok (sample_value\<lparr>sv_revision := 1\<rparr>)"
proof -
  obtain m' r where m': "sm_set sample_env sample_orders sample_value subscribed_manager = Done (m', r)"
    using sm_set_inv [OF sm_reach_inv [OF subscribed_manager_reach] subscribed_orders [OF refl]] by blast
  have "sm_get sample_env m' sample_key = ok (sample_value\<lparr>sv_revision := 1\<rparr>)"
    using set_get [OF subscribed_manager_reach subscribed_orders [OF refl] _ sample_value_valid _ m', of sample_env sample_key]
    by (simp add: sample_value_def subscribed_manager_def NewStateManager_def)
  with m' show ?thesis by blast
qed

end
