(* ===== verification/Alarms.thy ===== *)
theory Alarms
  imports StateManager
begin

text \<open>
  The package \<open>internal/alarms\<close>, the manager (\<open>manager.go\<close>): registered rules, observations
  with debounce and clear hysteresis, acknowledgement and clearing.

  The lemmas relate the pending timers of a rule to the history of its accepted observations.
\<close>

section \<open>Rules, observations and alarms\<close>

datatype alarm_status =
    AlarmStatusActive | AlarmStatusAcknowledged | AlarmStatusCleared | AlarmStatusOther string

datatype alarm_transition =
    TransitionNone | TransitionDebouncing | TransitionRaised | TransitionEscalated
  | TransitionClearPending | TransitionCleared | TransitionAcknowledged | TransitionIgnoredStale

record subject =
  subject_kind :: string
  subject_id :: ident

record evidence =
  evidence_code :: string
  evidence_message :: string
  evidence_metadata :: metadata

record rule =
  rule_id :: ident
  rule_code :: string
  rule_name :: string
  rule_subject :: subject
  rule_severity :: severity
  rule_debounce :: duration
  rule_hysteresis :: duration
  rule_latching :: bool

record observation =
  obs_rule :: ident
  obs_active :: bool
  obs_severity :: severity
  obs_at :: gotime
  obs_evidence :: evidence
  obs_correlation :: ident

record alarm =
  al_id :: ident
  al_rule :: ident
  al_code :: string
  al_subject :: subject
  al_severity :: severity
  al_status :: alarm_status
  al_condition :: bool
  al_evidence :: "evidence list"
  al_first :: gotime
  al_last :: gotime
  al_count :: "64 word"
  al_acknowledged :: "gotime option"
  al_cleared :: "gotime option"
  al_correlation :: ident

record rule_state =
  rs_rule :: rule
  rs_pending_active :: "gotime option"
  rs_pending_clear :: "gotime option"
  rs_last :: gotime
  rs_current :: ident

record alarm_manager =
  am_rules :: "ident \<rightharpoonup> rule_state"
  am_alarms :: "ident \<rightharpoonup> alarm"
  am_limit :: nat
  am_started :: bool

definition zero_alarm :: alarm where
  "zero_alarm =
     \<lparr>al_id = [], al_rule = [], al_code = [], al_subject = \<lparr>subject_kind = [], subject_id = []\<rparr>,
      al_severity = SeverityOther [], al_status = AlarmStatusOther [], al_condition = False,
      al_evidence = [], al_first = 0, al_last = 0, al_count = 0, al_acknowledged = None,
      al_cleared = None, al_correlation = []\<rparr>"

definition alarm_ErrNotFound :: go_error where
  "alarm_ErrNotFound = Sentinel ''alarms.ErrNotFound''"

definition alarm_ErrDuplicate :: go_error where
  "alarm_ErrDuplicate = Sentinel ''alarms.ErrDuplicate''"

definition alarm_ErrInvalidTransition :: go_error where
  "alarm_ErrInvalidTransition = Sentinel ''alarms.ErrInvalidTransition''"

definition ErrConditionActive :: go_error where
  "ErrConditionActive = Sentinel ''alarms.ErrConditionActive''"

definition validateRule :: "rule \<Rightarrow> go_error option" where
  "validateRule r = first_error [
     wrap ''rule ID'' (validateUUID (rule_id r)),
     guard (rule_code r = [] \<or> rule_name r = [] \<or> subject_kind (rule_subject r) = [])
       (ErrorString ''rule code, name, and subject kind are required''),
     wrap ''subject ID'' (validateUUID (subject_id (rule_subject r))),
     guard (severity_rank (rule_severity r) = 0) (ErrorString ''rule severity is invalid''),
     guard (rule_debounce r < 0 \<or> rule_hysteresis r < 0)
       (ErrorString ''debounce and hysteresis cannot be negative'')]"

definition appendEvidence :: "evidence list \<Rightarrow> evidence \<Rightarrow> nat \<Rightarrow> evidence list" where
  "appendEvidence values value limit =
     (if evidence_code value = [] \<and> evidence_message value = [] then values
      else let values = values @ [value]
           in if length values > limit then drop (length values - limit) values else values)"

section \<open>The manager\<close>

text \<open>\<open>NewManagerWithDependencies\<close>; \<open>NewManager\<close> passes the limit 16.\<close>

definition NewAlarmManager :: "int \<Rightarrow> alarm_manager" where
  "NewAlarmManager evidenceLimit =
     \<lparr>am_rules = Map.empty, am_alarms = Map.empty,
      am_limit = nat (if evidenceLimit < 1 then 1 else evidenceLimit), am_started = False\<rparr>"

definition am_start :: "alarm_manager \<Rightarrow> alarm_manager" where
  "am_start m = m\<lparr>am_started := True\<rparr>"

definition am_stop :: "alarm_manager \<Rightarrow> alarm_manager" where
  "am_stop m = m\<lparr>am_started := False\<rparr>"

definition am_health :: "gotime \<Rightarrow> alarm_manager \<Rightarrow> status" where
  "am_health now m = started_status ''alarms'' (am_started m) now"

definition RegisterRule :: "alarm env \<Rightarrow> rule \<Rightarrow> alarm_manager \<Rightarrow> alarm_manager \<times> go_error option" where
  "RegisterRule env r m =
     (case first_error [ctx_err env, validateRule r] of
        Some err \<Rightarrow> (m, Some err)
      | None \<Rightarrow>
          if am_rules m (rule_id r) \<noteq> None then (m, Some alarm_ErrDuplicate)
          else (m\<lparr>am_rules := (am_rules m)(rule_id r \<mapsto>
                  \<lparr>rs_rule = r, rs_pending_active = None, rs_pending_clear = None, rs_last = 0,
                   rs_current = []\<rparr>)\<rparr>, None))"

fun transition_string :: "alarm_transition \<Rightarrow> string" where
  "transition_string TransitionNone = ''alarm.no_change''"
| "transition_string TransitionDebouncing = ''alarm.debouncing''"
| "transition_string TransitionRaised = ''alarm.raised''"
| "transition_string TransitionEscalated = ''alarm.escalated''"
| "transition_string TransitionClearPending = ''alarm.clear_pending''"
| "transition_string TransitionCleared = ''alarm.cleared''"
| "transition_string TransitionAcknowledged = ''alarm.acknowledged''"
| "transition_string TransitionIgnoredStale = ''alarm.ignored_stale''"

text \<open>\<open>events.Type(transition)\<close>: the event type with the same text.\<close>

fun transition_event :: "alarm_transition \<Rightarrow> event_type" where
  "transition_event TransitionRaised = AlarmRaised"
| "transition_event TransitionEscalated = AlarmEscalated"
| "transition_event TransitionCleared = AlarmCleared"
| "transition_event TransitionAcknowledged = AlarmAcknowledged"
| "transition_event t = EventOther (transition_string t)"

definition alarm_encodable :: "alarm \<Rightarrow> bool" where
  "alarm_encodable a \<longleftrightarrow>
     json_time (al_first a) \<and> json_time (al_last a) \<and>
     (case al_acknowledged a of None \<Rightarrow> True | Some t \<Rightarrow> json_time t) \<and>
     (case al_cleared a of None \<Rightarrow> True | Some t \<Rightarrow> json_time t)"

text \<open>\<open>emit\<close>: an error of the publisher is wrapped, one of the factory is not.\<close>

definition am_emit :: "alarm env \<Rightarrow> alarm_transition \<Rightarrow> alarm \<Rightarrow> go_error option" where
  "am_emit env t a =
     emit (env\<lparr>env_publish :=
              map_option (\<lambda>pub event. wrap (''publish '' @ transition_string t) (pub event)) (env_publish env)\<rparr>)
       alarm_encodable ''alarms'' (transition_event t) (al_severity a) a (al_correlation a)"

definition alarm_at :: "alarm_manager \<Rightarrow> ident \<Rightarrow> alarm" where
  "alarm_at m i = (case am_alarms m i of None \<Rightarrow> zero_alarm | Some a \<Rightarrow> a)"

definition applyObservation ::
  "alarm env \<Rightarrow> alarm_manager \<Rightarrow> rule_state \<Rightarrow> observation \<Rightarrow>
   rule_state \<times> alarm \<times> alarm_transition \<times> go_error option"
where
  "applyObservation env m s o1 =
     (if obs_active o1
      then let s = s\<lparr>rs_pending_clear := None\<rparr>
      in if rs_current s = [] \<or> al_status (alarm_at m (rs_current s)) = AlarmStatusCleared
         then let since = (case rs_pending_active s of None \<Rightarrow> obs_at o1 | Some t \<Rightarrow> t);
                  s = s\<lparr>rs_pending_active := Some since\<rparr>
              in if time_sub (obs_at o1) since < rule_debounce (rs_rule s)
                 then (s, zero_alarm, TransitionDebouncing, None)
                 else case env_new_id env of
                   Inl err \<Rightarrow> (s, zero_alarm, TransitionNone, Some err)
                 | Inr i \<Rightarrow>
                     (let sev = rule_severity (rs_rule s);
                          sev = (if severity_rank (obs_severity o1) > severity_rank sev then obs_severity o1 else sev)
                      in (s\<lparr>rs_current := i, rs_pending_active := None\<rparr>,
                          \<lparr>al_id = i, al_rule = rule_id (rs_rule s), al_code = rule_code (rs_rule s),
                           al_subject = rule_subject (rs_rule s), al_severity = sev,
                           al_status = AlarmStatusActive, al_condition = True,
                           al_evidence = appendEvidence [] (obs_evidence o1) (am_limit m),
                           al_first = since, al_last = obs_at o1, al_count = 1,
                           al_acknowledged = None, al_cleared = None,
                           al_correlation = obs_correlation o1\<rparr>,
                          TransitionRaised, None))
         else let a = alarm_at m (rs_current s);
                  a = a\<lparr>al_condition := True, al_last := obs_at o1, al_count := al_count a + 1,
                        al_evidence := appendEvidence (al_evidence a) (obs_evidence o1) (am_limit m),
                        al_correlation := obs_correlation o1\<rparr>
              in if severity_rank (obs_severity o1) > severity_rank (al_severity a)
                 then (s, a\<lparr>al_severity := obs_severity o1\<rparr>, TransitionEscalated, None)
                 else (s, a, TransitionNone, None)
      else let s = s\<lparr>rs_pending_active := None\<rparr>
      in if rs_current s = [] then (s, zero_alarm, TransitionNone, None)
         else let a = alarm_at m (rs_current s)
         in if al_status a = AlarmStatusCleared then (s, a, TransitionNone, None)
         else let a = a\<lparr>al_condition := False, al_last := obs_at o1,
                        al_evidence := appendEvidence (al_evidence a) (obs_evidence o1) (am_limit m),
                        al_correlation := obs_correlation o1\<rparr>;
                  since = (case rs_pending_clear s of None \<Rightarrow> obs_at o1 | Some t \<Rightarrow> t);
                  s = s\<lparr>rs_pending_clear := Some since\<rparr>
         in if time_sub (obs_at o1) since < rule_hysteresis (rs_rule s) \<or> rule_latching (rs_rule s)
            then (s, a, TransitionClearPending, None)
            else (s\<lparr>rs_pending_clear := None\<rparr>,
                  a\<lparr>al_status := AlarmStatusCleared, al_cleared := Some (obs_at o1)\<rparr>,
                  TransitionCleared, None))"

definition obs_time :: "alarm env \<Rightarrow> observation \<Rightarrow> gotime" where
  "obs_time env o1 = (if is_zero (obs_at o1) then env_now env else obs_at o1)"

text \<open>The head of \<open>Observe\<close>: the time and the correlation ID an observation leaves out are filled in.\<close>

definition complete_obs :: "alarm env \<Rightarrow> observation \<Rightarrow> go_error + observation" where
  "complete_obs env o1 =
     (case ctx_err env of
        Some err \<Rightarrow> Inl err
      | None \<Rightarrow>
          (case (if obs_correlation o1 = [] then env_new_correlation env else Inr (obs_correlation o1)) of
             Inl err \<Rightarrow> Inl err
           | Inr cid \<Rightarrow> Inr (o1\<lparr>obs_at := obs_time env o1, obs_correlation := cid\<rparr>)))"

definition Observe ::
  "alarm env \<Rightarrow> observation \<Rightarrow> alarm_manager \<Rightarrow> alarm_manager \<times> alarm \<times> alarm_transition \<times> go_error option"
where
  "Observe env o1 m =
     (case complete_obs env o1 of
        Inl err \<Rightarrow> (m, zero_alarm, TransitionNone, Some err)
      | Inr o1 \<Rightarrow>
          (case am_rules m (obs_rule o1) of
             None \<Rightarrow> (m, zero_alarm, TransitionNone, Some alarm_ErrNotFound)
           | Some s \<Rightarrow>
               if \<not> is_zero (rs_last s) \<and> \<not> obs_at o1 > rs_last s
               then (m, alarm_at m (rs_current s), TransitionIgnoredStale, None)
               else let (s, a, t, err) = applyObservation env m (s\<lparr>rs_last := obs_at o1\<rparr>) o1;
                        m = m\<lparr>am_rules := (am_rules m)(obs_rule o1 \<mapsto> s)\<rparr>;
                        m = (if al_id a \<noteq> [] then m\<lparr>am_alarms := (am_alarms m)(al_id a \<mapsto> a)\<rparr> else m)
               in if err \<noteq> None \<or> t \<in> {TransitionNone, TransitionDebouncing, TransitionClearPending}
                  then (m, a, t, err)
                  else (m, a, t, am_emit env t a)))"

definition Acknowledge :: "alarm env \<Rightarrow> ident \<Rightarrow> alarm_manager \<Rightarrow> alarm_manager \<times> alarm ret" where
  "Acknowledge env i m =
     (case ctx_err env of
        Some err \<Rightarrow> (m, fail err)
      | None \<Rightarrow>
          (case am_alarms m i of
             None \<Rightarrow> (m, fail alarm_ErrNotFound)
           | Some a \<Rightarrow>
               if al_status a \<noteq> AlarmStatusActive then (m, fail alarm_ErrInvalidTransition)
               else let a = a\<lparr>al_status := AlarmStatusAcknowledged, al_acknowledged := Some (env_now env)\<rparr>
                    in (m\<lparr>am_alarms := (am_alarms m)(i \<mapsto> a)\<rparr>, (Some a, am_emit env TransitionAcknowledged a))))"

definition Clear :: "alarm env \<Rightarrow> ident \<Rightarrow> alarm_manager \<Rightarrow> alarm_manager \<times> alarm ret" where
  "Clear env i m =
     (case ctx_err env of
        Some err \<Rightarrow> (m, fail err)
      | None \<Rightarrow>
          (case am_alarms m i of
             None \<Rightarrow> (m, fail alarm_ErrNotFound)
           | Some a \<Rightarrow>
               if al_condition a then (m, fail ErrConditionActive)
               else if al_status a = AlarmStatusCleared then (m, fail alarm_ErrInvalidTransition)
               else let a = a\<lparr>al_status := AlarmStatusCleared, al_cleared := Some (env_now env)\<rparr>
                    in (m\<lparr>am_alarms := (am_alarms m)(i \<mapsto> a)\<rparr>, (Some a, am_emit env TransitionCleared a))))"

definition am_get :: "alarm env \<Rightarrow> alarm_manager \<Rightarrow> ident \<Rightarrow> alarm ret" where
  "am_get env m i =
     (case ctx_err env of
        Some err \<Rightarrow> fail err
      | None \<Rightarrow> (case am_alarms m i of None \<Rightarrow> fail alarm_ErrNotFound | Some a \<Rightarrow> ok a))"

text \<open>\<open>List\<close>; no status asked for (the empty text) is \<open>None\<close>.\<close>

definition am_list :: "alarm env \<Rightarrow> ident list \<Rightarrow> alarm_status option \<Rightarrow> alarm_manager \<Rightarrow> alarm list ret" where
  "am_list env ord st m =
     (case ctx_err env of
        Some err \<Rightarrow> fail err
      | None \<Rightarrow> ok (sort_key al_first
          (filter (\<lambda>a. st = None \<or> Some (al_status a) = st) (go_range (am_alarms m) ord))))"

section \<open>Lemmas: cases of an observation\<close>

definition idle :: "alarm_manager \<Rightarrow> rule_state \<Rightarrow> bool" where
  "idle m s \<longleftrightarrow> rs_current s = [] \<or> al_status (alarm_at m (rs_current s)) = AlarmStatusCleared"

lemma idle_simps [simp]:
  "idle m (s\<lparr>rs_last := t\<rparr>) = idle m s"
  "idle m (s\<lparr>rs_pending_active := p\<rparr>) = idle m s"
  "idle m (s\<lparr>rs_pending_clear := p\<rparr>) = idle m s"
  by (simp_all add: idle_def)

definition seen :: "alarm_manager \<Rightarrow> observation \<Rightarrow> alarm \<Rightarrow> alarm" where
  "seen m o1 a = a\<lparr>al_condition := obs_active o1, al_last := obs_at o1,
     al_evidence := appendEvidence (al_evidence a) (obs_evidence o1) (am_limit m),
     al_correlation := obs_correlation o1\<rparr>"

definition since_or :: "gotime option \<Rightarrow> gotime \<Rightarrow> gotime" where
  "since_or p t = (case p of None \<Rightarrow> t | Some t0 \<Rightarrow> t0)"

text \<open>The rule and the alarm after an observation, one case per path through the code.\<close>

lemma applyObservation_cases:
  assumes "applyObservation env m s o1 = (s', a, t, err)"
  obtains
    (debouncing) "obs_active o1" "idle m s"
      "time_sub (obs_at o1) (since_or (rs_pending_active s) (obs_at o1)) < rule_debounce (rs_rule s)"
      "s' = s\<lparr>rs_pending_clear := None, rs_pending_active := Some (since_or (rs_pending_active s) (obs_at o1))\<rparr>"
      "a = zero_alarm" "t = TransitionDebouncing" "err = None"
  | (no_id) e where "obs_active o1" "idle m s" "env_new_id env = Inl e"
      "s' = s\<lparr>rs_pending_clear := None, rs_pending_active := Some (since_or (rs_pending_active s) (obs_at o1))\<rparr>"
      "a = zero_alarm" "t = TransitionNone" "err = Some e"
  | (raised) i where "obs_active o1" "idle m s" "env_new_id env = Inr i"
      "\<not> time_sub (obs_at o1) (since_or (rs_pending_active s) (obs_at o1)) < rule_debounce (rs_rule s)"
      "s' = s\<lparr>rs_pending_clear := None, rs_pending_active := None, rs_current := i\<rparr>"
      "al_id a = i" "al_rule a = rule_id (rs_rule s)" "al_status a = AlarmStatusActive" "al_condition a"
      "al_first a = since_or (rs_pending_active s) (obs_at o1)" "al_last a = obs_at o1"
      "al_evidence a = appendEvidence [] (obs_evidence o1) (am_limit m)" "al_cleared a = None"
      "al_acknowledged a = None" "severity_rank (rule_severity (rs_rule s)) \<le> severity_rank (al_severity a)"
      "severity_rank (obs_severity o1) \<le> severity_rank (al_severity a)"
      "t = TransitionRaised" "err = None"
  | (repeated) a0 where "obs_active o1" "\<not> idle m s" "a0 = alarm_at m (rs_current s)"
      "s' = s\<lparr>rs_pending_clear := None\<rparr>" "err = None"
      "a = (seen m o1 a0)\<lparr>al_count := al_count a0 + 1,
         al_severity := if severity_rank (obs_severity o1) > severity_rank (al_severity a0) then obs_severity o1 else al_severity a0\<rparr>"
      "t = (if severity_rank (obs_severity o1) > severity_rank (al_severity a0) then TransitionEscalated else TransitionNone)"
  | (quiet) "\<not> obs_active o1" "idle m s" "s' = s\<lparr>rs_pending_active := None\<rparr>" "t = TransitionNone" "err = None"
      "a = (if rs_current s = [] then zero_alarm else alarm_at m (rs_current s))"
  | (pending) "\<not> obs_active o1" "\<not> idle m s" "t = TransitionClearPending" "err = None"
      "time_sub (obs_at o1) (since_or (rs_pending_clear s) (obs_at o1)) < rule_hysteresis (rs_rule s) \<or> rule_latching (rs_rule s)"
      "s' = s\<lparr>rs_pending_active := None, rs_pending_clear := Some (since_or (rs_pending_clear s) (obs_at o1))\<rparr>"
      "a = seen m o1 (alarm_at m (rs_current s))"
  | (cleared) "\<not> obs_active o1" "\<not> idle m s" "t = TransitionCleared" "err = None"
      "\<not> time_sub (obs_at o1) (since_or (rs_pending_clear s) (obs_at o1)) < rule_hysteresis (rs_rule s)"
      "\<not> rule_latching (rs_rule s)"
      "s' = s\<lparr>rs_pending_active := None, rs_pending_clear := None\<rparr>"
      "a = (seen m o1 (alarm_at m (rs_current s)))\<lparr>al_status := AlarmStatusCleared, al_cleared := Some (obs_at o1)\<rparr>"
proof (cases "obs_active o1"; cases "idle m s")
  let ?since = "since_or (rs_pending_active s) (obs_at o1)"
  assume a: "obs_active o1" "idle m s"
  show thesis
  proof (cases "time_sub (obs_at o1) ?since < rule_debounce (rs_rule s)")
    case True
    with a assms show thesis by (intro debouncing) (auto simp: applyObservation_def Let_def idle_def since_or_def)
  next
    case False
    with a assms show thesis
      by (cases "env_new_id env")
         (rule no_id, auto simp: applyObservation_def Let_def idle_def since_or_def intro: raised)
  qed
next
  assume a: "obs_active o1" "\<not> idle m s"
  with assms show thesis
    by (intro repeated) (auto simp: applyObservation_def Let_def idle_def seen_def split: if_splits)
next
  assume a: "\<not> obs_active o1" "idle m s"
  with assms show thesis
    by (intro quiet) (auto simp: applyObservation_def Let_def idle_def split: if_splits)
next
  let ?late = "time_sub (obs_at o1) (since_or (rs_pending_clear s) (obs_at o1)) < rule_hysteresis (rs_rule s)
    \<or> rule_latching (rs_rule s)"
  assume a: "\<not> obs_active o1" "\<not> idle m s"
  show thesis
  proof (cases ?late)
    case True
    with a assms show thesis
      by (intro pending) (auto simp: applyObservation_def Let_def idle_def seen_def since_or_def)
  next
    case False
    with a assms show thesis
      by (intro cleared) (auto simp: applyObservation_def Let_def idle_def seen_def since_or_def)
  qed
qed

lemma complete_obs_Inr:
  "complete_obs env o1 = Inr o2 \<Longrightarrow> \<exists>cid. o2 = o1\<lparr>obs_at := obs_time env o1, obs_correlation := cid\<rparr>"
  by (auto simp: complete_obs_def split: option.splits sum.splits)

lemma Observe_cases:
  assumes "Observe env o1 m = (m', a, t, err)"
  obtains
    (rejected) "m' = m" "t = TransitionNone" "err \<noteq> None"
      "(\<exists>e. complete_obs env o1 = Inl e) \<or> am_rules m (obs_rule o1) = None"
  | (stale) s where "am_rules m (obs_rule o1) = Some s" "rs_last s \<noteq> 0" "obs_time env o1 \<le> rs_last s"
      "m' = m" "t = TransitionIgnoredStale" "err = None"
  | (accepted) s cid o2 s' err' where "am_rules m (obs_rule o1) = Some s"
      "rs_last s = 0 \<or> rs_last s < obs_time env o1"
      "o2 = o1\<lparr>obs_at := obs_time env o1, obs_correlation := cid\<rparr>"
      "applyObservation env m (s\<lparr>rs_last := obs_time env o1\<rparr>) o2 = (s', a, t, err')"
      "m' = m\<lparr>am_rules := (am_rules m)(obs_rule o1 \<mapsto> s'),
              am_alarms := if al_id a \<noteq> [] then (am_alarms m)(al_id a \<mapsto> a) else am_alarms m\<rparr>"
      "err = (if err' \<noteq> None \<or> t \<in> {TransitionNone, TransitionDebouncing, TransitionClearPending} then err'
              else am_emit env t a)"
      "complete_obs env o1 = Inr o2"
proof (cases "complete_obs env o1")
  case (Inl e)
  then have "Observe env o1 m = (m, zero_alarm, TransitionNone, Some e)" by (simp add: Observe_def)
  with assms have "m' = m" "t = TransitionNone" "err = Some e" by simp_all
  with Inl show thesis by (intro rejected) simp_all
next
  case (Inr o2)
  then obtain cid where o2: "o2 = o1\<lparr>obs_at := obs_time env o1, obs_correlation := cid\<rparr>"
    using complete_obs_Inr by blast
  show thesis
  proof (cases "am_rules m (obs_rule o1)")
    case None
    then have "Observe env o1 m = (m, zero_alarm, TransitionNone, Some alarm_ErrNotFound)"
      using Inr o2 by (simp add: Observe_def)
    with assms have "m' = m" "t = TransitionNone" "err = Some alarm_ErrNotFound" by simp_all
    with None show thesis by (intro rejected) simp_all
  next
    case (Some s)
    show thesis
    proof (cases "rs_last s \<noteq> 0 \<and> obs_time env o1 \<le> rs_last s")
      case True
      with Some Inr o2 assms show thesis by (intro stale [of s]) (auto simp: Observe_def)
    next
      case False
      obtain s' b u e where ap: "applyObservation env m (s\<lparr>rs_last := obs_time env o1\<rparr>) o2 = (s', b, u, e)"
        by (metis prod.exhaust)
      have "Observe env o1 m =
         (m\<lparr>am_rules := (am_rules m)(obs_rule o1 \<mapsto> s'),
            am_alarms := if al_id b \<noteq> [] then (am_alarms m)(al_id b \<mapsto> b) else am_alarms m\<rparr>, b, u,
          if e \<noteq> None \<or> u \<in> {TransitionNone, TransitionDebouncing, TransitionClearPending} then e else am_emit env u b)"
        using Some False Inr o2 ap by (auto simp: Observe_def Let_def)
      with False ap assms o2 Inr show thesis
        by (intro accepted [OF Some _ o2]) auto
    qed
  qed
qed

section \<open>The invariant\<close>

definition alarm_wf :: "alarm_manager \<Rightarrow> ident \<Rightarrow> alarm \<Rightarrow> bool" where
  "alarm_wf m i a \<longleftrightarrow>
     al_id a = i \<and> i \<noteq> [] \<and> length (al_evidence a) \<le> am_limit m \<and>
     al_status a \<in> {AlarmStatusActive, AlarmStatusAcknowledged, AlarmStatusCleared} \<and>
     (al_status a = AlarmStatusAcknowledged \<longrightarrow> al_acknowledged a \<noteq> None) \<and>
     (al_status a = AlarmStatusCleared \<longleftrightarrow> al_cleared a \<noteq> None) \<and>
     (al_status a = AlarmStatusCleared \<longrightarrow> \<not> al_condition a) \<and>
     (\<exists>s. am_rules m (al_rule a) = Some s \<and> severity_rank (rule_severity (rs_rule s)) \<le> severity_rank (al_severity a) \<and>
        (al_status a \<noteq> AlarmStatusCleared \<longrightarrow> rs_current s = i))"

lemma alarm_wf_alarms [simp]: "alarm_wf (m\<lparr>am_alarms := f\<rparr>) i a = alarm_wf m i a"
  by (simp add: alarm_wf_def)

definition rule_wf :: "alarm_manager \<Rightarrow> ident \<Rightarrow> rule_state \<Rightarrow> bool" where
  "rule_wf m r s \<longleftrightarrow>
     rule_id (rs_rule s) = r \<and> validateRule (rs_rule s) = None \<and>
     (rs_current s \<noteq> [] \<longrightarrow> (\<exists>a. am_alarms m (rs_current s) = Some a \<and> al_rule a = r))"

definition am_inv :: "alarm_manager \<Rightarrow> bool" where
  "am_inv m \<longleftrightarrow>
     1 \<le> am_limit m \<and> (\<forall>r s. am_rules m r = Some s \<longrightarrow> rule_wf m r s) \<and>
     (\<forall>i a. am_alarms m i = Some a \<longrightarrow> alarm_wf m i a)"

text \<open>An identifier generator yields identifiers no alarm has yet.\<close>

definition fresh_ids :: "alarm env \<Rightarrow> alarm_manager \<Rightarrow> bool" where
  "fresh_ids env m \<longleftrightarrow> (\<forall>i. env_new_id env = Inr i \<longrightarrow> i \<noteq> [] \<and> am_alarms m i = None)"

lemma appendEvidence_bound:
  "length values \<le> limit \<Longrightarrow> 1 \<le> limit \<Longrightarrow> length (appendEvidence values value limit) \<le> limit"
  by (simp add: appendEvidence_def Let_def)

lemma appendEvidence_newest:
  "evidence_code value \<noteq> [] \<Longrightarrow> 1 \<le> limit \<Longrightarrow> last (appendEvidence values value limit) = value"
  by (auto simp: appendEvidence_def Let_def last_drop)

lemma am_invD:
  assumes "am_inv m"
  shows "am_rules m r = Some s \<Longrightarrow> rule_wf m r s" "am_alarms m i = Some a \<Longrightarrow> alarm_wf m i a"
    "1 \<le> am_limit m"
  using assms by (auto simp: am_inv_def)

lemma current_alarm:
  assumes "am_inv m" "am_rules m r = Some s" "\<not> idle m s"
  obtains a where "am_alarms m (rs_current s) = Some a" "al_rule a = r" "alarm_at m (rs_current s) = a"
    "alarm_wf m (rs_current s) a" "al_status a \<noteq> AlarmStatusCleared" "al_id a = rs_current s" "rs_current s \<noteq> []"
proof -
  have "rule_wf m r s" using assms(1,2) by (rule am_invD)
  with assms(3) obtain a where a: "am_alarms m (rs_current s) = Some a" "al_rule a = r"
    by (auto simp: rule_wf_def idle_def)
  with assms have "alarm_wf m (rs_current s) a" by (auto intro: am_invD)
  with a assms(3) show thesis
    by (intro that) (auto simp: idle_def alarm_at_def alarm_wf_def)
qed

text \<open>
  Writing back the state of a rule and one alarm of it keeps the invariant when they are
  well-formed together and the rule's other alarms are cleared.
\<close>

lemma am_inv_write:
  assumes "am_inv m" "am_rules m r = Some s" "rs_rule s' = rs_rule s" "al_rule a = r" "al_id a = i" "i \<noteq> []"
    "rs_current s' = i"
    "\<And>j b. am_alarms m j = Some b \<Longrightarrow> al_rule b = r \<Longrightarrow> j \<noteq> i \<Longrightarrow> al_status b = AlarmStatusCleared"
    "\<And>b. am_alarms m i = Some b \<Longrightarrow> al_rule b = r"
    "alarm_wf (m\<lparr>am_rules := (am_rules m)(r \<mapsto> s')\<rparr>) i a"
  shows "am_inv (m\<lparr>am_rules := (am_rules m)(r \<mapsto> s'), am_alarms := (am_alarms m)(i \<mapsto> a)\<rparr>)"
proof -
  let ?m = "m\<lparr>am_rules := (am_rules m)(r \<mapsto> s'), am_alarms := (am_alarms m)(i \<mapsto> a)\<rparr>"
  have s: "rule_wf m r s" using assms(1,2) by (rule am_invD)
  have "rule_wf ?m q u" if q: "am_rules ?m q = Some u" for q u
  proof (cases "q = r")
    case True
    then show ?thesis using q s assms by (auto simp: rule_wf_def)
  next
    case False
    then have "rule_wf m q u" using q assms(1) by (auto intro: am_invD)
    then show ?thesis using False assms(4,9) by (auto simp: rule_wf_def)
  qed
  moreover have "alarm_wf ?m j b" if j: "am_alarms ?m j = Some b" for j b
  proof (cases "j = i")
    case True
    then show ?thesis using j assms(10) by simp
  next
    case False
    then have jb: "am_alarms m j = Some b" using j by simp
    then have "alarm_wf m j b" using assms(1) by (auto intro: am_invD)
    moreover have "al_rule b = r \<Longrightarrow> al_status b = AlarmStatusCleared" using assms(8) jb False by auto
    ultimately show ?thesis using assms(2,3) by (auto simp: alarm_wf_def)
  qed
  ultimately show ?thesis using assms(1) by (simp add: am_inv_def)
qed

text \<open>Writing back only the state of a rule, with the same current alarm.\<close>

lemma am_inv_rule:
  assumes "am_inv m" "am_rules m r = Some s" "rs_rule s' = rs_rule s" "rs_current s' = rs_current s"
  shows "am_inv (m\<lparr>am_rules := (am_rules m)(r \<mapsto> s')\<rparr>)"
proof -
  let ?m = "m\<lparr>am_rules := (am_rules m)(r \<mapsto> s')\<rparr>"
  have "rule_wf ?m q u" if "am_rules ?m q = Some u" for q u
    using that am_invD(1) [OF assms(1), of q] am_invD(1) [OF assms(1,2)] assms(3,4)
    by (auto simp: rule_wf_def split: if_splits)
  moreover have "alarm_wf ?m j b" if "am_alarms ?m j = Some b" for j b
    using that am_invD(2) [OF assms(1), of j b] assms(2,3,4) by (auto simp: alarm_wf_def)
  ultimately show ?thesis using assms(1) by (simp add: am_inv_def)
qed

lemma others_cleared:
  assumes "am_inv m" "am_rules m r = Some s" "am_alarms m j = Some b" "al_rule b = r" "j \<noteq> rs_current s"
  shows "al_status b = AlarmStatusCleared"
  using am_invD(2) [OF assms(1,3)] assms(2,4,5) by (auto simp: alarm_wf_def)

lemma idle_cleared:
  assumes "am_inv m" "am_rules m r = Some s" "idle m s" "am_alarms m j = Some b" "al_rule b = r"
  shows "al_status b = AlarmStatusCleared"
proof (cases "j = rs_current s")
  case True
  with assms am_invD(2) [OF assms(1,4)] show ?thesis
    by (auto simp: idle_def alarm_at_def alarm_wf_def)
qed (use others_cleared assms in blast)

lemma seen_wf:
  assumes "alarm_wf m i a" "1 \<le> am_limit m" "al_status a \<noteq> AlarmStatusCleared"
    "am_rules m (al_rule a) = Some s" "rs_rule s' = rs_rule s" "rs_current s' = rs_current s"
  shows "alarm_wf (m\<lparr>am_rules := (am_rules m)(al_rule a \<mapsto> s')\<rparr>) i (seen m o1 a)"
  using assms appendEvidence_bound [of "al_evidence a" "am_limit m" "obs_evidence o1"]
  by (auto simp: alarm_wf_def seen_def)

lemma seen_simps [simp]:
  "al_id (seen m o1 a) = al_id a" "al_rule (seen m o1 a) = al_rule a" "al_status (seen m o1 a) = al_status a"
  "al_condition (seen m o1 a) = obs_active o1" "al_severity (seen m o1 a) = al_severity a"
  "al_cleared (seen m o1 a) = al_cleared a" "al_acknowledged (seen m o1 a) = al_acknowledged a"
  by (simp_all add: seen_def)

lemma alarm_wf_escalate:
  "alarm_wf m i a \<Longrightarrow> severity_rank (al_severity a) \<le> severity_rank sev \<Longrightarrow>
     alarm_wf m i (a\<lparr>al_count := n, al_severity := sev\<rparr>)"
  by (fastforce simp: alarm_wf_def)

lemma alarm_wf_clear:
  "alarm_wf m i a \<Longrightarrow> \<not> al_condition a \<Longrightarrow>
     alarm_wf m i (a\<lparr>al_status := AlarmStatusCleared, al_cleared := Some t\<rparr>)"
  by (auto simp: alarm_wf_def)

lemma alarm_wf_acknowledge:
  "alarm_wf m i a \<Longrightarrow> al_status a = AlarmStatusActive \<Longrightarrow>
     alarm_wf m i (a\<lparr>al_status := AlarmStatusAcknowledged, al_acknowledged := Some t\<rparr>)"
  by (auto simp: alarm_wf_def)

lemma zero_alarm_id [simp]: "al_id zero_alarm = []"
  by (simp add: zero_alarm_def)

text \<open>An alarm that is not cleared, updated and written back.\<close>

lemma am_inv_update:
  assumes "am_inv m" "am_rules m r = Some s" "\<not> idle m s" "rs_rule s' = rs_rule s" "rs_current s' = rs_current s"
    "al_id a = rs_current s" "al_rule a = r"
    "alarm_wf (m\<lparr>am_rules := (am_rules m)(r \<mapsto> s')\<rparr>) (rs_current s) a"
  shows "am_inv (m\<lparr>am_rules := (am_rules m)(r \<mapsto> s'), am_alarms := (am_alarms m)(rs_current s \<mapsto> a)\<rparr>)"
proof (rule am_inv_write [OF assms(1,2)])
  obtain b where b: "am_alarms m (rs_current s) = Some b" "al_rule b = r" "rs_current s \<noteq> []"
    using assms(1,2,3) by (rule current_alarm)
  show "rs_current s \<noteq> []" by (fact b)
  show "al_rule b = r" if "am_alarms m (rs_current s) = Some b" for b
    using that \<open>am_alarms m (rs_current s) = Some b\<close> b by simp
  show "al_status b = AlarmStatusCleared" if "am_alarms m j = Some b" "al_rule b = r" "j \<noteq> rs_current s" for j b
    using others_cleared [OF assms(1,2)] that by blast
qed (use assms in auto)

text \<open>What an observation does to an alarm that is not cleared keeps the invariant.\<close>

lemma am_inv_seen:
  assumes "am_inv m" "am_rules m r = Some s" "\<not> idle m s" "rs_rule s' = rs_rule s" "rs_current s' = rs_current s"
    "al_id a = al_id (alarm_at m (rs_current s))" "al_rule a = al_rule (alarm_at m (rs_current s))"
    "alarm_wf (m\<lparr>am_rules := (am_rules m)(r \<mapsto> s')\<rparr>) (rs_current s) (seen m o1 (alarm_at m (rs_current s))) \<Longrightarrow>
     alarm_wf (m\<lparr>am_rules := (am_rules m)(r \<mapsto> s')\<rparr>) (rs_current s) a"
  shows "al_id a \<noteq> []"
    "am_inv (m\<lparr>am_rules := (am_rules m)(r \<mapsto> s'), am_alarms := (am_alarms m)(al_id a \<mapsto> a)\<rparr>)"
proof -
  obtain b where b: "al_rule b = r" "alarm_at m (rs_current s) = b" "alarm_wf m (rs_current s) b"
    "al_status b \<noteq> AlarmStatusCleared" "al_id b = rs_current s" "rs_current s \<noteq> []"
    using assms(1,2,3) by (rule current_alarm)
  have "1 \<le> am_limit m" using assms(1) by (rule am_invD)
  then have "alarm_wf (m\<lparr>am_rules := (am_rules m)(r \<mapsto> s')\<rparr>) (rs_current s) a"
    using seen_wf [OF b(3) _ b(4), of s s' o1] assms(2,4,5,8) b(1,2) by simp
  then show "al_id a \<noteq> []"
    "am_inv (m\<lparr>am_rules := (am_rules m)(r \<mapsto> s'), am_alarms := (am_alarms m)(al_id a \<mapsto> a)\<rparr>)"
    using am_inv_update [OF assms(1-5), of a] assms(6,7) b by simp_all
qed

lemma Observe_inv:
  assumes "am_inv m" "fresh_ids env m"
  shows "am_inv (fst (Observe env o1 m))"
proof -
  obtain m' a t err where ob: "Observe env o1 m = (m', a, t, err)" by (metis prod.exhaust)
  from ob have "am_inv m'"
  proof (cases rule: Observe_cases)
    case (accepted s cid o2 s' err')
    let ?r = "obs_rule o1"
    have wf: "rule_wf m ?r s" using assms(1) accepted(1) by (rule am_invD)
    note seen = am_inv_seen [OF assms(1) accepted(1), of s' a o2]
    from accepted(4) show ?thesis
    proof (cases rule: applyObservation_cases)
      case (raised i)
      have i: "i \<noteq> []" "am_alarms m i = None" "1 \<le> am_limit m"
        using assms raised(3) by (auto simp: fresh_ids_def am_inv_def)
      have "alarm_wf (m\<lparr>am_rules := (am_rules m)(?r \<mapsto> s')\<rparr>) i a"
        using raised i wf appendEvidence_bound [of "[]" "am_limit m" "obs_evidence o2"]
        by (auto simp: alarm_wf_def rule_wf_def)
      then have "am_inv (m\<lparr>am_rules := (am_rules m)(?r \<mapsto> s'), am_alarms := (am_alarms m)(i \<mapsto> a)\<rparr>)"
        using raised i wf idle_cleared [OF assms(1) accepted(1)]
        by (intro am_inv_write [OF assms(1) accepted(1)]) (auto simp: rule_wf_def)
      then show ?thesis using accepted(5) raised i by simp
    next
      case (repeated a0)
      have "alarm_wf M (rs_current s) a"
        if "alarm_wf M (rs_current s) (seen m o2 (alarm_at m (rs_current s)))" for M
        unfolding repeated using that repeated(1) by (intro alarm_wf_escalate) auto
      from seen [OF _ _ _ _ _ this] repeated accepted(5) show ?thesis by simp
    next
      case quiet
      have "am_inv (m\<lparr>am_rules := (am_rules m)(?r \<mapsto> s')\<rparr>)"
        using quiet am_inv_rule [OF assms(1) accepted(1), of s'] by simp
      moreover have "al_id a \<noteq> [] \<Longrightarrow> (am_alarms m)(al_id a \<mapsto> a) = am_alarms m"
        using quiet wf am_invD(2) [OF assms(1)]
        by (auto simp: rule_wf_def alarm_at_def alarm_wf_def fun_upd_idem split: if_splits)
      ultimately show ?thesis using accepted(5) by simp
    next
      case pending
      then show ?thesis using accepted(5) seen by auto
    next
      case cleared
      have "alarm_wf M (rs_current s) a"
        if "alarm_wf M (rs_current s) (seen m o2 (alarm_at m (rs_current s)))" for M
        unfolding cleared using that cleared(1) by (intro alarm_wf_clear) auto
      from seen [OF _ _ _ _ _ this] cleared accepted(5) show ?thesis by simp
    qed (use accepted(5) am_inv_rule [OF assms(1) accepted(1), of s'] in simp_all)
  qed (use assms in simp_all)
  with ob show ?thesis by simp
qed

lemma am_inv_alarm:
  assumes "am_inv m" "am_alarms m i = Some a" "al_rule b = al_rule a" "alarm_wf m i b"
  shows "am_inv (m\<lparr>am_alarms := (am_alarms m)(i \<mapsto> b)\<rparr>)"
proof -
  have "rule_wf (m\<lparr>am_alarms := (am_alarms m)(i \<mapsto> b)\<rparr>) r s" if "am_rules m r = Some s" for r s
    using am_invD(1) [OF assms(1) that] assms(2,3) by (auto simp: rule_wf_def)
  with assms(1,4) show ?thesis by (auto simp: am_inv_def)
qed

lemma Acknowledge_inv: "am_inv m \<Longrightarrow> am_inv (fst (Acknowledge env i m))"
  by (auto simp: Acknowledge_def Let_def split: option.splits
      intro!: am_inv_alarm alarm_wf_acknowledge intro: am_invD(2))

lemma Clear_inv: "am_inv m \<Longrightarrow> am_inv (fst (Clear env i m))"
  by (auto simp: Clear_def Let_def split: option.splits
      intro!: am_inv_alarm alarm_wf_clear intro: am_invD(2))

lemma RegisterRule_inv:
  assumes "am_inv m"
  shows "am_inv (fst (RegisterRule env r m))"
proof (cases "snd (RegisterRule env r m)")
  case (Some e)
  then have "fst (RegisterRule env r m) = m"
    by (auto simp: RegisterRule_def split: option.splits if_splits)
  with assms show ?thesis by simp
next
  case None
  then have n: "validateRule r = None" "am_rules m (rule_id r) = None" "ctx_err env = None"
    by (auto simp: RegisterRule_def split: option.splits if_splits)
  let ?s = "\<lparr>rs_rule = r, rs_pending_active = None, rs_pending_clear = None, rs_last = 0, rs_current = []\<rparr>"
  let ?m = "m\<lparr>am_rules := (am_rules m)(rule_id r \<mapsto> ?s)\<rparr>"
  have "alarm_wf ?m i a" if "am_alarms m i = Some a" for i a
    using am_invD(2) [OF assms that] n(2) by (auto simp: alarm_wf_def)
  moreover have "rule_wf ?m q s" if "am_rules ?m q = Some s" for q s
    using that am_invD(1) [OF assms, of q s] n by (auto simp: rule_wf_def split: if_splits)
  ultimately have "am_inv ?m" using assms by (simp add: am_inv_def)
  then show ?thesis using n by (simp add: RegisterRule_def)
qed

lemma am_inv_new: "am_inv (NewAlarmManager limit)"
  by (auto simp: am_inv_def NewAlarmManager_def)

section \<open>The timers and the history of a rule\<close>

text \<open>
  The history of a rule is the list of its accepted observations, newest first. The start of
  the current run of observations with the value \<open>b\<close> is \<open>None\<close> when the newest is different.
\<close>

fun run_start :: "bool \<Rightarrow> (gotime \<times> bool) list \<Rightarrow> gotime option" where
  "run_start b [] = None"
| "run_start b ((t, x) # h) = (if x = b then Some (since_or (run_start b h) t) else None)"

definition tracks :: "ident \<Rightarrow> (gotime \<times> bool) list \<Rightarrow> alarm_manager \<Rightarrow> bool" where
  "tracks r h m \<longleftrightarrow>
     (\<exists>s. am_rules m r = Some s \<and> rs_last s = (case h of [] \<Rightarrow> 0 | x # _ \<Rightarrow> fst x) \<and>
        (if idle m s then rs_pending_active s = run_start True h
         else rs_pending_active s = None \<and> rs_pending_clear s = run_start False h \<and>
              h \<noteq> [] \<and> al_condition (alarm_at m (rs_current s)) = snd (hd h)))"

text \<open>The history after a call of \<open>Observe\<close>.\<close>

definition observed :: "ident \<Rightarrow> alarm env \<Rightarrow> observation \<Rightarrow> alarm_manager \<Rightarrow> (gotime \<times> bool) list \<Rightarrow> (gotime \<times> bool) list" where
  "observed r env o1 m h =
     (case complete_obs env o1 of
        Inl _ \<Rightarrow> h
      | Inr o2 \<Rightarrow>
          (case am_rules m r of
             None \<Rightarrow> h
           | Some s \<Rightarrow>
               if obs_rule o1 \<noteq> r \<or> rs_last s \<noteq> 0 \<and> obs_at o2 \<le> rs_last s then h
               else (obs_at o2, obs_active o2) # h))"

lemma since_or_simps [simp]: "since_or None t = t" "since_or (Some x) t = x"
  by (simp_all add: since_or_def)

lemma alarm_at_update [simp]:
  "alarm_at (m\<lparr>am_rules := f\<rparr>) i = alarm_at m i"
  "alarm_at (m\<lparr>am_alarms := (am_alarms m)(j \<mapsto> a)\<rparr>) i = (if i = j then a else alarm_at m i)"
  "alarm_at (m\<lparr>am_rules := f, am_alarms := g\<rparr>) i = (case g i of None \<Rightarrow> zero_alarm | Some a \<Rightarrow> a)"
  by (auto simp: alarm_at_def)

lemma tracks_frame:
  assumes "tracks r h m" "am_rules m' r = am_rules m r"
    "\<And>s. am_rules m r = Some s \<Longrightarrow> rs_current s \<noteq> [] \<Longrightarrow> am_alarms m' (rs_current s) = am_alarms m (rs_current s)"
  shows "tracks r h m'"
proof -
  have "idle m' s = idle m s" "\<not> idle m s \<Longrightarrow> alarm_at m' (rs_current s) = alarm_at m (rs_current s)"
    if "am_rules m r = Some s" for s
    using assms(3) [OF that] by (cases "rs_current s = []"; simp add: idle_def alarm_at_def)+
  with assms(1,2) show ?thesis unfolding tracks_def by (auto split: if_splits)
qed

text \<open>An observation of another rule writes an alarm of that other rule.\<close>

lemma observed_alarm_rule:
  assumes "am_inv m" "fresh_ids env m" "am_rules m q = Some s"
    "applyObservation env m (s\<lparr>rs_last := x\<rparr>) o2 = (s', a, t, err)" "al_id a \<noteq> []" "am_alarms m (al_id a) = Some b"
  shows "al_rule b = q"
  using assms(4)
proof (cases rule: applyObservation_cases)
  case (raised i)
  then show ?thesis using assms(2,6) by (auto simp: fresh_ids_def)
next
  case quiet
  then show ?thesis
    using assms am_invD(1) [OF assms(1,3)] am_invD(2) [OF assms(1)]
    by (auto simp: rule_wf_def alarm_wf_def alarm_at_def split: if_splits)
qed (use assms in \<open>auto elim: current_alarm\<close>)

text \<open>One accepted observation of the rule.\<close>

definition timers :: "(gotime \<times> bool) list \<Rightarrow> alarm_manager \<Rightarrow> rule_state \<Rightarrow> bool" where
  "timers h m s \<longleftrightarrow>
     (if idle m s then rs_pending_active s = run_start True h
      else rs_pending_active s = None \<and> rs_pending_clear s = run_start False h \<and>
           h \<noteq> [] \<and> al_condition (alarm_at m (rs_current s)) = snd (hd h))"

lemma tracks_timers:
  "tracks r h m \<longleftrightarrow>
     (\<exists>s. am_rules m r = Some s \<and> rs_last s = (case h of [] \<Rightarrow> 0 | x # _ \<Rightarrow> fst x) \<and> timers h m s)"
  by (simp add: tracks_def timers_def)

lemma timers_observation:
  assumes "am_inv m" "fresh_ids env m" "am_rules m r = Some s" "timers h m s"
    "applyObservation env m (s\<lparr>rs_last := obs_at o2\<rparr>) o2 = (s', a, t, err)"
    "m' = m\<lparr>am_rules := f, am_alarms := if al_id a \<noteq> [] then (am_alarms m)(al_id a \<mapsto> a) else am_alarms m\<rparr>"
  shows "timers ((obs_at o2, obs_active o2) # h) m' s'" "rs_last s' = obs_at o2"
proof -
  from assms(5) show "rs_last s' = obs_at o2" by (cases rule: applyObservation_cases) auto
  have at: "alarm_at m' i = (if al_id a \<noteq> [] \<and> i = al_id a then a else alarm_at m i)" for i
    unfolding assms(6) by (simp add: alarm_at_def)
  from assms(5) show "timers ((obs_at o2, obs_active o2) # h) m' s'"
  proof (cases rule: applyObservation_cases)
    case (raised i)
    then have "i \<noteq> []" using assms(2) by (auto simp: fresh_ids_def)
    with raised at show ?thesis by (simp add: timers_def idle_def)
  next
    case (repeated a0)
    then have "\<not> idle m s" by simp
    with assms(1,3) obtain b where "al_id a = rs_current s" "rs_current s \<noteq> []" "al_status a \<noteq> AlarmStatusCleared"
      using repeated by (elim current_alarm) auto
    with repeated at assms(4) show ?thesis by (auto simp: timers_def idle_def)
  next
    case quiet
    have "alarm_at m' (rs_current s) = alarm_at m (rs_current s)"
      using quiet by (simp add: at)
    with quiet assms(4) show ?thesis by (auto simp: timers_def idle_def)
  next
    case pending
    then have "\<not> idle m s" by simp
    with assms(1,3) have "al_id a = rs_current s" "rs_current s \<noteq> []" "al_status a \<noteq> AlarmStatusCleared"
      using pending by (auto elim: current_alarm)
    with pending at assms(4) show ?thesis by (auto simp: timers_def idle_def)
  next
    case cleared
    then have "\<not> idle m s" by simp
    with assms(1,3) have "al_id a = rs_current s" "rs_current s \<noteq> []"
      using cleared by (auto elim: current_alarm)
    with cleared at assms(4) show ?thesis by (auto simp: timers_def idle_def)
  qed (use at assms(4) in \<open>auto simp: timers_def idle_def\<close>)
qed

lemma tracks_Observe:
  assumes "am_inv m" "fresh_ids env m" "tracks r h m"
  shows "tracks r (observed r env o1 m h) (fst (Observe env o1 m))"
proof -
  obtain m' a t err where ob: "Observe env o1 m = (m', a, t, err)" by (metis prod.exhaust)
  obtain s where s: "am_rules m r = Some s" "rs_last s = (case h of [] \<Rightarrow> 0 | x # _ \<Rightarrow> fst x)" "timers h m s"
    using assms(3) unfolding tracks_timers by blast
  from ob have "tracks r (observed r env o1 m h) m'"
  proof (cases rule: Observe_cases)
    case rejected
    then show ?thesis using assms(3) s by (auto simp: observed_def split: sum.splits)
  next
    case (stale s0)
    then have "observed r env o1 m h = h"
      by (auto simp: observed_def dest!: complete_obs_Inr split: sum.splits option.splits)
    then show ?thesis using stale assms(3) by simp
  next
    case (accepted s0 cid o2 s' err')
    show ?thesis
    proof (cases "obs_rule o1 = r")
      case True
      then have "s0 = s" using accepted(1) s(1) by simp
      have x: "obs_at o2 = obs_time env o1" "obs_active o2 = obs_active o1" using accepted(3) by simp_all
      have "observed r env o1 m h = (obs_at o2, obs_active o2) # h"
        using accepted True s x \<open>s0 = s\<close> by (auto simp: observed_def)
      moreover have "timers ((obs_at o2, obs_active o2) # h) m' s'" "rs_last s' = obs_at o2"
        using timers_observation [OF assms(1,2) s(1,3), of o2 s' a t err' m' "(am_rules m)(r \<mapsto> s')"]
          accepted(4,5) True x \<open>s0 = s\<close> by simp_all
      ultimately show ?thesis using accepted(5) True by (simp add: tracks_timers)
    next
      case False
      then have "observed r env o1 m h = h" by (simp add: observed_def split: sum.splits option.splits)
      moreover have "tracks r h m'"
      proof (rule tracks_frame [OF assms(3)])
        show "am_rules m' r = am_rules m r" using accepted(5) False by simp
        fix u assume u: "am_rules m r = Some u" "rs_current u \<noteq> []"
        then obtain b where b: "am_alarms m (rs_current u) = Some b" "al_rule b = r"
          using am_invD(1) [OF assms(1) u(1)] by (auto simp: rule_wf_def)
        then have "al_id a \<noteq> [] \<Longrightarrow> al_id a \<noteq> rs_current u"
          using observed_alarm_rule [OF assms(1,2) accepted(1,4)] False by auto
        then show "am_alarms m' (rs_current u) = am_alarms m (rs_current u)" using accepted(5) by auto
      qed
      ultimately show ?thesis by simp
    qed
  qed
  with ob show ?thesis by simp
qed

text \<open>Acknowledging and clearing by hand leave the timers in step with the history.\<close>

lemma tracks_Acknowledge:
  assumes "tracks r h m"
  shows "tracks r h (fst (Acknowledge env i m))"
proof -
  have "timers h (fst (Acknowledge env i m)) s" if "timers h m s" for s
    using that by (auto simp: Acknowledge_def Let_def timers_def idle_def alarm_at_def split: option.splits if_splits)
  moreover have "am_rules (fst (Acknowledge env i m)) = am_rules m"
    by (simp add: Acknowledge_def Let_def split: option.splits)
  ultimately show ?thesis using assms by (auto simp: tracks_timers)
qed

lemma tracks_Clear:
  assumes "tracks r h m"
  shows "tracks r h (fst (Clear env i m))"
proof -
  have "timers h (fst (Clear env i m)) s" if t: "timers h m s" for s
  proof (cases "i = rs_current s \<and> \<not> idle m s")
    case True
    have "run_start True h = None" if "h \<noteq> []" "\<not> snd (hd h)" using that by (cases h) auto
    with True t show ?thesis
      by (auto simp: Clear_def Let_def timers_def idle_def alarm_at_def split: option.splits if_splits)
  next
    case False
    with t show ?thesis
      by (auto simp: Clear_def Let_def timers_def idle_def alarm_at_def split: option.splits if_splits)
  qed
  moreover have "am_rules (fst (Clear env i m)) = am_rules m"
    by (simp add: Clear_def Let_def split: option.splits)
  ultimately show ?thesis using assms by (auto simp: tracks_timers)
qed

lemma tracks_RegisterRule:
  assumes "tracks r h m"
  shows "tracks r h (fst (RegisterRule env q m))"
proof (rule tracks_frame [OF assms])
  show "am_rules (fst (RegisterRule env q m)) r = am_rules m r"
    using assms by (auto simp: RegisterRule_def tracks_def split: option.splits)
  show "am_alarms (fst (RegisterRule env q m)) (rs_current s) = am_alarms m (rs_current s)" for s
    by (simp add: RegisterRule_def split: option.splits)
qed

lemma tracks_new:
  "snd (RegisterRule env r m) = None \<Longrightarrow> tracks (rule_id r) [] (fst (RegisterRule env r m))"
  by (auto simp: RegisterRule_def tracks_def idle_def split: option.splits if_splits)

text \<open>Any sequence of operations after the registration of the rule, with its history.\<close>

inductive am_reach :: "rule \<Rightarrow> (gotime \<times> bool) list \<Rightarrow> alarm_manager \<Rightarrow> bool" for q where
  registered: "am_inv m \<Longrightarrow> snd (RegisterRule env q m) = None \<Longrightarrow> am_reach q [] (fst (RegisterRule env q m))"
| observe: "am_reach q h m \<Longrightarrow> fresh_ids env m \<Longrightarrow>
    am_reach q (observed (rule_id q) env o1 m h) (fst (Observe env o1 m))"
| acknowledge: "am_reach q h m \<Longrightarrow> am_reach q h (fst (Acknowledge env i m))"
| clear: "am_reach q h m \<Longrightarrow> am_reach q h (fst (Clear env i m))"
| register: "am_reach q h m \<Longrightarrow> am_reach q h (fst (RegisterRule env q' m))"

lemma am_reach_tracks: "am_reach q h m \<Longrightarrow> am_inv m \<and> tracks (rule_id q) h m"
  by (induction rule: am_reach.induct)
     (auto intro: RegisterRule_inv tracks_new Observe_inv tracks_Observe Acknowledge_inv tracks_Acknowledge
       Clear_inv tracks_Clear tracks_RegisterRule)

lemma observe_transition:
  assumes "tracks r h m" "am_rules m r = Some s" "obs_rule o1 = r" "observed r env o1 m h = (x, obs_active o1) # h"
    "Observe env o1 m = (m', a, t, err)"
  shows "t = TransitionRaised \<longleftrightarrow>
      idle m s \<and> obs_active o1 \<and> (\<exists>i. env_new_id env = Inr i) \<and>
      rule_debounce (rs_rule s) \<le> time_sub x (the (run_start True ((x, True) # h)))" (is ?raised)
    "t = TransitionCleared \<longleftrightarrow>
      \<not> idle m s \<and> \<not> obs_active o1 \<and> \<not> rule_latching (rs_rule s) \<and>
      rule_hysteresis (rs_rule s) \<le> time_sub x (the (run_start False ((x, False) # h)))" (is ?cleared)
proof -
  have tm: "timers h m s" using assms(1,2) by (auto simp: tracks_timers)
  have new: "observed r env o1 m h \<noteq> h" using assms(4) by simp
  from assms(5) have "?raised \<and> ?cleared"
  proof (cases rule: Observe_cases)
    case rejected
    then have "observed r env o1 m h = h" using assms(2,3) by (auto simp: observed_def)
    with new show ?thesis by auto
  next
    case (stale s0)
    then have "observed r env o1 m h = h"
      using assms(3) by (auto simp: observed_def dest!: complete_obs_Inr split: sum.splits option.splits)
    with new show ?thesis by auto
  next
    case (accepted s0 cid o2 s' err')
    have s0: "s0 = s" using accepted(1) assms(2,3) by simp
    have "x = obs_at o2"
      using assms(2,3,4) accepted(1,2,3,7) s0 by (auto simp: observed_def)
    then have o2: "obs_at o2 = x" "obs_active o2 = obs_active o1" "obs_time env o1 = x"
      using accepted(3) by simp_all
    from accepted(4) [unfolded s0 o2(3)] show ?thesis
      by (cases rule: applyObservation_cases; use tm o2 in \<open>auto simp: timers_def\<close>)
  qed
  then show ?raised ?cleared by blast+
qed

section \<open>Interpretation\<close>

interpretation alarm_component: component "\<lambda>_. ''alarms''" am_start am_stop am_health
  by unfold_locales (auto simp: am_health_def am_start_def am_stop_def)

section \<open>Properties\<close>

text \<open>
  C14. Debounce and hysteresis: whatever the manager has seen of a rule, an accepted observation
  raises an alarm exactly when none is open and the condition has been active, in every accepted
  observation, for at least the rule's debounce time, and it clears the open alarm exactly when the
  rule does not latch and the condition has been inactive for at least its hysteresis time.
\<close>

theorem debounce_and_hysteresis:
  assumes "am_reach q h m" "am_rules m (rule_id q) = Some s" "obs_rule o1 = rule_id q"
    and "observed (rule_id q) env o1 m h = (x, obs_active o1) # h" "Observe env o1 m = (m', a, t, err)"
  shows "(t = TransitionRaised \<longleftrightarrow>
      idle m s \<and> obs_active o1 \<and> (\<exists>i. env_new_id env = Inr i) \<and>
      rule_debounce (rs_rule s) \<le> time_sub x (the (run_start True ((x, True) # h)))) \<and>
    (t = TransitionCleared \<longleftrightarrow>
      \<not> idle m s \<and> \<not> obs_active o1 \<and> \<not> rule_latching (rs_rule s) \<and>
      rule_hysteresis (rs_rule s) \<le> time_sub x (the (run_start False ((x, False) # h))))"
  using observe_transition [of "rule_id q", OF _ assms(2-5)] am_reach_tracks [OF assms(1)] by simp

text \<open>
  In every reachable state a rule has at most one alarm that is not cleared, it is the one the rule
  points to, a cleared alarm's condition is inactive, and no alarm holds more evidence than the limit.
\<close>

theorem one_open_alarm_per_rule:
  assumes "am_reach q h m" "am_alarms m i = Some a" "am_alarms m j = Some b" "al_rule a = al_rule b"
  shows "(if al_status a \<noteq> AlarmStatusCleared \<and> al_status b \<noteq> AlarmStatusCleared then i = j else True) \<and>
    (if al_status a = AlarmStatusCleared then \<not> al_condition a else True) \<and> length (al_evidence a) \<le> am_limit m"
proof -
  have inv: "am_inv m" using am_reach_tracks [OF assms(1)] by blast
  note a = am_invD(2) [OF inv assms(2), unfolded alarm_wf_def] and b = am_invD(2) [OF inv assms(3), unfolded alarm_wf_def]
  obtain s where s: "am_rules m (al_rule a) = Some s" "al_status a \<noteq> AlarmStatusCleared \<longrightarrow> rs_current s = i"
    using a by blast
  have "al_status b \<noteq> AlarmStatusCleared \<longrightarrow> rs_current s = j" using b s(1) assms(4) by fastforce
  with s(2) have "al_status a \<noteq> AlarmStatusCleared \<Longrightarrow> al_status b \<noteq> AlarmStatusCleared \<Longrightarrow> i = j" by simp
  moreover have "al_status a = AlarmStatusCleared \<Longrightarrow> \<not> al_condition a" "length (al_evidence a) \<le> am_limit m"
    using a by blast+
  ultimately show ?thesis by simp
qed

section \<open>A concrete run\<close>

definition sample_rule :: rule where
  "sample_rule =
     \<lparr>rule_id = sample_id 9, rule_code = ''temperature.high'', rule_name = ''Temperature'',
      rule_subject = \<lparr>subject_kind = ''sensor'', subject_id = sample_id 6\<rparr>, rule_severity = SeverityWarning,
      rule_debounce = 10, rule_hysteresis = 10, rule_latching = False\<rparr>"

definition sample_observation :: "gotime \<Rightarrow> observation" where
  "sample_observation t =
     \<lparr>obs_rule = sample_id 9, obs_active = True, obs_severity = SeverityWarning, obs_at = t,
      obs_evidence = \<lparr>evidence_code = ''c'', evidence_message = ''m'', evidence_metadata = None\<rparr>,
      obs_correlation = sample_id 1\<rparr>"

definition sample_rule_state :: rule_state where
  "sample_rule_state =
     \<lparr>rs_rule = sample_rule, rs_pending_active = None, rs_pending_clear = None, rs_last = 0, rs_current = []\<rparr>"

definition alarms_registered :: alarm_manager where
  "alarms_registered = fst (RegisterRule sample_env sample_rule (NewAlarmManager 4))"

definition alarms_debouncing :: alarm_manager where
  "alarms_debouncing = fst (Observe sample_env (sample_observation 5) alarms_registered)"

lemma sample_fresh: "am_alarms m = Map.empty \<Longrightarrow> fresh_ids sample_env m"
  by (simp add: fresh_ids_def)

lemma alarms_registered_state:
  "am_rules alarms_registered = [sample_id 9 \<mapsto> sample_rule_state]" "am_alarms alarms_registered = Map.empty"
  "am_limit alarms_registered = 4"
  "snd (RegisterRule sample_env sample_rule (NewAlarmManager 4)) = None"
  by (auto simp: alarms_registered_def RegisterRule_def validateRule_def sample_rule_def NewAlarmManager_def
      sample_rule_state_def wrap_def)

lemma alarms_debouncing_state:
  "am_rules alarms_debouncing =
     [sample_id 9 \<mapsto> sample_rule_state\<lparr>rs_pending_active := Some 5, rs_last := 5\<rparr>]"
  "am_alarms alarms_debouncing = Map.empty" "am_limit alarms_debouncing = 4"
  by (simp_all add: alarms_debouncing_def Observe_def complete_obs_def obs_time_def sample_observation_def
      alarms_registered_state applyObservation_def sample_rule_state_def sample_rule_def Let_def time_sub_def
      zero_alarm_def)

lemma alarms_debouncing_reach: "am_reach sample_rule [(5, True)] alarms_debouncing"
proof -
  have "am_reach sample_rule [] alarms_registered"
    unfolding alarms_registered_def
    by (rule am_reach.registered [OF am_inv_new alarms_registered_state(4)])
  from am_reach.observe [OF this sample_fresh [OF alarms_registered_state(2)], of "sample_observation 5"]
  show ?thesis
    by (simp add: alarms_debouncing_def observed_def complete_obs_def obs_time_def sample_observation_def
        alarms_registered_state sample_rule_def sample_rule_state_def)
qed

theorem debounce_and_hysteresis_witness:
  "fst (snd (snd (Observe sample_env (sample_observation 15) alarms_debouncing))) = TransitionRaised"
proof -
  obtain m' a t err where o1: "Observe sample_env (sample_observation 15) alarms_debouncing = (m', a, t, err)"
    by (metis prod.exhaust)
  have s: "am_rules alarms_debouncing (rule_id sample_rule) =
      Some (sample_rule_state\<lparr>rs_pending_active := Some 5, rs_last := 5\<rparr>)"
    by (simp add: alarms_debouncing_state sample_rule_def)
  have "observed (rule_id sample_rule) sample_env (sample_observation 15) alarms_debouncing [(5, True)] =
      (15, obs_active (sample_observation 15)) # [(5, True)]"
    by (simp add: observed_def complete_obs_def obs_time_def sample_observation_def alarms_debouncing_state
        sample_rule_def)
  from debounce_and_hysteresis [OF alarms_debouncing_reach s _ this o1]
  have "t = TransitionRaised"
    by (simp add: sample_observation_def sample_rule_def sample_rule_state_def time_sub_def idle_def)
  then show ?thesis by (simp add: o1)
qed

theorem one_open_alarm_per_rule_witness:
  "\<exists>i a. am_alarms (fst (Observe sample_env (sample_observation 15) alarms_debouncing)) i = Some a \<and>
     length (al_evidence a) \<le> 4"
proof -
  let ?m = "fst (Observe sample_env (sample_observation 15) alarms_debouncing)"
  have "am_reach sample_rule (observed (rule_id sample_rule) sample_env (sample_observation 15) alarms_debouncing [(5, True)]) ?m"
    by (rule am_reach.observe [OF alarms_debouncing_reach sample_fresh [OF alarms_debouncing_state(2)]])
  moreover have "\<exists>a. am_alarms ?m (sample_id 2) = Some a" "am_limit ?m = 4"
    by (simp_all add: Observe_def complete_obs_def obs_time_def sample_observation_def alarms_debouncing_state
        applyObservation_def sample_rule_state_def sample_rule_def Let_def time_sub_def)
  ultimately show ?thesis using one_open_alarm_per_rule by metis
qed

end
