(* ===== verification/Sha256.thy ===== *)
theory Sha256
  imports Domain
begin

text \<open>
  \<open>crypto/sha256\<close> of the Go standard library (FIPS 180-4), which the alarm evaluator uses to
  derive stable rule identifiers: padding, message schedule, compression and the digest as bytes.
\<close>

type_synonym w32 = "32 word"

definition rotr :: "nat \<Rightarrow> w32 \<Rightarrow> w32" where
  "rotr n x = drop_bit n x OR push_bit (32 - n) x"

text \<open>
  The constants are, by the standard, the first 32 bits of the fractional parts of the cube roots
  of the first 64 primes and of the square roots of the first eight. \<open>root_from k n b r\<close> finds
  the integer part of the \<open>k\<close>-th root of \<open>n\<close> bit by bit from the top, and conversion
  to a word drops the integer part of the prime's root.
\<close>

fun root_from :: "nat \<Rightarrow> int \<Rightarrow> nat \<Rightarrow> int \<Rightarrow> int" where
  "root_from k n 0 r = r"
| "root_from k n (Suc b) r = root_from k n b (if (r + 2 ^ b) ^ k \<le> n then r + 2 ^ b else r)"

definition sha_primes :: "int list" where
  "sha_primes =
     [2, 3, 5, 7, 11, 13, 17, 19, 23, 29, 31, 37, 41, 43, 47, 53, 59, 61, 67, 71, 73, 79, 83, 89, 97, 101, 103,
      107, 109, 113, 127, 131, 137, 139, 149, 151, 157, 163, 167, 173, 179, 181, 191, 193, 197, 199, 211, 223,
      227, 229, 233, 239, 241, 251, 257, 263, 269, 271, 277, 281, 283, 293, 307, 311]"

definition root_fraction :: "nat \<Rightarrow> int \<Rightarrow> w32" where
  "root_fraction k p = of_int (root_from k (p * 2 ^ (32 * k)) 36 0)"

definition sha_k :: "w32 list" where
  "sha_k = map (root_fraction 3) sha_primes"

definition sha_init :: "w32 list" where
  "sha_init = map (root_fraction 2) (take 8 sha_primes)"

definition sigma0 :: "w32 \<Rightarrow> w32" where
  "sigma0 x = rotr 7 x XOR rotr 18 x XOR drop_bit 3 x"

definition sigma1 :: "w32 \<Rightarrow> w32" where
  "sigma1 x = rotr 17 x XOR rotr 19 x XOR drop_bit 10 x"

definition big_sigma0 :: "w32 \<Rightarrow> w32" where
  "big_sigma0 x = rotr 2 x XOR rotr 13 x XOR rotr 22 x"

definition big_sigma1 :: "w32 \<Rightarrow> w32" where
  "big_sigma1 x = rotr 6 x XOR rotr 11 x XOR rotr 25 x"

text \<open>The message schedule, extended one word at a time.\<close>

fun schedule :: "nat \<Rightarrow> w32 list \<Rightarrow> w32 list" where
  "schedule 0 w = w"
| "schedule (Suc n) w =
     (let i = length w
      in schedule n (w @ [sigma1 (w ! (i - 2)) + w ! (i - 7) + sigma0 (w ! (i - 15)) + w ! (i - 16)]))"

text \<open>One round, on the eight working variables.\<close>

fun sha_round :: "w32 list \<Rightarrow> w32 \<times> w32 \<Rightarrow> w32 list" where
  "sha_round [a, b, c, d, e, f, g, h] (k, w) =
     (let t1 = h + big_sigma1 e + ((e AND f) XOR (NOT e AND g)) + k + w;
          t2 = big_sigma0 a + ((a AND b) XOR (a AND c) XOR (b AND c))
      in [t1 + t2, a, b, c, d + t1, e, f, g])"
| "sha_round s _ = s"

fun be_words :: "byte list \<Rightarrow> w32 list" where
  "be_words (a # b # c # d # bs) =
     (push_bit 24 (ucast a) OR push_bit 16 (ucast b) OR push_bit 8 (ucast c) OR ucast d) # be_words bs"
| "be_words _ = []"

definition be_bytes :: "w32 \<Rightarrow> byte list" where
  "be_bytes x = [ucast (drop_bit 24 x), ucast (drop_bit 16 x), ucast (drop_bit 8 x), ucast x]"

definition compress :: "w32 list \<Rightarrow> byte list \<Rightarrow> w32 list" where
  "compress h block =
     map2 (+) h (fold (\<lambda>kw s. sha_round s kw) (zip sha_k (schedule 48 (be_words block))) h)"

function blocks :: "byte list \<Rightarrow> byte list list" where
  "blocks bs = (if length bs < 64 then [] else take 64 bs # blocks (drop 64 bs))"
  by auto
termination by (relation "measure length") auto

declare blocks.simps [simp del]

definition pad :: "byte list \<Rightarrow> byte list" where
  "pad bs =
     (let n = length bs; z = (119 - n mod 64) mod 64; bits = (of_nat (8 * n) :: 64 word)
      in bs @ [0x80] @ replicate z 0 @ map (\<lambda>i. ucast (drop_bit (8 * (7 - i)) bits)) [0..<8])"

definition sha256 :: "byte list \<Rightarrow> byte list" where
  "sha256 bs = concat (map be_bytes (fold (\<lambda>b h. compress h b) (blocks (pad bs)) sha_init))"

section \<open>Lemmas\<close>

lemma root_from_bounds:
  "r ^ k \<le> n \<Longrightarrow> n < (r + 2 ^ b) ^ k \<Longrightarrow> root_from k n b r ^ k \<le> n \<and> n < (root_from k n b r + 1) ^ k"
proof (induction b arbitrary: r)
  case (Suc b)
  have "r + 2 ^ b + 2 ^ b = r + 2 ^ Suc b" by simp
  then show ?case using Suc.prems Suc.IH [of "r + 2 ^ b"] Suc.IH [of r] 
    by (simp only: root_from.simps not_le split: if_split) blast
qed simp

lemma root_fraction_digits: "root_fraction 3 2 = 0x428a2f98" "root_fraction 2 2 = 0x6a09e667"
  by code_simp+

lemma length_sha_round [simp]: "length (sha_round s kw) = length s"
  by (induction s kw rule: sha_round.induct) (auto simp: Let_def)

lemma length_rounds [simp]: "length (fold (\<lambda>kw s. sha_round s kw) kws s) = length s"
  by (induction kws arbitrary: s) auto

lemma length_compress [simp]: "length (compress h b) = length h"
  by (simp add: compress_def)

lemma length_digest_words [simp]: "length (fold (\<lambda>b h. compress h b) bs h) = length h"
  by (induction bs arbitrary: h) auto

lemma length_sha256: "length (sha256 bs) = 32"
proof -
  have "length (concat (map be_bytes ws)) = 4 * length ws" for ws
    by (induction ws) (auto simp: be_bytes_def)
  then show ?thesis by (simp add: sha256_def) (simp add: sha_init_def sha_primes_def)
qed

lemma pad_zeros: "m < 64 \<Longrightarrow> m + (9 + (119 - m) mod 64) = (if m \<le> 55 then 64 else (128::nat))"
proof (cases "m \<le> 55")
  case True
  then have "119 - m = 64 + (55 - m)" by arith
  then have "(119 - m) mod 64 = (55 - m) mod 64" by (simp only: mod_add_self1)
  with True show ?thesis by simp
qed simp

lemma length_pad: "64 dvd length (pad bs)"
proof -
  define m where "m = length bs mod 64"
  have n: "length bs = 64 * (length bs div 64) + m" by (simp add: m_def)
  have "length (pad bs) = length bs + (9 + (119 - m) mod 64)" by (simp add: pad_def Let_def m_def)
  then have "length (pad bs) = 64 * (length bs div 64) + (m + (9 + (119 - m) mod 64))"
    by (subst (asm) n) (simp only: add.assoc)
  moreover have "m < 64" by (simp add: m_def)
  ultimately show ?thesis by (simp only: pad_zeros) (simp split: if_split)
qed

end
