(* ===== verification/Evaluator.thy ===== *)
theory Evaluator
  imports Alarms Sha256
begin

text \<open>
  The package \<open>internal/alarms\<close>, the threshold evaluator (\<open>evaluator.go\<close>): it subscribes to
  state events on the bus and turns each good measurement of a sensor into one observation per
  threshold rule configured for it.

  The product and the sum of \<open>Value*Scale + Offset\<close> are rounded one after the other, as on
  amd64; Go allows platforms to fuse them.
\<close>

section \<open>Threshold rules\<close>

record threshold_rule =
  th_id :: string
  th_name :: string
  th_sensor :: ident
  th_condition :: string
  th_threshold :: float64
  th_high :: "float64 option"
  th_severity :: severity
  th_delay :: duration
  th_clear_delay :: duration
  th_latching :: bool
  th_scale :: float64
  th_offset :: float64

record evaluator =
  ev_rules :: "ident \<rightharpoonup> threshold_rule list"
  ev_subscription :: "nat option"
  ev_started :: bool

definition oneOfCondition :: "string \<Rightarrow> bool" where
  "oneOfCondition value \<longleftrightarrow>
     value = ''above'' \<or> value = ''below'' \<or> value = ''outside'' \<or> value = ''true'' \<or> value = ''false''"

definition threshold_invalid :: "threshold_rule \<Rightarrow> bool" where
  "threshold_invalid r \<longleftrightarrow>
     validateUUID (th_sensor r) \<noteq> None \<or> th_id r = [] \<or> th_name r = [] \<or> \<not> oneOfCondition (th_condition r) \<or>
     severity_rank (th_severity r) = 0 \<or> th_delay r < 0 \<or> th_clear_delay r < 0"

definition rules_for :: "(ident \<rightharpoonup> threshold_rule list) \<Rightarrow> ident \<Rightarrow> threshold_rule list" where
  "rules_for rs i = (case rs i of None \<Rightarrow> [] | Some xs \<Rightarrow> xs)"

fun add_thresholds :: "threshold_rule list \<Rightarrow> (ident \<rightharpoonup> threshold_rule list) \<Rightarrow> go_error + (ident \<rightharpoonup> threshold_rule list)" where
  "add_thresholds [] acc = Inr acc"
| "add_thresholds (r # rs) acc =
     (if threshold_invalid r then Inl (ErrorString ''alarm threshold rule is invalid'')
      else let r = (if f64_eq (th_scale r) (Finite 0) then r\<lparr>th_scale := Finite 1\<rparr> else r)
           in add_thresholds rs (acc(th_sensor r \<mapsto> rules_for acc (th_sensor r) @ [r])))"

text \<open>\<open>NewEvaluator\<close>; the first argument says whether bus and engine were given.\<close>

definition NewEvaluator :: "bool \<Rightarrow> threshold_rule list \<Rightarrow> go_error + evaluator" where
  "NewEvaluator dependencies rules =
     (if \<not> dependencies then Inl (ErrorString ''alarm evaluator dependencies are required'')
      else case add_thresholds rules Map.empty of
        Inl err \<Rightarrow> Inl err
      | Inr m \<Rightarrow> Inr \<lparr>ev_rules = m, ev_subscription = None, ev_started = False\<rparr>)"

definition thresholdRuleID :: "string \<Rightarrow> ident" where
  "thresholdRuleID value =
     (let sum = version4 (sha256 (map of_char (''aquaos-alarm-rule:'' @ value)));
          hexValue = hex_encode (take 16 sum)
      in take 8 hexValue @ ''-'' @ take 4 (drop 8 hexValue) @ ''-'' @ take 4 (drop 12 hexValue) @ ''-'' @
         take 4 (drop 16 hexValue) @ ''-'' @ take 12 (drop 20 hexValue))"

definition threshold_alarm_rule :: "threshold_rule \<Rightarrow> rule" where
  "threshold_alarm_rule t =
     \<lparr>rule_id = thresholdRuleID (th_id t), rule_code = ''sensor.threshold.'' @ th_condition t,
      rule_name = th_name t, rule_subject = \<lparr>subject_kind = ''sensor'', subject_id = th_sensor t\<rparr>,
      rule_severity = th_severity t, rule_debounce = th_delay t, rule_hysteresis = th_clear_delay t,
      rule_latching = th_latching t\<rparr>"

section \<open>Lifecycle\<close>

fun register_all :: "alarm env \<Rightarrow> threshold_rule list \<Rightarrow> alarm_manager \<Rightarrow> alarm_manager \<times> go_error option" where
  "register_all env [] m = (m, None)"
| "register_all env (t # ts) m =
     (case RegisterRule env (threshold_alarm_rule t) m of
        (m, Some err) \<Rightarrow> (m, Some (Wrapped ''register configured alarm rule'' err))
      | (m, None) \<Rightarrow> register_all env ts m)"

text \<open>\<open>Start\<close>; the order of the map of rules is the second argument.\<close>

definition ev_start ::
  "alarm env \<Rightarrow> ident list \<Rightarrow> evaluator \<times> alarm_manager \<times> bus \<Rightarrow> (evaluator \<times> alarm_manager \<times> bus) \<times> go_error option"
where
  "ev_start env ord = (\<lambda>(e, m, b).
     case register_all env (concat (go_range (ev_rules e) ord)) m of
       (m, Some err) \<Rightarrow> ((e, m, b), Some err)
     | (m, None) \<Rightarrow>
         (case subscribe b StateChanged True of
            (b, (_, Some err)) \<Rightarrow> ((e, m, b), Some err)
          | (b, (n, None)) \<Rightarrow> ((e\<lparr>ev_subscription := n, ev_started := True\<rparr>, m, b), None)))"

definition ev_stop :: "evaluator \<times> bus \<Rightarrow> evaluator \<times> bus" where
  "ev_stop = (\<lambda>(e, b).
     (e\<lparr>ev_subscription := None, ev_started := False\<rparr>,
      case ev_subscription e of None \<Rightarrow> b | Some n \<Rightarrow> unsubscribe b n))"

definition ev_health :: "gotime \<Rightarrow> evaluator \<Rightarrow> status" where
  "ev_health now e = started_status ''alarm-evaluator'' (ev_started e) now"

section \<open>Evaluation\<close>

definition threshold_evidence :: "threshold_rule \<Rightarrow> evidence" where
  "threshold_evidence r =
     \<lparr>evidence_code = ''sensor.threshold'', evidence_message = ''configured sensor threshold evaluated'',
      evidence_metadata = Some [''condition'' \<mapsto> th_condition r]\<rparr>"

text \<open>
  \<open>evaluate\<close>. A value whose kind announces a quantity or a boolean it does not have is a nil
  dereference: a panic.
\<close>

definition condition_active :: "threshold_rule \<Rightarrow> float64 \<Rightarrow> bool \<Rightarrow> go_error + bool" where
  "condition_active r numeric boolean =
     (if th_condition r = ''above'' then Inr (f64_lt (th_threshold r) numeric)
      else if th_condition r = ''below'' then Inr (f64_lt numeric (th_threshold r))
      else if th_condition r = ''outside''
      then (case th_high r of
              None \<Rightarrow> Inl (ErrorString ''outside alarm threshold requires upper bound'')
            | Some high \<Rightarrow> Inr (f64_lt numeric (th_threshold r) \<or> f64_lt high numeric))
      else if th_condition r = ''true'' then Inr boolean
      else if th_condition r = ''false'' then Inr (\<not> boolean)
      else Inr False)"

definition evaluate :: "threshold_rule \<Rightarrow> state_value \<Rightarrow> (go_error + bool \<times> evidence) outcome" where
  "evaluate r v =
     (let finish = (\<lambda>numeric boolean. case condition_active r numeric boolean of
                      Inl err \<Rightarrow> Done (Inl err)
                    | Inr active \<Rightarrow> Done (Inr (active, threshold_evidence r)))
      in case value_kind (sv_value v) of
           ValueQuantity \<Rightarrow>
             (case value_quantity (sv_value v) of
                None \<Rightarrow> Panic
              | Some q \<Rightarrow> finish (f64_add (f64_mul (quantity_value q) (th_scale r)) (th_offset r)) False)
         | ValueBoolean \<Rightarrow>
             (case value_boolean (sv_value v) of
                None \<Rightarrow> Panic
              | Some b \<Rightarrow> finish (Finite 0) b)
         | _ \<Rightarrow> Done (Inl (ErrorString ''alarm threshold requires numeric or boolean state'')))"

definition threshold_observation :: "threshold_rule \<Rightarrow> bool \<Rightarrow> evidence \<Rightarrow> state_value \<Rightarrow> ident \<Rightarrow> observation" where
  "threshold_observation r active ev v correlation =
     \<lparr>obs_rule = thresholdRuleID (th_id r), obs_active = active, obs_severity = th_severity r,
      obs_at = sv_observed v, obs_evidence = ev, obs_correlation = correlation\<rparr>"

text \<open>The loop of \<open>handle\<close>; each round has its own surroundings (identifiers and clock).\<close>

fun handle_rules ::
  "(nat \<Rightarrow> alarm env) \<Rightarrow> nat \<Rightarrow> threshold_rule list \<Rightarrow> state_value \<Rightarrow> ident \<Rightarrow> alarm_manager \<Rightarrow>
   (alarm_manager \<times> go_error option) outcome"
where
  "handle_rules envs n [] v correlation m = Done (m, None)"
| "handle_rules envs n (r # rs) v correlation m =
     (case evaluate r v of
        Panic \<Rightarrow> Panic
      | Blocked \<Rightarrow> Blocked
      | Done (Inl err) \<Rightarrow> Done (m, Some err)
      | Done (Inr (active, ev)) \<Rightarrow>
          (case Observe (envs n) (threshold_observation r active ev v correlation) m of
             (m, _, _, Some err) \<Rightarrow> Done (m, Some (Wrapped ''observe configured alarm rule'' err))
           | (m, _, _, None) \<Rightarrow> handle_rules envs (Suc n) rs v correlation m))"

definition handle ::
  "(nat \<Rightarrow> alarm env) \<Rightarrow> evaluator \<Rightarrow> state_value event \<Rightarrow> alarm_manager \<Rightarrow> (alarm_manager \<times> go_error option) outcome"
where
  "handle envs e event m =
     (case ev_payload event of
        RawBytes _ \<Rightarrow> Done (m, Some (Wrapped ''decode state event'' (ErrorString ''invalid JSON'')))
      | RawJSON v \<Rightarrow>
          if key_kind (sv_key v) \<noteq> EntitySensor \<or> key_plane (sv_key v) \<noteq> PlaneObservation \<or>
             key_attribute (sv_key v) \<noteq> ''measurement'' \<or> sv_quality v \<noteq> QualityGood
          then Done (m, None)
          else handle_rules envs 0 (rules_for (ev_rules e) (key_entity (sv_key v))) v (ev_correlation event) m)"

section \<open>Lemmas: rules\<close>

lemma take_hex_encode: "take (2 * n) (hex_encode bs) = hex_encode (take n bs)"
proof (induction bs arbitrary: n)
  case (Cons b bs)
  then show ?case by (cases n) auto
qed simp

lemma drop_hex_encode: "drop (2 * n) (hex_encode bs) = hex_encode (drop n bs)"
proof (induction bs arbitrary: n)
  case (Cons b bs)
  then show ?case by (cases n) auto
qed simp

lemma take_version4: "9 \<le> n \<Longrightarrow> n \<le> length bs \<Longrightarrow> take n (version4 bs) = version4 (take n bs)"
  by (simp add: version4_def Let_def take_update_swap)

lemma hex_slice:
  "take (2 * n) (drop (2 * k) (hex_encode bs)) = hex_encode (take n (drop k bs))"
  by (simp add: drop_hex_encode take_hex_encode)

text \<open>The identifier has the form \<open>newUUID\<close> gives to the first half of the digest.\<close>

lemma thresholdRuleID_newUUID:
  "newUUID (Inr (take 16 (sha256 (map of_char (''aquaos-alarm-rule:'' @ value))))) = Inr (thresholdRuleID value)"
proof -
  let ?d = "sha256 (map of_char (''aquaos-alarm-rule:'' @ value)) :: byte list"
  let ?v = "version4 (take 16 ?d)"
  have v: "take 16 (version4 ?d) = ?v" by (rule take_version4) (simp_all add: length_sha256)
  have l: "length ?v = 16" by (simp add: length_sha256)
  note slices = hex_slice [of 4 0 ?v] hex_slice [of 2 4 ?v] hex_slice [of 2 6 ?v] hex_slice [of 2 8 ?v]
    hex_slice [of 6 10 ?v]
  show ?thesis
    unfolding thresholdRuleID_def Let_def newUUID_def v using slices by (simp del: append_Cons)
qed

lemma thresholdRuleID_valid: "validateUUID (thresholdRuleID value) = None"
  by (rule newUUID_valid [OF _ thresholdRuleID_newUUID]) (simp add: length_sha256)

lemma threshold_alarm_rule_valid:
  "\<not> threshold_invalid t \<Longrightarrow> validateRule (threshold_alarm_rule t) = None"
  by (auto simp: threshold_invalid_def validateRule_def threshold_alarm_rule_def thresholdRuleID_valid)

text \<open>\<open>NewEvaluator\<close> groups the rules by sensor and keeps their order.\<close>

definition scaled :: "threshold_rule \<Rightarrow> threshold_rule" where
  "scaled r = (if f64_eq (th_scale r) (Finite 0) then r\<lparr>th_scale := Finite 1\<rparr> else r)"

lemma scaled_simps [simp]:
  "th_sensor (scaled r) = th_sensor r" "th_id (scaled r) = th_id r" "threshold_invalid (scaled r) = threshold_invalid r"
  by (auto simp: scaled_def threshold_invalid_def)

lemma add_thresholds_Inr:
  "add_thresholds rs acc = Inr m \<Longrightarrow>
     rules_for m i = rules_for acc i @ map scaled (filter (\<lambda>r. th_sensor r = i) rs) \<and>
     list_all (\<lambda>r. \<not> threshold_invalid r) rs"
proof (induction rs arbitrary: acc)
  case (Cons r rs)
  have v: "\<not> threshold_invalid r"
    and a: "add_thresholds rs (acc(th_sensor r \<mapsto> rules_for acc (th_sensor r) @ [scaled r])) = Inr m"
    using Cons.prems by (auto simp: scaled_def split: if_splits)
  from Cons.IH [OF a] v show ?case by (auto simp: rules_for_def)
qed simp

lemma NewEvaluator_rules:
  assumes "NewEvaluator True rules = Inr e"
  shows "rules_for (ev_rules e) i = map scaled (filter (\<lambda>r. th_sensor r = i) rules)"
    "r \<in> set (rules_for (ev_rules e) i) \<Longrightarrow> \<not> threshold_invalid r"
proof -
  obtain m where m: "add_thresholds rules Map.empty = Inr m" "ev_rules e = m"
    using assms by (auto simp: NewEvaluator_def split: sum.splits)
  note a = add_thresholds_Inr [OF m(1), of i]
  then show eq: "rules_for (ev_rules e) i = map scaled (filter (\<lambda>r. th_sensor r = i) rules)"
    by (simp add: m rules_for_def)
  show "\<not> threshold_invalid r" if "r \<in> set (rules_for (ev_rules e) i)"
    using that a unfolding eq by (auto simp: list_all_iff)
qed

section \<open>Lemmas: registration\<close>

lemma register_all_known:
  "register_all env ts m = (m', None) \<Longrightarrow> t \<in> set ts \<Longrightarrow>
     am_rules m' (rule_id (threshold_alarm_rule t)) \<noteq> None \<and> validateRule (threshold_alarm_rule t) = None"
proof (induction env ts m arbitrary: m' rule: register_all.induct)
  case (2 env u us m)
  obtain m1 where m1: "RegisterRule env (threshold_alarm_rule u) m = (m1, None)" "register_all env us m1 = (m', None)"
    using 2(2) by (auto split: prod.splits option.splits)
  have keep: "am_rules m r \<noteq> None \<Longrightarrow> am_rules (fst (register_all env us m)) r \<noteq> None" for r m
    by (induction env us m rule: register_all.induct)
       (auto simp: RegisterRule_def split: prod.splits option.splits if_splits)
  have u: "am_rules m1 (rule_id (threshold_alarm_rule u)) \<noteq> None" "validateRule (threshold_alarm_rule u) = None"
    using m1(1) by (auto simp: RegisterRule_def split: option.splits if_splits)
  show ?case
  proof (cases "t = u")
    case True
    then show ?thesis using u keep [OF u(1)] m1(2) by simp
  next
    case False
    then show ?thesis using 2(1) [OF _ refl m1(2)] m1(1) 2(3) by auto
  qed
qed simp

text \<open>
  Rules stay registered when the evaluator stops, so registering them again, in whatever order,
  fails at the first one.
\<close>

lemma register_all_again:
  assumes "register_all env ts m = (m1, None)" "set us = set ts" "us \<noteq> []" "ctx_err env' = None"
    "\<And>r. am_rules m1 r \<noteq> None \<Longrightarrow> am_rules m2 r \<noteq> None"
  shows "register_all env' us m2 = (m2, Some (Wrapped ''register configured alarm rule'' alarm_ErrDuplicate))"
proof -
  obtain u us' where us: "us = u # us'" using assms(3) by (cases us) auto
  then have "u \<in> set ts" using assms(2) by auto
  with assms(1,5) have "am_rules m2 (rule_id (threshold_alarm_rule u)) \<noteq> None"
    "validateRule (threshold_alarm_rule u) = None"
    using register_all_known by blast+
  with us assms(4) show ?thesis by (auto simp: RegisterRule_def)
qed

section \<open>Lemmas: evaluation and handling\<close>

lemma value_validate_kinds:
  assumes "value_validate v = None"
  shows "value_kind v = ValueQuantity \<Longrightarrow> value_quantity v \<noteq> None"
    "value_kind v = ValueBoolean \<Longrightarrow> value_boolean v \<noteq> None"
  using assms
  by (auto simp: value_validate_None NewQuantityValue_def NewBooleanValue_def NewTextValue_def)

lemma evaluate_no_panic: "value_validate (sv_value v) = None \<Longrightarrow> \<exists>r'. evaluate r v = Done r'"
  using value_validate_kinds [of "sv_value v"]
  by (auto simp: evaluate_def Let_def split: value_kind.splits option.splits sum.splits)

lemma handle_rules_total:
  "value_validate (sv_value v) = None \<Longrightarrow> \<exists>r'. handle_rules envs n rs v cid m = Done r'"
proof (induction rs arbitrary: n m)
  case (Cons r rs)
  obtain x where x: "evaluate r v = Done x" using evaluate_no_panic [OF Cons.prems] by blast
  show ?case
  proof (cases x)
    case (Inr ae)
    obtain m1 a t err where o1: "Observe (envs n) (threshold_observation r (fst ae) (snd ae) v cid) m = (m1, a, t, err)"
      by (metis prod.exhaust)
    show ?thesis using Cons.IH [OF Cons.prems, of "Suc n" m1] x Inr o1 by (cases ae; cases err) auto
  qed (use x in simp)
qed simp

text \<open>Identifiers drawn during one event are new and different from each other.\<close>

definition fresh_seq :: "(nat \<Rightarrow> alarm env) \<Rightarrow> nat \<Rightarrow> alarm_manager \<Rightarrow> bool" where
  "fresh_seq envs n m \<longleftrightarrow>
     (\<forall>k \<ge> n. fresh_ids (envs k) m) \<and>
     (\<forall>j k i. n \<le> j \<longrightarrow> j < k \<longrightarrow> env_new_id (envs j) = Inr i \<longrightarrow> env_new_id (envs k) \<noteq> Inr i)"

lemma Observe_alarms:
  assumes "Observe env o1 m = (m', a, t, err)" "am_inv m" "am_alarms m' i \<noteq> None" "am_alarms m i = None"
  shows "env_new_id env = Inr i"
  using assms(1)
proof (cases rule: Observe_cases)
  case (accepted s cid o2 s' err')
  have i: "al_id a = i" "i \<noteq> []" using accepted(5) assms(3,4) by (auto split: if_splits)
  have wf: "rule_wf m (obs_rule o1) s" using assms(2) accepted(1) by (rule am_invD)
  from accepted(4) show ?thesis
  proof (cases rule: applyObservation_cases)
    case quiet
    then show ?thesis using i assms(2,4) wf
      by (auto simp: rule_wf_def alarm_at_def split: if_splits dest!: am_invD(2) simp: alarm_wf_def)
  qed (use i assms(2,4) accepted(1) in \<open>auto elim: current_alarm\<close>)
qed (use assms in auto)

lemma fresh_seq_Observe:
  assumes "fresh_seq envs n m" "am_inv m" "Observe (envs n) o1 m = (m', a, t, err)"
  shows "fresh_seq envs (Suc n) m'"
  unfolding fresh_seq_def fresh_ids_def
proof (intro conjI allI impI)
  fix k i assume k: "Suc n \<le> k" and i: "env_new_id (envs k) = Inr i"
  have "fresh_ids (envs k) m" "n < k" using assms(1) k by (auto simp: fresh_seq_def)
  then show "i \<noteq> []" using i by (simp add: fresh_ids_def)
  have new: "env_new_id (envs n) \<noteq> Inr i" "am_alarms m i = None"
    using assms(1) \<open>n < k\<close> \<open>fresh_ids (envs k) m\<close> i by (auto simp: fresh_seq_def fresh_ids_def)
  then show "am_alarms m' i = None" using Observe_alarms [OF assms(3,2), of i] by blast
next
  fix j k i assume "Suc n \<le> j" "j < k" "env_new_id (envs j) = Inr i"
  moreover from this have "n \<le> j" by simp
  ultimately show "env_new_id (envs k) \<noteq> Inr i" using assms(1) unfolding fresh_seq_def by blast
qed

lemma handle_rules_inv:
  "handle_rules envs n rs v cid m = Done (m', err) \<Longrightarrow> am_inv m \<Longrightarrow> fresh_seq envs n m \<Longrightarrow> am_inv m'"
proof (induction rs arbitrary: n m)
  case (Cons r rs)
  show ?case
  proof (cases "evaluate r v")
    case (Done x)
    show ?thesis
    proof (cases x)
      case (Inr ae)
      let ?o = "threshold_observation r (fst ae) (snd ae) v cid"
      obtain m1 a t err1 where o1: "Observe (envs n) ?o m = (m1, a, t, err1)" by (metis prod.exhaust)
      have "fresh_ids (envs n) m" using Cons.prems(3) by (simp add: fresh_seq_def)
      then have inv: "am_inv m1" using Observe_inv [OF Cons.prems(2), of "envs n" ?o] o1 by simp
      have "fresh_seq envs (Suc n) m1" using fresh_seq_Observe [OF Cons.prems(3,2) o1] .
      with Cons inv o1 Done Inr show ?thesis by (cases ae; cases err1) auto
    qed (use Cons Done in auto)
  qed (use Cons in auto)
qed simp

section \<open>The evaluator as a handler of the bus\<close>

text \<open>
  The handler behind the evaluator's subscription, over the world of an alarm manager. Values
  on the bus have been validated by the state manager, so that \<open>handle\<close> returns.
\<close>

definition evaluator_run :: "(nat \<Rightarrow> alarm env) \<Rightarrow> evaluator \<Rightarrow> (state_value, alarm_manager) handler_run" where
  "evaluator_run envs e n event bw =
     (if ev_subscription e = Some n
      then (case handle envs e event (snd bw) of
              Done (m, err) \<Rightarrow> ((fst bw, m), err)
            | _ \<Rightarrow> (bw, Some (ErrorString ''panic'')))
      else (bw, None))"

interpretation evaluator_bus: event_handlers "evaluator_run envs e" for envs e
  by unfold_locales (auto simp: evaluator_run_def split: outcome.splits prod.splits)

interpretation evaluator_component: component "\<lambda>_. ''alarm-evaluator''" "\<lambda>e. e\<lparr>ev_started := True\<rparr>"
    "\<lambda>e. fst (ev_stop (e, b))" ev_health for b
  by unfold_locales (auto simp: ev_health_def ev_stop_def)

section \<open>Properties\<close>

text \<open>
  An event with a valid state value is handled to its end: the handler returns, with an error
  or not, and keeps the invariant of the alarm manager. No value that passed the state manager
  makes it dereference nil.
\<close>

theorem handler_returns:
  assumes "ev_payload event = RawJSON v" "value_validate (sv_value v) = None" "am_inv m" "fresh_seq envs 0 m"
  shows "\<exists>m' err. handle envs e event m = Done (m', err) \<and> am_inv m'"
proof -
  obtain m' err where h: "handle_rules envs 0 (rules_for (ev_rules e) (key_entity (sv_key v))) v (ev_correlation event) m =
      Done (m', err)"
    using handle_rules_total [OF assms(2)] by (metis prod.exhaust)
  have "am_inv m'" by (rule handle_rules_inv [OF h assms(3,4)])
  with h assms(1,3) show ?thesis by (auto simp: handle_def)
qed

text \<open>
  An evaluator that has any rule can be started once only: its rules stay registered when it
  stops, so that starting it again fails at the first rule, as a duplicate, in whatever order the
  runtime ranges over its rules.
\<close>

theorem evaluator_cannot_restart:
  assumes "ev_start env ord (e, m, b) = ((e1, m1, b1), None)" "concat (go_range (ev_rules e) ord) \<noteq> []"
    and "range_order (ev_rules e) ord" "range_order (ev_rules e) ord'" "ctx_err env' = None"
  shows "ev_start env' ord' (fst (ev_stop (e1, b1)), m1, b2) =
    ((fst (ev_stop (e1, b1)), m1, b2), Some (Wrapped ''register configured alarm rule'' alarm_ErrDuplicate))"
proof -
  have r: "register_all env (concat (go_range (ev_rules e) ord)) m = (m1, None)" "ev_rules (fst (ev_stop (e1, b1))) = ev_rules e"
    using assms(1) by (auto simp: ev_start_def ev_stop_def split: prod.splits option.splits)
  have "set (concat (go_range (ev_rules e) ord')) = set (concat (go_range (ev_rules e) ord))"
    by (simp add: set_go_range [OF assms(3)] set_go_range [OF assms(4)])
  moreover from this have "concat (go_range (ev_rules e) ord') \<noteq> []" using assms(2) by (metis set_empty)
  ultimately have "register_all env' (concat (go_range (ev_rules e) ord')) m1 =
      (m1, Some (Wrapped ''register configured alarm rule'' alarm_ErrDuplicate))"
    by (intro register_all_again [OF r(1)] assms(5))
  with r(2) show ?thesis by (simp add: ev_start_def)
qed

section \<open>A concrete run\<close>

definition sample_threshold :: threshold_rule where
  "sample_threshold =
     \<lparr>th_id = ''float'', th_name = ''Float switch'', th_sensor = sample_id 6, th_condition = ''true'',
      th_threshold = Finite 0, th_high = None, th_severity = SeverityCritical, th_delay = 0, th_clear_delay = 0,
      th_latching = False, th_scale = Finite 1, th_offset = Finite 0\<rparr>"

definition sample_evaluator :: evaluator where
  "sample_evaluator = \<lparr>ev_rules = [sample_id 6 \<mapsto> [sample_threshold]], ev_subscription = None, ev_started = False\<rparr>"

lemma sample_evaluator_new: "NewEvaluator True [sample_threshold] = Inr sample_evaluator"
  by (simp add: NewEvaluator_def threshold_invalid_def sample_threshold_def oneOfCondition_def rules_for_def
      sample_evaluator_def)

definition sample_state_event :: "state_value event" where
  "sample_state_event =
     \<lparr>ev_timestamp = 5, ev_source = ''state'', ev_type = StateChanged, ev_severity = SeverityInfo,
      ev_payload = RawJSON sample_value, ev_correlation = sample_id 1\<rparr>"

definition sample_envs :: "nat \<Rightarrow> alarm env" where
  "sample_envs n = (if n = 0 then sample_env else sample_env\<lparr>env_new_id := Inl (ErrorString ''no entropy'')\<rparr>)"

theorem handler_returns_witness:
  "\<exists>m' err. handle sample_envs sample_evaluator sample_state_event (NewAlarmManager 4) = Done (m', err)"
proof -
  have "fresh_seq sample_envs 0 (NewAlarmManager 4)"
    by (auto simp: fresh_seq_def fresh_ids_def sample_envs_def NewAlarmManager_def)
  moreover have "value_validate (sv_value sample_value) = None"
    using sample_value_valid by (simp add: sv_validate_def)
  ultimately show ?thesis
    using handler_returns [of sample_state_event sample_value "NewAlarmManager 4" sample_envs sample_evaluator]
      am_inv_new by (auto simp: sample_state_event_def)
qed

theorem evaluator_cannot_restart_witness:
  "\<exists>e1 m1 b1. ev_start sample_env [sample_id 6] (sample_evaluator, NewAlarmManager 4, NewBus []) = ((e1, m1, b1), None) \<and>
     snd (ev_start sample_env [sample_id 6] (fst (ev_stop (e1, b1)), m1, b1)) \<noteq> None"
proof -
  have range: "range_order (ev_rules sample_evaluator) [sample_id 6]"
    by (simp add: range_order_def sample_evaluator_def)
  have rules: "concat (go_range (ev_rules sample_evaluator) [sample_id 6]) = [sample_threshold]"
    by (simp add: go_range_def sample_evaluator_def)
  have "\<not> threshold_invalid sample_threshold"
    by (simp add: threshold_invalid_def sample_threshold_def oneOfCondition_def)
  then have "snd (ev_start sample_env [sample_id 6] (sample_evaluator, NewAlarmManager 4, NewBus [])) = None"
    using threshold_alarm_rule_valid [of sample_threshold]
    by (simp add: ev_start_def rules RegisterRule_def NewAlarmManager_def subscribe_def NewBus_def Let_def
        split: prod.splits)
  then obtain e1 m1 b1 where
    s: "ev_start sample_env [sample_id 6] (sample_evaluator, NewAlarmManager 4, NewBus []) = ((e1, m1, b1), None)"
    by (metis prod.exhaust snd_conv)
  from evaluator_cannot_restart [OF s _ range range, of sample_env b1] rules have
    "snd (ev_start sample_env [sample_id 6] (fst (ev_stop (e1, b1)), m1, b1)) \<noteq> None" by simp
  with s show ?thesis by blast
qed

end
