(* ===== verification/MqttTopics.thy ===== *)
theory MqttTopics
  imports Domain
begin

text \<open>
  The package \<open>internal/mqtt\<close>, topics and delivery policies (\<open>topics.go\<close>).
\<close>

section \<open>Segments\<close>

definition lower :: "char \<Rightarrow> bool" where
  "lower c \<longleftrightarrow> 97 \<le> (of_char c :: nat) \<and> (of_char c :: nat) \<le> 122"

definition digit :: "char \<Rightarrow> bool" where
  "digit c \<longleftrightarrow> 48 \<le> (of_char c :: nat) \<and> (of_char c :: nat) \<le> 57"

text \<open>The regular expression \<open>^[a-z][a-z0-9x]{0,62}$\<close>, for \<open>x\<close> a dash or an underscore.\<close>

fun segment_pattern :: "char \<Rightarrow> string \<Rightarrow> bool" where
  "segment_pattern x [] = False"
| "segment_pattern x (c # cs) \<longleftrightarrow>
     lower c \<and> length cs \<le> 62 \<and> list_all (\<lambda>d. lower d \<or> digit d \<or> d = x) cs"

definition topicSegmentPattern :: "string \<Rightarrow> bool" where
  "topicSegmentPattern s = segment_pattern (CHR ''-'') s"

definition haComponentPattern :: "string \<Rightarrow> bool" where
  "haComponentPattern s = segment_pattern (CHR ''_'') s"

definition contains_any :: "string \<Rightarrow> string \<Rightarrow> bool" where
  "contains_any s chars \<longleftrightarrow> list_ex (\<lambda>c. c \<in> set chars) s"

section \<open>Topics and policies\<close>

datatype purpose =
    PurposeCoreStatus | PurposeAvailability | PurposeSensorState | PurposeEquipmentReported
  | PurposeEquipmentDesired | PurposeCommandRequest | PurposeCommandResult | PurposeAlarmState
  | PurposeEventStream | PurposeAIObservation | PurposeHADiscovery | PurposeHACommand
  | PurposeOther string

record policy =
  policy_purpose :: purpose
  policy_qos :: byte
  policy_retained :: bool

record topic_registry =
  site_id :: string

definition NewTopicRegistry :: "string \<Rightarrow> go_error + topic_registry" where
  "NewTopicRegistry s =
     (if \<not> topicSegmentPattern s then Inl (ErrorString ''MQTT site ID must be lowercase kebab-case'')
      else Inr \<lparr>site_id = s\<rparr>)"

definition topic_root :: "topic_registry \<Rightarrow> string" where
  "topic_root r = ''aquaos/'' @ site_id r @ ''/'' @ ''v1''"

definition delivery :: "purpose \<Rightarrow> bool \<Rightarrow> policy" where
  "delivery p retained = \<lparr>policy_purpose = p, policy_qos = 1, policy_retained = retained\<rparr>"

definition HACommand :: "topic_registry \<Rightarrow> string \<Rightarrow> (string \<times> policy) ret" where
  "HACommand r equipment =
     (if \<not> topicSegmentPattern equipment
      then fail (ErrorString ''equipment ID for Home Assistant must be one lowercase kebab-case segment'')
      else ok (topic_root r @ ''/home-assistant/'' @ equipment @ ''/set'', delivery PurposeHACommand False))"

definition HAStatus :: "topic_registry \<Rightarrow> string \<times> policy" where
  "HAStatus r = (topic_root r @ ''/home-assistant/status'', delivery PurposeCoreStatus True)"

definition Topic :: "topic_registry \<Rightarrow> purpose \<Rightarrow> string \<Rightarrow> (string \<times> policy) ret" where
  "Topic r p resource =
     (if contains_any resource ''+#/'' \<or> \<not> topicSegmentPattern resource
      then fail (ErrorString ''MQTT resource ID must be one lowercase kebab-case segment'')
      else let root = topic_root r
      in case p of
           PurposeCoreStatus \<Rightarrow> ok (root @ ''/system/core/status'', delivery p True)
         | PurposeAvailability \<Rightarrow> ok (root @ ''/system/core/availability'', delivery p True)
         | PurposeSensorState \<Rightarrow> ok (root @ ''/sensors/'' @ resource @ ''/state'', delivery p True)
         | PurposeEquipmentReported \<Rightarrow> ok (root @ ''/equipment/'' @ resource @ ''/reported'', delivery p True)
         | PurposeEquipmentDesired \<Rightarrow> ok (root @ ''/equipment/'' @ resource @ ''/desired'', delivery p True)
         | PurposeCommandRequest \<Rightarrow> ok (root @ ''/commands/'' @ resource @ ''/request'', delivery p False)
         | PurposeCommandResult \<Rightarrow> ok (root @ ''/commands/'' @ resource @ ''/result'', delivery p False)
         | PurposeAlarmState \<Rightarrow> ok (root @ ''/alarms/'' @ resource @ ''/state'', delivery p True)
         | PurposeEventStream \<Rightarrow> ok (root @ ''/events/'' @ resource, delivery p False)
         | PurposeAIObservation \<Rightarrow> fail (ErrorString ''purpose requires its dedicated multi-segment constructor'')
         | PurposeHADiscovery \<Rightarrow> fail (ErrorString ''purpose requires its dedicated multi-segment constructor'')
         | _ \<Rightarrow> fail (ErrorString ''unknown MQTT topic purpose''))"

definition AIObservation :: "topic_registry \<Rightarrow> string \<Rightarrow> string \<Rightarrow> (string \<times> policy) ret" where
  "AIObservation r service kind =
     (if \<not> topicSegmentPattern service \<or> \<not> topicSegmentPattern kind
      then fail (ErrorString ''AI service and kind must be lowercase kebab-case'')
      else ok (topic_root r @ ''/ai/'' @ service @ ''/observations/'' @ kind, delivery PurposeAIObservation False))"

definition HADiscovery :: "topic_registry \<Rightarrow> string \<Rightarrow> string \<Rightarrow> (string \<times> policy) ret" where
  "HADiscovery r component object =
     (if \<not> haComponentPattern component \<or> \<not> topicSegmentPattern object
      then fail (ErrorString ''component and object ID for Home Assistant must be lowercase kebab-case'')
      else ok (''homeassistant/'' @ component @ ''/'' @ object @ ''/config'', delivery PurposeHADiscovery True))"

definition SubscriptionFilter :: "topic_registry \<Rightarrow> purpose \<Rightarrow> (string \<times> byte) ret" where
  "SubscriptionFilter r p =
     (let root = topic_root r
      in case p of
           PurposeCommandRequest \<Rightarrow> ok (root @ ''/commands/+/request'', 1)
         | PurposeAIObservation \<Rightarrow> ok (root @ ''/ai/+/observations/+'', 1)
         | PurposeHACommand \<Rightarrow> ok (root @ ''/home-assistant/+/set'', 1)
         | _ \<Rightarrow> fail (ErrorString ''purpose has no wildcard subscription contract''))"

section \<open>Levels and filters\<close>

text \<open>The levels of a topic, and the matching rule of the MQTT protocol for filters.\<close>

fun levels :: "string \<Rightarrow> string list" where
  "levels [] = [[]]"
| "levels (c # cs) =
     (if c = CHR ''/'' then [] # levels cs
      else case levels cs of [] \<Rightarrow> [[c]] | l # ls \<Rightarrow> (c # l) # ls)"

fun filter_matches :: "string list \<Rightarrow> string list \<Rightarrow> bool" where
  "filter_matches [] [] = True"
| "filter_matches (f # fs) ts =
     (if f = ''#'' then fs = []
      else case ts of [] \<Rightarrow> False | t # ts \<Rightarrow> (f = ''+'' \<or> f = t) \<and> filter_matches fs ts)"
| "filter_matches [] (_ # _) = False"

definition plain :: "string \<Rightarrow> bool" where
  "plain s \<longleftrightarrow> CHR ''/'' \<notin> set s \<and> CHR ''+'' \<notin> set s \<and> CHR ''#'' \<notin> set s"

lemma segment_char:
  "segment_pattern x s \<Longrightarrow> c \<in> set s \<Longrightarrow> lower c \<or> digit c \<or> c = x"
  by (cases s) (auto simp: list_all_iff)

lemma special_chars:
  "\<not> lower (CHR ''/'')" "\<not> digit (CHR ''/'')" "\<not> lower (CHR ''+'')" "\<not> digit (CHR ''+'')"
  "\<not> lower (CHR ''#'')" "\<not> digit (CHR ''#'')"
  by (simp_all add: lower_def digit_def)

lemma segment_plain: "topicSegmentPattern s \<Longrightarrow> plain s"
  using segment_char [of "CHR ''-''" s] special_chars
  by (auto simp: plain_def topicSegmentPattern_def)

lemma component_plain: "haComponentPattern s \<Longrightarrow> plain s"
  using segment_char [of "CHR ''_''" s] special_chars
  by (auto simp: plain_def haComponentPattern_def)

lemma segment_nonempty: "topicSegmentPattern s \<Longrightarrow> s \<noteq> []"
  by (cases s) (auto simp: topicSegmentPattern_def)

lemma levels_nonempty [simp]: "levels s \<noteq> []"
  by (cases s) (auto split: list.splits)

lemma levels_plain: "plain s \<Longrightarrow> levels s = [s]"
  by (induction s) (auto simp: plain_def)

lemma levels_slash: "plain s \<Longrightarrow> levels (s @ CHR ''/'' # t) = s # levels t"
  by (induction s) (auto simp: plain_def)

lemma levels_root:
  assumes "topicSegmentPattern (site_id r)"
  shows "levels (topic_root r @ CHR ''/'' # t) = ''aquaos'' # site_id r # ''v1'' # levels t"
proof -
  have "levels (''aquaos'' @ CHR ''/'' # (site_id r @ CHR ''/'' # (''v1'' @ CHR ''/'' # t))) =
        ''aquaos'' # site_id r # ''v1'' # levels t"
    using segment_plain [OF assms] by (subst levels_slash, simp add: plain_def)+ simp
  then show ?thesis by (simp add: topic_root_def)
qed

text \<open>The levels of a topic below its root.\<close>

fun purpose_levels :: "purpose \<Rightarrow> string \<Rightarrow> string list" where
  "purpose_levels PurposeCoreStatus x = [''system'', ''core'', ''status'']"
| "purpose_levels PurposeAvailability x = [''system'', ''core'', ''availability'']"
| "purpose_levels PurposeSensorState x = [''sensors'', x, ''state'']"
| "purpose_levels PurposeEquipmentReported x = [''equipment'', x, ''reported'']"
| "purpose_levels PurposeEquipmentDesired x = [''equipment'', x, ''desired'']"
| "purpose_levels PurposeCommandRequest x = [''commands'', x, ''request'']"
| "purpose_levels PurposeCommandResult x = [''commands'', x, ''result'']"
| "purpose_levels PurposeAlarmState x = [''alarms'', x, ''state'']"
| "purpose_levels PurposeEventStream x = [''events'', x]"
| "purpose_levels _ x = []"

definition retained_purpose :: "purpose \<Rightarrow> bool" where
  "retained_purpose p \<longleftrightarrow>
     p \<in> {PurposeCoreStatus, PurposeAvailability, PurposeSensorState, PurposeEquipmentReported,
          PurposeEquipmentDesired, PurposeAlarmState, PurposeHADiscovery}"

lemma levels_words:
  "plain a \<Longrightarrow> levels a = [a]"
  "plain a \<Longrightarrow> plain b \<Longrightarrow> levels (a @ CHR ''/'' # b) = [a, b]"
  "plain a \<Longrightarrow> plain b \<Longrightarrow> plain c \<Longrightarrow> levels (a @ CHR ''/'' # b @ CHR ''/'' # c) = [a, b, c]"
  by (simp_all add: levels_slash levels_plain)

lemma Topic_levels:
  assumes "topicSegmentPattern (site_id r)" "Topic r p x = ok (t, pol)"
  shows "levels t = ''aquaos'' # site_id r # ''v1'' # purpose_levels p x" "topicSegmentPattern x"
    "pol = delivery p (retained_purpose p)" "purpose_levels p x \<noteq> []"
proof -
  note root = levels_root [OF assms(1)]
  from assms(2) show x: "topicSegmentPattern x"
    by (auto simp: Topic_def split: if_splits)
  note px = segment_plain [OF x]
  from assms(2) show "levels t = ''aquaos'' # site_id r # ''v1'' # purpose_levels p x"
    using levels_words(3) [of "''sensors''" x "''state''"] levels_words(3) [of "''equipment''" x "''reported''"]
      levels_words(3) [of "''equipment''" x "''desired''"] levels_words(3) [of "''commands''" x "''request''"]
      levels_words(3) [of "''commands''" x "''result''"] levels_words(3) [of "''alarms''" x "''state''"]
      levels_words(2) [of "''events''" x] px
    by (cases p) (auto simp: Topic_def Let_def root plain_def split: if_splits)
  from assms(2) show "pol = delivery p (retained_purpose p)" "purpose_levels p x \<noteq> []"
    by (cases p; auto simp: Topic_def Let_def retained_purpose_def split: if_splits)+
qed

lemma SubscriptionFilter_levels:
  assumes "topicSegmentPattern (site_id r)" "SubscriptionFilter r p = ok (f, q)"
  shows "levels f = ''aquaos'' # site_id r # ''v1'' #
    (if p = PurposeCommandRequest then [''commands'', ''+'', ''request'']
     else if p = PurposeAIObservation then [''ai'', ''+'', ''observations'', ''+'']
     else [''home-assistant'', ''+'', ''set''])"
    "p \<in> {PurposeCommandRequest, PurposeAIObservation, PurposeHACommand}"
  using assms(2) by (cases p; auto simp: SubscriptionFilter_def Let_def levels_root [OF assms(1)])+

lemma purpose_levels_inj:
  "purpose_levels p x = purpose_levels q y \<Longrightarrow> purpose_levels p x \<noteq> [] \<Longrightarrow>
     p = q \<and> (x = y \<or> p = PurposeCoreStatus \<or> p = PurposeAvailability)"
  by (cases p; cases q) auto

lemma other_levels:
  assumes "topicSegmentPattern (site_id r)"
  shows "HACommand r e = ok (t, pol) \<Longrightarrow> levels t = ''aquaos'' # site_id r # ''v1'' # [''home-assistant'', e, ''set'']"
    "AIObservation r s k = ok (t, pol) \<Longrightarrow> levels t = ''aquaos'' # site_id r # ''v1'' # [''ai'', s, ''observations'', k]"
proof -
  note root = levels_root [OF assms]
  show "levels t = ''aquaos'' # site_id r # ''v1'' # [''home-assistant'', e, ''set'']" if "HACommand r e = ok (t, pol)"
  proof -
    have "topicSegmentPattern e" using that by (auto simp: HACommand_def split: if_splits)
    then have "plain e" by (rule segment_plain)
    with that levels_words(3) [of "''home-assistant''" e "''set''"] show ?thesis
      by (auto simp: HACommand_def root plain_def split: if_splits)
  qed
  show "levels t = ''aquaos'' # site_id r # ''v1'' # [''ai'', s, ''observations'', k]" if "AIObservation r s k = ok (t, pol)"
  proof -
    have "topicSegmentPattern s" "topicSegmentPattern k" using that by (auto simp: AIObservation_def split: if_splits)
    then have "plain s" "plain k" by (auto intro: segment_plain)
    then have "levels (''ai'' @ CHR ''/'' # (s @ CHR ''/'' # (''observations'' @ CHR ''/'' # k))) =
       [''ai'', s, ''observations'', k]"
      by (subst levels_slash, simp add: plain_def)+ (simp add: levels_plain)
    with that show ?thesis by (auto simp: AIObservation_def root split: if_splits)
  qed
qed

section \<open>Properties\<close>

lemma purpose_levels_plain:
  "plain x \<Longrightarrow> list_all plain (purpose_levels p x)"
  by (cases p) (auto simp: plain_def)

text \<open>
  A topic the registry hands out names its purpose and its resource: two topics of a site are the
  same only for the same purpose and, where the purpose has one, the same resource, and no level of a
  topic holds a wildcard, whatever the caller passes as a resource.
\<close>

theorem topics_are_injective:
  assumes "NewTopicRegistry site = Inr r" "Topic r p x = ok (t, pol)" "Topic r q y = ok (t', pol')"
  shows "(t = t') = (p = q \<and> (x = y \<or> p = PurposeCoreStatus \<or> p = PurposeAvailability)) \<and>
    list_all plain (levels t) \<and> pol = delivery p (retained_purpose p)"
proof -
  have site: "topicSegmentPattern (site_id r)" using assms(1) by (auto simp: NewTopicRegistry_def split: if_splits)
  note l = Topic_levels [OF site assms(2)] and l' = Topic_levels [OF site assms(3)]
  have "t = t' \<Longrightarrow> p = q \<and> (x = y \<or> p = PurposeCoreStatus \<or> p = PurposeAvailability)"
    using purpose_levels_inj [of p x q y] l(1,4) l'(1) by auto
  moreover have "p = q \<and> (x = y \<or> p = PurposeCoreStatus \<or> p = PurposeAvailability) \<Longrightarrow> t = t'"
    using assms(2,3) by (auto simp: Topic_def Let_def split: if_splits)
  moreover have "list_all plain (levels t)"
    using l(1) segment_plain [OF site] purpose_levels_plain [OF segment_plain [OF l(2)]] by (simp add: plain_def)
  ultimately show ?thesis using l(3) by blast
qed

theorem topics_are_injective_witness:
  "\<exists>r t. NewTopicRegistry ''reef'' = Inr r \<and> fst (Topic r PurposeSensorState ''sensor-1'') = Some t \<and>
     list_all plain (levels (fst t))"
proof -
  have r: "NewTopicRegistry ''reef'' = Inr \<lparr>site_id = ''reef''\<rparr>"
    by (simp add: NewTopicRegistry_def topicSegmentPattern_def lower_def)
  obtain t pol where t: "Topic \<lparr>site_id = ''reef''\<rparr> PurposeSensorState ''sensor-1'' = ok (t, pol)"
    by (simp add: Topic_def topicSegmentPattern_def lower_def digit_def contains_any_def)
  from topics_are_injective [OF r t t] r t show ?thesis by auto
qed

text \<open>
  The command filter of a site receives the command requests of that site and no other topic
  the registry hands out; the other wildcard filters receive none of them.
\<close>

theorem filters_are_narrow:
  assumes "NewTopicRegistry site = Inr r" "SubscriptionFilter r p = ok (f, qos)" "Topic r q x = ok (t, pol)"
  shows "filter_matches (levels f) (levels t) = (p = PurposeCommandRequest \<and> q = PurposeCommandRequest)"
proof -
  have site: "topicSegmentPattern (site_id r)" using assms(1) by (auto simp: NewTopicRegistry_def split: if_splits)
  have "site_id r \<noteq> ''#''" using segment_plain [OF site] by (auto simp: plain_def)
  with SubscriptionFilter_levels [OF site assms(2)] Topic_levels [OF site assms(3)] show ?thesis
    by (cases q) auto
qed

theorem filters_are_narrow_witness:
  "\<exists>r f t. NewTopicRegistry ''reef'' = Inr r \<and> fst (SubscriptionFilter r PurposeCommandRequest) = Some f \<and>
     fst (Topic r PurposeCommandRequest ''heater'') = Some t \<and> filter_matches (levels (fst f)) (levels (fst t))"
proof -
  have r: "NewTopicRegistry ''reef'' = Inr \<lparr>site_id = ''reef''\<rparr>"
    by (simp add: NewTopicRegistry_def topicSegmentPattern_def lower_def)
  obtain t pol where t: "Topic \<lparr>site_id = ''reef''\<rparr> PurposeCommandRequest ''heater'' = ok (t, pol)"
    by (simp add: Topic_def topicSegmentPattern_def lower_def digit_def contains_any_def)
  obtain f q where f: "SubscriptionFilter \<lparr>site_id = ''reef''\<rparr> PurposeCommandRequest = ok (f, q)"
    by (simp add: SubscriptionFilter_def)
  from filters_are_narrow [OF r f t] r f t show ?thesis by auto
qed

end
