(* ===== verification/MqttCodec.thy ===== *)
theory MqttCodec
  imports MqttTopics Events
begin

text \<open>
  The package \<open>internal/mqtt\<close>, envelopes and the idempotent consumer (\<open>envelope.go\<close>).

  A payload is described by its size and by what \<open>encoding/json\<close> reads from it: the result of
  the strict decoding of an envelope and of the attempt to read more after it (\<open>None\<close> at the
  end of the input). \<open>json.Marshal\<close> of an envelope is read back as that envelope, with nothing
  after it; the size of the encoding is the argument \<open>encoded_size\<close>.
\<close>

section \<open>Envelopes and the codec\<close>

record 'v envelope =
  env_schema :: string
  env_message :: string
  env_correlation :: ident
  env_source :: string
  env_site :: string
  env_occurred :: gotime
  env_expires :: "gotime option"
  env_revision :: "revision option"
  env_data :: "'v raw_message"

record 'v payload =
  pay_size :: nat
  pay_envelope :: "go_error + 'v envelope"
  pay_rest :: "go_error option"

record codec =
  codec_site :: string
  codec_maximum :: nat
  codec_decoded :: "64 word"
  codec_malformed :: "64 word"
  codec_oversized :: "64 word"
  codec_expired :: "64 word"
  codec_unknown :: "64 word"
  codec_duplicates :: "64 word"

definition ErrOversizedPayload :: go_error where
  "ErrOversizedPayload = Sentinel ''mqtt.ErrOversizedPayload''"

definition ErrUnknownVersion :: go_error where
  "ErrUnknownVersion = Sentinel ''mqtt.ErrUnknownVersion''"

definition ErrExpiredMessage :: go_error where
  "ErrExpiredMessage = Sentinel ''mqtt.ErrExpiredMessage''"

definition ErrDuplicateMessage :: go_error where
  "ErrDuplicateMessage = Sentinel ''mqtt.ErrDuplicateMessage''"

definition NewCodec :: "string \<Rightarrow> int \<Rightarrow> bool \<Rightarrow> go_error + codec" where
  "NewCodec s maximum clock =
     (if \<not> topicSegmentPattern s then Inl (ErrorString ''codec site ID must be lowercase kebab-case'')
      else if maximum < 256 \<or> maximum > 16 * 1024 * 1024
      then Inl (ErrorString ''MQTT maximum payload must be between 256 bytes and 16 MiB'')
      else if \<not> clock then Inl (ErrorString ''codec clock is required'')
      else Inr \<lparr>codec_site = s, codec_maximum = nat maximum, codec_decoded = 0, codec_malformed = 0,
                codec_oversized = 0, codec_expired = 0, codec_unknown = 0, codec_duplicates = 0\<rparr>)"

definition envelope_validate :: "gotime \<Rightarrow> codec \<Rightarrow> 'v envelope \<Rightarrow> go_error option" where
  "envelope_validate now c e = first_error [
     guard (env_schema e = [] \<or> env_message e = [] \<or> length (env_message e) > 64 \<or> env_source e = [] \<or>
            env_site e \<noteq> codec_site c \<or> is_zero (env_occurred e))
       (ErrorString ''MQTT envelope has invalid required fields''),
     wrap ''MQTT correlation ID'' (validateUUID (env_correlation e)),
     guard (\<not> json_valid (env_data e)) (ErrorString ''MQTT envelope data must be valid JSON''),
     guard (case env_expires e of None \<Rightarrow> False | Some t \<Rightarrow> \<not> now < t) ErrExpiredMessage]"

definition Encode ::
  "('v envelope \<Rightarrow> nat) \<Rightarrow> ('v \<Rightarrow> bool) \<Rightarrow> gotime \<Rightarrow> codec \<Rightarrow> string \<Rightarrow> string \<Rightarrow> ident \<Rightarrow> gotime \<Rightarrow>
   gotime option \<Rightarrow> revision option \<Rightarrow> 'v \<Rightarrow> 'v payload ret"
where
  "Encode encoded_size enc now c message source correlation occurred expires revision data =
     (case json_marshal enc data of
        Inl err \<Rightarrow> fail (Wrapped ''encode MQTT data'' err)
      | Inr encoded \<Rightarrow>
          (let e = \<lparr>env_schema = ''1.0'', env_message = message, env_correlation = correlation,
                    env_source = source, env_site = codec_site c, env_occurred = occurred,
                    env_expires = expires, env_revision = revision, env_data = encoded\<rparr>
           in case envelope_validate now c e of
                Some err \<Rightarrow> fail err
              | None \<Rightarrow>
                  if \<not> json_time occurred \<or> (case expires of None \<Rightarrow> False | Some t \<Rightarrow> \<not> json_time t)
                  then fail (ErrorString ''json: year outside of range'')
                  else if encoded_size e > codec_maximum c then fail ErrOversizedPayload
                  else ok \<lparr>pay_size = encoded_size e, pay_envelope = Inr e, pay_rest = None\<rparr>))"

text \<open>\<open>major\<close>: the text before the first dot.\<close>

definition major :: "string \<Rightarrow> string" where
  "major version = takeWhile (\<lambda>c. c \<noteq> CHR ''.'') version"

definition Decode :: "gotime \<Rightarrow> 'v payload \<Rightarrow> codec \<Rightarrow> codec \<times> 'v envelope ret" where
  "Decode now p c =
     (if pay_size p > codec_maximum c
      then (c\<lparr>codec_oversized := codec_oversized c + 1\<rparr>, fail ErrOversizedPayload)
      else case pay_envelope p of
        Inl err \<Rightarrow> (c\<lparr>codec_malformed := codec_malformed c + 1\<rparr>, fail (Wrapped ''decode MQTT envelope'' err))
      | Inr e \<Rightarrow>
          (case pay_rest p of
             Some err \<Rightarrow> (c\<lparr>codec_malformed := codec_malformed c + 1\<rparr>, fail err)
           | None \<Rightarrow>
               if major (env_schema e) \<noteq> major ''1.0''
               then (c\<lparr>codec_unknown := codec_unknown c + 1\<rparr>, fail ErrUnknownVersion)
               else case envelope_validate now c e of
                 Some err \<Rightarrow>
                   (if errors_is err ''mqtt.ErrExpiredMessage''
                    then c\<lparr>codec_expired := codec_expired c + 1\<rparr>
                    else c\<lparr>codec_malformed := codec_malformed c + 1\<rparr>, fail err)
               | None \<Rightarrow> (c\<lparr>codec_decoded := codec_decoded c + 1\<rparr>, ok e)))"

section \<open>The consumer\<close>

record consumer =
  con_codec :: codec
  con_capacity :: nat
  con_seen :: "string set"
  con_order :: "string list"

definition NewConsumer :: "codec option \<Rightarrow> int \<Rightarrow> go_error + consumer" where
  "NewConsumer codec capacity =
     (case codec of
        None \<Rightarrow> Inl (ErrorString ''MQTT codec is required'')
      | Some c \<Rightarrow>
          if capacity < 1 \<or> capacity > 1000000
          then Inl (ErrorString ''MQTT idempotency capacity must be between 1 and 1000000'')
          else Inr \<lparr>con_codec = c, con_capacity = nat capacity, con_seen = {}, con_order = []\<rparr>)"

text \<open>The reservation of a message ID under the lock: \<open>None\<close> for a duplicate.\<close>

definition reserve :: "string \<Rightarrow> consumer \<Rightarrow> consumer option" where
  "reserve i c =
     (if i \<in> con_seen c then None
      else let c = c\<lparr>con_seen := insert i (con_seen c), con_order := con_order c @ [i]\<rparr>
           in Some (if length (con_order c) > con_capacity c
                    then c\<lparr>con_order := tl (con_order c), con_seen := con_seen c - {hd (con_order c)}\<rparr>
                    else c))"

text \<open>Its removal after the handler failed: the first occurrence in the order goes.\<close>

definition release :: "string \<Rightarrow> consumer \<Rightarrow> consumer" where
  "release i c = c\<lparr>con_seen := con_seen c - {i}, con_order := remove1 i (con_order c)\<rparr>"

text \<open>
  \<open>Consume\<close>. The handler works on a world \<open>'w\<close> and returns an error; the consumer is not locked
  while it runs.
\<close>

definition Consume ::
  "gotime \<Rightarrow> 'v payload \<Rightarrow> ('v envelope \<Rightarrow> 'w \<Rightarrow> 'w \<times> go_error option) option \<Rightarrow> consumer \<times> 'w \<Rightarrow>
   (consumer \<times> 'w) \<times> go_error option"
where
  "Consume now p handler = (\<lambda>(c, w).
     case handler of
       None \<Rightarrow> ((c, w), Some (ErrorString ''MQTT consumer handler is required''))
     | Some h \<Rightarrow>
         (case Decode now p (con_codec c) of
            (k, (_, Some err)) \<Rightarrow> ((c\<lparr>con_codec := k\<rparr>, w), Some err)
          | (k, (None, None)) \<Rightarrow> ((c\<lparr>con_codec := k\<rparr>, w), None)
          | (k, (Some e, None)) \<Rightarrow>
              (let c = c\<lparr>con_codec := k\<rparr>
               in case reserve (env_message e) c of
                    None \<Rightarrow> ((c\<lparr>con_codec := k\<lparr>codec_duplicates := codec_duplicates k + 1\<rparr>\<rparr>, w), Some ErrDuplicateMessage)
                  | Some c \<Rightarrow>
                      (case h e w of
                         (w, Some err) \<Rightarrow> ((release (env_message e) c, w), Some err)
                       | (w, None) \<Rightarrow> ((c, w), None)))))"

section \<open>Lemmas\<close>

definition window_inv :: "consumer \<Rightarrow> bool" where
  "window_inv c \<longleftrightarrow>
     1 \<le> con_capacity c \<and> set (con_order c) = con_seen c \<and> distinct (con_order c) \<and>
     length (con_order c) \<le> con_capacity c"

lemma window_inv_new: "NewConsumer codec capacity = Inr c \<Longrightarrow> window_inv c"
  by (auto simp: NewConsumer_def window_inv_def split: option.splits if_splits)

lemma window_inv_codec [simp]: "window_inv (c\<lparr>con_codec := k\<rparr>) = window_inv c"
  by (simp add: window_inv_def)

lemma reserve_Some:
  assumes "window_inv c" "reserve i c = Some c'"
  shows "i \<notin> con_seen c"
    "c' = (if length (con_order c) < con_capacity c
           then c\<lparr>con_seen := insert i (con_seen c), con_order := con_order c @ [i]\<rparr>
           else c\<lparr>con_seen := insert i (con_seen c - {hd (con_order c)}), con_order := tl (con_order c) @ [i]\<rparr>)"
proof -
  show i: "i \<notin> con_seen c" using assms(2) by (auto simp: reserve_def split: if_splits)
  have c: "1 \<le> con_capacity c" "set (con_order c) = con_seen c" "length (con_order c) \<le> con_capacity c"
    using assms(1) by (auto simp: window_inv_def)
  show "c' = (if length (con_order c) < con_capacity c
           then c\<lparr>con_seen := insert i (con_seen c), con_order := con_order c @ [i]\<rparr>
           else c\<lparr>con_seen := insert i (con_seen c - {hd (con_order c)}), con_order := tl (con_order c) @ [i]\<rparr>)"
  proof (cases "length (con_order c) < con_capacity c")
    case True
    then show ?thesis using assms(2) i by (auto simp: reserve_def Let_def)
  next
    case False
    then obtain x xs where "con_order c = x # xs" using c(1,3) by (cases "con_order c") auto
    moreover from this have "x \<noteq> i" using i c(2) by auto
    ultimately show ?thesis using False assms(2) i by (auto simp: reserve_def Let_def insert_Diff_if)
  qed
qed

lemma reserve_inv:
  assumes "window_inv c" "reserve i c = Some c'"
  shows "window_inv c'"
proof -
  note c' = reserve_Some [OF assms]
  show ?thesis
  proof (cases "length (con_order c) < con_capacity c")
    case True
    with c' assms(1) show ?thesis by (simp add: window_inv_def)
  next
    case False
    then obtain x xs where "con_order c = x # xs" using assms(1) by (cases "con_order c") (auto simp: window_inv_def)
    with False c' assms(1) show ?thesis by (auto simp: window_inv_def)
  qed
qed

lemma release_inv: "window_inv c \<Longrightarrow> window_inv (release i c)"
  by (auto simp: window_inv_def release_def length_remove1)

lemma Decode_codec:
  "codec_site (fst (Decode now p c)) = codec_site c" "codec_maximum (fst (Decode now p c)) = codec_maximum c"
  by (auto simp: Decode_def split: sum.splits option.splits)

lemma Consume_inv: "window_inv c \<Longrightarrow> window_inv (fst (fst (Consume now p h (c, w))))"
proof -
  assume c: "window_inv c"
  have r: "window_inv c'" if "reserve i (c\<lparr>con_codec := k\<rparr>) = Some c'" for i k c'
    using reserve_inv [OF _ that] c by simp
  show ?thesis
    using c r by (auto simp: Consume_def Let_def split: option.splits prod.splits intro!: release_inv)
qed

lemma Decode_ok:
  assumes "Decode now p c = (c', ok e)"
  shows "pay_size p \<le> codec_maximum c" "pay_envelope p = Inr e" "major (env_schema e) = ''1''"
    "env_site e = codec_site c" "validateUUID (env_correlation e) = None" "env_message e \<noteq> []"
    "length (env_message e) \<le> 64" "case env_expires e of None \<Rightarrow> True | Some t \<Rightarrow> now < t"
    "\<exists>v. env_data e = RawJSON v"
proof -
  have m: "major ''1.0'' = ''1''" by (simp add: major_def)
  have v: "pay_size p \<le> codec_maximum c \<and> pay_envelope p = Inr e \<and> major (env_schema e) = ''1'' \<and>
      envelope_validate now c e = None"
    using assms by (auto simp: Decode_def m split: if_splits sum.splits option.splits)
  then show "pay_size p \<le> codec_maximum c" "pay_envelope p = Inr e" "major (env_schema e) = ''1''"
    "env_site e = codec_site c" "validateUUID (env_correlation e) = None" "env_message e \<noteq> []"
    "length (env_message e) \<le> 64" "case env_expires e of None \<Rightarrow> True | Some t \<Rightarrow> now < t"
    by (auto simp: envelope_validate_def split: option.splits)
  from v show "\<exists>v. env_data e = RawJSON v"
    by (cases "env_data e") (auto simp: envelope_validate_def)
qed

lemma Encode_ok:
  assumes "Encode encoded_size enc now c message source correlation occurred expires revision data = ok p"
  shows "\<exists>e. p = \<lparr>pay_size = encoded_size e, pay_envelope = Inr e, pay_rest = None\<rparr> \<and> encoded_size e \<le> codec_maximum c \<and>
    envelope_validate now c e = None \<and> env_schema e = ''1.0'' \<and> env_message e = message \<and>
    env_data e = RawJSON data \<and> env_revision e = revision \<and> env_expires e = expires \<and> env_correlation e = correlation"
  using assms by (auto simp: Encode_def json_marshal_def Let_def split: if_splits option.splits sum.splits)

lemma Decode_cases: "(\<exists>k e. Decode now p c = (k, ok e)) \<or> (\<exists>k err. Decode now p c = (k, fail err))"
  by (auto simp: Decode_def split: sum.splits option.splits)

text \<open>What was consumed is not consumed again: the second time there is an error and no call of the handler.\<close>

lemma Consume_again:
  assumes "window_inv c" "Consume now p (Some h) (c, w) = ((c1, w1), None)"
  shows "\<exists>c2 err. Consume now' p (Some h') (c1, w1) = ((c2, w1), Some err)"
proof -
  obtain k e where d: "Decode now p (con_codec c) = (k, ok e)"
    using assms(2) Decode_cases [of now p "con_codec c"] by (auto simp: Consume_def fail_def)
  obtain c' where c': "reserve (env_message e) (c\<lparr>con_codec := k\<rparr>) = Some c'" "c1 = c'"
    using assms(2) d by (auto simp: Consume_def Let_def ok_def split: option.splits prod.splits)
  have seen: "env_message e \<in> con_seen c1"
    using reserve_Some [OF _ c'(1)] assms(1) c'(2) by auto
  from Decode_cases [of now' p "con_codec c1"] consider k' e' where "Decode now' p (con_codec c1) = (k', ok e')"
    | k' err where "Decode now' p (con_codec c1) = (k', fail err)" by blast
  then show ?thesis
  proof cases
    case (1 k' e')
    then have "e' = e" using Decode_ok(2) [OF 1] Decode_ok(2) [OF d] by simp
    then show ?thesis using 1 seen by (auto simp: Consume_def reserve_def ok_def)
  next
    case (2 k' err)
    then show ?thesis by (auto simp: Consume_def fail_def)
  qed
qed

section \<open>Properties\<close>

lemma envelope_validate_codec:
  "codec_site c' = codec_site c \<Longrightarrow> envelope_validate now c e = None \<Longrightarrow>
     (case env_expires e of None \<Rightarrow> True | Some t \<Rightarrow> now' < t) \<Longrightarrow> envelope_validate now' c' e = None"
  by (auto simp: envelope_validate_def split: option.splits)

text \<open>
  What was encoded is decoded: the payload \<open>Encode\<close> produces is accepted, as long as it has not
  expired, by every codec of the same site with at least the same limit, which returns the
  envelope that was built, with the data, the correlation and the revision, and counts it once.
\<close>

theorem encode_decode:
  assumes "Encode encoded_size enc now c message source correlation occurred expires revision data = ok p"
    and "codec_site c' = codec_site c" "codec_maximum c \<le> codec_maximum c'"
    and "case expires of None \<Rightarrow> True | Some t \<Rightarrow> now' < t"
  shows "\<exists>e. Decode now' p c' = (c'\<lparr>codec_decoded := codec_decoded c' + 1\<rparr>, ok e) \<and> env_data e = RawJSON data \<and>
    env_message e = message \<and> env_correlation e = correlation \<and> env_revision e = revision \<and> env_expires e = expires"
proof -
  from Encode_ok [OF assms(1)] obtain e where
    e: "p = \<lparr>pay_size = encoded_size e, pay_envelope = Inr e, pay_rest = None\<rparr>" "encoded_size e \<le> codec_maximum c"
      "envelope_validate now c e = None" "env_schema e = ''1.0''" "env_expires e = expires" "env_data e = RawJSON data"
      "env_message e = message" "env_correlation e = correlation" "env_revision e = revision" by blast
  have "envelope_validate now' c' e = None"
    by (rule envelope_validate_codec [OF assms(2) e(3)]) (use assms(4) e(5) in simp)
  with e assms(3) show ?thesis by (simp add: Decode_def)
qed

abbreviation sample_codec :: codec where
  "sample_codec \<equiv> \<lparr>codec_site = ''reef'', codec_maximum = 4096, codec_decoded = 0, codec_malformed = 0,
     codec_oversized = 0, codec_expired = 0, codec_unknown = 0, codec_duplicates = 0\<rparr>"

theorem encode_decode_witness:
  "\<exists>p e. Encode (\<lambda>_. 512) (\<lambda>_. True) 5 sample_codec ''m1'' ''core'' (sample_id 1) 5 (Some 9) None (7::nat) = ok p \<and>
     snd (Decode 8 p sample_codec) = ok e \<and> env_data e = RawJSON 7"
proof -
  obtain p where p:
    "Encode (\<lambda>_. 512) (\<lambda>_. True) 5 sample_codec ''m1'' ''core'' (sample_id 1) 5 (Some 9) None (7::nat) = ok p"
    by (simp add: Encode_def json_marshal_def envelope_validate_def json_time_def day_ns_def wrap_def Let_def)
  from encode_decode [OF p, of sample_codec 8] p show ?thesis by auto
qed

end
