(* ===== verification/Equipment.thy ===== *)
theory Equipment
  imports StateManager
begin

text \<open>
  The package \<open>internal/equipment\<close> without its registry: the equipment state machine
  (\<open>machine.go\<close>) and the safety profiles (\<open>profile.go\<close>).
\<close>

section \<open>The equipment state machine\<close>

datatype operating_state =
    StateUnknown | StateOff | StateStarting | StateOn | StateStopping | StateFault
  | OperatingOther string

datatype transition =
    TransitionCommandOn | TransitionCommandOff
  | TransitionAcknowledgedOn | TransitionAcknowledgedOff
  | TransitionReportedOn | TransitionReportedOff
  | TransitionFault | TransitionReset
  | TransitionOther string

record machine =
  machine_state :: operating_state
  machine_acknowledged :: bool

definition ErrInvalidStateTransition :: go_error where
  "ErrInvalidStateTransition = Sentinel ''equipment.ErrInvalidStateTransition''"

definition NewMachine :: machine where
  "NewMachine = \<lparr>machine_state = StateUnknown, machine_acknowledged = False\<rparr>"

text \<open>\<open>Apply\<close>: the machine afterwards and the error; the state it returns is the machine's.\<close>

definition machine_apply :: "machine \<Rightarrow> transition \<Rightarrow> machine \<times> go_error option" where
  "machine_apply m t =
     (let invalid = (m, Some ErrInvalidStateTransition)
      in if t = TransitionFault then (\<lparr>machine_state = StateFault, machine_acknowledged = False\<rparr>, None)
      else case machine_state m of
        StateUnknown \<Rightarrow>
          (case t of
             TransitionReportedOn \<Rightarrow> (m\<lparr>machine_state := StateOn\<rparr>, None)
           | TransitionReportedOff \<Rightarrow> (m\<lparr>machine_state := StateOff\<rparr>, None)
           | _ \<Rightarrow> invalid)
      | StateOff \<Rightarrow>
          (case t of
             TransitionCommandOn \<Rightarrow> (\<lparr>machine_state = StateStarting, machine_acknowledged = False\<rparr>, None)
           | TransitionReportedOn \<Rightarrow> (m\<lparr>machine_state := StateOn\<rparr>, None)
           | _ \<Rightarrow> invalid)
      | StateStarting \<Rightarrow>
          (case t of
             TransitionAcknowledgedOn \<Rightarrow> (m\<lparr>machine_acknowledged := True\<rparr>, None)
           | TransitionReportedOn \<Rightarrow>
               if \<not> machine_acknowledged m then invalid
               else (\<lparr>machine_state = StateOn, machine_acknowledged = False\<rparr>, None)
           | TransitionCommandOff \<Rightarrow> (\<lparr>machine_state = StateStopping, machine_acknowledged = False\<rparr>, None)
           | _ \<Rightarrow> invalid)
      | StateOn \<Rightarrow>
          (case t of
             TransitionCommandOff \<Rightarrow> (\<lparr>machine_state = StateStopping, machine_acknowledged = False\<rparr>, None)
           | TransitionReportedOff \<Rightarrow> (m\<lparr>machine_state := StateOff\<rparr>, None)
           | _ \<Rightarrow> invalid)
      | StateStopping \<Rightarrow>
          (case t of
             TransitionAcknowledgedOff \<Rightarrow> (m\<lparr>machine_acknowledged := True\<rparr>, None)
           | TransitionReportedOff \<Rightarrow>
               if \<not> machine_acknowledged m then invalid
               else (\<lparr>machine_state = StateOff, machine_acknowledged = False\<rparr>, None)
           | _ \<Rightarrow> invalid)
      | StateFault \<Rightarrow>
          if t \<noteq> TransitionReset then invalid
          else (\<lparr>machine_state = StateUnknown, machine_acknowledged = False\<rparr>, None)
      | OperatingOther _ \<Rightarrow> invalid)"

fun machine_run :: "machine \<Rightarrow> transition list \<Rightarrow> machine" where
  "machine_run m [] = m"
| "machine_run m (t # ts) = machine_run (fst (machine_apply m t)) ts"

section \<open>Safety profiles\<close>

datatype equipment_kind =
    KindOutlet | KindHeater | KindReturnPump | KindCirculationPump | KindATO | KindDosingPump
  | KindLight | KindOther string

record input_requirement =
  req_key :: state_key
  req_boolean :: "bool option"

record limits =
  maximum_on :: duration
  maximum_daily_on :: duration
  minimum_off :: duration

record profile =
  profile_equipment :: ident
  profile_kind :: equipment_kind
  profile_hazardous :: bool
  profile_fail_safe_on :: bool
  profile_capabilities :: "capability list"
  profile_limits :: limits
  profile_required :: "input_requirement list"

definition requirement_validate :: "input_requirement \<Rightarrow> go_error option" where
  "requirement_validate r = first_error [
     guard (key_kind (req_key r) \<noteq> EntitySensor \<or> key_plane (req_key r) \<noteq> PlaneObservation \<or>
            key_attribute (req_key r) = [])
       (ErrorString ''safety inputs must reference a sensor observation attribute''),
     guard (validateUUID (key_entity (req_key r)) \<noteq> None)
       (ErrorString ''safety input entity ID is invalid'')]"

definition profile_kind_validate :: "profile \<Rightarrow> go_error option" where
  "profile_kind_validate p =
     (if profile_kind p \<in> {KindOutlet, KindReturnPump, KindCirculationPump, KindLight} then None
      else if profile_kind p \<in> {KindHeater, KindATO, KindDosingPump} then first_error [
        guard (\<not> profile_hazardous p)
          (ErrorString ''heater, ATO, and dosing profiles must be hazardous''),
        guard (maximum_on (profile_limits p) \<le> 0)
          (ErrorString ''hazardous equipment requires a positive maximum-on limit''),
        guard (profile_required p = [])
          (ErrorString ''hazardous equipment requires at least one safety input'')]
      else Some (ErrorString ''unsupported equipment kind''))"

definition profile_validate :: "profile \<Rightarrow> go_error option" where
  "profile_validate p = first_error ([
     validateUUID (profile_equipment p),
     ValidateCapabilities (profile_capabilities p),
     guard (\<not> SupportsAll (profile_capabilities p)
              [CapabilitySwitch, CapabilityCommandAcknowledgement, CapabilityReportedState])
       (ErrorString ''controlled equipment requires switch, acknowledgement, and reported-state capabilities''),
     profile_kind_validate p,
     guard (maximum_on (profile_limits p) < 0 \<or> maximum_daily_on (profile_limits p) < 0 \<or>
            minimum_off (profile_limits p) < 0)
       (ErrorString ''equipment limits cannot be negative''),
     guard (maximum_daily_on (profile_limits p) > 0 \<and>
            maximum_on (profile_limits p) > maximum_daily_on (profile_limits p))
       (ErrorString ''maximum-on cannot exceed maximum-daily-on''),
     guard (profile_fail_safe_on p \<and> profile_hazardous p)
       (ErrorString ''hazardous equipment cannot fail safe on''),
     guard (profile_kind p = KindDosingPump \<and> maximum_daily_on (profile_limits p) \<le> 0)
       (ErrorString ''dosing equipment requires a positive maximum-daily-on limit'')] @
     map requirement_validate (profile_required p))"

section \<open>The machine's documented diagram\<close>

text \<open>
  The state diagram of \<open>docs/equipment-safety.md\<close> as a relation on operating states: what a
  reader of the documentation is promised.
\<close>

inductive diagram :: "operating_state \<Rightarrow> transition \<Rightarrow> operating_state \<Rightarrow> bool" where
  learn_on: "diagram StateUnknown TransitionReportedOn StateOn"
| learn_off: "diagram StateUnknown TransitionReportedOff StateOff"
| turn_on: "diagram StateOff TransitionCommandOn StateStarting"
| ack_on: "diagram StateStarting TransitionAcknowledgedOn StateStarting"
| reported_on: "diagram StateStarting TransitionReportedOn StateOn"
| abort: "diagram StateStarting TransitionCommandOff StateStopping"
| turn_off: "diagram StateOn TransitionCommandOff StateStopping"
| ack_off: "diagram StateStopping TransitionAcknowledgedOff StateStopping"
| reported_off: "diagram StateStopping TransitionReportedOff StateOff"
| uncommanded_on: "diagram StateOff TransitionReportedOn StateOn"
| uncommanded_off: "diagram StateOn TransitionReportedOff StateOff"
| fault: "diagram s TransitionFault StateFault"
| reset: "diagram StateFault TransitionReset StateUnknown"

inductive_cases diagram_to_on: "diagram s t StateOn"
inductive_cases diagram_to_off: "diagram s t StateOff"

section \<open>Lemmas\<close>

lemmas machine_cases = operating_state.splits transition.splits if_splits

declare requirement_validate_def [validators] profile_kind_validate_def [validators] profile_validate_def [validators]

lemma machine_apply_diagram:
  "machine_apply m t = (m', None) \<Longrightarrow> diagram (machine_state m) t (machine_state m')"
  by (cases "machine_state m"; cases t)
     (auto simp: machine_apply_def Let_def intro: diagram.intros split: if_splits)

lemma machine_apply_error:
  "machine_apply m t = (m', Some e) \<Longrightarrow> m' = m \<and> e = ErrInvalidStateTransition"
  by (cases "machine_state m"; cases t) (auto simp: machine_apply_def Let_def split: if_splits)

text \<open>The acknowledgement flag is set only while a command is in progress.\<close>

definition machine_inv :: "machine \<Rightarrow> bool" where
  "machine_inv m \<longleftrightarrow> (machine_acknowledged m \<longrightarrow> machine_state m \<in> {StateStarting, StateStopping})"

lemma machine_inv_apply: "machine_inv m \<Longrightarrow> machine_inv (fst (machine_apply m t))"
  by (cases "machine_state m"; cases t) (auto simp: machine_apply_def machine_inv_def Let_def)

lemma machine_inv_run: "machine_inv m \<Longrightarrow> machine_inv (machine_run m ts)"
  by (induction m ts rule: machine_run.induct) (auto intro: machine_inv_apply)

lemma machine_inv_new: "machine_inv NewMachine"
  by (simp add: machine_inv_def NewMachine_def)

lemma machine_run_append: "machine_run m (ts @ us) = machine_run (machine_run m ts) us"
  by (induction m ts rule: machine_run.induct) auto

lemma first_error_append_None:
  "first_error (xs @ ys) = None \<longleftrightarrow> first_error xs = None \<and> first_error ys = None"
  by (auto simp: first_error_None)

lemma requirement_validate_None:
  "requirement_validate r = None \<longleftrightarrow>
     key_kind (req_key r) = EntitySensor \<and> key_plane (req_key r) = PlaneObservation \<and>
     key_attribute (req_key r) \<noteq> [] \<and> validateUUID (key_entity (req_key r)) = None"
  by (auto simp: requirement_validate_def)

lemma profile_validate_limits:
  assumes "profile_validate p = None"
  shows "0 \<le> maximum_on (profile_limits p)" "0 \<le> maximum_daily_on (profile_limits p)"
    "0 \<le> minimum_off (profile_limits p)" "\<not> (profile_fail_safe_on p \<and> profile_hazardous p)"
    "validateUUID (profile_equipment p) = None"
  using assms by (auto simp: profile_validate_def)

lemma profile_validate_required:
  "profile_validate p = None \<Longrightarrow> r \<in> set (profile_required p) \<Longrightarrow> requirement_validate r = None"
  by (auto simp: profile_validate_def first_error_append_None first_error_None)

lemma profile_validate_hazardous:
  assumes "profile_validate p = None" "profile_kind p \<in> {KindHeater, KindATO, KindDosingPump}"
  shows "profile_hazardous p" "0 < maximum_on (profile_limits p)" "profile_required p \<noteq> []"
    "\<not> profile_fail_safe_on p"
  using assms by (auto simp: validators)

section \<open>Properties\<close>


end
