(* ===== verification/Safety.thy ===== *)
theory Safety
  imports Equipment
begin

text \<open>
  The package \<open>internal/safety\<close>: operating modes, overrides, the evaluation of command intents
  against hard limits and required inputs, accounting of reported runtime, and watchdogs.

  The canonical state the engine reads is the argument \<open>reader\<close> (\<open>StateReader.Get\<close> at the
  moment of the call). \<open>CheckWatchdogs\<close> ranges over two maps; the orders are its arguments.
\<close>

section \<open>State\<close>

datatype safety_mode = ModeNormal | ModeMaintenance | ModeManual | ModeEmergencyStop | ModeOther string

abbreviation ReasonAllowed :: string where "ReasonAllowed \<equiv> ''safety.allowed''"
abbreviation ReasonUnknownEquipment :: string where "ReasonUnknownEquipment \<equiv> ''safety.unknown_equipment''"
abbreviation ReasonEmergencyStop :: string where "ReasonEmergencyStop \<equiv> ''safety.emergency_stop''"
abbreviation ReasonOverrideRequired :: string where "ReasonOverrideRequired \<equiv> ''safety.override_required''"
abbreviation ReasonOverrideExpired :: string where "ReasonOverrideExpired \<equiv> ''safety.override_expired''"
abbreviation ReasonInputMissing :: string where "ReasonInputMissing \<equiv> ''safety.input_missing''"
abbreviation ReasonInputInvalid :: string where "ReasonInputInvalid \<equiv> ''safety.input_invalid''"
abbreviation ReasonInputStale :: string where "ReasonInputStale \<equiv> ''safety.input_stale''"
abbreviation ReasonInputMismatch :: string where "ReasonInputMismatch \<equiv> ''safety.input_mismatch''"
abbreviation ReasonMaximumOn :: string where "ReasonMaximumOn \<equiv> ''safety.maximum_on''"
abbreviation ReasonMaximumDailyOn :: string where "ReasonMaximumDailyOn \<equiv> ''safety.maximum_daily_on''"
abbreviation ReasonMinimumOff :: string where "ReasonMinimumOff \<equiv> ''safety.minimum_off''"

record intent =
  intent_equipment :: ident
  intent_on :: bool
  intent_issued :: gotime

record decision =
  decision_allowed :: bool
  decision_reason :: string
  decision_hard_limit :: bool
  decision_override :: ident

record override =
  override_id :: ident
  override_equipment :: ident
  override_requester :: string
  override_reason :: string
  override_created :: gotime
  override_expires :: gotime

record watchdog_action =
  action_equipment :: ident
  action_on :: bool
  action_reason :: string
  action_observed :: gotime

record runtime_state =
  rt_on :: bool
  rt_on_since :: gotime
  rt_off_since :: gotime
  rt_daily_on :: duration
  rt_daily_date :: "int option"
  rt_last_accounted :: gotime
  rt_watchdog_reason :: string

record engine =
  eng_mode :: safety_mode
  eng_profiles :: "ident \<rightharpoonup> profile"
  eng_overrides :: "ident \<rightharpoonup> override"
  eng_runtime :: "ident \<rightharpoonup> runtime_state"
  eng_started :: bool

definition zero_runtime :: runtime_state where
  "zero_runtime =
     \<lparr>rt_on = False, rt_on_since = 0, rt_off_since = 0, rt_daily_on = 0, rt_daily_date = None,
      rt_last_accounted = 0, rt_watchdog_reason = []\<rparr>"

definition runtime_of :: "engine \<Rightarrow> ident \<Rightarrow> runtime_state" where
  "runtime_of e i = (case eng_runtime e i of None \<Rightarrow> zero_runtime | Some r \<Rightarrow> r)"

definition allow :: decision where
  "allow = \<lparr>decision_allowed = True, decision_reason = ReasonAllowed, decision_hard_limit = False,
            decision_override = []\<rparr>"

definition deny :: "string \<Rightarrow> decision" where
  "deny reason = \<lparr>decision_allowed = False, decision_reason = reason, decision_hard_limit = False,
                  decision_override = []\<rparr>"

definition deny_hard :: "string \<Rightarrow> decision" where
  "deny_hard reason = \<lparr>decision_allowed = False, decision_reason = reason, decision_hard_limit = True,
                       decision_override = []\<rparr>"

text \<open>The test \<open>err == nil && decision.Allowed\<close>.\<close>

definition granted :: "decision ret \<Rightarrow> bool" where
  "granted d \<longleftrightarrow>
     snd d = None \<and> (case fst d of None \<Rightarrow> False | Some x \<Rightarrow> decision_allowed x)"

section \<open>Construction, lifecycle, modes and overrides\<close>

fun add_profiles :: "profile list \<Rightarrow> engine \<Rightarrow> go_error + engine" where
  "add_profiles [] e = Inr e"
| "add_profiles (p # ps) e =
     (case profile_validate p of
        Some err \<Rightarrow> Inl (Wrapped ''profile'' err)
      | None \<Rightarrow>
          if eng_profiles e (profile_equipment p) \<noteq> None
          then Inl (ErrorString ''duplicate equipment safety profile'')
          else add_profiles ps (e\<lparr>eng_profiles := (eng_profiles e)(profile_equipment p \<mapsto> p)\<rparr>))"

text \<open>\<open>NewEngine\<close>; the first argument says whether reader, logger and clock were all given.\<close>

definition NewEngine :: "bool \<Rightarrow> profile list \<Rightarrow> go_error + engine" where
  "NewEngine dependencies profiles =
     (if \<not> dependencies then Inl (ErrorString ''safety state reader, logger, and clock are required'')
      else add_profiles profiles
        \<lparr>eng_mode = ModeNormal, eng_profiles = Map.empty, eng_overrides = Map.empty,
         eng_runtime = Map.empty, eng_started = False\<rparr>)"

definition eng_start :: "engine \<Rightarrow> engine" where
  "eng_start e = e\<lparr>eng_started := True\<rparr>"

definition eng_stop :: "engine \<Rightarrow> engine" where
  "eng_stop e = e\<lparr>eng_started := False\<rparr>"

definition eng_health :: "gotime \<Rightarrow> engine \<Rightarrow> status" where
  "eng_health now e = started_status ''safety'' (eng_started e) now"

definition SetMode :: "'v env \<Rightarrow> safety_mode \<Rightarrow> engine \<Rightarrow> engine \<times> go_error option" where
  "SetMode env mode e =
     (case ctx_err env of
        Some err \<Rightarrow> (e, Some err)
      | None \<Rightarrow>
          if mode \<notin> {ModeNormal, ModeMaintenance, ModeManual, ModeEmergencyStop}
          then (e, Some (ErrorString ''unsupported safety mode''))
          else (e\<lparr>eng_mode := mode\<rparr>, None))"

definition GrantOverride :: "'v env \<Rightarrow> override \<Rightarrow> engine \<Rightarrow> engine \<times> go_error option" where
  "GrantOverride env ov e =
     (case first_error [ctx_err env, validateUUID (override_id ov),
             guard (override_reason ov = [] \<or> override_requester ov = [])
               (ErrorString ''override requester and reason are required'')] of
        Some err \<Rightarrow> (e, Some err)
      | None \<Rightarrow>
          (let ov = (if is_zero (override_created ov) then ov\<lparr>override_created := env_now env\<rparr> else ov)
           in if \<not> override_expires ov > override_created ov
              then (e, Some (ErrorString ''override expiry must follow creation''))
              else if eng_profiles e (override_equipment ov) = None
              then (e, Some (ErrorString ReasonUnknownEquipment))
              else (e\<lparr>eng_overrides := (eng_overrides e)(override_equipment ov \<mapsto> ov)\<rparr>, None)))"

definition RevokeOverride :: "'v env \<Rightarrow> ident \<Rightarrow> engine \<Rightarrow> engine \<times> go_error option" where
  "RevokeOverride env i e =
     (case ctx_err env of
        Some err \<Rightarrow> (e, Some err)
      | None \<Rightarrow> (e\<lparr>eng_overrides := (eng_overrides e)(i := None)\<rparr>, None))"

section \<open>Accounting\<close>

text \<open>\<open>accountLocked\<close>, first on one runtime record and then on the engine.\<close>

definition account_runtime :: "gotime \<Rightarrow> runtime_state \<Rightarrow> runtime_state" where
  "account_runtime t r =
     (let date = Some (utc_day t);
          r = (if rt_daily_date r \<noteq> date
               then let r = r\<lparr>rt_daily_date := date, rt_daily_on := 0\<rparr>
                    in if rt_on r then r\<lparr>rt_last_accounted := t\<rparr> else r
               else r)
      in if rt_on r \<and> \<not> is_zero (rt_last_accounted r) \<and> t > rt_last_accounted r
         then r\<lparr>rt_daily_on := dur_add (rt_daily_on r) (time_sub t (rt_last_accounted r)),
                rt_last_accounted := t\<rparr>
         else r)"

definition accountLocked :: "ident \<Rightarrow> gotime \<Rightarrow> engine \<Rightarrow> engine \<times> runtime_state" where
  "accountLocked i t e =
     (let r = account_runtime t (runtime_of e i)
      in (e\<lparr>eng_runtime := (eng_runtime e)(i \<mapsto> r)\<rparr>, r))"

section \<open>Evaluation of intents\<close>

fun validateInputs :: "(state_key \<Rightarrow> state_value ret) \<Rightarrow> input_requirement list \<Rightarrow> decision ret" where
  "validateInputs reader [] = ok allow"
| "validateInputs reader (q # qs) =
     (case reader (req_key q) of
        (_, Some err) \<Rightarrow>
          if errors_is err ''state.ErrNotFound'' then ok (deny_hard ReasonInputMissing) else fail err
      | (None, None) \<Rightarrow> ok (deny_hard ReasonInputInvalid)
      | (Some v, None) \<Rightarrow>
          if sv_quality v = QualityStale then ok (deny_hard ReasonInputStale)
          else if sv_quality v \<noteq> QualityGood then ok (deny_hard ReasonInputInvalid)
          else if req_boolean q \<noteq> None \<and>
                  (value_boolean (sv_value v) = None \<or> value_boolean (sv_value v) \<noteq> req_boolean q)
          then ok (deny_hard ReasonInputMismatch)
          else validateInputs reader qs)"

text \<open>The part of \<open>Evaluate\<close> after the lock is released, for an intent to switch on.\<close>

definition evaluate_on ::
  "(state_key \<Rightarrow> state_value ret) \<Rightarrow> gotime \<Rightarrow> safety_mode \<Rightarrow> profile \<Rightarrow> runtime_state \<Rightarrow> override option \<Rightarrow> decision ret"
where
  "evaluate_on reader now mode p r ov =
     (let l = profile_limits p
      in if mode = ModeEmergencyStop then ok (deny_hard ReasonEmergencyStop)
         else if rt_on r \<and> maximum_on l > 0 \<and> time_sub now (rt_on_since r) \<ge> maximum_on l
         then ok (deny_hard ReasonMaximumOn)
         else if maximum_daily_on l > 0 \<and> rt_daily_on r \<ge> maximum_daily_on l
         then ok (deny_hard ReasonMaximumDailyOn)
         else if \<not> is_zero (rt_off_since r) \<and> minimum_off l > 0 \<and>
                 time_sub now (rt_off_since r) < minimum_off l
         then ok (deny_hard ReasonMinimumOff)
         else let inputs = (if profile_hazardous p then validateInputs reader (profile_required p) else ok allow)
         in if \<not> granted inputs then inputs
         else if (mode = ModeMaintenance \<or> mode = ModeManual) \<and> ov = None
         then ok (deny ReasonOverrideRequired)
         else ok (case ov of None \<Rightarrow> allow | Some v \<Rightarrow> allow\<lparr>decision_override := override_id v\<rparr>))"

definition Evaluate ::
  "'v env \<Rightarrow> (state_key \<Rightarrow> state_value ret) \<Rightarrow> intent \<Rightarrow> engine \<Rightarrow> engine \<times> decision ret"
where
  "Evaluate env reader intent e =
     (case ctx_err env of
        Some err \<Rightarrow> (e, fail err)
      | None \<Rightarrow>
          (let now = (if is_zero (intent_issued intent) then env_now env else intent_issued intent);
               i = intent_equipment intent
           in case eng_profiles e i of
                None \<Rightarrow> (e, ok (deny ReasonUnknownEquipment))
              | Some p \<Rightarrow>
                  (let (e, r) = accountLocked i now e;
                       mode = eng_mode e;
                       (e, ov) = (case eng_overrides e i of
                                    None \<Rightarrow> (e, None)
                                  | Some v \<Rightarrow>
                                      if \<not> now < override_expires v
                                      then (e\<lparr>eng_overrides := (eng_overrides e)(i := None)\<rparr>, None)
                                      else (e, Some v))
                   in if \<not> intent_on intent then (e, ok allow)
                      else (e, evaluate_on reader now mode p r ov))))"

section \<open>Reported state\<close>

definition report_runtime :: "bool \<Rightarrow> gotime \<Rightarrow> runtime_state \<Rightarrow> runtime_state" where
  "report_runtime on t r =
     (if rt_on r \<noteq> on
      then (if on then r\<lparr>rt_on := True, rt_on_since := t, rt_last_accounted := t\<rparr>
            else r\<lparr>rt_on := False, rt_off_since := t, rt_on_since := 0, rt_last_accounted := 0\<rparr>)
           \<lparr>rt_watchdog_reason := []\<rparr>
      else r)"

definition RecordReported ::
  "'v env \<Rightarrow> ident \<Rightarrow> bool \<Rightarrow> gotime \<Rightarrow> engine \<Rightarrow> engine \<times> go_error option"
where
  "RecordReported env i on observed e =
     (case first_error [ctx_err env,
             guard (is_zero observed) (ErrorString ''reported-state timestamp is required''),
             guard (eng_profiles e i = None) (ErrorString ReasonUnknownEquipment)] of
        Some err \<Rightarrow> (e, Some err)
      | None \<Rightarrow>
          (let (e, r) = accountLocked i observed e
           in (e\<lparr>eng_runtime := (eng_runtime e)(i \<mapsto> report_runtime on observed r)\<rparr>, None)))"

section \<open>Watchdogs\<close>

definition fail_safe_of :: "engine \<Rightarrow> ident \<Rightarrow> bool" where
  "fail_safe_of e i = (case eng_profiles e i of None \<Rightarrow> False | Some p \<Rightarrow> profile_fail_safe_on p)"

definition trip :: "gotime \<Rightarrow> ident \<Rightarrow> string \<Rightarrow> runtime_state \<Rightarrow> engine \<Rightarrow> engine \<times> watchdog_action" where
  "trip now i reason r e =
     (e\<lparr>eng_runtime := (eng_runtime e)(i \<mapsto> r\<lparr>rt_watchdog_reason := reason\<rparr>)\<rparr>,
      \<lparr>action_equipment = i, action_on = fail_safe_of e i, action_reason = reason, action_observed = now\<rparr>)"

text \<open>The body of the loop over the overrides, and the loop.\<close>

definition expire_override :: "gotime \<Rightarrow> ident \<Rightarrow> engine \<Rightarrow> engine \<times> watchdog_action list" where
  "expire_override now i e =
     (case eng_overrides e i of
        None \<Rightarrow> (e, [])
      | Some ov \<Rightarrow>
          if now < override_expires ov then (e, [])
          else let e = e\<lparr>eng_overrides := (eng_overrides e)(i := None)\<rparr>;
                   (e, r) = accountLocked i now e
               in if rt_on r \<and> rt_watchdog_reason r = []
                  then let (e, a) = trip now i ReasonOverrideExpired r e in (e, [a])
                  else (e, []))"

text \<open>The body of the loop over the profiles.\<close>

definition check_profile :: "gotime \<Rightarrow> ident \<Rightarrow> engine \<Rightarrow> engine \<times> watchdog_action list" where
  "check_profile now i e =
     (case eng_profiles e i of
        None \<Rightarrow> (e, [])
      | Some p \<Rightarrow>
          (let (e, r) = accountLocked i now e; l = profile_limits p
           in if rt_watchdog_reason r \<noteq> [] then (e, [])
              else if rt_on r \<and> maximum_on l > 0 \<and> time_sub now (rt_on_since r) \<ge> maximum_on l
              then let (e, a) = trip now i ReasonMaximumOn r e in (e, [a])
              else if rt_on r \<and> maximum_daily_on l > 0 \<and> rt_daily_on r \<ge> maximum_daily_on l
              then let (e, a) = trip now i ReasonMaximumDailyOn r e in (e, [a])
              else (e, [])))"

fun watchdog_loop ::
  "(ident \<Rightarrow> engine \<Rightarrow> engine \<times> watchdog_action list) \<Rightarrow> ident list \<Rightarrow> engine \<Rightarrow> engine \<times> watchdog_action list"
where
  "watchdog_loop body [] e = (e, [])"
| "watchdog_loop body (i # is) e =
     (let (e, a) = body i e; (e, as) = watchdog_loop body is e in (e, a @ as))"

definition CheckWatchdogs ::
  "'v env \<Rightarrow> ident list \<Rightarrow> ident list \<Rightarrow> engine \<Rightarrow> engine \<times> watchdog_action list ret"
where
  "CheckWatchdogs env overrides profiles e =
     (case ctx_err env of
        Some err \<Rightarrow> (e, fail err)
      | None \<Rightarrow>
          (let now = env_now env;
               (e, expired) = watchdog_loop (expire_override now) overrides e;
               (e, limits) = watchdog_loop (check_profile now) profiles e
           in (e, ok (expired @ limits))))"

section \<open>Lemmas: engine and overrides\<close>

lemma runtime_of_update [simp]:
  "runtime_of (e\<lparr>eng_runtime := (eng_runtime e)(i \<mapsto> r)\<rparr>) j = (if j = i then r else runtime_of e j)"
  "runtime_of (e\<lparr>eng_overrides := f\<rparr>) j = runtime_of e j"
  by (auto simp: runtime_of_def)

lemma account_runtime_simps [simp]:
  "rt_on (account_runtime t r) = rt_on r"
  "rt_on_since (account_runtime t r) = rt_on_since r"
  "rt_off_since (account_runtime t r) = rt_off_since r"
  "rt_watchdog_reason (account_runtime t r) = rt_watchdog_reason r"
  "rt_daily_date (account_runtime t r) = Some (utc_day t)"
  by (auto simp: account_runtime_def Let_def)

lemma account_runtime_off:
  "\<not> rt_on r \<Longrightarrow> rt_last_accounted (account_runtime t r) = rt_last_accounted r"
  by (auto simp: account_runtime_def Let_def)

lemma accountLocked_simps [simp]:
  "snd (accountLocked i t e) = account_runtime t (runtime_of e i)"
  "eng_profiles (fst (accountLocked i t e)) = eng_profiles e"
  "eng_overrides (fst (accountLocked i t e)) = eng_overrides e"
  "eng_mode (fst (accountLocked i t e)) = eng_mode e"
  "eng_started (fst (accountLocked i t e)) = eng_started e"
  "runtime_of (fst (accountLocked i t e)) j =
     (if j = i then account_runtime t (runtime_of e i) else runtime_of e j)"
  by (auto simp: accountLocked_def Let_def)

lemma granted_simps [simp]:
  "granted (ok allow)" "\<not> granted (ok (deny s))" "\<not> granted (ok (deny_hard s))" "\<not> granted (fail err)"
  "granted (ok (allow\<lparr>decision_override := i\<rparr>))"
  by (auto simp: granted_def allow_def deny_def deny_hard_def)

text \<open>What \<open>Evaluate\<close> reads: the time it uses, the runtime after accounting, a live override.\<close>

definition intent_time :: "'v env \<Rightarrow> intent \<Rightarrow> gotime" where
  "intent_time env intent = (if is_zero (intent_issued intent) then env_now env else intent_issued intent)"

definition live_override :: "engine \<Rightarrow> ident \<Rightarrow> gotime \<Rightarrow> override option" where
  "live_override e i now =
     (case eng_overrides e i of
        None \<Rightarrow> None | Some v \<Rightarrow> if now < override_expires v then Some v else None)"

lemma Evaluate_decision:
  "snd (Evaluate env reader intent e) =
     (case ctx_err env of
        Some err \<Rightarrow> fail err
      | None \<Rightarrow>
          (case eng_profiles e (intent_equipment intent) of
             None \<Rightarrow> ok (deny ReasonUnknownEquipment)
           | Some p \<Rightarrow>
               if \<not> intent_on intent then ok allow
               else evaluate_on reader (intent_time env intent) (eng_mode e) p
                 (account_runtime (intent_time env intent) (runtime_of e (intent_equipment intent)))
                 (live_override e (intent_equipment intent) (intent_time env intent))))"
  by (auto simp: Evaluate_def Let_def intent_time_def live_override_def case_prod_beta
      split: option.splits if_splits)

lemma Evaluate_engine:
  "eng_profiles (fst (Evaluate env reader intent e)) = eng_profiles e"
  "eng_mode (fst (Evaluate env reader intent e)) = eng_mode e"
  "dom (eng_overrides (fst (Evaluate env reader intent e))) \<subseteq> dom (eng_overrides e)"
  "eng_overrides (fst (Evaluate env reader intent e)) i \<noteq> None \<Longrightarrow>
     eng_overrides (fst (Evaluate env reader intent e)) i = eng_overrides e i"
  by (auto simp: Evaluate_def Let_def case_prod_beta split: option.splits if_splits)

text \<open>The inputs of a hazardous profile are satisfied: each is present, good and as required.\<close>

definition input_satisfied :: "(state_key \<Rightarrow> state_value ret) \<Rightarrow> input_requirement \<Rightarrow> bool" where
  "input_satisfied reader q \<longleftrightarrow>
     (case reader (req_key q) of
        (Some v, None) \<Rightarrow> sv_quality v = QualityGood \<and>
          (case req_boolean q of None \<Rightarrow> True | Some b \<Rightarrow> value_boolean (sv_value v) = Some b)
      | _ \<Rightarrow> False)"

lemma validateInputs_granted:
  "granted (validateInputs reader qs) \<longleftrightarrow> (\<forall>q \<in> set qs. input_satisfied reader q)"
  by (induction reader qs rule: validateInputs.induct)
     (auto simp: input_satisfied_def split: prod.splits option.splits)

lemma validateInputs_cases:
  "validateInputs reader qs = ok allow \<or> (\<exists>err. validateInputs reader qs = fail err) \<or>
   (\<exists>reason \<in> {ReasonInputMissing, ReasonInputInvalid, ReasonInputStale, ReasonInputMismatch}.
      validateInputs reader qs = ok (deny_hard reason))"
proof (induction qs)
  case Nil
  show ?case by simp
next
  case (Cons q qs)
  obtain v err where r: "reader (req_key q) = (v, err)" by fastforce
  show ?case
  proof (cases err)
    case None
    with r Cons show ?thesis by (cases v) (auto simp del: ok_simps)
  next
    case (Some x)
    with r show ?thesis by (cases v) (auto simp del: ok_simps)
  qed
qed

lemma evaluate_on_granted:
  "granted (evaluate_on reader now mode p r ov) \<longleftrightarrow>
     mode \<noteq> ModeEmergencyStop \<and>
     \<not> (rt_on r \<and> maximum_on (profile_limits p) > 0 \<and>
        time_sub now (rt_on_since r) \<ge> maximum_on (profile_limits p)) \<and>
     \<not> (maximum_daily_on (profile_limits p) > 0 \<and> rt_daily_on r \<ge> maximum_daily_on (profile_limits p)) \<and>
     \<not> (rt_off_since r \<noteq> 0 \<and> minimum_off (profile_limits p) > 0 \<and>
        time_sub now (rt_off_since r) < minimum_off (profile_limits p)) \<and>
     (profile_hazardous p \<longrightarrow> (\<forall>q \<in> set (profile_required p). input_satisfied reader q)) \<and>
     (mode \<in> {ModeMaintenance, ModeManual} \<longrightarrow> ov \<noteq> None)"
  by (auto simp: evaluate_on_def Let_def validateInputs_granted simp del: ok_simps split: option.splits)

section \<open>Lemmas: accounting of on-time\<close>

lemma account_runtime_same_day:
  assumes "rt_daily_date r = Some (utc_day t)" "rt_on r" "rt_last_accounted r \<noteq> 0"
    "utc_day (rt_last_accounted r) = utc_day t" "rt_last_accounted r \<le> t"
  shows "account_runtime t r =
    r\<lparr>rt_daily_on := if rt_last_accounted r < t then wrap64 (rt_daily_on r + (t - rt_last_accounted r)) else rt_daily_on r,
      rt_last_accounted := t\<rparr>"
proof -
  have "\<bar>t - rt_last_accounted r\<bar> < day_ns"
    by (rule same_day_distance) (simp add: assms)
  then have "time_sub t (rt_last_accounted r) = t - rt_last_accounted r"
    by (intro time_sub_exact) (auto simp: day_ns_def)
  with assms show ?thesis
    by (auto simp: account_runtime_def Let_def dur_add_def)
qed

text \<open>
  A history of reports and its specification: the time the equipment was on between the
  reports, and from the last report up to \<open>now\<close>.
\<close>

fun on_time :: "bool \<Rightarrow> gotime \<Rightarrow> (gotime \<times> bool) list \<Rightarrow> gotime \<Rightarrow> int" where
  "on_time on since [] now = (if on then now - since else 0)"
| "on_time on since ((t, b) # rs) now = (if on then t - since else 0) + on_time b t rs now"

fun replay :: "(gotime \<times> bool) list \<Rightarrow> runtime_state \<Rightarrow> runtime_state" where
  "replay [] r = r"
| "replay ((t, b) # rs) r = replay rs (report_runtime b t (account_runtime t r))"

text \<open>All instants of the history lie in one UTC day, in order, and none is the zero time.\<close>

fun within_day :: "int \<Rightarrow> gotime \<Rightarrow> (gotime \<times> bool) list \<Rightarrow> gotime \<Rightarrow> bool" where
  "within_day d since [] now \<longleftrightarrow> since \<le> now \<and> utc_day now = d"
| "within_day d since ((t, b) # rs) now \<longleftrightarrow> since \<le> t \<and> t \<noteq> 0 \<and> utc_day t = d \<and> within_day d t rs now"

lemma within_day_now: "within_day d since rs now \<Longrightarrow> since \<le> now \<and> utc_day now = d"
  by (induction d since rs now rule: within_day.induct) auto

lemma on_time_bounds:
  "within_day d since rs now \<Longrightarrow> 0 \<le> on_time on since rs now \<and> on_time on since rs now \<le> now - since"
proof (induction rs arbitrary: on since)
  case Nil
  then show ?case by simp
next
  case (Cons tb rs)
  obtain t b where tb: "tb = (t, b)" by fastforce
  with Cons.prems have "within_day d t rs now" "since \<le> t" by auto
  with Cons.IH [of t b] within_day_now [of d t rs now] show ?case
    by (auto simp: tb)
qed

text \<open>The runtime has been accounted up to \<open>since\<close> on day \<open>d\<close> with total \<open>a\<close>.\<close>

definition accounted :: "int \<Rightarrow> gotime \<Rightarrow> int \<Rightarrow> runtime_state \<Rightarrow> bool" where
  "accounted d since a r \<longleftrightarrow>
     rt_daily_date r = Some d \<and> rt_daily_on r = a \<and> 0 \<le> a \<and>
     (rt_on r \<longrightarrow> rt_last_accounted r = since \<and> since \<noteq> 0 \<and> utc_day since = d)"

lemma accounted_account:
  assumes "accounted d since a r" "since \<le> t" "utc_day t = d" "a + (t - since) < 2 ^ 63" "t \<noteq> 0"
  shows "accounted d t (a + (if rt_on r then t - since else 0)) (account_runtime t r)"
proof (cases "rt_on r")
  case True
  with assms have "account_runtime t r =
    r\<lparr>rt_daily_on := if since < t then wrap64 (a + (t - since)) else a, rt_last_accounted := t\<rparr>"
    using account_runtime_same_day [of r t] by (simp add: accounted_def)
  moreover have "wrap64 (a + (t - since)) = a + (t - since)"
    using assms by (intro wrap64_id) (auto simp: accounted_def)
  ultimately show ?thesis using assms True by (auto simp: accounted_def)
next
  case False
  with assms have "rt_daily_on (account_runtime t r) = rt_daily_on r"
    by (simp add: account_runtime_def accounted_def)
  with False assms show ?thesis by (simp add: accounted_def)
qed

lemma accounted_report:
  assumes "accounted d t a r" "utc_day t = d" "t \<noteq> 0"
  shows "accounted d t a (report_runtime b t r)" "rt_on (report_runtime b t r) = b"
  using assms by (auto simp: accounted_def report_runtime_def)

lemma replay_accounted:
  assumes "accounted d since a r" "within_day d since rs now" "a + (now - since) < 2 ^ 63" "now \<noteq> 0"
  shows "rt_daily_on (account_runtime now (replay rs r)) = a + on_time (rt_on r) since rs now"
  using assms
proof (induction rs arbitrary: since a r)
  case Nil
  then have "accounted d now (a + (if rt_on r then now - since else 0)) (account_runtime now r)"
    by (intro accounted_account) auto
  then show ?case by (simp add: accounted_def)
next
  case (Cons tb rs)
  obtain t b where tb: "tb = (t, b)" by fastforce
  with Cons.prems have w: "within_day d t rs now" "since \<le> t" "t \<noteq> 0" "utc_day t = d" by auto
  have now: "t \<le> now" using within_day_now [OF w(1)] by simp
  let ?a = "a + (if rt_on r then t - since else 0)"
  let ?r = "account_runtime t r"
  have "accounted d t ?a ?r"
    using Cons.prems w now by (intro accounted_account) auto
  then have "accounted d t ?a (report_runtime b t ?r)" "rt_on (report_runtime b t ?r) = b"
    using w accounted_report by blast+
  moreover have "?a + (now - t) < 2 ^ 63" using Cons.prems w now by auto
  ultimately show ?case
    using Cons.IH [of t ?a "report_runtime b t ?r"] w Cons.prems(4) by (simp add: tb)
qed

section \<open>Lemmas: watchdogs\<close>

text \<open>
  Both loops of \<open>CheckWatchdogs\<close> have a body that reads and writes only what belongs to the
  equipment it visits. Then the order in which the map is ranged does not matter.
\<close>

definition view :: "engine \<Rightarrow> ident \<Rightarrow> profile option \<times> override option \<times> runtime_state" where
  "view e i = (eng_profiles e i, eng_overrides e i, runtime_of e i)"

locale watchdog_body =
  fixes body :: "ident \<Rightarrow> engine \<Rightarrow> engine \<times> watchdog_action list"
  assumes local: "j \<noteq> i \<Longrightarrow> view (fst (body i e)) j = view e j"
    and determined: "view e i = view e' i \<Longrightarrow>
      snd (body i e) = snd (body i e') \<and> view (fst (body i e)) i = view (fst (body i e')) i"
    and own: "a \<in> set (snd (body i e)) \<Longrightarrow> action_equipment a = i"
begin

lemma loop_result:
  "distinct is \<Longrightarrow>
     snd (watchdog_loop body is e) = concat (map (\<lambda>i. snd (body i e)) is) \<and>
     (\<forall>j. view (fst (watchdog_loop body is e)) j = (if j \<in> set is then view (fst (body j e)) j else view e j))"
proof (induction "is" arbitrary: e)
  case Nil
  show ?case by simp
next
  case (Cons i "is")
  let ?e = "fst (body i e)"
  have IH: "snd (watchdog_loop body is ?e) = concat (map (\<lambda>i. snd (body i ?e)) is)"
    "\<And>j. view (fst (watchdog_loop body is ?e)) j = (if j \<in> set is then view (fst (body j ?e)) j else view ?e j)"
    using Cons by auto
  have other: "snd (body j ?e) = snd (body j e)" "view (fst (body j ?e)) j = view (fst (body j e)) j"
    if "j \<in> set is" for j
  proof -
    have "view ?e j = view e j" using that Cons.prems by (intro local) auto
    from determined [OF this]
    show "snd (body j ?e) = snd (body j e)" "view (fst (body j ?e)) j = view (fst (body j e)) j"
      by simp_all
  qed
  have "concat (map (\<lambda>i. snd (body i ?e)) is) = concat (map (\<lambda>i. snd (body i e)) is)"
    by (intro arg_cong [where f = concat] map_cong refl other)
  moreover have "view (fst (watchdog_loop body is ?e)) j =
      (if j \<in> set (i # is) then view (fst (body j e)) j else view e j)" for j
    using IH(2) [of j] other(2) [of j] local [of j i e] Cons.prems by (cases "j = i") simp_all
  ultimately show ?case by (simp add: case_prod_beta IH(1))
qed

lemma filter_own:
  "filter (\<lambda>a. action_equipment a = i) (snd (body j e)) = (if j = i then snd (body j e) else [])"
  using own [of _ j e] by (auto simp: filter_empty_conv intro: filter_True)

lemma loop_filter:
  assumes "distinct is"
  shows "filter (\<lambda>a. action_equipment a = i) (snd (watchdog_loop body is e)) =
         (if i \<in> set is then snd (body i e) else [])"
proof -
  have "filter (\<lambda>a. action_equipment a = i) (concat (map (\<lambda>j. snd (body j e)) is)) =
        (if i \<in> set is then snd (body i e) else [])"
    using assms by (induction "is") (auto simp: filter_own)
  then show ?thesis using loop_result [OF assms, of e] by simp
qed

end

lemma trip_simps [simp]:
  "view (fst (trip now i reason r e)) j =
     (if j = i then (eng_profiles e i, eng_overrides e i, r\<lparr>rt_watchdog_reason := reason\<rparr>) else view e j)"
  "snd (trip now i reason r e) =
     \<lparr>action_equipment = i, action_on = fail_safe_of e i, action_reason = reason, action_observed = now\<rparr>"
  by (auto simp: trip_def view_def)

lemma view_account [simp]:
  "view (fst (accountLocked i t e)) j =
     (if j = i then (eng_profiles e i, eng_overrides e i, account_runtime t (runtime_of e i)) else view e j)"
  by (auto simp: view_def)

lemma view_forget [simp]:
  "view (e\<lparr>eng_overrides := (eng_overrides e)(i := None)\<rparr>) j =
     (if j = i then (eng_profiles e i, None, runtime_of e i) else view e j)"
  by (auto simp: view_def)

lemma fail_safe_of_cong: "eng_profiles e = eng_profiles e' \<Longrightarrow> fail_safe_of e i = fail_safe_of e' i"
  by (simp add: fail_safe_of_def)

interpretation expiry: watchdog_body "expire_override now" for now
proof unfold_locales
  fix i j e
  show "j \<noteq> i \<Longrightarrow> view (fst (expire_override now i e)) j = view e j"
    by (auto simp: expire_override_def Let_def case_prod_beta split: option.splits)
next
  fix i e e'
  assume "view e i = view e' i"
  then have v: "eng_profiles e i = eng_profiles e' i" "eng_overrides e i = eng_overrides e' i"
    "runtime_of e i = runtime_of e' i" by (auto simp: view_def)
  then show "snd (expire_override now i e) = snd (expire_override now i e') \<and>
      view (fst (expire_override now i e)) i = view (fst (expire_override now i e')) i"
    by (auto simp: expire_override_def Let_def case_prod_beta fail_safe_of_def view_def [of e] view_def [of e']
        split: option.splits)
next
  fix a i e
  show "a \<in> set (snd (expire_override now i e)) \<Longrightarrow> action_equipment a = i"
    by (auto simp: expire_override_def Let_def case_prod_beta split: option.splits if_splits)
qed

interpretation limit_check: watchdog_body "check_profile now" for now
proof unfold_locales
  fix i j e
  show "j \<noteq> i \<Longrightarrow> view (fst (check_profile now i e)) j = view e j"
    by (auto simp: check_profile_def Let_def case_prod_beta split: option.splits)
next
  fix i e e'
  assume "view e i = view e' i"
  then have v: "eng_profiles e i = eng_profiles e' i" "eng_overrides e i = eng_overrides e' i"
    "runtime_of e i = runtime_of e' i" by (auto simp: view_def)
  then show "snd (check_profile now i e) = snd (check_profile now i e') \<and>
      view (fst (check_profile now i e)) i = view (fst (check_profile now i e')) i"
    by (auto simp: check_profile_def Let_def case_prod_beta fail_safe_of_def view_def [of e] view_def [of e']
        split: option.splits)
next
  fix a i e
  show "a \<in> set (snd (check_profile now i e)) \<Longrightarrow> action_equipment a = i"
    by (auto simp: check_profile_def Let_def case_prod_beta split: option.splits if_splits)
qed

text \<open>
  What one call of \<open>CheckWatchdogs\<close> does about one piece of equipment, as a function of its
  profile, its override and its accounted runtime alone.
\<close>

definition over_maximum :: "gotime \<Rightarrow> profile \<Rightarrow> runtime_state \<Rightarrow> bool" where
  "over_maximum now p r \<longleftrightarrow>
     0 < maximum_on (profile_limits p) \<and> maximum_on (profile_limits p) \<le> time_sub now (rt_on_since r)"

definition over_daily :: "profile \<Rightarrow> runtime_state \<Rightarrow> bool" where
  "over_daily p r \<longleftrightarrow>
     0 < maximum_daily_on (profile_limits p) \<and> maximum_daily_on (profile_limits p) \<le> rt_daily_on r"

definition watchdog_reason :: "gotime \<Rightarrow> profile \<Rightarrow> override option \<Rightarrow> runtime_state \<Rightarrow> string" where
  "watchdog_reason now p ov r =
     (if \<not> rt_on r \<or> rt_watchdog_reason r \<noteq> [] then []
      else if ov \<noteq> None \<and> override_expires (the ov) \<le> now then ReasonOverrideExpired
      else if over_maximum now p r then ReasonMaximumOn
      else if over_daily p r then ReasonMaximumDailyOn
      else [])"

lemma account_runtime_idem [simp]:
  "account_runtime t (account_runtime t r) = account_runtime t r"
  "account_runtime t ((account_runtime t r)\<lparr>rt_watchdog_reason := x\<rparr>) =
     (account_runtime t r)\<lparr>rt_watchdog_reason := x\<rparr>"
  by (auto simp: account_runtime_def Let_def)

lemma view_components:
  assumes "view e i = (p, ov, r)"
  shows "eng_profiles e i = p" "eng_overrides e i = ov" "runtime_of e i = r"
  using assms by (auto simp: view_def)

lemma expire_override_at:
  assumes "eng_profiles e i = Some p"
  shows "expired \<longleftrightarrow> (eng_overrides e i \<noteq> None \<and> override_expires (the (eng_overrides e i)) \<le> now) \<Longrightarrow>
    r = account_runtime now (runtime_of e i) \<Longrightarrow>
    view (fst (expire_override now i e)) i =
      (if \<not> expired then view e i
       else (Some p, None, if rt_on r \<and> rt_watchdog_reason r = []
                           then r\<lparr>rt_watchdog_reason := ReasonOverrideExpired\<rparr> else r)) \<and>
    snd (expire_override now i e) =
      (if expired \<and> rt_on r \<and> rt_watchdog_reason r = []
       then [\<lparr>action_equipment = i, action_on = profile_fail_safe_on p,
              action_reason = ReasonOverrideExpired, action_observed = now\<rparr>]
       else [])"
  using assms by (auto simp: expire_override_def Let_def case_prod_beta fail_safe_of_def split: option.splits)

lemma check_profile_at:
  assumes "eng_profiles e i = Some p" "r = account_runtime now (runtime_of e i)"
    "reason = watchdog_reason now p None r"
  shows "view (fst (check_profile now i e)) i =
      (Some p, eng_overrides e i, if reason = [] then r else r\<lparr>rt_watchdog_reason := reason\<rparr>)"
    "snd (check_profile now i e) =
      (if reason = [] then []
       else [\<lparr>action_equipment = i, action_on = profile_fail_safe_on p, action_reason = reason, action_observed = now\<rparr>])"
  using assms
  by (auto simp: check_profile_def Let_def case_prod_beta fail_safe_of_def watchdog_reason_def
      over_maximum_def over_daily_def)

lemma CheckWatchdogs_result:
  assumes "ctx_err env = None" "range_order (eng_overrides e) overrides" "range_order (eng_profiles e) profiles"
    "eng_profiles e i = Some p" "r = account_runtime (env_now env) (runtime_of e i)"
    "reason = watchdog_reason (env_now env) p (eng_overrides e i) r"
  shows "\<exists>e' actions. CheckWatchdogs env overrides profiles e = (e', ok actions) \<and>
    filter (\<lambda>a. action_equipment a = i) actions =
      (if reason = [] then []
       else [\<lparr>action_equipment = i, action_on = profile_fail_safe_on p, action_reason = reason,
              action_observed = env_now env\<rparr>]) \<and>
    view e' i = (Some p, live_override e i (env_now env), if reason = [] then r else r\<lparr>rt_watchdog_reason := reason\<rparr>)"
proof -
  let ?now = "env_now env"
  let ?l1 = "watchdog_loop (expire_override ?now) overrides e"
  let ?e1 = "fst ?l1"
  let ?l2 = "watchdog_loop (check_profile ?now) profiles ?e1"
  define expired where "expired \<longleftrightarrow> eng_overrides e i \<noteq> None \<and> override_expires (the (eng_overrides e i)) \<le> ?now"
  have d: "distinct overrides" "distinct profiles" "set overrides = dom (eng_overrides e)" "i \<in> set profiles"
    using assms by (auto simp: range_order_def)
  have none: "i \<notin> set overrides \<Longrightarrow> expire_override ?now i e = (e, [])"
    using d by (auto simp: expire_override_def split: option.splits)
  note x = expire_override_at [OF assms(4) expired_def assms(5)]
  have v1: "view ?e1 i = view (fst (expire_override ?now i e)) i"
    using expiry.loop_result [OF d(1), of ?now e] none by auto
  have f1: "filter (\<lambda>a. action_equipment a = i) (snd ?l1) = snd (expire_override ?now i e)"
    using expiry.loop_filter [OF d(1), of i ?now e] none by auto
  have f2: "filter (\<lambda>a. action_equipment a = i) (snd ?l2) = snd (check_profile ?now i ?e1)"
    and v2: "view (fst ?l2) i = view (fst (check_profile ?now i ?e1)) i"
    using limit_check.loop_result [OF d(2), of ?now ?e1] limit_check.loop_filter [OF d(2), of i ?now ?e1] d
    by auto
  have e1: "eng_profiles ?e1 i = Some p" "eng_overrides ?e1 i = (if expired then None else eng_overrides e i)"
    "runtime_of ?e1 i = (if \<not> expired then runtime_of e i
       else if rt_on r \<and> rt_watchdog_reason r = [] then r\<lparr>rt_watchdog_reason := ReasonOverrideExpired\<rparr> else r)"
    using v1 x assms(4) by (auto simp: view_def split: if_splits)
  have acc: "account_runtime ?now (runtime_of ?e1 i) = (if \<not> expired then r else runtime_of ?e1 i)"
    by (auto simp: e1(3) assms(5))
  have live: "live_override e i ?now = (if expired then None else eng_overrides e i)"
    by (auto simp: live_override_def expired_def split: option.splits)
  note y = check_profile_at [OF e1(1) refl refl, of ?now, unfolded acc]
  have "filter (\<lambda>a. action_equipment a = i) (snd ?l1 @ snd ?l2) =
      (if reason = [] then []
       else [\<lparr>action_equipment = i, action_on = profile_fail_safe_on p, action_reason = reason,
              action_observed = ?now\<rparr>])"
    unfolding filter_append f1 f2 y(2) using x
    by (auto simp: e1(3) assms(6) watchdog_reason_def expired_def)
  moreover have "view (fst ?l2) i =
     (Some p, live_override e i ?now, if reason = [] then r else r\<lparr>rt_watchdog_reason := reason\<rparr>)"
    unfolding v2 y(1) live
    by (auto simp: e1(2,3) assms(6) watchdog_reason_def expired_def)
  ultimately show ?thesis
    using assms(1) by (auto simp: CheckWatchdogs_def Let_def case_prod_beta)
qed

section \<open>Lemmas: the invariant of the engine\<close>

definition override_wf :: "ident \<Rightarrow> override \<Rightarrow> bool" where
  "override_wf i ov \<longleftrightarrow>
     override_equipment ov = i \<and> validateUUID (override_id ov) = None \<and>
     override_reason ov \<noteq> [] \<and> override_requester ov \<noteq> [] \<and>
     override_created ov \<noteq> 0 \<and> override_created ov < override_expires ov"

definition runtime_wf :: "runtime_state \<Rightarrow> bool" where
  "runtime_wf r \<longleftrightarrow>
     (if rt_on r then rt_on_since r \<noteq> 0 \<and> rt_last_accounted r \<noteq> 0
      else rt_on_since r = 0 \<and> rt_last_accounted r = 0 \<and> rt_watchdog_reason r = [])"

definition eng_inv :: "engine \<Rightarrow> bool" where
  "eng_inv e \<longleftrightarrow>
     eng_mode e \<in> {ModeNormal, ModeMaintenance, ModeManual, ModeEmergencyStop} \<and>
     (\<forall>i p. eng_profiles e i = Some p \<longrightarrow> profile_equipment p = i \<and> profile_validate p = None) \<and>
     (\<forall>i ov. eng_overrides e i = Some ov \<longrightarrow> override_wf i ov \<and> eng_profiles e i \<noteq> None) \<and>
     (\<forall>i. runtime_wf (runtime_of e i) \<and> (rt_on (runtime_of e i) \<longrightarrow> eng_profiles e i \<noteq> None))"

lemma eng_invD:
  assumes "eng_inv e"
  shows "eng_profiles e i = Some p \<Longrightarrow> profile_equipment p = i \<and> profile_validate p = None"
    "eng_overrides e i = Some ov \<Longrightarrow> override_wf i ov \<and> eng_profiles e i \<noteq> None"
    "runtime_wf (runtime_of e i)" "rt_on (runtime_of e i) \<Longrightarrow> eng_profiles e i \<noteq> None"
  using assms by (auto simp: eng_inv_def)

lemma runtime_wf_zero: "runtime_wf zero_runtime"
  by (simp add: runtime_wf_def zero_runtime_def)

lemma runtime_wf_account: "runtime_wf r \<Longrightarrow> t \<noteq> 0 \<Longrightarrow> runtime_wf (account_runtime t r)"
  by (auto simp: runtime_wf_def account_runtime_def Let_def)

lemma runtime_wf_report: "runtime_wf r \<Longrightarrow> t \<noteq> 0 \<Longrightarrow> runtime_wf (report_runtime on t r)"
  by (auto simp: runtime_wf_def report_runtime_def)

lemma runtime_wf_reason:
  "runtime_wf r \<Longrightarrow> rt_on r \<Longrightarrow> runtime_wf (r\<lparr>rt_watchdog_reason := x\<rparr>)"
  by (auto simp: runtime_wf_def)

lemma eng_inv_runtime:
  assumes "eng_inv e" "runtime_wf r" "rt_on r \<Longrightarrow> eng_profiles e i \<noteq> None"
  shows "eng_inv (e\<lparr>eng_runtime := (eng_runtime e)(i \<mapsto> r)\<rparr>)"
  using assms by (auto simp: eng_inv_def)

lemma eng_inv_account: "eng_inv e \<Longrightarrow> t \<noteq> 0 \<Longrightarrow> eng_inv (fst (accountLocked i t e))"
  unfolding accountLocked_def Let_def fst_conv
  by (rule eng_inv_runtime) (auto simp: runtime_wf_account eng_invD)

lemma eng_inv_forget: "eng_inv e \<Longrightarrow> eng_inv (e\<lparr>eng_overrides := (eng_overrides e)(i := None)\<rparr>)"
  by (auto simp: eng_inv_def)

lemma eng_inv_trip:
  "eng_inv e \<Longrightarrow> rt_on (runtime_of e i) \<Longrightarrow> eng_inv (fst (trip now i reason (runtime_of e i) e))"
  unfolding trip_def fst_conv
  by (rule eng_inv_runtime) (auto simp: runtime_wf_reason eng_invD)

lemma add_profiles_inv:
  "add_profiles ps e = Inr e' \<Longrightarrow> eng_inv e \<Longrightarrow>
     eng_inv e' \<and> dom (eng_profiles e') = dom (eng_profiles e) \<union> profile_equipment ` set ps"
proof (induction ps e rule: add_profiles.induct)
  case (1 e)
  then show ?case by simp
next
  case (2 p ps e)
  let ?e = "e\<lparr>eng_profiles := (eng_profiles e)(profile_equipment p \<mapsto> p)\<rparr>"
  have p: "profile_validate p = None" "eng_profiles e (profile_equipment p) = None"
    "add_profiles ps ?e = Inr e'"
    using 2(2) by (auto split: option.splits if_splits)
  have rt: "runtime_of ?e j = runtime_of e j" for j by (simp add: runtime_of_def)
  have "eng_inv ?e" using 2(3) p(1) by (auto simp: eng_inv_def rt)
  then have "eng_inv e' \<and> dom (eng_profiles e') = dom (eng_profiles ?e) \<union> profile_equipment ` set ps"
    using 2(1) [OF p(1) _ p(3)] p(2) by blast
  then show ?case by auto
qed

lemma NewEngine_inv:
  assumes "NewEngine dependencies ps = Inr e"
  shows "eng_inv e" "dom (eng_profiles e) = profile_equipment ` set ps"
proof -
  let ?e = "\<lparr>eng_mode = ModeNormal, eng_profiles = Map.empty, eng_overrides = Map.empty,
              eng_runtime = Map.empty, eng_started = False\<rparr>"
  have "rt_on (runtime_of ?e i) = False" "runtime_wf (runtime_of ?e i)" for i
    using runtime_wf_zero by (auto simp: runtime_of_def zero_runtime_def)
  then have "eng_inv ?e" by (simp add: eng_inv_def)
  moreover have "add_profiles ps ?e = Inr e" using assms by (simp add: NewEngine_def split: if_splits)
  ultimately show "eng_inv e" "dom (eng_profiles e) = profile_equipment ` set ps"
    using add_profiles_inv by fastforce+
qed

lemma SetMode_inv: "eng_inv e \<Longrightarrow> eng_inv (fst (SetMode env mode e))"
  by (auto simp: SetMode_def eng_inv_def runtime_of_def split: option.splits)

lemma GrantOverride_inv: "eng_inv e \<Longrightarrow> env_now env \<noteq> 0 \<Longrightarrow> eng_inv (fst (GrantOverride env ov e))"
  by (auto simp: GrantOverride_def eng_inv_def override_wf_def Let_def split: option.splits)

lemma RevokeOverride_inv: "eng_inv e \<Longrightarrow> eng_inv (fst (RevokeOverride env i e))"
  by (auto simp: RevokeOverride_def eng_inv_forget split: option.splits)

lemma Evaluate_inv: "eng_inv e \<Longrightarrow> env_now env \<noteq> 0 \<Longrightarrow> eng_inv (fst (Evaluate env reader intent e))"
  by (auto simp: Evaluate_def Let_def case_prod_beta eng_inv_account eng_inv_forget
      simp del: accountLocked_simps split: option.splits)

lemma RecordReported_inv: "eng_inv e \<Longrightarrow> eng_inv (fst (RecordReported env i on t e))"
  by (auto simp: RecordReported_def Let_def case_prod_beta split: option.splits
      intro!: eng_inv_runtime eng_inv_account runtime_wf_report runtime_wf_account eng_invD)

lemma expire_override_inv: "eng_inv e \<Longrightarrow> now \<noteq> 0 \<Longrightarrow> eng_inv (fst (expire_override now i e))"
proof -
  assume a: "eng_inv e" "now \<noteq> 0"
  let ?e = "fst (accountLocked i now (e\<lparr>eng_overrides := (eng_overrides e)(i := None)\<rparr>))"
  have "eng_inv ?e" using a by (simp add: eng_inv_account eng_inv_forget)
  with eng_inv_trip [OF this, of i] a show ?thesis
    by (auto simp: expire_override_def Let_def case_prod_beta split: option.splits)
qed

lemma check_profile_inv: "eng_inv e \<Longrightarrow> now \<noteq> 0 \<Longrightarrow> eng_inv (fst (check_profile now i e))"
proof -
  assume a: "eng_inv e" "now \<noteq> 0"
  then have "eng_inv (fst (accountLocked i now e))" by (simp add: eng_inv_account)
  with eng_inv_trip [OF this, of i] a show ?thesis
    by (auto simp: check_profile_def Let_def case_prod_beta split: option.splits)
qed

lemma watchdog_loop_inv:
  "(\<And>i e. eng_inv e \<Longrightarrow> eng_inv (fst (body i e))) \<Longrightarrow> eng_inv e \<Longrightarrow> eng_inv (fst (watchdog_loop body is e))"
  by (induction "is" arbitrary: e) (auto simp: case_prod_beta)

lemma CheckWatchdogs_inv:
  "eng_inv e \<Longrightarrow> env_now env \<noteq> 0 \<Longrightarrow> eng_inv (fst (CheckWatchdogs env overrides profiles e))"
  by (auto simp: CheckWatchdogs_def Let_def case_prod_beta split: option.splits
      intro!: watchdog_loop_inv expire_override_inv check_profile_inv)

text \<open>Every sequence of operations, by callers with a running clock, from a constructed engine.\<close>

inductive eng_reach :: "profile list \<Rightarrow> engine \<Rightarrow> bool" for profiles where
  new: "NewEngine True profiles = Inr e \<Longrightarrow> eng_reach profiles e"
| start: "eng_reach profiles e \<Longrightarrow> eng_reach profiles (eng_start e)"
| stop: "eng_reach profiles e \<Longrightarrow> eng_reach profiles (eng_stop e)"
| mode: "eng_reach profiles e \<Longrightarrow> eng_reach profiles (fst (SetMode (env :: unit env) m e))"
| grant: "eng_reach profiles e \<Longrightarrow> env_now env \<noteq> 0 \<Longrightarrow>
    eng_reach profiles (fst (GrantOverride (env :: unit env) ov e))"
| revoke: "eng_reach profiles e \<Longrightarrow> eng_reach profiles (fst (RevokeOverride (env :: unit env) i e))"
| evaluate: "eng_reach profiles e \<Longrightarrow> env_now env \<noteq> 0 \<Longrightarrow>
    eng_reach profiles (fst (Evaluate (env :: unit env) reader intent e))"
| reported: "eng_reach profiles e \<Longrightarrow> eng_reach profiles (fst (RecordReported (env :: unit env) i on t e))"
| watchdogs: "eng_reach profiles e \<Longrightarrow> env_now env \<noteq> 0 \<Longrightarrow>
    eng_reach profiles (fst (CheckWatchdogs (env :: unit env) overrides order e))"

lemmas eng_inv_ops = SetMode_inv GrantOverride_inv RevokeOverride_inv Evaluate_inv RecordReported_inv
  CheckWatchdogs_inv

lemma eng_reach_inv: "eng_reach profiles e \<Longrightarrow> eng_inv e"
proof (induction rule: eng_reach.induct)
  case (start e)
  then show ?case by (auto simp: eng_inv_def eng_start_def runtime_of_def)
next
  case (stop e)
  then show ?case by (auto simp: eng_inv_def eng_stop_def runtime_of_def)
qed (auto intro: eng_inv_ops NewEngine_inv)

text \<open>The profiles are fixed at construction.\<close>

lemma watchdog_loop_profiles:
  "(\<And>i e. eng_profiles (fst (body i e)) = eng_profiles e) \<Longrightarrow>
     eng_profiles (fst (watchdog_loop body is e)) = eng_profiles e"
  by (induction "is" arbitrary: e) (auto simp: case_prod_beta)

lemma watchdog_body_profiles:
  "eng_profiles (fst (expire_override now i e)) = eng_profiles e"
  "eng_profiles (fst (check_profile now i e)) = eng_profiles e"
  by (auto simp: expire_override_def check_profile_def trip_def Let_def case_prod_beta split: option.splits)

lemma ops_profiles:
  "eng_profiles (fst (SetMode env m e)) = eng_profiles e"
  "eng_profiles (fst (GrantOverride env ov e)) = eng_profiles e"
  "eng_profiles (fst (RevokeOverride env i e)) = eng_profiles e"
  "eng_profiles (fst (RecordReported env i on t e)) = eng_profiles e"
  "eng_profiles (fst (CheckWatchdogs env overrides order e)) = eng_profiles e"
  by (auto simp: SetMode_def GrantOverride_def RevokeOverride_def RecordReported_def CheckWatchdogs_def
      Let_def case_prod_beta watchdog_loop_profiles watchdog_body_profiles split: option.splits)

lemma eng_reach_profiles:
  "eng_reach profiles e \<Longrightarrow> dom (eng_profiles e) = profile_equipment ` set profiles"
  by (induction rule: eng_reach.induct)
     (auto simp: NewEngine_inv eng_start_def eng_stop_def ops_profiles Evaluate_engine)

section \<open>Lemmas: hard limits\<close>

text \<open>The part of the evaluation that neither the mode nor an override influences.\<close>

definition hard_check ::
  "(state_key \<Rightarrow> state_value ret) \<Rightarrow> gotime \<Rightarrow> profile \<Rightarrow> runtime_state \<Rightarrow> decision ret"
where
  "hard_check reader now p r =
     (if rt_on r \<and> over_maximum now p r then ok (deny_hard ReasonMaximumOn)
      else if over_daily p r then ok (deny_hard ReasonMaximumDailyOn)
      else if rt_off_since r \<noteq> 0 \<and> minimum_off (profile_limits p) > 0 \<and>
              time_sub now (rt_off_since r) < minimum_off (profile_limits p)
      then ok (deny_hard ReasonMinimumOff)
      else if profile_hazardous p then validateInputs reader (profile_required p) else ok allow)"

lemma evaluate_on_hard_check:
  "evaluate_on reader now mode p r ov =
     (if mode = ModeEmergencyStop then ok (deny_hard ReasonEmergencyStop)
      else if \<not> granted (hard_check reader now p r) then hard_check reader now p r
      else if (mode = ModeMaintenance \<or> mode = ModeManual) \<and> ov = None then ok (deny ReasonOverrideRequired)
      else ok (case ov of None \<Rightarrow> allow | Some v \<Rightarrow> allow\<lparr>decision_override := override_id v\<rparr>))"
  unfolding evaluate_on_def hard_check_def over_maximum_def over_daily_def Let_def by simp

lemma hard_check_cases:
  "hard_check reader now p r = ok allow \<or> (\<exists>err. hard_check reader now p r = fail err) \<or>
   (\<exists>reason. hard_check reader now p r = ok (deny_hard reason))"
  using validateInputs_cases [of reader "profile_required p"] unfolding hard_check_def by auto

lemma decision_limit_simps [simp]:
  "\<not> decision_hard_limit allow" "\<not> decision_hard_limit (deny s)" "decision_hard_limit (deny_hard s)"
  "\<not> decision_allowed (deny s)" "\<not> decision_allowed (deny_hard s)" "decision_allowed allow"
  by (simp_all add: allow_def deny_def deny_hard_def)

lemma evaluate_on_hard:
  assumes "evaluate_on reader now mode p r ov = ok d" "decision_hard_limit d" "mode \<noteq> ModeEmergencyStop"
  shows "\<exists>d'. evaluate_on reader now mode' p r ov' = ok d' \<and> decision_hard_limit d' \<and> \<not> decision_allowed d'"
proof -
  obtain reason where "hard_check reader now p r = ok (deny_hard reason)"
    using hard_check_cases [of reader now p r] assms
    by (auto simp: evaluate_on_hard_check simp del: ok_simps(3) fail_simps(3) split: if_splits option.splits)
  then show ?thesis by (auto simp: evaluate_on_hard_check simp del: ok_simps(3) fail_simps(3))
qed

section \<open>Interpretations\<close>

interpretation safety_component: component "\<lambda>_. ''safety''" eng_start eng_stop eng_health
  by unfold_locales (auto simp: eng_health_def eng_start_def eng_stop_def)

section \<open>Inputs read from the state manager\<close>

context state_reader
begin

text \<open>When the inputs pass, each was read for its own key, is good, and is fresh at the time of the call.\<close>

lemma inputs_fresh:
  assumes "reader_inv s" "granted (validateInputs (read_state env s) qs)" "q \<in> set qs"
  shows "\<exists>v. read_state env s (req_key q) = (Some v, None) \<and> sv_key v = req_key q \<and>
    sv_quality v = QualityGood \<and> env_now env < sv_observed v + sv_fresh_for v"
proof -
  have "input_satisfied (read_state env s) q" using assms(2,3) by (simp add: validateInputs_granted)
  then obtain v where v: "read_state env s (req_key q) = (Some v, None)" "sv_quality v = QualityGood"
    by (auto simp: input_satisfied_def split: prod.splits option.splits)
  with read_key [OF assms(1) v(1)] read_fresh [OF v] show ?thesis by blast
qed

end

section \<open>Reports to the engine as a history\<close>

fun report_all :: "'v env \<Rightarrow> ident \<Rightarrow> (gotime \<times> bool) list \<Rightarrow> engine \<Rightarrow> engine" where
  "report_all env i [] e = e"
| "report_all env i ((t, on) # rs) e = report_all env i rs (fst (RecordReported env i on t e))"

lemma RecordReported_ok:
  assumes "ctx_err env = None" "t \<noteq> 0" "eng_profiles e i \<noteq> None"
  shows "runtime_of (fst (RecordReported env i on t e)) i =
      report_runtime on t (account_runtime t (runtime_of e i))"
    "eng_profiles (fst (RecordReported env i on t e)) = eng_profiles e"
  using assms by (auto simp: RecordReported_def Let_def case_prod_beta)

lemma report_all_replay:
  assumes "ctx_err env = None" "within_day d since rs now" "eng_profiles e i \<noteq> None"
  shows "runtime_of (report_all env i rs e) i = replay rs (runtime_of e i) \<and>
    eng_profiles (report_all env i rs e) = eng_profiles e"
  using assms(2,3)
proof (induction rs arbitrary: e since)
  case (Cons tb rs)
  obtain t b where tb: "tb = (t, b)" by fastforce
  note r = RecordReported_ok [OF assms(1) _ Cons.prems(2), of t b]
  show ?case using Cons.IH [of t "fst (RecordReported env i b t e)"] Cons.prems r by (simp add: tb)
qed simp

text \<open>From the start of the day's first report, for equipment of which nothing was reported before.\<close>

lemma replay_fresh:
  assumes "within_day d since rs now" "now \<noteq> 0"
  shows "rt_daily_on (account_runtime now (replay rs zero_runtime)) = on_time False since rs now"
proof (cases rs)
  case Nil
  then show ?thesis by (simp add: account_runtime_def zero_runtime_def)
next
  case (Cons tb rs')
  obtain t b where tb: "tb = (t, b)" by fastforce
  have w: "within_day d t rs' now" "t \<noteq> 0" "utc_day t = d" using assms(1) Cons by (auto simp: tb)
  let ?r = "report_runtime b t (account_runtime t zero_runtime)"
  have "accounted d t 0 (account_runtime t zero_runtime)"
    using w by (simp add: accounted_def account_runtime_def zero_runtime_def)
  then have a: "accounted d t 0 ?r" "rt_on ?r = b" using accounted_report w by blast+
  have "now - t < day_ns"
    using same_day_distance [of now t] within_day_now [OF w(1)] w(3) by auto
  then have "0 + (now - t) < 2 ^ 63" by (simp add: day_ns_def)
  from replay_accounted [OF a(1) w(1) this assms(2)] a(2) show ?thesis by (simp add: Cons tb)
qed

text \<open>Changes of policy alone: mode and overrides.\<close>

inductive policy_change :: "engine \<Rightarrow> engine \<Rightarrow> bool" where
  policy_same: "policy_change e e"
| policy_mode: "policy_change e e' \<Longrightarrow> policy_change e (fst (SetMode (env :: unit env) m e'))"
| policy_grant: "policy_change e e' \<Longrightarrow> policy_change e (fst (GrantOverride (env :: unit env) ov e'))"
| policy_revoke: "policy_change e e' \<Longrightarrow> policy_change e (fst (RevokeOverride (env :: unit env) i e'))"

lemma policy_runtime [simp]:
  "runtime_of (fst (SetMode env m e)) i = runtime_of e i"
  "runtime_of (fst (GrantOverride env ov e)) i = runtime_of e i"
  "runtime_of (fst (RevokeOverride env j e)) i = runtime_of e i"
  by (auto simp: SetMode_def GrantOverride_def RevokeOverride_def runtime_of_def Let_def split: option.splits)

lemma policy_change_keeps:
  "policy_change e e' \<Longrightarrow> eng_profiles e' = eng_profiles e \<and> runtime_of e' i = runtime_of e i"
  by (induction rule: policy_change.induct) (auto simp: ops_profiles)

section \<open>Properties\<close>

text \<open>
  C2. Exactly when an intent is allowed: switching a known piece of equipment off always, and
  switching it on only outside an emergency stop, within its maximum on, daily and minimum off
  limits, with every required input of a hazardous profile present, good and as required, and
  in maintenance and manual mode with an override that has not expired.
\<close>

theorem evaluate_exact:
  assumes "ctx_err env = None" "eng_profiles e (intent_equipment x) = Some p"
    and "now = intent_time env x" "r = account_runtime now (runtime_of e (intent_equipment x))"
  shows "granted (snd (Evaluate env reader x e)) =
    (if intent_on x
     then eng_mode e \<noteq> ModeEmergencyStop \<and> \<not> (rt_on r \<and> over_maximum now p r) \<and> \<not> over_daily p r \<and>
       \<not> (rt_off_since r \<noteq> 0 \<and> 0 < minimum_off (profile_limits p) \<and>
          time_sub now (rt_off_since r) < minimum_off (profile_limits p)) \<and>
       list_all (input_satisfied reader) (if profile_hazardous p then profile_required p else []) \<and>
       (if eng_mode e \<in> {ModeMaintenance, ModeManual}
        then live_override e (intent_equipment x) now \<noteq> None else True)
     else True)"
  using assms
  by (cases "profile_hazardous p"; cases "intent_on x")
     (simp_all add: Evaluate_decision evaluate_on_granted over_maximum_def over_daily_def list_all_iff)


text \<open>
  C11. Everything one call of \<open>CheckWatchdogs\<close> does about a piece of equipment: an expired
  override is withdrawn; if the equipment is reported on and its watchdog has not acted since
  the last change, it is sent to its fail-safe state at most once, for the expired
  override, for the maximum on time or for the daily time, in this order of precedence, and
  whatever the order of the two maps.
\<close>

theorem watchdog_exact:
  assumes "ctx_err env = None" "range_order (eng_overrides e) overrides" "range_order (eng_profiles e) profiles"
    "eng_profiles e i = Some p" "r = account_runtime (env_now env) (runtime_of e i)"
    "reason = watchdog_reason (env_now env) p (eng_overrides e i) r"
  shows "\<exists>e' actions. CheckWatchdogs env overrides profiles e = (e', ok actions) \<and>
    filter (\<lambda>a. action_equipment a = i) actions =
      (if reason = [] then []
       else [\<lparr>action_equipment = i, action_on = profile_fail_safe_on p, action_reason = reason,
              action_observed = env_now env\<rparr>]) \<and>
    eng_overrides e' i = live_override e i (env_now env) \<and>
    runtime_of e' i = (if reason = [] then r else r\<lparr>rt_watchdog_reason := reason\<rparr>)"
  using CheckWatchdogs_result [OF assms] view_components by blast

text \<open>
  C17. The accounting is the specification: when a new engine was given any history of reports
  within one UTC day, the daily time it holds against the limit when an intent of that day is
  evaluated is the time the reports say the equipment was on.
\<close>

theorem daily_time_is_on_time:
  assumes "NewEngine True profiles = Inr e" "i \<in> profile_equipment ` set profiles" "ctx_err env = None"
    and "within_day d since reports now" "now \<noteq> 0" "intent_issued x = now" "intent_equipment x = i"
  shows "rt_daily_on (runtime_of (fst (Evaluate env reader x (report_all env i reports e))) i) =
    on_time False since reports now"
proof -
  have known: "eng_profiles e i \<noteq> None" using NewEngine_inv(2) [OF assms(1)] assms(2) by auto
  have "runtime_of e i = zero_runtime"
  proof -
    have "add_profiles ps e0 = Inr e1 \<Longrightarrow> eng_runtime e1 = eng_runtime e0" for ps e0 e1
      by (induction ps e0 rule: add_profiles.induct) (auto split: option.splits if_splits)
    from this [of profiles] assms(1) show ?thesis by (auto simp: NewEngine_def runtime_of_def)
  qed
  with report_all_replay [OF assms(3,4) known] known
  have e': "runtime_of (report_all env i reports e) i = replay reports zero_runtime"
    "\<exists>p. eng_profiles (report_all env i reports e) i = Some p" by auto
  have "runtime_of (fst (Evaluate env reader x e2)) i = account_runtime now (runtime_of e2 i)"
    if "\<exists>p. eng_profiles e2 i = Some p" for e2
    using that assms(3,5-7) by (auto simp: Evaluate_def Let_def case_prod_beta split: option.splits)
  with e' replay_fresh [OF assms(4,5)] show ?thesis by simp
qed

text \<open>
  The daily time does not survive midnight: when equipment that is on is first accounted on
  a new day, its daily time is zero, however long it has been on since midnight, and the
  watchdog does not act on the daily limit, however small it is.
\<close>

theorem on_time_since_midnight_is_lost:
  assumes "ctx_err env = None" "range_order (eng_overrides e) overrides" "range_order (eng_profiles e) profiles"
    and "eng_profiles e i = Some p" "maximum_on (profile_limits p) = 0" "eng_overrides e i = None"
    and "rt_on (runtime_of e i)" "rt_daily_date (runtime_of e i) = Some (utc_day (env_now env) - 1)"
  shows "\<exists>e' actions. CheckWatchdogs env overrides profiles e = (e', ok actions) \<and>
    filter (\<lambda>a. action_equipment a = i) actions = [] \<and> rt_daily_on (runtime_of e' i) = 0"
proof -
  have zero: "rt_daily_on (account_runtime (env_now env) (runtime_of e i)) = 0"
    using assms(7,8) by (simp add: account_runtime_def Let_def)
  then have "watchdog_reason (env_now env) p (eng_overrides e i) (account_runtime (env_now env) (runtime_of e i)) = []"
    using assms(5,6) by (auto simp: watchdog_reason_def over_maximum_def over_daily_def)
  with CheckWatchdogs_result [OF assms(1-4) refl refl] zero show ?thesis by (auto dest: view_components)
qed

section \<open>Concrete runs\<close>

text \<open>A heater that needs a float switch, at most one hour on at a time.\<close>

abbreviation noon :: gotime where "noon \<equiv> 86400000000000 * 738000 + 43200000000000"

definition sample_heater :: profile where
  "sample_heater =
     \<lparr>profile_equipment = sample_id 5, profile_kind = KindHeater, profile_hazardous = True,
      profile_fail_safe_on = False,
      profile_capabilities = [CapabilitySwitch, CapabilityCommandAcknowledgement, CapabilityReportedState],
      profile_limits = \<lparr>maximum_on = 3600000000000, maximum_daily_on = 0, minimum_off = 0\<rparr>,
      profile_required = [\<lparr>req_key = sample_key, req_boolean = Some True\<rparr>]\<rparr>"

definition sample_pump :: profile where
  "sample_pump = sample_heater\<lparr>profile_equipment := sample_id 7, profile_kind := KindReturnPump,
     profile_hazardous := False, profile_required := []\<rparr>"

definition sample_engine :: engine where
  "sample_engine =
     \<lparr>eng_mode = ModeNormal, eng_profiles = [sample_id 5 \<mapsto> sample_heater, sample_id 7 \<mapsto> sample_pump],
      eng_overrides = Map.empty, eng_runtime = Map.empty, eng_started = False\<rparr>"

abbreviation sample_intent :: "nat \<Rightarrow> gotime \<Rightarrow> intent" where
  "sample_intent n t \<equiv> \<lparr>intent_equipment = sample_id n, intent_on = True, intent_issued = t\<rparr>"

lemma sample_profiles_valid: "profile_validate sample_heater = None" "profile_validate sample_pump = None"
  by (simp_all add: validators sample_heater_def sample_pump_def ValidateCapabilities_def SupportsAll_def sample_key_def)

lemma sample_engine_new: "NewEngine True [sample_heater, sample_pump] = Inr sample_engine"
  by (simp add: NewEngine_def sample_profiles_valid)
     (simp add: sample_engine_def sample_heater_def sample_pump_def fun_upd_twist)

theorem evaluate_exact_witness:
  "granted (snd (Evaluate sample_env (\<lambda>_. ok sample_value) (sample_intent 5 noon) sample_engine))"
proof -
  have "eng_profiles sample_engine (intent_equipment (sample_intent 5 noon)) = Some sample_heater"
    by (simp add: sample_engine_def)
  from evaluate_exact [OF sample_env_fields(1) this refl refl, of "\<lambda>_. ok sample_value"] show ?thesis
    by (simp add: ok_def sample_engine_def sample_heater_def runtime_of_def account_runtime_def zero_runtime_def
        over_daily_def input_satisfied_def sample_value_def NewBooleanValue_def live_override_def)
qed


definition pump_on :: engine where
  "pump_on = report_all (sample_env :: unit env) (sample_id 7) [(noon - 57600000000000, True)] sample_engine"

lemma pump_on_runtime:
  "runtime_of pump_on (sample_id 7) =
     \<lparr>rt_on = True, rt_on_since = noon - 57600000000000, rt_off_since = 0, rt_daily_on = 0,
      rt_daily_date = Some 737999, rt_last_accounted = noon - 57600000000000, rt_watchdog_reason = []\<rparr>"
  "eng_profiles pump_on = eng_profiles sample_engine" "eng_overrides pump_on = Map.empty" "eng_mode pump_on = ModeNormal"
  by (simp_all add: pump_on_def RecordReported_def sample_engine_def accountLocked_def Let_def runtime_of_def
      account_runtime_def zero_runtime_def report_runtime_def utc_day_def day_ns_def)

theorem watchdog_exact_witness:
  "\<exists>e' actions. CheckWatchdogs (sample_env :: unit env) [] [sample_id 7, sample_id 5] pump_on = (e', ok actions) \<and>
     filter (\<lambda>a. action_equipment a = sample_id 7) actions =
       [\<lparr>action_equipment = sample_id 7, action_on = False, action_reason = ReasonMaximumOn,
         action_observed = env_now (sample_env :: unit env)\<rparr>]"
proof -
  have p: "eng_profiles pump_on (sample_id 7) = Some sample_pump"
    by (simp add: pump_on_runtime sample_engine_def)
  have "range_order (eng_overrides pump_on) []" "range_order (eng_profiles pump_on) [sample_id 7, sample_id 5]"
    by (auto simp: range_order_def pump_on_runtime sample_engine_def)
  from watchdog_exact [OF sample_env_fields(1) this p refl refl] show ?thesis
    by (auto simp: pump_on_runtime watchdog_reason_def over_maximum_def account_runtime_def sample_pump_def
        sample_heater_def utc_day_def day_ns_def time_sub_def)
qed

theorem daily_time_is_on_time_witness:
  "rt_daily_on (runtime_of (fst (Evaluate (sample_env :: unit env) (\<lambda>_. ok sample_value) (sample_intent 5 (noon + 5))
     (report_all (sample_env :: unit env) (sample_id 5) [(noon, True), (noon + 3, False)] sample_engine))) (sample_id 5)) = 3"
proof -
  have "within_day 738000 noon [(noon, True), (noon + 3, False)] (noon + 5)"
    by (simp add: utc_day_def day_ns_def)
  moreover have "sample_id 5 \<in> profile_equipment ` set [sample_heater, sample_pump]"
    by (simp add: sample_heater_def)
  ultimately show ?thesis
    using daily_time_is_on_time [OF sample_engine_new, of "sample_id 5" "sample_env :: unit env" 738000 noon
        "[(noon, True), (noon + 3, False)]" "noon + 5" "sample_intent 5 (noon + 5)" "\<lambda>_. ok sample_value"] by simp
qed

theorem on_time_since_midnight_is_lost_witness:
  "\<exists>e' actions. CheckWatchdogs (sample_env\<lparr>env_now := noon\<rparr> :: unit env) [] [sample_id 7]
     (pump_on\<lparr>eng_profiles := [sample_id 7 \<mapsto>
        sample_pump\<lparr>profile_limits := \<lparr>maximum_on = 0, maximum_daily_on = 1, minimum_off = 0\<rparr>\<rparr>]\<rparr>) = (e', ok actions) \<and>
     filter (\<lambda>a. action_equipment a = sample_id 7) actions = [] \<and> rt_daily_on (runtime_of e' (sample_id 7)) = 0"
proof -
  let ?p = "sample_pump\<lparr>profile_limits := \<lparr>maximum_on = 0, maximum_daily_on = 1, minimum_off = 0\<rparr>\<rparr>"
  let ?e = "pump_on\<lparr>eng_profiles := [sample_id 7 \<mapsto> ?p]\<rparr>"
  have r: "runtime_of ?e (sample_id 7) = runtime_of pump_on (sample_id 7)" by (simp add: runtime_of_def)
  have "range_order (eng_overrides ?e) []" "range_order (eng_profiles ?e) [sample_id 7]"
    by (auto simp: range_order_def pump_on_runtime)
  from on_time_since_midnight_is_lost [OF _ this, of "sample_env\<lparr>env_now := noon\<rparr> :: unit env" "sample_id 7" ?p]
  show ?thesis by (simp add: r pump_on_runtime utc_day_def day_ns_def)
qed


end
