(* ===== verification/Output.thy ===== *)
theory Output
  imports Safety
begin

text \<open>
  The package \<open>internal/output\<close>: the command service, the only path from a request to an
  executor, and the router that gives each piece of equipment its executor.

  The policy of the service is the safety engine, as the composition root wires it. A call reads
  the clock, the identifier generators, the canonical state, its revision and the executor's
  answer from its surroundings, the record \<open>deps\<close>; within one call of an operation the clock is
  read as one instant. Commands handed to an executor are logged in the world, in order.
\<close>

section \<open>Commands and results\<close>

datatype command_status =
    StatusValidated | StatusRejected | StatusDispatched | StatusAcknowledged
  | StatusSucceeded | StatusFailed | StatusExpired

abbreviation ReasonValidated :: string where "ReasonValidated \<equiv> ''command.validated''"
abbreviation ReasonDispatched :: string where "ReasonDispatched \<equiv> ''command.dispatched''"
abbreviation ReasonExpired :: string where "ReasonExpired \<equiv> ''command.expired''"
abbreviation ReasonRevisionConflict :: string where "ReasonRevisionConflict \<equiv> ''command.revision_conflict''"
abbreviation ReasonDispatchFailed :: string where "ReasonDispatchFailed \<equiv> ''command.dispatch_failed''"
abbreviation ReasonAdapterRejected :: string where "ReasonAdapterRejected \<equiv> ''command.adapter_rejected''"
abbreviation ReasonAcknowledged :: string where "ReasonAcknowledged \<equiv> ''command.acknowledged''"
abbreviation ReasonReconciled :: string where "ReasonReconciled \<equiv> ''command.reconciled''"
abbreviation ReasonReportedMismatch :: string where "ReasonReportedMismatch \<equiv> ''command.reported_mismatch''"

record command =
  cmd_id :: ident
  cmd_key :: string
  cmd_correlation :: ident
  cmd_equipment :: ident
  cmd_requester :: string
  cmd_issued :: gotime
  cmd_expires :: gotime
  cmd_expected :: "revision option"
  cmd_on :: bool

record result =
  res_command :: command
  res_status :: command_status
  res_reason :: string
  res_updated :: gotime
  res_acknowledged :: "gotime option"
  res_reconciled :: "gotime option"

record acknowledgement =
  ack_accepted :: bool
  ack_reason :: string
  ack_at :: gotime

definition out_ErrNotFound :: go_error where
  "out_ErrNotFound = Sentinel ''output.ErrNotFound''"

definition out_ErrConflict :: go_error where
  "out_ErrConflict = Sentinel ''output.ErrConflict''"

definition out_ErrInvalidTransition :: go_error where
  "out_ErrInvalidTransition = Sentinel ''output.ErrInvalidTransition''"

definition validateCommand :: "command \<Rightarrow> go_error option" where
  "validateCommand c = first_error [
     wrap ''command ID'' (validateUUID (cmd_id c)),
     wrap ''correlation ID'' (validateUUID (cmd_correlation c)),
     wrap ''equipment ID'' (validateUUID (cmd_equipment c)),
     guard (cmd_key c = [] \<or> length (cmd_key c) > 128)
       (ErrorString ''idempotency key is required and cannot exceed 128 bytes''),
     guard (cmd_requester c = []) (ErrorString ''command requester is required''),
     guard (is_zero (cmd_issued c) \<or> is_zero (cmd_expires c) \<or> \<not> cmd_expires c > cmd_issued c)
       (ErrorString ''command expiry must follow issue time'')]"

definition equivalent :: "command \<Rightarrow> command \<Rightarrow> bool" where
  "equivalent l r \<longleftrightarrow>
     cmd_key l = cmd_key r \<and> cmd_equipment l = cmd_equipment r \<and>
     cmd_requester l = cmd_requester r \<and> cmd_on l = cmd_on r"

section \<open>Executors\<close>

type_synonym executor = "command \<Rightarrow> acknowledgement ret"

definition RejectingExecutor :: executor where
  "RejectingExecutor c = ok \<lparr>ack_accepted = False, ack_reason = ''adapter.not_configured'', ack_at = 0\<rparr>"

record router =
  routes :: "ident \<rightharpoonup> executor"
  fallback :: executor

definition NewExecutorRouter :: router where
  "NewExecutorRouter = \<lparr>routes = Map.empty, fallback = RejectingExecutor\<rparr>"

text \<open>\<open>Register\<close>; a nil executor is \<open>None\<close>.\<close>

definition router_register :: "ident \<Rightarrow> executor option \<Rightarrow> router \<Rightarrow> router \<times> go_error option" where
  "router_register i executor r =
     (case validateUUID i of
        Some err \<Rightarrow> (r, Some err)
      | None \<Rightarrow>
          (case executor of
             None \<Rightarrow> (r, Some (ErrorString ''output executor is required''))
           | Some x \<Rightarrow>
               if routes r i \<noteq> None then (r, Some (ErrorString ''output executor already registered''))
               else (r\<lparr>routes := (routes r)(i \<mapsto> x)\<rparr>, None)))"

definition router_dispatch :: "router \<Rightarrow> executor" where
  "router_dispatch r c =
     (case routes r (cmd_equipment c) of None \<Rightarrow> fallback r c | Some x \<Rightarrow> x c)"

section \<open>The service\<close>

record service =
  svc_results :: "ident \<rightharpoonup> result"
  svc_idempotency :: "string \<rightharpoonup> ident"
  svc_started :: bool

record world =
  w_service :: service
  w_policy :: engine
  w_sent :: "command list"

record deps =
  d_env :: "result env"
  d_reader :: "state_key \<Rightarrow> state_value ret"
  d_revision :: "revision ret"
  d_dispatch :: executor

definition NewService :: service where
  "NewService = \<lparr>svc_results = Map.empty, svc_idempotency = Map.empty, svc_started = False\<rparr>"

definition svc_start :: "service \<Rightarrow> service" where
  "svc_start s = s\<lparr>svc_started := True\<rparr>"

definition svc_stop :: "service \<Rightarrow> service" where
  "svc_stop s = s\<lparr>svc_started := False\<rparr>"

definition svc_health :: "gotime \<Rightarrow> service \<Rightarrow> status" where
  "svc_health now s = started_status ''output'' (svc_started s) now"

definition result_encodable :: "result \<Rightarrow> bool" where
  "result_encodable r \<longleftrightarrow>
     json_time (cmd_issued (res_command r)) \<and> json_time (cmd_expires (res_command r)) \<and>
     json_time (res_updated r) \<and>
     (case res_acknowledged r of None \<Rightarrow> True | Some t \<Rightarrow> json_time t) \<and>
     (case res_reconciled r of None \<Rightarrow> True | Some t \<Rightarrow> json_time t)"

definition out_emit :: "result env \<Rightarrow> event_type \<Rightarrow> result \<Rightarrow> go_error option" where
  "out_emit env etype r =
     emit env result_encodable ''output'' etype
       (if res_status r \<in> {StatusRejected, StatusFailed, StatusExpired} then SeverityWarning else SeverityInfo)
       r (cmd_correlation (res_command r))"

definition record_result ::
  "result env \<Rightarrow> command \<Rightarrow> command_status \<Rightarrow> string \<Rightarrow> event_type \<Rightarrow> service \<Rightarrow> service \<times> result ret"
where
  "record_result env c st reason etype s =
     (let r = \<lparr>res_command = c, res_status = st, res_reason = reason, res_updated = env_now env,
               res_acknowledged = None, res_reconciled = None\<rparr>
      in (s\<lparr>svc_results := (svc_results s)(cmd_id c \<mapsto> r),
            svc_idempotency := (svc_idempotency s)(cmd_key c \<mapsto> cmd_id c)\<rparr>,
          (Some r, out_emit env etype r)))"

definition transition ::
  "result env \<Rightarrow> ident \<Rightarrow> command_status \<Rightarrow> string \<Rightarrow> event_type \<Rightarrow> gotime option \<Rightarrow> service \<Rightarrow> service \<times> result ret"
where
  "transition env i st reason etype t s =
     (case svc_results s i of
        None \<Rightarrow> (s, fail out_ErrNotFound)
      | Some r \<Rightarrow>
          (let r = r\<lparr>res_status := st, res_reason := reason, res_updated := env_now env\<rparr>;
               r = (if st = StatusAcknowledged then r\<lparr>res_acknowledged := t\<rparr> else r);
               r = (if st = StatusSucceeded then r\<lparr>res_reconciled := t\<rparr> else r)
           in (s\<lparr>svc_results := (svc_results s)(i \<mapsto> r)\<rparr>, (Some r, out_emit env etype r))))"

section \<open>Submit\<close>

text \<open>The head of \<open>Submit\<close>: identifiers the requester left out are generated, then validation.\<close>

definition prepare :: "result env \<Rightarrow> command \<Rightarrow> go_error + command" where
  "prepare env c =
     (case ctx_err env of
        Some err \<Rightarrow> Inl err
      | None \<Rightarrow>
          (case assign_id env (cmd_id c) of
             Inl err \<Rightarrow> Inl err
           | Inr i \<Rightarrow>
               (case (if cmd_correlation c = [] then env_new_correlation env else Inr (cmd_correlation c)) of
                  Inl err \<Rightarrow> Inl err
                | Inr cid \<Rightarrow>
                    let c = c\<lparr>cmd_id := i, cmd_correlation := cid\<rparr>
                    in case validateCommand c of Some err \<Rightarrow> Inl err | None \<Rightarrow> Inr c)))"

text \<open>
  The idempotency check: the answer if the key is known. (A known identifier without a result
  would be compared as a zero \<open>Result\<close>, whose empty key differs from that of a valid command.)
\<close>

definition known :: "command \<Rightarrow> service \<Rightarrow> result ret option" where
  "known c s =
     (case svc_idempotency s (cmd_key c) of
        None \<Rightarrow> None
      | Some i \<Rightarrow>
          Some (case svc_results s i of
                  None \<Rightarrow> fail out_ErrConflict
                | Some r \<Rightarrow> if equivalent (res_command r) c then ok r else fail out_ErrConflict))"

definition command_intent :: "command \<Rightarrow> intent" where
  "command_intent c =
     \<lparr>intent_equipment = cmd_equipment c, intent_on = cmd_on c, intent_issued = cmd_issued c\<rparr>"

text \<open>The executor's answer turned into the final transition of the command.\<close>

definition conclude :: "result env \<Rightarrow> command \<Rightarrow> acknowledgement ret \<Rightarrow> service \<Rightarrow> service \<times> result ret" where
  "conclude env c answer s =
     (case answer of
        (_, Some err) \<Rightarrow> transition env (cmd_id c) StatusFailed ReasonDispatchFailed CommandRejected None s
      | (None, None) \<Rightarrow> transition env (cmd_id c) StatusFailed ReasonAdapterRejected CommandRejected None s
      | (Some a, None) \<Rightarrow>
          if \<not> ack_accepted a
          then transition env (cmd_id c) StatusFailed ReasonAdapterRejected CommandRejected None s
          else transition env (cmd_id c) StatusAcknowledged ReasonAcknowledged CommandAcknowledged
                 (Some (if is_zero (ack_at a) then env_now env else ack_at a)) s)"

text \<open>The tail of \<open>Submit\<close>, from the decision to dispatch.\<close>

definition dispatch :: "deps \<Rightarrow> command \<Rightarrow> world \<Rightarrow> world \<times> result ret" where
  "dispatch d c w =
     (let (s, r) = record_result (d_env d) c StatusValidated ReasonValidated CommandValidated (w_service w);
          w = w\<lparr>w_service := s\<rparr>
      in if snd r \<noteq> None then (w, r)
         else let (s, r) = transition (d_env d) (cmd_id c) StatusDispatched ReasonDispatched CommandDispatched None (w_service w);
                  w = w\<lparr>w_service := s\<rparr>
         in if snd r \<noteq> None then (w, r)
         else let answer = d_dispatch d c;
                  w = w\<lparr>w_sent := w_sent w @ [c]\<rparr>;
                  (s, r) = conclude (d_env d) c answer (w_service w)
         in (w\<lparr>w_service := s\<rparr>, r))"

definition refuse ::
  "deps \<Rightarrow> command \<Rightarrow> command_status \<Rightarrow> string \<Rightarrow> event_type \<Rightarrow> world \<Rightarrow> world \<times> result ret"
where
  "refuse d c st reason etype w =
     (let (s, r) = record_result (d_env d) c st reason etype (w_service w) in (w\<lparr>w_service := s\<rparr>, r))"

text \<open>The comparison with the expected revision: an error, or whether the command may proceed.\<close>

definition revision_check :: "deps \<Rightarrow> command \<Rightarrow> go_error + bool" where
  "revision_check d c =
     (case cmd_expected c of
        None \<Rightarrow> Inr True
      | Some expected \<Rightarrow>
          (case d_revision d of
             (_, Some err) \<Rightarrow> Inl err
           | (current, None) \<Rightarrow> Inr ((case current of None \<Rightarrow> 0 | Some x \<Rightarrow> x) = expected)))"

definition Submit :: "deps \<Rightarrow> command \<Rightarrow> world \<Rightarrow> world \<times> result ret" where
  "Submit d c w =
     (case prepare (d_env d) c of
        Inl err \<Rightarrow> (w, fail err)
      | Inr c \<Rightarrow>
          (case known c (w_service w) of
             Some answer \<Rightarrow> (w, answer)
           | None \<Rightarrow>
               if \<not> env_now (d_env d) < cmd_expires c
               then refuse d c StatusExpired ReasonExpired CommandExpired w
               else case revision_check d c of
                 Inl err \<Rightarrow> (w, fail err)
               | Inr False \<Rightarrow> refuse d c StatusRejected ReasonRevisionConflict CommandRejected w
               | Inr True \<Rightarrow>
                   (let (e, decision) = Evaluate (d_env d) (d_reader d) (command_intent c) (w_policy w);
                        w = w\<lparr>w_policy := e\<rparr>
                    in case decision of
                         (_, Some err) \<Rightarrow> (w, fail err)
                       | (None, None) \<Rightarrow> refuse d c StatusRejected [] CommandRejected w
                       | (Some x, None) \<Rightarrow>
                           if \<not> decision_allowed x
                           then refuse d c StatusRejected (decision_reason x) CommandRejected w
                           else dispatch d c w)))"

section \<open>Reconciliation, expiry, queries and watchdogs\<close>

definition Reconcile :: "result env \<Rightarrow> ident \<Rightarrow> bool \<Rightarrow> gotime \<Rightarrow> world \<Rightarrow> world \<times> result ret" where
  "Reconcile env i on observed w =
     (case first_error [ctx_err env,
             guard (is_zero observed) (ErrorString ''reconciliation timestamp is required'')] of
        Some err \<Rightarrow> (w, fail err)
      | None \<Rightarrow>
          (case svc_results (w_service w) i of
             None \<Rightarrow> (w, fail out_ErrNotFound)
           | Some r \<Rightarrow>
               if res_status r \<noteq> StatusAcknowledged then (w, fail out_ErrInvalidTransition)
               else let (e, err) = RecordReported env (cmd_equipment (res_command r)) on observed (w_policy w);
                        w = w\<lparr>w_policy := e\<rparr>
               in case err of
                    Some x \<Rightarrow> (w, fail x)
                  | None \<Rightarrow>
                      (let (s, answer) =
                         (if on \<noteq> cmd_on (res_command r)
                          then transition env i StatusFailed ReasonReportedMismatch CommandReconciled None (w_service w)
                          else transition env i StatusSucceeded ReasonReconciled CommandReconciled (Some observed)
                                 (w_service w))
                       in (w\<lparr>w_service := s\<rparr>, answer))))"

definition ExpireAcknowledged :: "result env \<Rightarrow> ident \<Rightarrow> string \<Rightarrow> gotime \<Rightarrow> world \<Rightarrow> world \<times> result ret" where
  "ExpireAcknowledged env i reason observed w =
     (case first_error [ctx_err env,
             guard (reason = [] \<or> is_zero observed)
               (ErrorString ''reconciliation expiry reason and timestamp are required'')] of
        Some err \<Rightarrow> (w, fail err)
      | None \<Rightarrow>
          (case svc_results (w_service w) i of
             None \<Rightarrow> (w, fail out_ErrNotFound)
           | Some r \<Rightarrow>
               if res_status r \<noteq> StatusAcknowledged then (w, fail out_ErrInvalidTransition)
               else if observed < cmd_expires (res_command r)
               then (w, fail (ErrorString ''cannot expire command before its deadline''))
               else let (s, answer) = transition env i StatusExpired reason CommandExpired None (w_service w)
                    in (w\<lparr>w_service := s\<rparr>, answer)))"

definition svc_get :: "result env \<Rightarrow> service \<Rightarrow> ident \<Rightarrow> result ret" where
  "svc_get env s i =
     (case ctx_err env of
        Some err \<Rightarrow> fail err
      | None \<Rightarrow> (case svc_results s i of None \<Rightarrow> fail out_ErrNotFound | Some r \<Rightarrow> ok r))"

definition svc_list :: "result env \<Rightarrow> ident list \<Rightarrow> service \<Rightarrow> result list ret" where
  "svc_list env ord s =
     (case ctx_err env of
        Some err \<Rightarrow> fail err
      | None \<Rightarrow> ok (sort_key (\<lambda>r. cmd_issued (res_command r)) (go_range (svc_results s) ord)))"

definition watchdog_command :: "ident \<Rightarrow> ident \<Rightarrow> duration \<Rightarrow> watchdog_action \<Rightarrow> command" where
  "watchdog_command i cid ttl a =
     \<lparr>cmd_id = i, cmd_key = ''watchdog/'' @ i, cmd_correlation = cid, cmd_equipment = action_equipment a,
      cmd_requester = ''safety-watchdog'', cmd_issued = action_observed a,
      cmd_expires = action_observed a + ttl, cmd_expected = None, cmd_on = action_on a\<rparr>"

text \<open>
  The loop over the actions; each round has its own surroundings, the first argument, which has
  at least as many entries as there are actions.
\<close>

fun watchdog_submit ::
  "deps list \<Rightarrow> duration \<Rightarrow> watchdog_action list \<Rightarrow> world \<Rightarrow> world \<times> result option list \<times> go_error option"
where
  "watchdog_submit (d # ds) ttl (a # as) w =
     (case (env_new_id (d_env d), env_new_correlation (d_env d)) of
        (Inl err, _) \<Rightarrow> (w, [], Some err)
      | (_, Inl err) \<Rightarrow> (w, [], Some err)
      | (Inr i, Inr cid) \<Rightarrow>
          (let (w, r) = Submit d (watchdog_command i cid ttl a) w
           in case snd r of
                Some err \<Rightarrow> (w, [fst r], Some err)
              | None \<Rightarrow> let (w, rs, err) = watchdog_submit ds ttl as w in (w, fst r # rs, err)))"
| "watchdog_submit _ ttl _ w = (w, [], None)"

definition RunWatchdogs ::
  "result env \<Rightarrow> ident list \<Rightarrow> ident list \<Rightarrow> deps list \<Rightarrow> duration \<Rightarrow> world \<Rightarrow> world \<times> result option list \<times> go_error option"
where
  "RunWatchdogs env overrides profiles ds ttl w =
     (if ttl \<le> 0 then (w, [], Some (ErrorString ''watchdog command TTL must be positive''))
      else let (e, actions) = CheckWatchdogs env overrides profiles (w_policy w);
               w = w\<lparr>w_policy := e\<rparr>
      in case actions of
           (_, Some err) \<Rightarrow> (w, [], Some err)
         | (as, None) \<Rightarrow> watchdog_submit ds ttl (case as of None \<Rightarrow> [] | Some xs \<Rightarrow> xs) w)"

section \<open>Submit as a sequence of atomic steps\<close>

text \<open>
  \<open>Submit\<close> holds no lock from the idempotency check to the end: other calls run in between.
  A call in progress is at one of the points below, and each step is what happens under one
  acquisition of a lock, or one call of a collaborator.
\<close>

datatype call =
    Begun command
  | Unknown command
  | Current command
  | Refused command command_status string event_type
  | Admitted command
  | Recorded command
  | Sending command
  | Answered command "acknowledgement ret"
  | Finished "result ret"

fun call_step :: "deps \<Rightarrow> call \<Rightarrow> world \<Rightarrow> call \<times> world" where
  "call_step d (Begun c) w =
     (case prepare (d_env d) c of
        Inl err \<Rightarrow> (Finished (fail err), w)
      | Inr c \<Rightarrow>
          (case known c (w_service w) of
             Some answer \<Rightarrow> (Finished answer, w)
           | None \<Rightarrow> (Unknown c, w)))"
| "call_step d (Unknown c) w =
     (if \<not> env_now (d_env d) < cmd_expires c
      then (Refused c StatusExpired ReasonExpired CommandExpired, w)
      else case revision_check d c of
        Inl err \<Rightarrow> (Finished (fail err), w)
      | Inr False \<Rightarrow> (Refused c StatusRejected ReasonRevisionConflict CommandRejected, w)
      | Inr True \<Rightarrow> (Current c, w))"
| "call_step d (Current c) w =
     (let (e, decision) = Evaluate (d_env d) (d_reader d) (command_intent c) (w_policy w);
          w = w\<lparr>w_policy := e\<rparr>
      in case decision of
           (_, Some err) \<Rightarrow> (Finished (fail err), w)
         | (None, None) \<Rightarrow> (Refused c StatusRejected [] CommandRejected, w)
         | (Some x, None) \<Rightarrow>
             if \<not> decision_allowed x then (Refused c StatusRejected (decision_reason x) CommandRejected, w)
             else (Admitted c, w))"
| "call_step d (Refused c st reason etype) w =
     (let (w, r) = refuse d c st reason etype w in (Finished r, w))"
| "call_step d (Admitted c) w =
     (let (s, r) = record_result (d_env d) c StatusValidated ReasonValidated CommandValidated (w_service w);
          w = w\<lparr>w_service := s\<rparr>
      in if snd r \<noteq> None then (Finished r, w) else (Recorded c, w))"
| "call_step d (Recorded c) w =
     (let (s, r) = transition (d_env d) (cmd_id c) StatusDispatched ReasonDispatched CommandDispatched None (w_service w);
          w = w\<lparr>w_service := s\<rparr>
      in if snd r \<noteq> None then (Finished r, w) else (Sending c, w))"
| "call_step d (Sending c) w = (Answered c (d_dispatch d c), w\<lparr>w_sent := w_sent w @ [c]\<rparr>)"
| "call_step d (Answered c answer) w =
     (let (s, r) = conclude (d_env d) c answer (w_service w) in (Finished r, w\<lparr>w_service := s\<rparr>))"
| "call_step d (Finished r) w = (Finished r, w)"

text \<open>A call that runs alone, in unchanged surroundings, for a number of steps.\<close>

fun call_run :: "nat \<Rightarrow> deps \<Rightarrow> call \<Rightarrow> world \<Rightarrow> call \<times> world" where
  "call_run 0 d k w = (k, w)"
| "call_run (Suc n) d k w = (let (k, w) = call_step d k w in call_run n d k w)"

text \<open>Calls in progress, by number, over one world.\<close>

record concurrent =
  con_calls :: "nat \<Rightarrow> call"
  con_world :: world

inductive con_step :: "concurrent \<Rightarrow> concurrent \<Rightarrow> bool" where
  step: "call_step d (con_calls s n) (con_world s) = (k, w) \<Longrightarrow>
    con_step s \<lparr>con_calls = (con_calls s)(n := k), con_world = w\<rparr>"
| reconcile: "con_step s (s\<lparr>con_world := fst (Reconcile env i on t (con_world s))\<rparr>)"
| expire: "con_step s (s\<lparr>con_world := fst (ExpireAcknowledged env i reason t (con_world s))\<rparr>)"

inductive con_reach :: "concurrent \<Rightarrow> concurrent \<Rightarrow> bool" for s where
  init: "con_reach s s"
| more: "con_reach s t \<Longrightarrow> con_step t u \<Longrightarrow> con_reach s u"

section \<open>Lemmas\<close>

lemma call_run_Returned [simp]: "call_run n d (Finished r) w = (Finished r, w)"
  by (induction n) auto

lemma call_run_refuse:
  "call_run (Suc n) d (Refused c st reason etype) w =
     (Finished (snd (refuse d c st reason etype w)), fst (refuse d c st reason etype w))"
  by (simp add: case_prod_beta)

lemma call_run_dispatch:
  "call_run (Suc (Suc (Suc (Suc n)))) d (Admitted c) w = (Finished (snd (dispatch d c w)), fst (dispatch d c w))"
  by (simp add: dispatch_def Let_def case_prod_beta)

lemmas call_run_ends = call_run_refuse call_run_dispatch call_run_Returned

text \<open>Alone, the steps of a call are \<open>Submit\<close>: seven steps are enough on every path.\<close>

lemma call_run_Current:
  "call_run (Suc (Suc (Suc (Suc (Suc n))))) d (Current c) w =
     (let (e, decision) = Evaluate (d_env d) (d_reader d) (command_intent c) (w_policy w);
          w = w\<lparr>w_policy := e\<rparr>;
          (w, r) = (case decision of
                      (_, Some err) \<Rightarrow> (w, fail err)
                    | (None, None) \<Rightarrow> refuse d c StatusRejected [] CommandRejected w
                    | (Some x, None) \<Rightarrow>
                        if \<not> decision_allowed x then refuse d c StatusRejected (decision_reason x) CommandRejected w
                        else dispatch d c w)
      in (Finished r, w))"
  by (subst call_run.simps(2))
     (simp add: call_run_ends case_prod_beta Let_def split: option.splits prod.splits
       del: call_run.simps)

lemma call_run_Unknown:
  "call_run (Suc (Suc (Suc (Suc (Suc (Suc n)))))) d (Unknown c) w =
     (let (w, r) =
        (if \<not> env_now (d_env d) < cmd_expires c then refuse d c StatusExpired ReasonExpired CommandExpired w
         else case revision_check d c of
           Inl err \<Rightarrow> (w, fail err)
         | Inr False \<Rightarrow> refuse d c StatusRejected ReasonRevisionConflict CommandRejected w
         | Inr True \<Rightarrow>
             (let (e, decision) = Evaluate (d_env d) (d_reader d) (command_intent c) (w_policy w);
                  w = w\<lparr>w_policy := e\<rparr>
              in case decision of
                   (_, Some err) \<Rightarrow> (w, fail err)
                 | (None, None) \<Rightarrow> refuse d c StatusRejected [] CommandRejected w
                 | (Some x, None) \<Rightarrow>
                     if \<not> decision_allowed x then refuse d c StatusRejected (decision_reason x) CommandRejected w
                     else dispatch d c w))
      in (Finished r, w))"
  by (subst call_run.simps(2))
     (simp add: call_run_ends call_run_Current case_prod_beta Let_def split: sum.splits bool.splits
       del: call_run.simps)

lemma call_run_Submit: "call_run 7 d (Begun c) w = (Finished (snd (Submit d c w)), fst (Submit d c w))"
proof -
  have seven: "(7::nat) = Suc (Suc (Suc (Suc (Suc (Suc (Suc 0))))))" by simp
  show ?thesis
    unfolding seven
    by (subst call_run.simps(2))
       (simp add: Submit_def call_run_ends call_run_Unknown case_prod_beta Let_def
         split: sum.splits option.splits del: call_run.simps)
qed

lemma validateCommand_None:
  "validateCommand c = None \<longleftrightarrow>
     validateUUID (cmd_id c) = None \<and> validateUUID (cmd_correlation c) = None \<and>
     validateUUID (cmd_equipment c) = None \<and> cmd_key c \<noteq> [] \<and> length (cmd_key c) \<le> 128 \<and>
     cmd_requester c \<noteq> [] \<and> cmd_issued c \<noteq> 0 \<and> cmd_expires c \<noteq> 0 \<and> cmd_issued c < cmd_expires c"
  by (auto simp: validateCommand_def)

lemma prepare_Inr:
  assumes "prepare env c = Inr c'"
  shows "ctx_err env = None" "validateCommand c' = None" "cmd_key c' = cmd_key c"
    "cmd_equipment c' = cmd_equipment c" "cmd_requester c' = cmd_requester c" "cmd_on c' = cmd_on c"
    "cmd_issued c' = cmd_issued c" "cmd_expires c' = cmd_expires c" "cmd_expected c' = cmd_expected c"
    "cmd_id c \<noteq> [] \<Longrightarrow> cmd_id c' = cmd_id c"
  using assms by (auto simp: prepare_def assign_id_def Let_def split: option.splits sum.splits if_splits)

lemma prepare_valid:
  assumes "ctx_err env = None" "validateCommand c = None"
  shows "prepare env c = Inr c"
proof -
  have "cmd_id c \<noteq> []" "cmd_correlation c \<noteq> []"
    using assms(2) validateUUID_nonempty by (auto simp: validateCommand_None)
  with assms show ?thesis by (simp add: prepare_def assign_id_def)
qed

text \<open>Only the results are written after the command has been recorded.\<close>

lemma transition_Some:
  assumes "svc_results s i = Some r"
  shows "\<exists>r'. svc_results (fst (transition env i st reason etype t s)) = (svc_results s)(i \<mapsto> r') \<and>
    fst (snd (transition env i st reason etype t s)) = Some r' \<and>
    res_command r' = res_command r \<and> res_status r' = st \<and> res_reason r' = reason \<and>
    res_acknowledged r' = (if st = StatusAcknowledged then t else res_acknowledged r) \<and>
    res_reconciled r' = (if st = StatusSucceeded then t else res_reconciled r)"
  using assms by (simp add: transition_def Let_def)

lemma transition_frame:
  "svc_idempotency (fst (transition env i st reason etype t s)) = svc_idempotency s"
  "svc_started (fst (transition env i st reason etype t s)) = svc_started s"
  "j \<noteq> i \<Longrightarrow> svc_results (fst (transition env i st reason etype t s)) j = svc_results s j"
  "svc_results s i = None \<Longrightarrow> transition env i st reason etype t s = (s, fail out_ErrNotFound)"
  by (auto simp: transition_def Let_def split: option.splits)

lemma conclude_transition:
  "\<exists>st reason etype t. conclude env c answer s = transition env (cmd_id c) st reason etype t s \<and>
     (st = StatusFailed \<and> t = None \<or> st = StatusAcknowledged \<and> t \<noteq> None)"
proof (cases "snd answer = None \<and> (\<exists>a. fst answer = Some a \<and> ack_accepted a)")
  case True
  then obtain a where "answer = (Some a, None)" "ack_accepted a" by (cases answer) auto
  then have "conclude env c answer s = transition env (cmd_id c) StatusAcknowledged ReasonAcknowledged
    CommandAcknowledged (Some (if is_zero (ack_at a) then env_now env else ack_at a)) s"
    by (simp add: conclude_def)
  then show ?thesis by blast
next
  case False
  then have "\<exists>reason. conclude env c answer s = transition env (cmd_id c) StatusFailed reason CommandRejected None s"
    by (cases answer) (auto simp: conclude_def split: option.splits)
  then show ?thesis by blast
qed

section \<open>The invariant of the service\<close>

definition result_wf :: "ident \<Rightarrow> result \<Rightarrow> bool" where
  "result_wf i r \<longleftrightarrow>
     cmd_id (res_command r) = i \<and> validateCommand (res_command r) = None \<and>
     (res_status r \<in> {StatusAcknowledged, StatusSucceeded} \<longrightarrow> res_acknowledged r \<noteq> None) \<and>
     (res_status r = StatusSucceeded \<longrightarrow> res_reconciled r \<noteq> None)"

definition svc_inv :: "service \<Rightarrow> bool" where
  "svc_inv s \<longleftrightarrow>
     (\<forall>i r. svc_results s i = Some r \<longrightarrow> result_wf i r) \<and>
     (\<forall>k i. svc_idempotency s k = Some i \<longrightarrow> svc_results s i \<noteq> None)"

lemma svc_invD:
  assumes "svc_inv s"
  shows "svc_results s i = Some r \<Longrightarrow> result_wf i r"
    "svc_idempotency s k = Some i \<Longrightarrow> \<exists>r. svc_results s i = Some r"
  using assms by (auto simp: svc_inv_def)

lemma svc_inv_new: "svc_inv NewService"
  by (simp add: svc_inv_def NewService_def)

lemma svc_inv_record:
  assumes "svc_inv s" "validateCommand c = None" "st \<notin> {StatusAcknowledged, StatusSucceeded}"
  shows "svc_inv (fst (record_result env c st reason etype s))"
  using assms by (auto simp: svc_inv_def record_result_def Let_def result_wf_def)

lemma svc_inv_transition:
  assumes "svc_inv s"
    "st = StatusAcknowledged \<Longrightarrow> t \<noteq> None"
    "st = StatusSucceeded \<Longrightarrow> t \<noteq> None \<and> (\<forall>r. svc_results s i = Some r \<longrightarrow> res_status r = StatusAcknowledged)"
  shows "svc_inv (fst (transition env i st reason etype t s))"
proof (cases "svc_results s i")
  case None
  then show ?thesis using assms by (simp add: transition_frame)
next
  case (Some r)
  from transition_Some [OF this, of env st reason etype t] obtain r' where
    res: "svc_results (fst (transition env i st reason etype t s)) = (svc_results s)(i \<mapsto> r')"
    and r': "res_command r' = res_command r" "res_status r' = st"
      "res_acknowledged r' = (if st = StatusAcknowledged then t else res_acknowledged r)"
      "res_reconciled r' = (if st = StatusSucceeded then t else res_reconciled r)"
    by blast
  have "result_wf i r" using assms(1) Some by (rule svc_invD)
  then have "result_wf i r'" using r' assms(2,3) Some by (auto simp: result_wf_def)
  then show ?thesis using assms(1) Some by (auto simp: svc_inv_def res transition_frame)
qed

lemma svc_inv_conclude:
  assumes "svc_inv s"
  shows "svc_inv (fst (conclude env c answer s))"
proof -
  obtain st reason etype t where c: "conclude env c answer s = transition env (cmd_id c) st reason etype t s"
    and st: "st = StatusFailed \<and> t = None \<or> st = StatusAcknowledged \<and> t \<noteq> None"
    using conclude_transition by blast
  show ?thesis unfolding c by (rule svc_inv_transition) (use assms st in auto)
qed

text \<open>
  The invariant of the world and of the calls in progress: a call holds a valid command, and
  once it has recorded it the key is known.
\<close>

fun call_ok :: "service \<Rightarrow> call \<Rightarrow> bool" where
  "call_ok s (Begun c) \<longleftrightarrow> True"
| "call_ok s (Unknown c) \<longleftrightarrow> validateCommand c = None"
| "call_ok s (Current c) \<longleftrightarrow> validateCommand c = None"
| "call_ok s (Refused c st reason etype) \<longleftrightarrow> validateCommand c = None \<and> st \<in> {StatusRejected, StatusExpired}"
| "call_ok s (Admitted c) \<longleftrightarrow> validateCommand c = None"
| "call_ok s (Recorded c) \<longleftrightarrow> svc_results s (cmd_id c) \<noteq> None \<and> svc_idempotency s (cmd_key c) \<noteq> None"
| "call_ok s (Sending c) \<longleftrightarrow> svc_results s (cmd_id c) \<noteq> None \<and> svc_idempotency s (cmd_key c) \<noteq> None"
| "call_ok s (Answered c answer) \<longleftrightarrow> svc_results s (cmd_id c) \<noteq> None \<and> svc_idempotency s (cmd_key c) \<noteq> None"
| "call_ok s (Finished r) \<longleftrightarrow> True"

definition extends :: "service \<Rightarrow> service \<Rightarrow> bool" where
  "extends s s' \<longleftrightarrow> dom (svc_results s) \<subseteq> dom (svc_results s') \<and> dom (svc_idempotency s) \<subseteq> dom (svc_idempotency s')"

lemma extends_refl [simp]: "extends s s"
  by (simp add: extends_def)

lemma extends_trans: "extends s s' \<Longrightarrow> extends s' s'' \<Longrightarrow> extends s s''"
  unfolding extends_def by blast

lemma extends_record [simp]: "extends s (fst (record_result env c st reason etype s))"
  by (auto simp: extends_def record_result_def Let_def)

lemma extends_transition [simp]: "extends s (fst (transition env i st reason etype t s))"
  by (auto simp: extends_def transition_def Let_def split: option.splits)

lemma extends_conclude [simp]: "extends s (fst (conclude env c answer s))"
  using conclude_transition [of env c answer s] by (metis extends_transition)

lemma call_ok_extends: "call_ok s k \<Longrightarrow> extends s s' \<Longrightarrow> call_ok s' k"
  by (cases k) (auto simp: extends_def dom_def subset_iff)

lemma call_step_inv:
  assumes "call_step d k w = (k', w')" "svc_inv (w_service w)" "call_ok (w_service w) k"
  shows "svc_inv (w_service w') \<and> extends (w_service w) (w_service w') \<and> call_ok (w_service w') k'"
proof (cases k)
  case (Begun c)
  with assms show ?thesis by (auto split: sum.splits option.splits dest: prepare_Inr)
next
  case (Unknown c)
  with assms show ?thesis by (auto split: sum.splits bool.splits if_splits)
next
  case (Current c)
  with assms show ?thesis by (auto simp: Let_def split: prod.splits option.splits if_splits)
next
  case (Refused c st reason etype)
  with assms show ?thesis
    by (auto simp: refuse_def Let_def case_prod_beta intro!: svc_inv_record)
next
  case (Admitted c)
  with assms show ?thesis
    by (auto simp: Let_def case_prod_beta split: if_splits intro!: svc_inv_record)
       (auto simp: record_result_def Let_def)
next
  case (Recorded c)
  let ?t = "transition (d_env d) (cmd_id c) StatusDispatched ReasonDispatched CommandDispatched None (w_service w)"
  have "svc_inv (fst ?t)" "extends (w_service w) (fst ?t)" using assms(2) by (auto intro!: svc_inv_transition)
  moreover have "w_service w' = fst ?t" "k' = Sending c \<or> (\<exists>r. k' = Finished r)"
    using assms(1) Recorded by (auto simp: Let_def case_prod_beta split: if_splits)
  moreover have "call_ok (fst ?t) (Sending c)"
    by (rule call_ok_extends [of "w_service w"]) (use assms(3) Recorded in simp_all)
  ultimately show ?thesis by (elim disjE exE) (simp_all del: call_ok.simps(7))
next
  case (Sending c)
  with assms show ?thesis by auto
next
  case (Answered c answer)
  with assms show ?thesis by (auto simp: case_prod_beta intro!: svc_inv_conclude)
next
  case (Finished r)
  with assms show ?thesis by auto
qed

lemma Reconcile_service:
  "w_service (fst (Reconcile env i on t w)) = w_service w \<or>
   (\<exists>r st reason t'. svc_results (w_service w) i = Some r \<and> res_status r = StatusAcknowledged \<and> t \<noteq> 0 \<and>
      (st = StatusFailed \<and> t' = None \<or> st = StatusSucceeded \<and> t' = Some t \<and> on = cmd_on (res_command r)) \<and>
      w_service (fst (Reconcile env i on t w)) =
        fst (transition env i st reason CommandReconciled t' (w_service w)))"
proof (cases "first_error [ctx_err env, guard (is_zero t) (ErrorString ''reconciliation timestamp is required'')] = None
    \<and> (\<exists>r. svc_results (w_service w) i = Some r \<and> res_status r = StatusAcknowledged \<and>
        snd (RecordReported env (cmd_equipment (res_command r)) on t (w_policy w)) = None)")
  case True
  then obtain r where "svc_results (w_service w) i = Some r" "res_status r = StatusAcknowledged" "t \<noteq> 0"
    "ctx_err env = None" "snd (RecordReported env (cmd_equipment (res_command r)) on t (w_policy w)) = None"
    by auto
  then show ?thesis
    by (cases "on = cmd_on (res_command r)") (auto simp: Reconcile_def Let_def case_prod_beta)
next
  case False
  then show ?thesis
    by (auto simp: Reconcile_def Let_def case_prod_beta split: option.splits)
qed

lemma ExpireAcknowledged_service:
  "w_service (fst (ExpireAcknowledged env i reason t w)) = w_service w \<or>
   (\<exists>r. svc_results (w_service w) i = Some r \<and> res_status r = StatusAcknowledged \<and>
      cmd_expires (res_command r) \<le> t \<and>
      w_service (fst (ExpireAcknowledged env i reason t w)) =
        fst (transition env i StatusExpired reason CommandExpired None (w_service w)))"
  by (auto simp: ExpireAcknowledged_def Let_def case_prod_beta split: option.splits)

lemma Reconcile_inv:
  assumes "svc_inv (w_service w)"
  shows "svc_inv (w_service (fst (Reconcile env i on t w)))"
    "extends (w_service w) (w_service (fst (Reconcile env i on t w)))"
proof -
  consider "w_service (fst (Reconcile env i on t w)) = w_service w"
    | r st reason t' where "svc_results (w_service w) i = Some r" "res_status r = StatusAcknowledged"
      "st = StatusFailed \<or> st = StatusSucceeded \<and> t' \<noteq> None"
      "w_service (fst (Reconcile env i on t w)) = fst (transition env i st reason CommandReconciled t' (w_service w))"
    using Reconcile_service [of env i on t w] by blast
  then show "svc_inv (w_service (fst (Reconcile env i on t w)))"
    "extends (w_service w) (w_service (fst (Reconcile env i on t w)))"
    using assms by (cases; auto intro!: svc_inv_transition)+
qed

lemma ExpireAcknowledged_inv:
  assumes "svc_inv (w_service w)"
  shows "svc_inv (w_service (fst (ExpireAcknowledged env i reason t w)))"
    "extends (w_service w) (w_service (fst (ExpireAcknowledged env i reason t w)))"
  using ExpireAcknowledged_service [of env i reason t w] assms by (auto intro!: svc_inv_transition)

definition con_inv :: "concurrent \<Rightarrow> bool" where
  "con_inv s \<longleftrightarrow>
     svc_inv (w_service (con_world s)) \<and> (\<forall>n. call_ok (w_service (con_world s)) (con_calls s n))"

lemma con_step_inv: "con_step s t \<Longrightarrow> con_inv s \<Longrightarrow> con_inv t"
proof (induction rule: con_step.induct)
  case (step d s n k w)
  have "svc_inv (w_service w) \<and> extends (w_service (con_world s)) (w_service w) \<and> call_ok (w_service w) k"
    using step by (intro call_step_inv) (auto simp: con_inv_def)
  with step show ?case by (auto simp: con_inv_def intro: call_ok_extends)
next
  case (reconcile s env i on t)
  then show ?case using Reconcile_inv [of "con_world s" env i on t]
    by (auto simp: con_inv_def intro: call_ok_extends)
next
  case (expire s env i reason t)
  then show ?case using ExpireAcknowledged_inv [of "con_world s" env i reason t]
    by (auto simp: con_inv_def intro: call_ok_extends)
qed

lemma con_reach_inv: "con_reach s t \<Longrightarrow> con_inv s \<Longrightarrow> con_inv t"
  by (induction rule: con_reach.induct) (auto intro: con_step_inv)

section \<open>Dispatch\<close>

lemma record_result_at [simp]:
  "\<exists>r. svc_results (fst (record_result env c st reason etype s)) (cmd_id c) = Some r \<and>
     res_command r = c \<and> res_status r = st \<and> fst (snd (record_result env c st reason etype s)) = Some r"
  "svc_idempotency (fst (record_result env c st reason etype s)) = (svc_idempotency s)(cmd_key c \<mapsto> cmd_id c)"
  by (auto simp: record_result_def Let_def)

text \<open>
  After \<open>dispatch\<close> and \<open>refuse\<close> the command is on record with the result that was returned, and
  its key leads to it.
\<close>

definition on_record :: "command \<Rightarrow> result \<Rightarrow> service \<Rightarrow> bool" where
  "on_record c r s \<longleftrightarrow>
     svc_idempotency s (cmd_key c) = Some (cmd_id c) \<and> svc_results s (cmd_id c) = Some r \<and> res_command r = c"

lemma on_record_known:
  "on_record c r s \<Longrightarrow> cmd_key c' = cmd_key c \<Longrightarrow> known c' s = Some (if equivalent c c' then ok r else fail out_ErrConflict)"
  by (simp add: on_record_def known_def)

lemma on_record_record:
  "on_record c (the (fst (snd (record_result env c st reason etype s)))) (fst (record_result env c st reason etype s))"
  "fst (snd (record_result env c st reason etype s)) \<noteq> None"
  by (auto simp: on_record_def record_result_def Let_def)

lemma on_record_transition:
  assumes "on_record c r s" "i = cmd_id c"
  shows "on_record c (the (fst (snd (transition env i st reason etype t s)))) (fst (transition env i st reason etype t s))"
    "fst (snd (transition env i st reason etype t s)) \<noteq> None"
  using assms by (auto simp: on_record_def transition_def Let_def)

lemma on_record_conclude:
  assumes "on_record c r s"
  shows "on_record c (the (fst (snd (conclude env c answer s)))) (fst (conclude env c answer s))"
    "fst (snd (conclude env c answer s)) \<noteq> None"
proof -
  obtain st reason etype t where "conclude env c answer s = transition env (cmd_id c) st reason etype t s"
    using conclude_transition by blast
  then show "on_record c (the (fst (snd (conclude env c answer s)))) (fst (conclude env c answer s))"
    "fst (snd (conclude env c answer s)) \<noteq> None"
    using on_record_transition [OF assms refl] by simp_all
qed

lemma refuse_result:
  "\<exists>r. on_record c r (w_service (fst (refuse d c st reason etype w))) \<and> fst (snd (refuse d c st reason etype w)) = Some r"
  "w_sent (fst (refuse d c st reason etype w)) = w_sent w"
  "w_policy (fst (refuse d c st reason etype w)) = w_policy w"
  using on_record_record [where env = "d_env d" and c = c and st = st and reason = reason and
    etype = etype and s = "w_service w"]
  by (auto simp: refuse_def Let_def case_prod_beta)

lemma dispatch_result:
  "\<exists>r. on_record c r (w_service (fst (dispatch d c w))) \<and> fst (snd (dispatch d c w)) = Some r"
  "w_sent (fst (dispatch d c w)) = w_sent w @ [c] \<or>
   w_sent (fst (dispatch d c w)) = w_sent w \<and> snd (snd (dispatch d c w)) \<noteq> None"
  "w_policy (fst (dispatch d c w)) = w_policy w"
proof -
  define p where "p = record_result (d_env d) c StatusValidated ReasonValidated CommandValidated (w_service w)"
  define q where "q = transition (d_env d) (cmd_id c) StatusDispatched ReasonDispatched CommandDispatched None (fst p)"
  define x where "x = conclude (d_env d) c (d_dispatch d c) (fst q)"
  have D: "dispatch d c w =
      (if snd (snd p) \<noteq> None then (w\<lparr>w_service := fst p\<rparr>, snd p)
       else if snd (snd q) \<noteq> None then (w\<lparr>w_service := fst q\<rparr>, snd q)
       else (w\<lparr>w_service := fst x, w_sent := w_sent w @ [c]\<rparr>, snd x))"
    by (simp add: dispatch_def Let_def case_prod_beta p_def q_def x_def)
  have "on_record c (the (fst (snd p))) (fst p)" "fst (snd p) \<noteq> None"
    using on_record_record by (auto simp: p_def)
  moreover from this have "on_record c (the (fst (snd q))) (fst q)" "fst (snd q) \<noteq> None"
    using on_record_transition by (auto simp: q_def)
  moreover from this have "on_record c (the (fst (snd x))) (fst x)" "fst (snd x) \<noteq> None"
    using on_record_conclude by (auto simp: x_def)
  ultimately show "\<exists>r. on_record c r (w_service (fst (dispatch d c w))) \<and> fst (snd (dispatch d c w)) = Some r"
    by (auto simp: D)
  show "w_sent (fst (dispatch d c w)) = w_sent w @ [c] \<or>
     w_sent (fst (dispatch d c w)) = w_sent w \<and> snd (snd (dispatch d c w)) \<noteq> None"
    "w_policy (fst (dispatch d c w)) = w_policy w"
    by (auto simp: D)
qed

lemma answered_ok:
  "(w', ok r) = refuse d c st reason etype w \<Longrightarrow> on_record c r (w_service w')"
  "(w', ok r) = dispatch d c w \<Longrightarrow> on_record c r (w_service w')"
  using refuse_result(1) [of c d st reason etype w] dispatch_result(1) [of c d w]
  by (metis fst_conv snd_conv ok_simps(1) option.inject)+

section \<open>Submit\<close>

lemma Submit_decided:
  assumes "prepare (d_env d) c = Inr c'" "known c' (w_service w) = None"
    "env_now (d_env d) < cmd_expires c'" "revision_check d c' = Inr True"
  defines "ev \<equiv> Evaluate (d_env d) (d_reader d) (command_intent c') (w_policy w)"
  shows "granted (snd ev) \<and> Submit d c w = dispatch d c' (w\<lparr>w_policy := fst ev\<rparr>) \<or>
    (\<exists>err. Submit d c w = (w\<lparr>w_policy := fst ev\<rparr>, fail err)) \<or>
    (\<exists>reason. Submit d c w = refuse d c' StatusRejected reason CommandRejected (w\<lparr>w_policy := fst ev\<rparr>))"
proof -
  obtain e v err where ev: "ev = (e, v, err)" by (metis prod.exhaust)
  then show ?thesis using assms(1-4)
    by (cases v; cases err) (auto simp: Submit_def granted_def ev_def Let_def)
qed

lemma Submit_granted:
  assumes "prepare (d_env d) c = Inr c'" "known c' (w_service w) = None"
    "env_now (d_env d) < cmd_expires c'" "revision_check d c' = Inr True"
  defines "ev \<equiv> Evaluate (d_env d) (d_reader d) (command_intent c') (w_policy w)"
  assumes "granted (snd ev)"
  shows "Submit d c w = dispatch d c' (w\<lparr>w_policy := fst ev\<rparr>)"
  using assms by (cases "snd ev") (auto simp: Submit_def granted_def ev_def case_prod_beta split: option.splits)

text \<open>What \<open>Submit\<close> can come to, one case per way through the code.\<close>

lemma Submit_cases:
  obtains (invalid) err where "prepare (d_env d) c = Inl err" "Submit d c w = (w, fail err)"
  | (known) c' answer where "prepare (d_env d) c = Inr c'" "known c' (w_service w) = Some answer"
      "Submit d c w = (w, answer)"
  | (error) c' w' err where "prepare (d_env d) c = Inr c'" "known c' (w_service w) = None"
      "Submit d c w = (w', fail err)" "w_service w' = w_service w" "w_sent w' = w_sent w"
      "w_policy w' = w_policy w \<or> w_policy w' = fst (Evaluate (d_env d) (d_reader d) (command_intent c') (w_policy w))"
  | (refused) c' w' st reason etype where "prepare (d_env d) c = Inr c'" "known c' (w_service w) = None"
      "Submit d c w = refuse d c' st reason etype w'" "st \<in> {StatusRejected, StatusExpired}"
      "w_service w' = w_service w" "w_sent w' = w_sent w"
      "w_policy w' = w_policy w \<or> w_policy w' = fst (Evaluate (d_env d) (d_reader d) (command_intent c') (w_policy w))"
  | (admitted) c' w' where "prepare (d_env d) c = Inr c'" "known c' (w_service w) = None"
      "env_now (d_env d) < cmd_expires c'" "revision_check d c' = Inr True"
      "granted (snd (Evaluate (d_env d) (d_reader d) (command_intent c') (w_policy w)))"
      "w' = w\<lparr>w_policy := fst (Evaluate (d_env d) (d_reader d) (command_intent c') (w_policy w))\<rparr>"
      "Submit d c w = dispatch d c' w'"
proof (cases "prepare (d_env d) c")
  case (Inl err)
  then show thesis by (intro invalid) (simp_all add: Submit_def)
next
  case (Inr c')
  note prep = this
  show thesis
  proof (cases "known c' (w_service w)")
    case (Some answer)
    then show thesis using prep by (intro known) (simp_all add: Submit_def)
  next
    case None
    note base = prep None
    consider "\<not> env_now (d_env d) < cmd_expires c'"
      | err where "env_now (d_env d) < cmd_expires c'" "revision_check d c' = Inl err"
      | "env_now (d_env d) < cmd_expires c'" "revision_check d c' = Inr False"
      | "env_now (d_env d) < cmd_expires c'" "revision_check d c' = Inr True"
      by (cases "revision_check d c'") (fastforce, metis (full_types))
    then show thesis
    proof cases
      case 1
      then show thesis using base by (intro refused [OF base, where w' = w]) (auto simp: Submit_def)
    next
      case 2
      then show thesis using base by (intro error [OF base, where w' = w]) (auto simp: Submit_def)
    next
      case 3
      then show thesis using base by (intro refused [OF base, where w' = w]) (auto simp: Submit_def)
    next
      case 4
      let ?ev = "Evaluate (d_env d) (d_reader d) (command_intent c') (w_policy w)"
      let ?w = "w\<lparr>w_policy := fst ?ev\<rparr>"
      from Submit_decided [OF base 4] consider "granted (snd ?ev)" "Submit d c w = dispatch d c' ?w"
        | err where "Submit d c w = (?w, fail err)"
        | reason where "Submit d c w = refuse d c' StatusRejected reason CommandRejected ?w"
        by metis
      then show thesis
      proof cases
        case 1
        then show thesis by (intro admitted [OF base 4]) simp_all
      next
        case 2
        then show thesis by (intro error [OF base, where w' = ?w]) simp_all
      next
        case 3
        then show thesis by (intro refused [OF base, where w' = ?w and st = StatusRejected]) simp_all
      qed
    qed
  qed
qed

lemma known_None: "known c s = None \<longleftrightarrow> svc_idempotency s (cmd_key c) = None"
  by (simp add: known_def split: option.splits)

lemma Submit_sent:
  "w_sent (fst (Submit d c w)) = w_sent w \<or>
   (\<exists>c'. prepare (d_env d) c = Inr c' \<and> w_sent (fst (Submit d c w)) = w_sent w @ [c'] \<and>
      svc_idempotency (w_service w) (cmd_key c') = None \<and>
      svc_idempotency (w_service (fst (Submit d c w))) (cmd_key c') = Some (cmd_id c') \<and>
      env_now (d_env d) < cmd_expires c' \<and> revision_check d c' = Inr True \<and>
      granted (snd (Evaluate (d_env d) (d_reader d) (command_intent c') (w_policy w))))"
proof (cases rule: Submit_cases [of d c w])
  case (refused c' w' st reason etype)
  then show ?thesis by (simp add: refuse_result)
next
  case (admitted c' w')
  then show ?thesis
    using dispatch_result(1,2) [where c = c' and d = d and w = w'] by (auto simp: known_None on_record_def)
qed simp_all

lemma refuse_service:
  "w_service (fst (refuse d c st reason etype w)) = fst (record_result (d_env d) c st reason etype (w_service w))"
  by (simp add: refuse_def Let_def case_prod_beta)

lemma dispatch_inv:
  assumes "svc_inv (w_service w)" "validateCommand c = None"
  shows "svc_inv (w_service (fst (dispatch d c w)))" "extends (w_service w) (w_service (fst (dispatch d c w)))"
proof -
  define p where "p = fst (record_result (d_env d) c StatusValidated ReasonValidated CommandValidated (w_service w))"
  define q where "q = fst (transition (d_env d) (cmd_id c) StatusDispatched ReasonDispatched CommandDispatched None p)"
  define x where "x = fst (conclude (d_env d) c (d_dispatch d c) q)"
  have D: "w_service (fst (dispatch d c w)) \<in> {p, q, x}"
    by (simp add: dispatch_def Let_def case_prod_beta p_def q_def x_def)
  have i: "svc_inv p" using assms by (auto simp: p_def intro!: svc_inv_record)
  then have "svc_inv q" by (auto simp: q_def intro!: svc_inv_transition)
  with i have "svc_inv p" "svc_inv q" "svc_inv x" by (auto simp: x_def intro!: svc_inv_conclude)
  with D show "svc_inv (w_service (fst (dispatch d c w)))" by auto
  have e: "extends (w_service w) p" "extends p q" "extends q x" by (simp_all add: p_def q_def x_def)
  then have "extends (w_service w) p" "extends (w_service w) q" "extends (w_service w) x"
    by (blast intro: extends_trans)+
  with D show "extends (w_service w) (w_service (fst (dispatch d c w)))" by auto
qed

lemma Submit_inv:
  assumes "svc_inv (w_service w)"
  shows "svc_inv (w_service (fst (Submit d c w))) \<and> extends (w_service w) (w_service (fst (Submit d c w)))"
proof (cases rule: Submit_cases [of d c w])
  case (refused c' w' st reason etype)
  have "validateCommand c' = None" using refused(1) by (rule prepare_Inr)
  then show ?thesis
    using refused assms by (auto simp: refuse_service intro!: svc_inv_record)
next
  case (admitted c' w')
  have "validateCommand c' = None" using admitted(1) by (rule prepare_Inr)
  then show ?thesis
    using admitted assms dispatch_inv [of w' c' d] by simp
qed (use assms in simp_all)

lemma Submit_policy:
  assumes "eng_inv (w_policy w)" "env_now (d_env d) \<noteq> 0"
  shows "eng_inv (w_policy (fst (Submit d c w)))"
proof -
  note E = Evaluate_inv [OF assms]
  show ?thesis
  proof (cases rule: Submit_cases [of d c w])
    case (error c' w' err)
    from error(6) E assms(1) have "eng_inv (w_policy w')" by auto
    with error show ?thesis by simp
  next
    case (refused c' w' st reason etype)
    from refused(7) E assms(1) have "eng_inv (w_policy w')" by auto
    with refused show ?thesis by (simp add: refuse_result)
  next
    case (admitted c' w')
    then show ?thesis using E by (simp add: dispatch_result)
  qed (use assms in simp_all)
qed

text \<open>A command that was answered without error is answered in the same way when it is repeated.\<close>

lemma Submit_ok_known:
  assumes "Submit d c w = (w', ok r)"
  shows "\<exists>c'. prepare (d_env d) c = Inr c' \<and> known c' (w_service w') = Some (ok r)"
proof (cases rule: Submit_cases [of d c w])
  case (refused c' w1 st reason etype)
  then have "on_record c' r (w_service w')" using assms by (auto dest: answered_ok)
  from on_record_known [OF this, of c'] refused(1) show ?thesis by (simp add: equivalent_def)
next
  case (admitted c' w1)
  then have "on_record c' r (w_service w')" using assms by (auto dest: answered_ok)
  from on_record_known [OF this, of c'] admitted(1) show ?thesis by (simp add: equivalent_def)
qed (use assms in auto)

text \<open>Whatever else a submission says, one whose key is known changes nothing.\<close>

lemma Submit_known_key:
  assumes "svc_idempotency (w_service w) (cmd_key c) \<noteq> None"
  shows "fst (Submit d c w) = w"
proof (cases "prepare (d_env d) c")
  case (Inr c')
  then have "known c' (w_service w) \<noteq> None" using assms by (simp add: known_None prepare_Inr)
  with Inr show ?thesis by (auto simp: Submit_def)
qed (simp add: Submit_def)

lemma Submit_ok_key:
  assumes "Submit d c w = (w', ok r)"
  shows "svc_idempotency (w_service w') (cmd_key c) \<noteq> None"
proof -
  obtain c' where c': "prepare (d_env d) c = Inr c'" "known c' (w_service w') = Some (ok r)"
    using Submit_ok_known [OF assms] by blast
  then have "known c' (w_service w') \<noteq> None" by simp
  then show ?thesis using prepare_Inr [OF c'(1)] by (simp add: known_None)
qed

lemma Submit_repeat:
  assumes "Submit d c w = (w', ok r)" "prepare (d_env d') c = Inr c2"
  shows "Submit d' c w' = (w', ok r)"
proof -
  obtain c' where c': "prepare (d_env d) c = Inr c'" "known c' (w_service w') = Some (ok r)"
    using Submit_ok_known [OF assms(1)] by blast
  have "known c2 (w_service w') = known c' (w_service w')"
    by (simp add: known_def equivalent_def prepare_Inr [OF c'(1)] prepare_Inr [OF assms(2)] cong: option.case_cong)
  with c' assms(2) show ?thesis by (simp add: Submit_def)
qed

section \<open>Sequences of operations\<close>

lemma Reconcile_frame:
  "w_sent (fst (Reconcile env i on t w)) = w_sent w"
  "eng_inv (w_policy w) \<Longrightarrow> eng_inv (w_policy (fst (Reconcile env i on t w)))"
  by (auto simp: Reconcile_def Let_def case_prod_beta RecordReported_inv split: option.splits)

lemma ExpireAcknowledged_frame:
  "w_sent (fst (ExpireAcknowledged env i reason t w)) = w_sent w"
  "w_policy (fst (ExpireAcknowledged env i reason t w)) = w_policy w"
  by (auto simp: ExpireAcknowledged_def Let_def case_prod_beta split: option.splits)

text \<open>The invariant of the whole command path: no key is dispatched twice.\<close>

definition out_inv :: "world \<Rightarrow> bool" where
  "out_inv w \<longleftrightarrow>
     svc_inv (w_service w) \<and> eng_inv (w_policy w) \<and> distinct (map cmd_key (w_sent w)) \<and>
     (\<forall>c \<in> set (w_sent w). validateCommand c = None \<and> svc_idempotency (w_service w) (cmd_key c) \<noteq> None)"

lemma extends_key: "extends s s' \<Longrightarrow> svc_idempotency s k \<noteq> None \<Longrightarrow> svc_idempotency s' k \<noteq> None"
  unfolding extends_def by blast

lemma out_inv_extends:
  assumes "out_inv w" "svc_inv (w_service w')" "extends (w_service w) (w_service w')" "w_sent w' = w_sent w"
    "eng_inv (w_policy w')"
  shows "out_inv w'"
  using assms extends_key [OF assms(3)] by (simp add: out_inv_def)

lemma out_inv_Submit:
  assumes "out_inv w" "env_now (d_env d) \<noteq> 0"
  shows "out_inv (fst (Submit d c w))"
proof -
  let ?w = "fst (Submit d c w)"
  have i: "svc_inv (w_service ?w)" "extends (w_service w) (w_service ?w)" "eng_inv (w_policy ?w)"
    using assms Submit_inv [of w d c] Submit_policy [of w d c] by (auto simp: out_inv_def)
  consider "w_sent ?w = w_sent w"
    | c' where "prepare (d_env d) c = Inr c'" "w_sent ?w = w_sent w @ [c']"
      "svc_idempotency (w_service w) (cmd_key c') = None" "svc_idempotency (w_service ?w) (cmd_key c') \<noteq> None"
    using Submit_sent [of d c w] by blast
  then show ?thesis
  proof cases
    case 1
    then show ?thesis by (rule out_inv_extends [OF assms(1) i(1,2) _ i(3)])
  next
    case (2 c')
    have "validateCommand c' = None" using 2(1) by (rule prepare_Inr)
    moreover have "cmd_key c' \<notin> cmd_key ` set (w_sent w)"
    proof
      assume "cmd_key c' \<in> cmd_key ` set (w_sent w)"
      then obtain x where "x \<in> set (w_sent w)" "cmd_key x = cmd_key c'" by auto
      with assms(1) 2(3) show False by (auto simp: out_inv_def)
    qed
    moreover have "svc_idempotency (w_service ?w) (cmd_key x) \<noteq> None" if "x \<in> set (w_sent w)" for x
      using assms(1) that by (intro extends_key [OF i(2)]) (simp add: out_inv_def)
    ultimately show ?thesis
      using assms(1) i(1,3) 2(4) unfolding out_inv_def 2(2) by (simp del: not_None_eq)
  qed
qed

lemma out_inv_Reconcile: "out_inv w \<Longrightarrow> out_inv (fst (Reconcile env i on t w))"
  by (rule out_inv_extends [of w]) (auto simp: Reconcile_inv Reconcile_frame out_inv_def)

lemma out_inv_ExpireAcknowledged: "out_inv w \<Longrightarrow> out_inv (fst (ExpireAcknowledged env i reason t w))"
  by (rule out_inv_extends [of w]) (auto simp: ExpireAcknowledged_inv ExpireAcknowledged_frame out_inv_def)

lemma out_inv_policy: "out_inv w \<Longrightarrow> eng_inv e \<Longrightarrow> out_inv (w\<lparr>w_policy := e\<rparr>)"
  by (simp add: out_inv_def)

lemma out_inv_engine: "out_inv w \<Longrightarrow> eng_inv (w_policy w)"
  by (simp add: out_inv_def)

lemma out_inv_watchdog_submit:
  "out_inv w \<Longrightarrow> \<forall>d \<in> set ds. env_now (d_env d) \<noteq> 0 \<Longrightarrow> out_inv (fst (watchdog_submit ds ttl as w))"
proof (induction "as" arbitrary: ds w)
  case (Cons a "as")
  then show ?case
    by (cases ds) (auto simp: Let_def case_prod_beta out_inv_Submit split: sum.splits option.splits)
qed simp

lemma out_inv_RunWatchdogs:
  assumes "out_inv w" "env_now env \<noteq> 0" "\<forall>d \<in> set ds. env_now (d_env d) \<noteq> 0"
  shows "out_inv (fst (RunWatchdogs env overrides profiles ds ttl w))"
proof -
  have "eng_inv (fst (CheckWatchdogs env overrides profiles (w_policy w)))"
    using assms by (intro CheckWatchdogs_inv) (auto simp: out_inv_def)
  then have "out_inv (w\<lparr>w_policy := fst (CheckWatchdogs env overrides profiles (w_policy w))\<rparr>)"
    using assms(1) by (rule out_inv_policy [rotated])
  with assms show ?thesis
    by (auto simp: RunWatchdogs_def Let_def case_prod_beta out_inv_watchdog_submit split: option.splits)
qed

text \<open>Calls that do not overlap, from a new service over a constructed engine.\<close>

inductive out_reach :: "profile list \<Rightarrow> world \<Rightarrow> bool" for profiles where
  new: "NewEngine True profiles = Inr e \<Longrightarrow>
    out_reach profiles \<lparr>w_service = NewService, w_policy = e, w_sent = []\<rparr>"
| submit: "out_reach profiles w \<Longrightarrow> env_now (d_env d) \<noteq> 0 \<Longrightarrow> out_reach profiles (fst (Submit d c w))"
| reconcile: "out_reach profiles w \<Longrightarrow> out_reach profiles (fst (Reconcile env i on t w))"
| expire: "out_reach profiles w \<Longrightarrow> out_reach profiles (fst (ExpireAcknowledged env i reason t w))"
| watchdogs: "out_reach profiles w \<Longrightarrow> env_now env \<noteq> 0 \<Longrightarrow> \<forall>d \<in> set ds. env_now (d_env d) \<noteq> 0 \<Longrightarrow>
    out_reach profiles (fst (RunWatchdogs env overrides order ds ttl w))"
| mode: "out_reach profiles w \<Longrightarrow>
    out_reach profiles (w\<lparr>w_policy := fst (SetMode (env :: unit env) m (w_policy w))\<rparr>)"
| grant: "out_reach profiles w \<Longrightarrow> env_now env \<noteq> 0 \<Longrightarrow>
    out_reach profiles (w\<lparr>w_policy := fst (GrantOverride (env :: unit env) ov (w_policy w))\<rparr>)"
| revoke: "out_reach profiles w \<Longrightarrow>
    out_reach profiles (w\<lparr>w_policy := fst (RevokeOverride (env :: unit env) i (w_policy w))\<rparr>)"

lemma out_reach_inv: "out_reach profiles w \<Longrightarrow> out_inv w"
proof (induction rule: out_reach.induct)
  case (new e)
  then show ?case using NewEngine_inv(1) [OF new] by (simp add: out_inv_def svc_inv_new)
qed (auto intro: out_inv_Submit out_inv_Reconcile out_inv_ExpireAcknowledged out_inv_RunWatchdogs
      out_inv_policy eng_inv_ops dest: out_inv_engine)

section \<open>Interpretations\<close>

interpretation output_component: component "\<lambda>_. ''output''" svc_start svc_stop svc_health
  by unfold_locales (auto simp: svc_health_def svc_start_def svc_stop_def)

section \<open>Success\<close>

text \<open>Nothing but a reconciliation makes a result a success.\<close>

lemma record_not_success:
  assumes "st \<noteq> StatusSucceeded" "svc_results (fst (record_result env c st reason etype s)) i = Some r"
    "res_status r = StatusSucceeded"
  shows "svc_results s i = Some r"
  using assms by (auto simp: record_result_def Let_def split: if_splits)

lemma transition_not_success:
  assumes "st \<noteq> StatusSucceeded" "svc_results (fst (transition env j st reason etype t s)) i = Some r"
    "res_status r = StatusSucceeded"
  shows "svc_results s i = Some r"
  using assms by (auto simp: transition_def Let_def split: option.splits if_splits)

lemma conclude_not_success:
  assumes "svc_results (fst (conclude env c answer s)) i = Some r" "res_status r = StatusSucceeded"
  shows "svc_results s i = Some r"
proof -
  obtain st reason etype t where "conclude env c answer s = transition env (cmd_id c) st reason etype t s"
    "st \<noteq> StatusSucceeded"
    using conclude_transition [of env c answer s] by auto
  with assms transition_not_success show ?thesis by metis
qed

lemma call_step_service:
  assumes "call_step d k w = (k', w')" "k \<in> range Begun \<union> range Unknown \<union> range Current \<union> range Sending \<union> range Finished"
  shows "w_service w' = w_service w"
proof -
  from assms(2) consider c where "k = Begun c" | c where "k = Unknown c" | c where "k = Current c"
    | c where "k = Sending c" | r where "k = Finished r" by blast
  then show ?thesis
  proof cases
    case 1
    with assms(1) show ?thesis by (auto split: sum.splits option.splits)
  next
    case 2
    with assms(1) show ?thesis by (auto split: sum.splits bool.splits if_splits)
  next
    case 3
    with assms(1) show ?thesis by (auto simp: Let_def split: prod.splits option.splits if_splits)
  qed (use assms(1) in auto)
qed

lemma call_step_not_success:
  assumes "call_step d k w = (k', w')" "call_ok (w_service w) k"
    "svc_results (w_service w') i = Some r" "res_status r = StatusSucceeded"
  shows "svc_results (w_service w) i = Some r"
proof -
  consider "k \<in> range Begun \<union> range Unknown \<union> range Current \<union> range Sending \<union> range Finished"
    | c st reason etype where "k = Refused c st reason etype" | c where "k = Admitted c" | c where "k = Recorded c"
    | c answer where "k = Answered c answer" by (cases k) auto
  then show ?thesis
  proof cases
    case 1
    with assms(1,3) show ?thesis by (simp add: call_step_service)
  next
    case (2 c st reason etype)
    then have w': "w_service w' = fst (record_result (d_env d) c st reason etype (w_service w))" "st \<noteq> StatusSucceeded"
      using assms(1,2) by (auto simp: refuse_def Let_def case_prod_beta)
    show ?thesis by (rule record_not_success [OF w'(2) assms(3) [unfolded w'(1)] assms(4)])
  next
    case (3 c)
    then have w': "w_service w' = fst (record_result (d_env d) c StatusValidated ReasonValidated CommandValidated (w_service w))"
      using assms(1) by (auto simp: Let_def case_prod_beta split: if_splits)
    show ?thesis by (rule record_not_success [OF _ assms(3) [unfolded w'] assms(4)]) simp
  next
    case (4 c)
    then have w': "w_service w' =
        fst (transition (d_env d) (cmd_id c) StatusDispatched ReasonDispatched CommandDispatched None (w_service w))"
      using assms(1) by (auto simp: Let_def case_prod_beta split: if_splits)
    show ?thesis by (rule transition_not_success [OF _ assms(3) [unfolded w'] assms(4)]) simp
  next
    case (5 c answer)
    then have w': "w_service w' = fst (conclude (d_env d) c answer (w_service w))"
      using assms(1) by (auto simp: case_prod_beta)
    show ?thesis by (rule conclude_not_success [OF assms(3) [unfolded w'] assms(4)])
  qed
qed

lemma Reconcile_success:
  assumes "svc_results (w_service (fst (Reconcile env j on observed w))) i = Some r" "res_status r = StatusSucceeded"
  shows "svc_results (w_service w) i = Some r \<or>
    (\<exists>r'. i = j \<and> svc_results (w_service w) i = Some r' \<and> res_status r' = StatusAcknowledged \<and>
       on = cmd_on (res_command r') \<and> res_command r = res_command r' \<and> res_reconciled r = Some observed)"
proof -
  let ?s = "w_service w"
  let ?s' = "w_service (fst (Reconcile env j on observed w))"
  consider "?s' = ?s"
    | r' reason where "svc_results ?s j = Some r'" "?s' = fst (transition env j StatusFailed reason CommandReconciled None ?s)"
    | r' reason where "svc_results ?s j = Some r'" "res_status r' = StatusAcknowledged" "on = cmd_on (res_command r')"
        "?s' = fst (transition env j StatusSucceeded reason CommandReconciled (Some observed) ?s)"
    using Reconcile_service [of env j on observed w] by blast
  then show ?thesis
  proof cases
    case 1
    then show ?thesis using assms(1) by simp
  next
    case (2 r' reason)
    have "svc_results ?s i = Some r"
      by (rule transition_not_success [OF _ assms(1) [unfolded 2(2)] assms(2)]) simp
    then show ?thesis ..
  next
    case (3 r' reason)
    obtain r2 where r2: "svc_results ?s' = (svc_results ?s)(j \<mapsto> r2)" "res_command r2 = res_command r'"
      "res_reconciled r2 = Some observed"
      using transition_Some [OF 3(1), of env StatusSucceeded reason CommandReconciled "Some observed"] 3(4) by auto
    show ?thesis
    proof (cases "i = j")
      case True
      then have "r = r2" using assms(1) r2(1) by simp
      with True 3 r2 show ?thesis by simp
    next
      case False
      then show ?thesis using assms(1) r2(1) by simp
    qed
  qed
qed

text \<open>Calls that have just begun, over a new service.\<close>

definition con_start :: "engine \<Rightarrow> (nat \<Rightarrow> command) \<Rightarrow> concurrent" where
  "con_start e cs = \<lparr>con_calls = (\<lambda>n. Begun (cs n)), con_world = \<lparr>w_service = NewService, w_policy = e, w_sent = []\<rparr>\<rparr>"

lemma con_start_inv: "con_inv (con_start e cs)"
  by (simp add: con_inv_def con_start_def svc_inv_new)

section \<open>Properties\<close>

text \<open>
  C3. Nothing reaches an executor unauthorised: \<open>Submit\<close> hands over no command, or exactly the
  validated one it was given, and then its idempotency key was new, it had not expired, the revision
  it expects was current, and the safety engine allowed it.
\<close>

theorem dispatch_only_authorised:
  "w_sent (fst (Submit d c w)) = w_sent w \<or>
   (\<exists>c'. prepare (d_env d) c = Inr c' \<and> w_sent (fst (Submit d c w)) = w_sent w @ [c'] \<and>
      svc_idempotency (w_service w) (cmd_key c') = None \<and>
      svc_idempotency (w_service (fst (Submit d c w))) (cmd_key c') = Some (cmd_id c') \<and>
      env_now (d_env d) < cmd_expires c' \<and> revision_check d c' = Inr True \<and>
      granted (snd (Evaluate (d_env d) (d_reader d) (command_intent c') (w_policy w))))"
  by (rule Submit_sent)

text \<open>
  C4. As long as calls do not overlap, no idempotency key is dispatched twice, whatever sequence of
  submissions, reconciliations, expiries, watchdog runs and policy changes takes place.
\<close>

theorem dispatched_at_most_once:
  assumes "out_reach profiles w"
  shows "distinct (map cmd_key (w_sent w)) \<and> list_all (\<lambda>c. validateCommand c = None) (w_sent w)"
  using out_reach_inv [OF assms] by (simp add: out_inv_def list_all_iff)

text \<open>
  A submission that was answered without error has the same answer when it is repeated, in
  whatever surroundings, and the repetition changes nothing and dispatches nothing.
\<close>

theorem repeated_submission:
  assumes "Submit d c w = (w', ok r)" "prepare (d_env d') c = Inr c'"
  shows "Submit d' c w' = (w', ok r)"
  using assms by (rule Submit_repeat)


text \<open>
  The seven atomic steps, run without interruption, are \<open>Submit\<close>: same answer, same effect.
\<close>

theorem steps_are_submit:
  "call_run 7 d (Begun c) w = (Finished (snd (Submit d c w)), fst (Submit d c w))"
  by (rule call_run_Submit)

section \<open>Concrete runs\<close>

definition sample_command :: command where
  "sample_command =
     \<lparr>cmd_id = sample_id 8, cmd_key = ''pump-1'', cmd_correlation = sample_id 1, cmd_equipment = sample_id 7,
      cmd_requester = ''operator'', cmd_issued = noon, cmd_expires = noon + 60000000000, cmd_expected = None,
      cmd_on = True\<rparr>"

definition sample_deps :: deps where
  "sample_deps =
     \<lparr>d_env = sample_env\<lparr>env_now := noon\<rparr>, d_reader = (\<lambda>_. fail sm_ErrNotFound), d_revision = ok 0,
      d_dispatch = (\<lambda>_. ok \<lparr>ack_accepted = True, ack_reason = [], ack_at = 0\<rparr>)\<rparr>"

abbreviation sample_world :: world where
  "sample_world \<equiv> \<lparr>w_service = NewService, w_policy = sample_engine, w_sent = []\<rparr>"

lemma sample_deps_simps [simp]:
  "ctx_err (d_env sample_deps) = None" "env_now (d_env sample_deps) = noon"
  "d_revision sample_deps = ok 0" "env_publish (d_env sample_deps) = None"
  "d_dispatch sample_deps c = ok \<lparr>ack_accepted = True, ack_reason = [], ack_at = 0\<rparr>"
  by (simp_all add: sample_deps_def)

lemma sample_prepare: "ctx_err env = None \<Longrightarrow> prepare env sample_command = Inr sample_command"
  by (rule prepare_valid) (simp_all add: validateCommand_None sample_command_def)

lemma sample_unpublished: "out_emit (d_env sample_deps) etype r = None"
  by (simp add: out_emit_def emit_def)

text \<open>The safety engine admits the sample command, again and again.\<close>

lemma sample_granted:
  assumes "eng_profiles e (sample_id 7) = Some sample_pump" "eng_mode e = ModeNormal"
    "runtime_of e (sample_id 7) \<in> {zero_runtime, account_runtime noon zero_runtime}" "eng_overrides e = Map.empty"
  shows "snd (Evaluate (d_env sample_deps) reader (command_intent sample_command) e) = ok allow"
    "let e' = fst (Evaluate (d_env sample_deps) reader (command_intent sample_command) e)
     in eng_profiles e' (sample_id 7) = Some sample_pump \<and> eng_mode e' = ModeNormal \<and>
        runtime_of e' (sample_id 7) = account_runtime noon zero_runtime \<and> eng_overrides e' = Map.empty"
  using assms
  by (auto simp: Evaluate_def Let_def case_prod_beta command_intent_def sample_command_def evaluate_on_def
      sample_pump_def sample_heater_def zero_runtime_def account_runtime_def)

lemma sample_engine_runtime:
  "eng_profiles sample_engine (sample_id 7) = Some sample_pump" "eng_mode sample_engine = ModeNormal"
  "runtime_of sample_engine i = zero_runtime" "eng_overrides sample_engine = Map.empty"
  by (simp_all add: sample_engine_def runtime_of_def)

definition admits_sample :: "engine \<Rightarrow> bool" where
  "admits_sample e \<longleftrightarrow>
     eng_profiles e (sample_id 7) = Some sample_pump \<and> eng_mode e = ModeNormal \<and>
     runtime_of e (sample_id 7) \<in> {zero_runtime, account_runtime noon zero_runtime} \<and> eng_overrides e = Map.empty"

lemma sample_call:
  assumes "admits_sample (w_policy w)"
  shows "\<exists>w' answer. call_run 5 sample_deps (Unknown sample_command) w = (Answered sample_command answer, w') \<and>
    w_sent w' = w_sent w @ [sample_command] \<and> admits_sample (w_policy w')"
proof -
  have five: "(5::nat) = Suc (Suc (Suc (Suc (Suc 0))))" by simp
  let ?e = "Evaluate (d_env sample_deps) (d_reader sample_deps) (command_intent sample_command) (w_policy w)"
  have e: "snd ?e = ok allow" "admits_sample (fst ?e)"
    using sample_granted [of "w_policy w" "d_reader sample_deps"] assms by (auto simp: admits_sample_def Let_def)
  have "env_now (d_env sample_deps) < cmd_expires sample_command" "revision_check sample_deps sample_command = Inr True"
    by (simp_all add: sample_command_def revision_check_def)
  then show ?thesis
    using e by (simp add: five case_prod_beta Let_def record_result_def transition_def sample_unpublished ok_def)
qed

lemma con_reach_run:
  "con_reach s0 s \<Longrightarrow> call_run k d (con_calls s n) (con_world s) = (c, w) \<Longrightarrow>
     con_reach s0 \<lparr>con_calls = (con_calls s)(n := c), con_world = w\<rparr>"
proof (induction k arbitrary: s)
  case 0
  then have "\<lparr>con_calls = (con_calls s)(n := c), con_world = w\<rparr> = s" by auto
  with 0(1) show ?case by (simp only:)
next
  case (Suc k)
  obtain c1 w1 where 1: "call_step d (con_calls s n) (con_world s) = (c1, w1)" by fastforce
  let ?s = "\<lparr>con_calls = (con_calls s)(n := c1), con_world = w1\<rparr>"
  have "con_reach s0 ?s" by (rule con_reach.more [OF Suc.prems(1) con_step.step [OF 1]])
  moreover have "call_run k d (con_calls ?s n) (con_world ?s) = (c, w)" using Suc.prems(2) 1 by simp
  ultimately show ?case using Suc.IH [of ?s] by (simp only: concurrent.select_convs fun_upd_upd)
qed

text \<open>
  C35. Two overlapping submissions of one and the same command are both dispatched: both pass the
  check of the idempotency key before either has recorded it.
\<close>

theorem overlapping_submissions_dispatch_twice:
  "\<exists>s. con_reach (con_start sample_engine (\<lambda>n. sample_command)) s \<and>
     w_sent (con_world s) = [sample_command, sample_command]"
proof -
  let ?s0 = "con_start sample_engine (\<lambda>n. sample_command)"
  have begun: "call_step sample_deps (Begun sample_command) sample_world = (Unknown sample_command, sample_world)"
    by (simp add: sample_prepare known_def NewService_def)
  let ?s1 = "\<lparr>con_calls = (con_calls ?s0)(0 := Unknown sample_command), con_world = sample_world\<rparr>"
  let ?s2 = "\<lparr>con_calls = (con_calls ?s1)(1 := Unknown sample_command), con_world = sample_world\<rparr>"
  have "con_reach ?s0 ?s1"
    by (rule con_reach.more [OF con_reach.init con_step.step [where d = sample_deps]])
       (simp add: con_start_def begun del: call_step.simps)
  then have s2: "con_reach ?s0 ?s2"
    by (rule con_reach.more [OF _ con_step.step [where d = sample_deps]])
       (simp add: con_start_def begun del: call_step.simps)
  have "admits_sample (w_policy sample_world)"
    by (simp add: admits_sample_def sample_engine_runtime)
  from sample_call [OF this] obtain w3 a3 where
    w3: "call_run 5 sample_deps (Unknown sample_command) sample_world = (Answered sample_command a3, w3)"
      "w_sent w3 = [sample_command]" "admits_sample (w_policy w3)" by auto
  let ?s3 = "\<lparr>con_calls = (con_calls ?s2)(0 := Answered sample_command a3), con_world = w3\<rparr>"
  have s3: "con_reach ?s0 ?s3"
    by (rule con_reach_run [OF s2, of 5 sample_deps 0]) (simp add: w3(1) del: call_run.simps)
  from sample_call [OF w3(3)] obtain w4 a4 where
    w4: "call_run 5 sample_deps (Unknown sample_command) w3 = (Answered sample_command a4, w4)"
      "w_sent w4 = [sample_command, sample_command]" using w3(2) by auto
  have "con_reach ?s0 \<lparr>con_calls = (con_calls ?s3)(1 := Answered sample_command a4), con_world = w4\<rparr>"
    by (rule con_reach_run [OF s3, of 5 sample_deps 1]) (simp add: w4(1) del: call_run.simps)
  then show ?thesis by (rule exI [where P = "\<lambda>s. con_reach ?s0 s \<and> _ s", OF conjI]) (simp add: w4(2))
qed

text \<open>
  C36. A command whose first event could not be published is stranded: \<open>Submit\<close> reports the error
  after it has recorded the command as validated, and from then on every repetition is answered with that
  record, without error, and nothing is ever dispatched for its key.
\<close>

theorem failed_publication_strands_command:
  assumes "prepare (d_env d) c = Inr c'" "known c' (w_service w) = None"
    and "env_now (d_env d) < cmd_expires c'" "revision_check d c' = Inr True"
    and "granted (snd (Evaluate (d_env d) (d_reader d) (command_intent c') (w_policy w)))"
    and "out_emit (d_env d) CommandValidated
      \<lparr>res_command = c', res_status = StatusValidated, res_reason = ReasonValidated, res_updated = env_now (d_env d),
       res_acknowledged = None, res_reconciled = None\<rparr> = Some err"
    and "prepare (d_env d') c = Inr c2"
  shows "\<exists>w' r. Submit d c w = (w', (Some r, Some err)) \<and> w_sent w' = w_sent w \<and> res_status r = StatusValidated \<and>
    Submit d' c w' = (w', ok r)"
proof -
  let ?e = "Evaluate (d_env d) (d_reader d) (command_intent c') (w_policy w)"
  let ?w = "w\<lparr>w_policy := fst ?e\<rparr>"
  let ?r = "\<lparr>res_command = c', res_status = StatusValidated, res_reason = ReasonValidated, res_updated = env_now (d_env d),
       res_acknowledged = None, res_reconciled = None\<rparr>"
  let ?w' = "?w\<lparr>w_service := fst (record_result (d_env d) c' StatusValidated ReasonValidated CommandValidated (w_service w))\<rparr>"
  have "Submit d c w = dispatch d c' ?w"
    using assms(1-5) by (rule Submit_granted)
  also have "\<dots> = (?w', (Some ?r, Some err))"
    using assms(6) by (simp add: dispatch_def record_result_def Let_def)
  finally have 1: "Submit d c w = (?w', (Some ?r, Some err))" .
  have "on_record c' ?r (w_service ?w')" by (simp add: on_record_def record_result_def Let_def)
  then have "known c2 (w_service ?w') = Some (ok ?r)"
    using on_record_known [of c' ?r _ c2] prepare_Inr [OF assms(1)] prepare_Inr [OF assms(7)]
    by (simp add: equivalent_def)
  then have "Submit d' c ?w' = (?w', ok ?r)" using assms(7) by (simp add: Submit_def)
  with 1 show ?thesis by simp
qed

lemma sample_evaluated:
  "granted (snd (Evaluate (d_env sample_deps) reader (command_intent sample_command) sample_engine))"
  using sample_granted(1) [of sample_engine] sample_engine_runtime by simp

lemma sample_unexpired:
  "env_now (d_env sample_deps) < cmd_expires sample_command" "revision_check sample_deps sample_command = Inr True"
  "known sample_command NewService = None"
  by (simp_all add: sample_command_def revision_check_def known_def NewService_def)

lemma sample_submit:
  "\<exists>w r. Submit sample_deps sample_command sample_world = (w, ok r) \<and> w_sent w = [sample_command] \<and>
     res_status r = StatusAcknowledged \<and> on_record sample_command r (w_service w) \<and> result_encodable r"
proof -
  let ?w = "sample_world\<lparr>w_policy :=
    fst (Evaluate (d_env sample_deps) (d_reader sample_deps) (command_intent sample_command) sample_engine)\<rparr>"
  have "Submit sample_deps sample_command sample_world = dispatch sample_deps sample_command ?w"
    using Submit_granted [OF sample_prepare, of sample_deps sample_world] sample_evaluated sample_unexpired
    by (simp del: sample_deps_simps(2))
  moreover have "\<exists>w r. dispatch sample_deps sample_command ?w = (w, ok r) \<and> w_sent w = [sample_command] \<and>
      res_status r = StatusAcknowledged \<and> on_record sample_command r (w_service w) \<and> result_encodable r"
    by (simp add: dispatch_def record_result_def transition_def conclude_def sample_unpublished Let_def ok_def
        on_record_def result_encodable_def)
       (simp add: sample_command_def json_time_def day_ns_def)
  ultimately show ?thesis by metis
qed

theorem dispatched_at_most_once_witness:
  "distinct (map cmd_key (w_sent (fst (Submit sample_deps sample_command sample_world))))"
proof -
  have "out_reach [sample_heater, sample_pump] (fst (Submit sample_deps sample_command sample_world))"
    by (rule out_reach.submit [OF out_reach.new [OF sample_engine_new]]) simp
  from dispatched_at_most_once [OF this] show ?thesis by simp
qed

theorem repeated_submission_witness:
  "\<exists>w r. Submit sample_deps sample_command sample_world = (w, ok r) \<and>
     Submit (sample_deps\<lparr>d_env := sample_env\<rparr>) sample_command w = (w, ok r)"
proof -
  obtain w r where "Submit sample_deps sample_command sample_world = (w, ok r)" using sample_submit by blast
  with repeated_submission [OF this, of "sample_deps\<lparr>d_env := sample_env\<rparr>" sample_command] show ?thesis
    by (auto simp: sample_prepare)
qed

text \<open>One submission run to its end, and the reconciliation with a matching report.\<close>

lemma sample_reconciled:
  "\<exists>s t r r'. con_reach (con_start sample_engine (\<lambda>n. sample_command)) s \<and>
     svc_results (w_service (con_world s)) (sample_id 8) = Some r' \<and> res_status r' = StatusAcknowledged \<and>
     t = s\<lparr>con_world := fst (Reconcile (d_env sample_deps) (sample_id 8) True noon (con_world s))\<rparr> \<and>
     svc_results (w_service (con_world t)) (sample_id 8) = Some r \<and> res_status r = StatusSucceeded"
proof -
  let ?start = "con_start sample_engine (\<lambda>n. sample_command)"
  obtain w r where w: "Submit sample_deps sample_command sample_world = (w, ok r)" "res_status r = StatusAcknowledged"
    "on_record sample_command r (w_service w)" using sample_submit by blast
  let ?s = "\<lparr>con_calls = (con_calls ?start)(0 := Finished (ok r)), con_world = w\<rparr>"
  have "call_run 7 sample_deps (con_calls ?start 0) (con_world ?start) = (Finished (ok r), w)"
    using w(1) by (simp add: con_start_def call_run_Submit del: call_run.simps)
  then have reach: "con_reach ?start ?s" by (rule con_reach_run [OF con_reach.init [of ?start]])
  have known: "eng_profiles (w_policy w) (sample_id 7) \<noteq> None"
  proof -
    have "w_policy w = w_policy sample_world \<or> w_policy w =
        fst (Evaluate (d_env sample_deps) (d_reader sample_deps) (command_intent sample_command) sample_engine)"
      using w(1)
      by (cases rule: Submit_cases [of sample_deps sample_command sample_world])
         (auto simp: sample_prepare dispatch_result refuse_result dest!: arg_cong [where f = "\<lambda>x. w_policy (fst x)"])
    then show ?thesis by (auto simp: Evaluate_engine sample_engine_runtime)
  qed
  have old: "svc_results (w_service w) (sample_id 8) = Some r" using w(3) by (simp add: on_record_def sample_command_def)
  have "\<exists>r'. svc_results (w_service (fst (Reconcile (d_env sample_deps) (sample_id 8) True noon w))) (sample_id 8) = Some r' \<and>
      res_status r' = StatusSucceeded"
  proof -
    have "cmd_equipment (res_command r) = sample_id 7" "cmd_on (res_command r)"
      using w(3) by (auto simp: on_record_def sample_command_def)
    then show ?thesis
      using w(2) known old by (auto simp: Reconcile_def RecordReported_def Let_def case_prod_beta transition_def)
  qed
  with reach old w(2) show ?thesis by fastforce
qed


theorem failed_publication_strands_command_witness:
  "\<exists>w' r. Submit (sample_deps\<lparr>d_env := (d_env sample_deps)\<lparr>env_publish := Some (\<lambda>_. Some ErrClosed)\<rparr>\<rparr>)
        sample_command sample_world = (w', (Some r, Some ErrClosed)) \<and> w_sent w' = [] \<and>
     Submit sample_deps sample_command w' = (w', ok r)"
proof -
  let ?env = "(d_env sample_deps)\<lparr>env_publish := Some (\<lambda>_. Some ErrClosed)\<rparr>"
  let ?d = "sample_deps\<lparr>d_env := ?env\<rparr>"
  have "snd (Evaluate ?env reader x e) = snd (Evaluate (d_env sample_deps) reader x e)" for reader x e
  proof -
    have "intent_time ?env x = intent_time (d_env sample_deps) x" by (simp add: intent_time_def)
    then show ?thesis by (simp add: Evaluate_decision split: option.split)
  qed
  then have "granted (snd (Evaluate (d_env ?d) (d_reader ?d) (command_intent sample_command) (w_policy sample_world)))"
    using sample_evaluated by simp
  moreover have "out_emit (d_env ?d) CommandValidated
      \<lparr>res_command = sample_command, res_status = StatusValidated, res_reason = ReasonValidated,
       res_updated = env_now (d_env ?d), res_acknowledged = None, res_reconciled = None\<rparr> = Some ErrClosed"
    by (simp add: out_emit_def emit_def factory_new_def event_validate_def json_marshal_def result_encodable_def
        sample_command_def json_time_def day_ns_def Let_def wrap_def)
  moreover have "known sample_command (w_service sample_world) = None" "revision_check ?d sample_command = Inr True"
    "env_now (d_env ?d) < cmd_expires sample_command"
    by (simp_all add: known_def NewService_def revision_check_def sample_command_def)
  ultimately show ?thesis
    using failed_publication_strands_command [of ?d sample_command sample_command sample_world ErrClosed sample_deps]
    by (simp add: sample_prepare) blast
qed

end
