(* ===== verification/MqttRouter.thy ===== *)
theory MqttRouter
  imports MqttCodec Output Alarms
begin

text \<open>
  The package \<open>internal/mqtt\<close>, the two ends of the integration: requests that arrive as
  envelopes and become commands (\<open>command_router.go\<close>), and canonical state and alarms that are
  mirrored to retained topics (\<open>exporter.go\<close>).

  The transport (a broker connection) is an argument: the outcome of handing it a publication.
\<close>

section \<open>Command requests\<close>

text \<open>
  The data of a request envelope is JSON; \<open>Inl\<close> is JSON that is not a command under strict
  decoding, with the decoder's error.
\<close>

type_synonym request = "go_error + command"

record 'v publication =
  pub_topic :: string
  pub_qos :: byte
  pub_retained :: bool
  pub_payload :: "'v payload"
  pub_expires :: "gotime option"

record route_world =
  rw_world :: world
  rw_published :: "result publication list"

record route_deps =
  rd_deps :: deps
  rd_now :: gotime
  rd_topics :: topic_registry
  rd_codec :: codec
  rd_size :: "result envelope \<Rightarrow> nat"
  rd_publish :: "result publication \<Rightarrow> go_error option"

definition decode_command :: "request envelope \<Rightarrow> go_error + command" where
  "decode_command e =
     (case env_data e of
        RawBytes _ \<Rightarrow> Inl (Wrapped ''decode MQTT command request'' (ErrorString ''invalid JSON''))
      | RawJSON (Inl err) \<Rightarrow> Inl (Wrapped ''decode MQTT command request'' err)
      | RawJSON (Inr c) \<Rightarrow>
          if cmd_correlation c \<noteq> env_correlation e
          then Inl (ErrorString ''command and envelope correlation IDs differ'')
          else case env_expires e of
            None \<Rightarrow> Inl (ErrorString ''command expiry exceeds envelope expiry'')
          | Some t \<Rightarrow>
              if cmd_expires c > t then Inl (ErrorString ''command expiry exceeds envelope expiry'') else Inr c)"

text \<open>The answer to a request: the envelope with the result, published without retention.\<close>

definition respond ::
  "route_deps \<Rightarrow> string \<Rightarrow> request envelope \<Rightarrow> command \<Rightarrow> result \<Rightarrow> route_world \<Rightarrow> route_world \<times> go_error option"
where
  "respond d target e c result w =
     (case Topic (rd_topics d) PurposeCommandResult target of
        (_, Some err) \<Rightarrow> (w, Some err)
      | (None, None) \<Rightarrow> (w, None)
      | (Some (topic, policy), None) \<Rightarrow>
          (case Encode (rd_size d) result_encodable (rd_now d) (rd_codec d) (''result-'' @ cmd_id c) ''aquaos-core''
                  (env_correlation e) (rd_now d) (env_expires e) (cmd_expected c) result of
             (_, Some err) \<Rightarrow> (w, Some err)
           | (None, None) \<Rightarrow> (w, None)
           | (Some payload, None) \<Rightarrow>
               if policy_retained policy then (w, Some (ErrorString ''command result policy must not retain''))
               else let p = \<lparr>pub_topic = topic, pub_qos = policy_qos policy, pub_retained = False,
                             pub_payload = payload, pub_expires = env_expires e\<rparr>
                    in (w\<lparr>rw_published := rw_published w @ [p]\<rparr>, rd_publish d p)))"

definition route_command ::
  "route_deps \<Rightarrow> string \<Rightarrow> request envelope \<Rightarrow> route_world \<Rightarrow> route_world \<times> go_error option"
where
  "route_command d target e w =
     (case decode_command e of
        Inl err \<Rightarrow> (w, Some err)
      | Inr c \<Rightarrow>
          (let (v, r) = Submit (rd_deps d) c (rw_world w);
               w = w\<lparr>rw_world := v\<rparr>
           in case r of
                (_, Some err) \<Rightarrow> (w, Some err)
              | (None, None) \<Rightarrow> (w, None)
              | (Some result, None) \<Rightarrow> respond d target e c result w))"

definition Handle ::
  "route_deps \<Rightarrow> string \<Rightarrow> request payload \<Rightarrow> consumer \<times> route_world \<Rightarrow> (consumer \<times> route_world) \<times> go_error option"
where
  "Handle d target payload = Consume (rd_now d) payload (Some (route_command d target))"

section \<open>The exporter\<close>

text \<open>What the exporter reads from an event: the value of a state event, the alarm of an alarm event.\<close>

datatype export_payload = ExportState state_value | ExportAlarm alarm | ExportOther

record exporter =
  exp_registry :: topic_registry
  exp_codec :: codec

definition NewEventExporter :: "string \<Rightarrow> int \<Rightarrow> bool \<Rightarrow> go_error + exporter" where
  "NewEventExporter site maximum dependencies =
     (if \<not> dependencies then Inl (ErrorString ''MQTT exporter dependencies are required'')
      else case NewTopicRegistry site of
        Inl err \<Rightarrow> Inl err
      | Inr r \<Rightarrow>
          (case NewCodec site maximum True of Inl err \<Rightarrow> Inl err | Inr c \<Rightarrow> Inr \<lparr>exp_registry = r, exp_codec = c\<rparr>))"

definition exported_events :: "event_type list" where
  "exported_events = [StateChanged, AlarmRaised, AlarmAcknowledged, AlarmCleared, AlarmEscalated]"

text \<open>\<open>Attach\<close>: the subscriptions made so far are given back when one fails.\<close>

fun attach_loop :: "event_type list \<Rightarrow> nat list \<Rightarrow> bus \<Rightarrow> bus \<times> nat list ret" where
  "attach_loop [] subs b = (b, ok subs)"
| "attach_loop (t # ts) subs b =
     (case subscribe b t True of
        (b, (_, Some err)) \<Rightarrow> (foldl unsubscribe b subs, fail err)
      | (b, (None, None)) \<Rightarrow> (b, ok subs)
      | (b, (Some n, None)) \<Rightarrow> attach_loop ts (subs @ [n]) b)"

definition Attach :: "bus \<Rightarrow> bus \<times> nat list ret" where
  "Attach b = attach_loop exported_events [] b"

definition no_topic :: "string \<times> policy" where
  "no_topic = ([], \<lparr>policy_purpose = PurposeOther [], policy_qos = 0, policy_retained = False\<rparr>)"

text \<open>The topic, the policy and the revision of an export; the error of \<open>Topic\<close> is discarded.\<close>

definition export_target ::
  "topic_registry \<Rightarrow> event_type \<Rightarrow> export_payload raw_message \<Rightarrow> ((string \<times> policy) \<times> revision option) option"
where
  "export_target r etype payload =
     (let topic = (\<lambda>p i. case fst (Topic r p i) of None \<Rightarrow> no_topic | Some t \<Rightarrow> t)
      in if etype = StateChanged
         then (case payload of
                 RawJSON (ExportState v) \<Rightarrow>
                   if key_kind (sv_key v) = EntityEquipment
                   then Some (topic PurposeEquipmentReported (''equipment-'' @ key_entity (sv_key v)), Some (sv_revision v))
                   else if key_kind (sv_key v) \<noteq> EntitySensor then None
                   else Some (topic PurposeSensorState (''sensor-'' @ key_entity (sv_key v)), Some (sv_revision v))
               | _ \<Rightarrow> None)
         else if etype \<in> {AlarmRaised, AlarmAcknowledged, AlarmCleared, AlarmEscalated}
         then (case payload of
                 RawJSON (ExportAlarm a) \<Rightarrow> Some (topic PurposeAlarmState (al_id a), None)
               | _ \<Rightarrow> None)
         else None)"

definition export_encodable :: "export_payload \<Rightarrow> bool" where
  "export_encodable p =
     (case p of ExportState v \<Rightarrow> sv_encodable v | ExportAlarm a \<Rightarrow> alarm_encodable a | ExportOther \<Rightarrow> True)"

text \<open>\<open>Handle\<close> of the exporter: what it publishes; failures are logged and never returned.\<close>

definition export_event ::
  "(export_payload envelope \<Rightarrow> nat) \<Rightarrow> gotime \<Rightarrow> exporter \<Rightarrow> export_payload event \<Rightarrow> export_payload publication option"
where
  "export_event encoded_size now x event =
     (case export_target (exp_registry x) (ev_type event) (ev_payload event) of
        None \<Rightarrow> None
      | Some ((topic, policy), revision) \<Rightarrow>
          (case ev_payload event of
             RawBytes _ \<Rightarrow> None
           | RawJSON data \<Rightarrow>
               (case Encode encoded_size export_encodable now (exp_codec x) (ev_correlation event) (ev_source event)
                       (ev_correlation event) (ev_timestamp event) None revision data of
                  (Some payload, None) \<Rightarrow>
                    Some \<lparr>pub_topic = topic, pub_qos = policy_qos policy, pub_retained = policy_retained policy,
                          pub_payload = payload, pub_expires = None\<rparr>
                | _ \<Rightarrow> None)))"

section \<open>Lemmas\<close>

lemma respond_world: "rw_world (fst (respond d target e c r w)) = rw_world w"
  by (auto simp: respond_def Let_def split: prod.splits option.splits)

lemma route_command_world:
  "rw_world (fst (route_command d target e w)) =
     (case decode_command e of Inl err \<Rightarrow> rw_world w | Inr c \<Rightarrow> fst (Submit (rd_deps d) c (rw_world w)))"
  by (auto simp: route_command_def Let_def case_prod_beta respond_world split: sum.splits option.splits prod.splits)

lemma decode_command_Inr:
  assumes "decode_command e = Inr c"
  shows "\<exists>t. env_expires e = Some t \<and> cmd_expires c \<le> t" "cmd_correlation c = env_correlation e"
  using assms by (auto simp: decode_command_def split: raw_message.splits sum.splits if_splits option.splits)

lemma Consume_world:
  "snd (fst (Consume now p (Some h) (c, w))) = w \<or>
   (\<exists>k e. Decode now p (con_codec c) = (k, ok e) \<and> env_message e \<notin> con_seen c \<and>
      snd (fst (Consume now p (Some h) (c, w))) = fst (h e w))"
  using Decode_cases [of now p "con_codec c"]
  by (auto simp: Consume_def fail_def ok_def reserve_def Let_def split: prod.splits option.splits)

lemma Handle_submits:
  "rw_world (snd (fst (Handle d target p (c, w)))) = rw_world w \<or>
   (\<exists>k e cmd t. Decode (rd_now d) p (con_codec c) = (k, ok e) \<and> env_message e \<notin> con_seen c \<and>
      decode_command e = Inr cmd \<and> env_expires e = Some t \<and> cmd_expires cmd \<le> t \<and> rd_now d < t \<and>
      rw_world (snd (fst (Handle d target p (c, w)))) = fst (Submit (rd_deps d) cmd (rw_world w)))"
proof -
  from Consume_world [of "rd_now d" p "route_command d target" c w] consider
    "snd (fst (Handle d target p (c, w))) = w"
    | k e where "Decode (rd_now d) p (con_codec c) = (k, ok e)" "env_message e \<notin> con_seen c"
        "snd (fst (Handle d target p (c, w))) = fst (route_command d target e w)"
    by (auto simp: Handle_def)
  then show ?thesis
  proof cases
    case (2 k e)
    show ?thesis
    proof (cases "decode_command e")
      case (Inl err)
      then show ?thesis using 2(3) by (simp add: route_command_world)
    next
      case (Inr cmd)
      then obtain t where t: "env_expires e = Some t" "cmd_expires cmd \<le> t" using decode_command_Inr by blast
      moreover have "rd_now d < t" using Decode_ok(8) [OF 2(1)] t(1) by simp
      ultimately show ?thesis using 2 Inr by (auto simp: route_command_world)
    qed
  qed simp
qed

section \<open>Properties\<close>

text \<open>
  C19. MQTT never bypasses the command service: whatever payload arrives, the world of commands is left
  alone or changed by exactly one submission, of the command in a payload that was valid for the
  site, not expired and not seen before, whose expiry lies within that of its envelope.
\<close>

theorem request_is_one_submission:
  "rw_world (snd (fst (Handle d target p (c, w)))) = rw_world w \<or>
   (\<exists>k e cmd t. Decode (rd_now d) p (con_codec c) = (k, ok e) \<and> env_message e \<notin> con_seen c \<and>
      decode_command e = Inr cmd \<and> env_expires e = Some t \<and> cmd_expires cmd \<le> t \<and> rd_now d < t \<and>
      rw_world (snd (fst (Handle d target p (c, w)))) = fst (Submit (rd_deps d) cmd (rw_world w)))"
  by (rule Handle_submits)


text \<open>
  An alarm whose identifier begins with a digit, as ten of sixteen random identifiers do, is
  published without a topic: the registry refuses the identifier as a topic level, the exporter discards
  the refusal, and the message that was to be retained goes out unretained on the empty topic.
\<close>

theorem alarm_exported_without_topic:
  assumes "al_id a = ch # chs" "digit ch" "ev_payload event = RawJSON (ExportAlarm a)"
    and "ev_type event \<in> {AlarmRaised, AlarmAcknowledged, AlarmCleared, AlarmEscalated}"
    and "export_event encoded_size now x event = Some pub"
  shows "pub_topic pub = [] \<and> \<not> pub_retained pub \<and> pub_qos pub = 0"
proof -
  have "\<not> lower ch" using assms(2) by (auto simp: lower_def digit_def)
  then have "fst (Topic r PurposeAlarmState (al_id a)) = None" for r
    using assms(1) by (simp add: Topic_def topicSegmentPattern_def)
  then have "export_target r (ev_type event) (ev_payload event) = Some (no_topic, None)" for r
    using assms(3,4) by (auto simp: export_target_def Let_def)
  with assms(3,5) show ?thesis
    by (auto simp: export_event_def no_topic_def split: prod.splits option.splits)
qed

section \<open>Concrete runs\<close>

definition sample_request :: "request payload" where
  "sample_request =
     \<lparr>pay_size = 512,
      pay_envelope = Inr \<lparr>env_schema = ''1.0'', env_message = ''m1'', env_correlation = sample_id 1, env_source = ''ha'',
        env_site = ''reef'', env_occurred = noon, env_expires = Some (noon + 60000000000), env_revision = None,
        env_data = RawJSON (Inr sample_command)\<rparr>,
      pay_rest = None\<rparr>"

definition sample_route :: route_deps where
  "sample_route =
     \<lparr>rd_deps = sample_deps, rd_now = noon, rd_topics = \<lparr>site_id = ''reef''\<rparr>, rd_codec = sample_codec,
      rd_size = (\<lambda>_. 512), rd_publish = (\<lambda>_. None)\<rparr>"

definition sample_consumer :: consumer where
  "sample_consumer = \<lparr>con_codec = sample_codec, con_capacity = 8, con_seen = {}, con_order = []\<rparr>"

definition sample_route_world :: route_world where
  "sample_route_world = \<lparr>rw_world = sample_world, rw_published = []\<rparr>"

lemma sample_handled:
  "\<exists>c1 w1. Handle sample_route ''heater'' sample_request (sample_consumer, sample_route_world) = ((c1, w1), None)"
proof -
  obtain w r where s: "Submit sample_deps sample_command sample_world = (w, ok r)" "result_encodable r"
    using sample_submit by blast
  define e :: "request envelope" where
    "e = \<lparr>env_schema = ''1.0'', env_message = ''m1'', env_correlation = sample_id 1, env_source = ''ha'',
        env_site = ''reef'', env_occurred = noon, env_expires = Some (noon + 60000000000), env_revision = None,
        env_data = RawJSON (Inr sample_command)\<rparr>"
  have "decode_command e = Inr sample_command"
    by (simp add: decode_command_def e_def sample_command_def)
  moreover have "\<exists>t pol. Topic \<lparr>site_id = ''reef''\<rparr> PurposeCommandResult ''heater'' = ok (t, pol) \<and> \<not> policy_retained pol"
    by (simp add: Topic_def topicSegmentPattern_def lower_def digit_def contains_any_def delivery_def)
  moreover have "\<exists>q. Encode (\<lambda>_. 512) result_encodable noon sample_codec (''result-'' @ cmd_id sample_command) ''aquaos-core''
      (env_correlation e) noon (env_expires e) (cmd_expected sample_command) r = ok q"
    using s(2) validateUUID_length [OF sample_id_valid, of 8]
    by (simp add: Encode_def json_marshal_def envelope_validate_def e_def wrap_def json_time_def day_ns_def Let_def
        sample_command_def)
  ultimately have "\<exists>w1. route_command sample_route ''heater'' e sample_route_world = (w1, None)"
    using s(1) by (auto simp: route_command_def respond_def sample_route_def sample_route_world_def ok_def Let_def)
  moreover have "\<exists>k. Decode noon sample_request sample_codec = (k, ok e)"
    by (simp add: sample_request_def Decode_def major_def envelope_validate_def wrap_def e_def)
  ultimately show ?thesis
    by (auto simp: Handle_def Consume_def sample_consumer_def reserve_def ok_def e_def sample_route_def)
qed


definition sample_alarm :: alarm where
  "sample_alarm = zero_alarm\<lparr>al_id := sample_id 2, al_first := noon, al_last := noon\<rparr>"

definition sample_alarm_event :: "export_payload event" where
  "sample_alarm_event =
     \<lparr>ev_timestamp = noon, ev_source = ''alarms'', ev_type = AlarmRaised, ev_severity = SeverityWarning,
      ev_payload = RawJSON (ExportAlarm sample_alarm), ev_correlation = sample_id 1\<rparr>"

theorem alarm_exported_without_topic_witness:
  "\<exists>pub. export_event (\<lambda>_. 512) noon \<lparr>exp_registry = \<lparr>site_id = ''reef''\<rparr>, exp_codec = sample_codec\<rparr> sample_alarm_event =
     Some pub \<and> pub_topic pub = []"
proof -
  have "\<exists>q. Encode (\<lambda>_. 512) export_encodable noon sample_codec (sample_id 1) ''alarms'' (sample_id 1) noon None None
      (ExportAlarm sample_alarm) = ok q"
    using validateUUID_length [OF sample_id_valid, of 1]
    by (simp add: Encode_def json_marshal_def export_encodable_def alarm_encodable_def sample_alarm_def zero_alarm_def
        json_time_def day_ns_def envelope_validate_def wrap_def Let_def)
  then obtain pub where pub: "export_event (\<lambda>_. 512) noon \<lparr>exp_registry = \<lparr>site_id = ''reef''\<rparr>, exp_codec = sample_codec\<rparr>
      sample_alarm_event = Some pub"
    by (auto simp: export_event_def export_target_def sample_alarm_event_def Let_def ok_def case_prod_beta)
  from alarm_exported_without_topic [OF _ _ _ _ this, of sample_alarm] pub show ?thesis
    by (simp add: sample_alarm_event_def sample_alarm_def sample_id_def digit_def)
qed

end
