(* ===== verification/GoNet.thy ===== *)
theory GoNet
  imports Prelude
begin

text \<open>
  Texts and network boundaries of the Go standard library. A Go string is the list of its bytes.
  The decisions of \<open>net/url\<close> and \<open>net\<close> about a text (is it a URL, has it a host, is it a loopback
  address) are arguments of the model, functions on texts: no theorem depends on which texts they
  accept. An HTTP exchange is a function from the request to what came back, the body with its
  size and what \<open>json.Unmarshal\<close> makes of it.
\<close>

section \<open>Texts\<close>

definition has_prefix :: "string \<Rightarrow> string \<Rightarrow> bool" where
  "has_prefix s p \<longleftrightarrow> take (length p) s = p"

definition has_suffix :: "string \<Rightarrow> string \<Rightarrow> bool" where
  "has_suffix s p \<longleftrightarrow> length p \<le> length s \<and> drop (length s - length p) s = p"

definition oneOf :: "string \<Rightarrow> string list \<Rightarrow> bool" where
  "oneOf value allowed \<longleftrightarrow> list_ex (\<lambda>candidate. value = candidate) allowed"

lemma oneOf_iff [simp]: "oneOf v allowed \<longleftrightarrow> v \<in> set allowed"
  by (auto simp: oneOf_def list_ex_iff)

text \<open>
  \<open>strings.TrimSpace\<close>: the white space of Unicode in its UTF-8 encoding. \<open>space_prefix\<close> is the
  number of bytes of a white-space character at the front, zero when there is none.
\<close>

definition byte_codes :: "string \<Rightarrow> nat list" where
  "byte_codes s = map of_char s"

definition ascii_space :: "nat \<Rightarrow> bool" where
  "ascii_space n \<longleftrightarrow> n = 32 \<or> 9 \<le> n \<and> n \<le> 13"

definition wide_space :: "nat list \<Rightarrow> bool" where
  "wide_space bs \<longleftrightarrow>
     bs \<in> {[194, 133], [194, 160], [225, 154, 128], [226, 128, 168], [226, 128, 169], [226, 128, 175],
           [226, 129, 159], [227, 128, 128]} \<or>
     (\<exists>n \<in> {128..138}. bs = [226, 128, n])"

fun space_prefix :: "nat list \<Rightarrow> nat" where
  "space_prefix [] = 0"
| "space_prefix (b # bs) =
     (if ascii_space b then 1
      else if wide_space (take 2 (b # bs)) then 2
      else if wide_space (take 3 (b # bs)) then 3
      else 0)"

lemma space_prefix_pos: "0 < space_prefix (byte_codes s) \<Longrightarrow> s \<noteq> []"
  by (auto simp: byte_codes_def)

function trim_left :: "string \<Rightarrow> string" where
  "trim_left s =
     (let n = space_prefix (byte_codes s)
      in if n = 0 then s else trim_left (drop n s))"
  by pat_completeness auto
termination
  by (relation "measure length")
     (auto intro!: diff_less dest: space_prefix_pos)

declare trim_left.simps [simp del]

definition space_suffix :: "nat list \<Rightarrow> nat" where
  "space_suffix bs =
     (let n = length bs
      in if n = 0 then 0
         else if ascii_space (last bs) then 1
         else if 2 \<le> n \<and> wide_space (drop (n - 2) bs) then 2
         else if 3 \<le> n \<and> wide_space (drop (n - 3) bs) then 3
         else 0)"

function trim_right :: "string \<Rightarrow> string" where
  "trim_right s =
     (let n = space_suffix (byte_codes s)
      in if n = 0 then s else trim_right (take (length s - n) s))"
  by pat_completeness auto
termination
  by (relation "measure length") (auto simp: space_suffix_def byte_codes_def Let_def split: if_splits)

declare trim_right.simps [simp del]

definition trim_space :: "string \<Rightarrow> string" where
  "trim_space s = trim_right (trim_left s)"

text \<open>Nothing is trimmed from a text of visible ASCII characters.\<close>

lemma wide_space_high: "wide_space bs \<Longrightarrow> \<exists>b bs'. bs = b # bs' \<and> 128 \<le> b"
  unfolding wide_space_def by (elim disjE insertE bexE) simp_all

definition plain_text :: "string \<Rightarrow> bool" where
  "plain_text s \<longleftrightarrow> s \<noteq> [] \<and> list_all (\<lambda>c. 33 \<le> (of_char c :: nat) \<and> (of_char c :: nat) < 128) s"

lemma trim_plain:
  assumes "plain_text s"
  shows "trim_space s = s"
proof -
  let ?bs = "byte_codes s"
  have low: "33 \<le> b \<and> b < 128" if "b \<in> set ?bs" for b
    using assms that by (auto simp: plain_text_def list_all_iff byte_codes_def)
  have wide: "\<not> wide_space bs" if "set bs \<subseteq> set ?bs" for bs
  proof
    assume "wide_space bs"
    then obtain b bs' where "bs = b # bs'" "128 \<le> b" using wide_space_high by blast
    with low [of b] that show False by simp
  qed
  obtain c cs where bs: "?bs = c # cs" using assms by (cases s) (auto simp: plain_text_def byte_codes_def)
  have ascii: "\<not> ascii_space b" if "b \<in> set ?bs" for b
    using low [OF that] by (simp add: ascii_space_def)
  have "space_prefix ?bs = 0"
    unfolding bs space_prefix.simps
    using ascii [of c] wide [OF set_take_subset [of 2 ?bs]] wide [OF set_take_subset [of 3 ?bs]] by (simp only: bs list.set_intros if_False simp_thms)
  moreover have "space_suffix ?bs = 0"
    unfolding space_suffix_def Let_def
    using ascii [OF last_in_set] wide [OF set_drop_subset] by (simp only: bs list.simps if_False simp_thms if_cancel)
  ultimately show ?thesis by (simp add: trim_space_def trim_left.simps [of s] trim_right.simps [of s])
qed

text \<open>
  \<open>strings.ToLower\<close>, as far as its result can be plain ASCII: the ASCII letters, the dotted capital I
  and the Kelvin sign are the characters whose lower case is an ASCII letter.
\<close>

fun to_lower :: "string \<Rightarrow> string" where
  "to_lower [] = []"
| "to_lower (c # cs) =
     (let n = of_char c :: nat
      in if 65 \<le> n \<and> n \<le> 90 then char_of (n + 32) # to_lower cs
         else case cs of
           d # ds \<Rightarrow>
             if n = 196 \<and> of_char d = (176 :: nat) then CHR ''i'' # to_lower ds
             else (case ds of
                     e # es \<Rightarrow>
                       if n = 226 \<and> of_char d = (132 :: nat) \<and> of_char e = (170 :: nat) then CHR ''k'' # to_lower es
                       else c # to_lower cs
                   | [] \<Rightarrow> c # to_lower cs)
         | [] \<Rightarrow> c # to_lower cs)"

text \<open>\<open>strconv.Itoa\<close> and \<open>strconv.FormatUint\<close> in base ten.\<close>

function decimal :: "nat \<Rightarrow> string" where
  "decimal n = (if n < 10 then [char_of (48 + n)] else decimal (n div 10) @ [char_of (48 + n mod 10)])"
  by pat_completeness auto
termination by (relation "measure id") auto

declare decimal.simps [simp del]

definition itoa :: "int \<Rightarrow> string" where
  "itoa i = (if i < 0 then CHR ''-'' # decimal (nat (- i)) else decimal (nat i))"

text \<open>\<open>Time.UnixNano\<close>: the year 1970 begins 62135596800 seconds after the zero time.\<close>

definition unix_nano :: "gotime \<Rightarrow> int" where
  "unix_nano t = wrap64 (t - 62135596800000000000)"

text \<open>\<open>strings.Split\<close> on one separator, and \<open>strings.Join\<close>.\<close>

fun split_on :: "char \<Rightarrow> string \<Rightarrow> string list" where
  "split_on sep [] = [[]]"
| "split_on sep (c # cs) =
     (if c = sep then [] # split_on sep cs
      else case split_on sep cs of p # ps \<Rightarrow> (c # p) # ps | [] \<Rightarrow> [[c]])"

fun join_with :: "string \<Rightarrow> string list \<Rightarrow> string" where
  "join_with sep [] = []"
| "join_with sep [p] = p"
| "join_with sep (p # q # ps) = p @ sep @ join_with sep (q # ps)"

lemma split_on_Nil [simp]: "split_on sep s \<noteq> []"
  by (induction s) (auto split: list.splits)

lemma join_split: "join_with [sep] (split_on sep s) = s"
proof (induction s)
  case (Cons c cs)
  then show ?case
    by (cases "split_on sep cs"; cases "tl (split_on sep cs)") auto
qed simp

lemma split_on_plain: "p \<in> set (split_on sep s) \<Longrightarrow> sep \<notin> set p"
proof (induction s arbitrary: p)
  case (Cons c cs)
  then show ?case by (cases "split_on sep cs") (auto split: if_splits)
qed simp

section \<open>Paths\<close>

text \<open>
  \<open>path.Clean\<close>: empty and \<open>.\<close> elements are dropped, \<open>..\<close> removes the element before it, and at
  the root it is dropped.
\<close>

definition clean_element :: "bool \<Rightarrow> string \<Rightarrow> string list \<Rightarrow> string list" where
  "clean_element rooted e kept =
     (if e = [] \<or> e = ''.'' then kept
      else if e = ''..''
      then case kept of
             [] \<Rightarrow> if rooted then [] else [''..'']
           | k # ks \<Rightarrow> if k = ''..'' then ''..'' # kept else ks
      else e # kept)"

definition path_clean :: "string \<Rightarrow> string" where
  "path_clean s =
     (let rooted = has_prefix s ''/'';
          kept = rev (fold (clean_element rooted) (split_on (CHR ''/'') s) []);
          out = join_with ''/'' kept
      in if rooted then CHR ''/'' # out else if out = [] then ''.'' else out)"

section \<open>URLs, hosts and HTTP\<close>

record url =
  url_scheme :: string
  url_host :: string
  url_user :: bool
  url_path :: string
  url_raw_query :: string
  url_fragment :: string

type_synonym url_parser = "string \<Rightarrow> go_error + url"

record http_request =
  req_method :: string
  req_url :: url
  req_headers :: "(string \<times> string) list"

record 'v http_body =
  body_size :: nat
  body_json :: "go_error + 'v"

record 'v http_response =
  resp_status :: int
  resp_body :: "go_error + 'v http_body"

type_synonym 'v http_client = "http_request \<Rightarrow> go_error + 'v http_response"

definition http_success :: "'v http_response \<Rightarrow> bool" where
  "http_success r \<longleftrightarrow> 200 \<le> resp_status r \<and> resp_status r < 300"

text \<open>A parser that knows one form of address, for concrete runs.\<close>

definition plain_url :: url_parser where
  "plain_url s =
     Inr \<lparr>url_scheme = ''http'', url_host = s, url_user = False, url_path = [], url_raw_query = [], url_fragment = []\<rparr>"

end
