(* ===== verification/Shelly.thy ===== *)
theory Shelly
  imports GoNet Output
begin

text \<open>
  The package \<open>internal/adapters/shelly\<close>: switch channels of Shelly devices (\<open>adapter.go\<close>) and
  their RPC client (\<open>client.go\<close>). The adapter is an executor of the command service and the owner
  of a polling worker per endpoint. Its sinks (reports, failures, the command tracker) act on a state
  \<open>'w\<close> and on the adapter, because a failure makes the coordinator submit a command, which comes
  back to the adapter as a dispatch while the poll is under way.
\<close>

section \<open>Endpoints, reports and the RPC client\<close>

datatype power_return = PowerReturnOff | PowerReturnRestore | PowerReturnOther string

record shelly_endpoint =
  sh_id :: ident
  sh_equipment :: ident
  sh_base_url :: string
  sh_channel :: int
  sh_poll_interval :: duration
  sh_request_timeout :: duration
  sh_retries :: int
  sh_safe_on :: bool
  sh_power_return :: power_return

record shelly_report =
  rep_endpoint :: ident
  rep_equipment :: ident
  rep_on :: bool
  rep_power :: float64
  rep_voltage :: float64
  rep_current :: float64
  rep_source :: string
  rep_observed :: gotime
  rep_desired :: "bool option"
  rep_pending :: bool
  rep_errors :: "string list"

record switch_status =
  sw_id :: int
  sw_source :: string
  sw_output :: bool
  sw_power :: float64
  sw_voltage :: float64
  sw_current :: float64
  sw_errors :: "string list"

record switch_config =
  sc_id :: int
  sc_initial :: string

definition rpcURL :: "url_parser \<Rightarrow> string \<Rightarrow> string \<Rightarrow> go_error + url" where
  "rpcURL parse base rpc =
     (let bad = Inl (ErrorString ''shelly base URL must be an unauthenticated http URL with a host'')
      in case parse base of
           Inl _ \<Rightarrow> bad
         | Inr u \<Rightarrow>
             if url_scheme u \<noteq> ''http'' \<or> url_host u = [] \<or> url_user u then bad
             else if url_raw_query u \<noteq> [] \<or> url_fragment u \<noteq> []
             then Inl (ErrorString ''shelly base URL must not contain a query or fragment'')
             else Inr (u\<lparr>url_path := ''/rpc/'' @ rpc\<rparr>))"

definition maximumResponseBytes :: nat where
  "maximumResponseBytes = 64 * 1024"

text \<open>The parameters of a call are its channel and, for \<open>Switch.Set\<close>, the state that is asked for.\<close>

type_synonym 'v rpc_client = "int \<times> bool option \<Rightarrow> 'v http_client"

definition shelly_call ::
  "url_parser \<Rightarrow> 'v rpc_client \<Rightarrow> string \<Rightarrow> string \<Rightarrow> int \<times> bool option \<Rightarrow> go_error + 'v"
where
  "shelly_call parse do base rpc params =
     (case rpcURL parse base rpc of
        Inl err \<Rightarrow> Inl err
      | Inr u \<Rightarrow>
          (case do params \<lparr>req_method = ''POST'', req_url = u, req_headers = [(''Content-Type'', ''application/json'')]\<rparr> of
             Inl err \<Rightarrow> Inl (Wrapped ''call Shelly RPC'' err)
           | Inr response \<Rightarrow>
               (case resp_body response of
                  Inl err \<Rightarrow> Inl (Wrapped ''read Shelly RPC response'' err)
                | Inr body \<Rightarrow>
                    if body_size body > maximumResponseBytes
                    then Inl (ErrorString ''shelly RPC response exceeds size limit'')
                    else if \<not> http_success response
                    then Inl (ErrorFmt ''shelly RPC returned HTTP status %d'' [itoa (resp_status response)])
                    else case body_json body of
                           Inl err \<Rightarrow> Inl (Wrapped ''decode Shelly RPC response'' err)
                         | Inr v \<Rightarrow> Inr v)))"

definition GetSwitchConfig ::
  "url_parser \<Rightarrow> switch_config rpc_client \<Rightarrow> string \<Rightarrow> int \<Rightarrow> go_error + switch_config"
where
  "GetSwitchConfig parse do base channel =
     (case shelly_call parse do base ''Switch.GetConfig'' (channel, None) of
        Inl err \<Rightarrow> Inl err
      | Inr c \<Rightarrow>
          if sc_id c \<noteq> channel
          then Inl (ErrorFmt ''shelly config channel %d does not match requested channel %d'' [itoa (sc_id c), itoa channel])
          else Inr c)"

definition GetSwitchStatus ::
  "url_parser \<Rightarrow> switch_status rpc_client \<Rightarrow> string \<Rightarrow> int \<Rightarrow> go_error + switch_status"
where
  "GetSwitchStatus parse do base channel =
     (case shelly_call parse do base ''Switch.GetStatus'' (channel, None) of
        Inl err \<Rightarrow> Inl err
      | Inr s \<Rightarrow>
          if sw_id s \<noteq> channel
          then Inl (ErrorFmt ''shelly response channel %d does not match requested channel %d'' [itoa (sw_id s), itoa channel])
          else Inr s)"

definition SetSwitch :: "url_parser \<Rightarrow> bool rpc_client \<Rightarrow> string \<Rightarrow> int \<Rightarrow> bool \<Rightarrow> go_error + bool" where
  "SetSwitch parse do base channel on = shelly_call parse do base ''Switch.Set'' (channel, Some on)"

section \<open>The adapter\<close>

record pending_command =
  pc_id :: ident
  pc_want :: bool
  pc_expires :: gotime

record shelly_adapter =
  sa_endpoints :: "ident \<rightharpoonup> shelly_endpoint"
  sa_pending :: "ident \<rightharpoonup> pending_command"
  sa_desired :: "ident \<rightharpoonup> bool"
  sa_started :: bool
  sa_errors :: "ident \<rightharpoonup> string"

definition sh_validate_endpoint :: "url_parser \<Rightarrow> shelly_endpoint \<Rightarrow> go_error option" where
  "sh_validate_endpoint parse e = first_error [
     wrap ''shelly endpoint ID'' (validateUUID (sh_id e)),
     wrap ''shelly equipment ID'' (validateUUID (sh_equipment e)),
     (case rpcURL parse (sh_base_url e) ''Switch.GetStatus'' of Inl err \<Rightarrow> Some err | Inr _ \<Rightarrow> None),
     guard (sh_channel e < 0 \<or> sh_channel e > 31) (ErrorString ''shelly channel must be between 0 and 31''),
     guard (sh_poll_interval e \<le> 0 \<or> sh_request_timeout e \<le> 0 \<or> sh_request_timeout e > sh_poll_interval e)
       (ErrorString ''shelly request timeout must be positive and no greater than poll interval''),
     guard (sh_retries e < 0 \<or> sh_retries e > 5) (ErrorString ''shelly retries must be between 0 and 5''),
     guard (sh_power_return e \<noteq> PowerReturnOff \<and> sh_power_return e \<noteq> PowerReturnRestore)
       (ErrorString ''shelly power-return policy must be off or restore'')]"

fun add_shelly_endpoints :: "url_parser \<Rightarrow> shelly_endpoint list \<Rightarrow> shelly_adapter \<Rightarrow> go_error + shelly_adapter" where
  "add_shelly_endpoints parse [] a = Inr a"
| "add_shelly_endpoints parse (e # es) a =
     (case sh_validate_endpoint parse e of
        Some err \<Rightarrow> Inl err
      | None \<Rightarrow>
          if sa_endpoints a (sh_equipment e) \<noteq> None
          then Inl (ErrorFmt ''duplicate Shelly equipment endpoint %s'' [sh_equipment e])
          else add_shelly_endpoints parse es (a\<lparr>sa_endpoints := (sa_endpoints a)(sh_equipment e \<mapsto> e)\<rparr>))"

definition NewShellyAdapter :: "url_parser \<Rightarrow> bool \<Rightarrow> shelly_endpoint list \<Rightarrow> go_error + shelly_adapter" where
  "NewShellyAdapter parse deps endpoints =
     (if \<not> deps then Inl (ErrorString ''all Shelly adapter dependencies are required'')
      else add_shelly_endpoints parse endpoints
             \<lparr>sa_endpoints = Map.empty, sa_pending = Map.empty, sa_desired = Map.empty, sa_started = False, sa_errors = Map.empty\<rparr>)"

definition sa_start :: "shelly_adapter \<Rightarrow> shelly_adapter" where
  "sa_start a = a\<lparr>sa_started := True\<rparr>"

definition sa_stop :: "go_error option \<Rightarrow> go_error option \<Rightarrow> shelly_adapter \<Rightarrow> shelly_adapter \<times> go_error option" where
  "sa_stop entry exit a =
     (case entry of Some err \<Rightarrow> (a, Some err) | None \<Rightarrow> (a\<lparr>sa_started := False\<rparr>, exit))"

definition sa_health :: "gotime \<Rightarrow> shelly_adapter \<Rightarrow> status" where
  "sa_health now a =
     (let failures = card (dom (sa_errors a));
          state = (if \<not> sa_started a then StateUnhealthy else if failures > 0 then StateDegraded else StateHealthy);
          message = (if failures > 0 then decimal failures @ '' Shelly endpoint(s) unhealthy'' else [])
      in NewStatus ''adapter-shelly'' state message now)"

section \<open>Dispatch\<close>

text \<open>
  \<open>setWithRetry\<close>: \<open>rpc n\<close> is what the n-th call of \<open>Switch.Set\<close> returned, and \<open>ctx n\<close> the error of the
  context after it. The second result is the number of calls.
\<close>

fun set_attempts ::
  "(nat \<Rightarrow> go_error option) \<Rightarrow> (nat \<Rightarrow> go_error option) \<Rightarrow> nat \<Rightarrow> nat \<Rightarrow> go_error option \<Rightarrow> go_error option \<times> nat"
where
  "set_attempts rpc ctx attempt 0 failure =
     (Some (Wrapped (''shelly Switch.Set failed after '' @ decimal attempt @ '' attempts'')
              (case failure of None \<Rightarrow> ErrorString [] | Some err \<Rightarrow> err)), attempt)"
| "set_attempts rpc ctx attempt (Suc left) failure =
     (case rpc attempt of
        None \<Rightarrow> (None, Suc attempt)
      | Some err \<Rightarrow>
          (case ctx attempt of
             Some c \<Rightarrow> (Some c, Suc attempt)
           | None \<Rightarrow> set_attempts rpc ctx (Suc attempt) left (Some err)))"

definition setWithRetry ::
  "(nat \<Rightarrow> go_error option) \<Rightarrow> (nat \<Rightarrow> go_error option) \<Rightarrow> shelly_endpoint \<Rightarrow> go_error option \<times> nat"
where
  "setWithRetry rpc ctx e = set_attempts rpc ctx 0 (nat (sh_retries e + 1)) None"

definition shelly_dispatch ::
  "(nat \<Rightarrow> go_error option) \<Rightarrow> (nat \<Rightarrow> go_error option) \<Rightarrow> gotime \<Rightarrow> command \<Rightarrow> shelly_adapter \<Rightarrow>
   shelly_adapter \<times> acknowledgement ret"
where
  "shelly_dispatch rpc ctx now c a =
     (case sa_endpoints a (cmd_equipment c) of
        None \<Rightarrow> (a, ok \<lparr>ack_accepted = False, ack_reason = ''shelly.endpoint_not_found'', ack_at = 0\<rparr>)
      | Some e \<Rightarrow>
          (case fst (setWithRetry rpc ctx e) of
             Some err \<Rightarrow> (a, fail err)
           | None \<Rightarrow>
               (a\<lparr>sa_pending := (sa_pending a)(cmd_equipment c \<mapsto>
                    \<lparr>pc_id = cmd_id c, pc_want = cmd_on c, pc_expires = cmd_expires c\<rparr>),
                  sa_desired := (sa_desired a)(cmd_equipment c \<mapsto> cmd_on c)\<rparr>,
                ok \<lparr>ack_accepted = True, ack_reason = ''shelly.rpc_accepted'', ack_at = now\<rparr>)))"

section \<open>Polling\<close>

definition sa_set_error :: "ident \<Rightarrow> string \<Rightarrow> shelly_adapter \<Rightarrow> shelly_adapter" where
  "sa_set_error i message a =
     (if message = [] then a\<lparr>sa_errors := (sa_errors a)(i := None)\<rparr>
      else a\<lparr>sa_errors := (sa_errors a)(i \<mapsto> message)\<rparr>)"

text \<open>
  The sinks of the adapter: \<open>ReportShelly\<close>, \<open>ShellyFailure\<close>, \<open>Reconcile\<close> and
  \<open>ExpireAcknowledged\<close>. They act on the adapter and the world.
\<close>

record 'w shelly_sinks =
  sink_report :: "shelly_report \<Rightarrow> shelly_adapter \<times> 'w \<Rightarrow> (shelly_adapter \<times> 'w) \<times> go_error option"
  sink_failure :: "shelly_endpoint \<Rightarrow> bool \<Rightarrow> string \<Rightarrow> gotime \<Rightarrow> shelly_adapter \<times> 'w \<Rightarrow> (shelly_adapter \<times> 'w) \<times> go_error option"
  sink_reconcile :: "ident \<Rightarrow> bool \<Rightarrow> gotime \<Rightarrow> shelly_adapter \<times> 'w \<Rightarrow> (shelly_adapter \<times> 'w) \<times> go_error option"
  sink_expire :: "ident \<Rightarrow> string \<Rightarrow> gotime \<Rightarrow> shelly_adapter \<times> 'w \<Rightarrow> (shelly_adapter \<times> 'w) \<times> go_error option"

definition forget_pending :: "ident \<Rightarrow> shelly_adapter \<Rightarrow> shelly_adapter" where
  "forget_pending i a = a\<lparr>sa_pending := (sa_pending a)(i := None)\<rparr>"

definition expireIfNeeded ::
  "'w shelly_sinks \<Rightarrow> shelly_endpoint \<Rightarrow> gotime \<Rightarrow> bool \<Rightarrow> shelly_adapter \<times> 'w \<Rightarrow> shelly_adapter \<times> 'w"
where
  "expireIfNeeded k e now force s =
     (case sa_pending (fst s) (sh_equipment e) of
        None \<Rightarrow> s
      | Some p \<Rightarrow>
          if \<not> force \<and> now < pc_expires p then s
          else let (s, err) = sink_expire k (pc_id p) ''shelly.reconciliation_expired'' now s;
                   s = (if err = None then map_prod (forget_pending (sh_equipment e)) id s else s)
               in fst (sink_failure k e True ''shelly.reconciliation_expired'' now s))"

definition failPoll ::
  "(go_error \<Rightarrow> string) \<Rightarrow> 'w shelly_sinks \<Rightarrow> shelly_endpoint \<Rightarrow> string \<Rightarrow> go_error \<Rightarrow> gotime \<Rightarrow>
   shelly_adapter \<times> 'w \<Rightarrow> shelly_adapter \<times> 'w"
where
  "failPoll text k e code err now s =
     (let s = map_prod (sa_set_error (sh_id e) (code @ '': '' @ text err)) id s;
          s = fst (sink_failure k e True code now s)
      in expireIfNeeded k e now True s)"

definition expected_initial :: "shelly_endpoint \<Rightarrow> string" where
  "expected_initial e = (if sh_power_return e = PowerReturnRestore then ''restore_last'' else ''off'')"

definition status_report :: "shelly_endpoint \<Rightarrow> switch_status \<Rightarrow> gotime \<Rightarrow> shelly_adapter \<Rightarrow> shelly_report" where
  "status_report e st now a =
     \<lparr>rep_endpoint = sh_id e, rep_equipment = sh_equipment e, rep_on = sw_output st, rep_power = sw_power st,
      rep_voltage = sw_voltage st, rep_current = sw_current st, rep_source = sw_source st, rep_observed = now,
      rep_desired = sa_desired a (sh_equipment e), rep_pending = (sa_pending a (sh_equipment e) \<noteq> None),
      rep_errors = sw_errors st\<rparr>"

definition settle_pending ::
  "'w shelly_sinks \<Rightarrow> shelly_endpoint \<Rightarrow> switch_status \<Rightarrow> gotime \<Rightarrow> shelly_adapter \<times> 'w \<Rightarrow> shelly_adapter \<times> 'w"
where
  "settle_pending k e st now s =
     (case sa_pending (fst s) (sh_equipment e) of
        None \<Rightarrow> s
      | Some p \<Rightarrow>
          if \<not> now < pc_expires p then expireIfNeeded k e now False s
          else if sw_output st = pc_want p
          then let (s, err) = sink_reconcile k (pc_id p) (sw_output st) now s
               in if err = None then map_prod (forget_pending (sh_equipment e)) id s else s
          else s)"

definition shelly_poll ::
  "(go_error \<Rightarrow> string) \<Rightarrow> 'w shelly_sinks \<Rightarrow> shelly_endpoint \<Rightarrow> go_error + switch_config \<Rightarrow>
   go_error + switch_status \<Rightarrow> gotime \<Rightarrow> shelly_adapter \<times> 'w \<Rightarrow> shelly_adapter \<times> 'w"
where
  "shelly_poll text k e config status now s =
     (case config of
        Inl err \<Rightarrow> failPoll text k e ''shelly.config_unavailable'' err now s
      | Inr c \<Rightarrow>
          if sc_initial c \<noteq> expected_initial e
          then failPoll text k e ''shelly.power_return_mismatch''
                 (ErrorFmt ''configured initial_state %q, expected %q'' [sc_initial c, expected_initial e]) now s
          else case status of
                 Inl err \<Rightarrow> failPoll text k e ''shelly.unreachable'' err now s
               | Inr st \<Rightarrow>
                   (let s = map_prod (sa_set_error (sh_id e) []) id s;
                        s = fst (sink_report k (status_report e st now (fst s)) s)
                    in settle_pending k e st now s))"

section \<open>Lemmas\<close>

text \<open>
  What the adapter relies on from its sinks, as an interface: a property of the adapter and the world that no
  sink and no bookkeeping of the adapter destroys. Every poll keeps such a property.
\<close>

locale sink_invariant =
  fixes k :: "'w shelly_sinks"
    and inv :: "shelly_adapter \<times> 'w \<Rightarrow> bool"
  assumes keeps_report: "inv s \<Longrightarrow> inv (fst (sink_report k r s))"
    and keeps_failure: "inv s \<Longrightarrow> inv (fst (sink_failure k e active reason t s))"
    and keeps_reconcile: "inv s \<Longrightarrow> inv (fst (sink_reconcile k i on t s))"
    and keeps_expire: "inv s \<Longrightarrow> inv (fst (sink_expire k i reason t s))"
    and keeps_error: "inv s \<Longrightarrow> inv (map_prod (sa_set_error i message) id s)"
    and keeps_forget: "inv s \<Longrightarrow> inv (map_prod (forget_pending i) id s)"
begin

lemmas keeps = keeps_report keeps_failure keeps_reconcile keeps_expire keeps_error keeps_forget

lemma expireIfNeeded_keeps: "inv s \<Longrightarrow> inv (expireIfNeeded k e now force s)"
  by (auto simp: expireIfNeeded_def Let_def case_prod_beta split: option.splits intro!: keeps)

lemma failPoll_keeps: "inv s \<Longrightarrow> inv (failPoll describe k e code err now s)"
  unfolding failPoll_def Let_def by (intro expireIfNeeded_keeps keeps)

lemma settle_pending_keeps: "inv s \<Longrightarrow> inv (settle_pending k e st now s)"
  by (auto simp: settle_pending_def Let_def case_prod_beta split: option.splits intro!: keeps expireIfNeeded_keeps)

lemma poll_keeps: "inv s \<Longrightarrow> inv (shelly_poll describe k e config status now s)"
  by (auto simp: shelly_poll_def Let_def split: sum.splits intro!: failPoll_keeps settle_pending_keeps keeps)

end

lemma set_attempts_exact:
  "fst (set_attempts rpc ctx n left err) = None \<longleftrightarrow>
     (\<exists>k<left. rpc (n + k) = None \<and> (\<forall>j<k. rpc (n + j) \<noteq> None \<and> ctx (n + j) = None))"
  by (induction rpc ctx n left err rule: set_attempts.induct)
     (auto simp: Ex_less_Suc2 All_less_Suc2 split: option.splits)

lemma set_attempts_bound: "n \<le> snd (set_attempts rpc ctx n left err) \<and> snd (set_attempts rpc ctx n left err) \<le> n + left"
  by (induction rpc ctx n left err rule: set_attempts.induct) (auto split: option.splits)

section \<open>Properties\<close>

text \<open>
  Switching is retried within bounds: a valid endpoint is called at least once and at most six times per command, and
  the command is accepted exactly when one of these calls succeeds before the context of the call ends.
\<close>

theorem retry_exact:
  assumes "sh_validate_endpoint parse e = None"
  shows "(fst (setWithRetry rpc ctx e) = None \<longleftrightarrow>
      (\<exists>k < nat (sh_retries e + 1). rpc k = None \<and> list_all (\<lambda>j. rpc j \<noteq> None \<and> ctx j = None) [0..<k])) \<and>
    1 \<le> snd (setWithRetry rpc ctx e) \<and> snd (setWithRetry rpc ctx e) \<le> 6"
proof -
  obtain n where n: "nat (sh_retries e + 1) = Suc n" "n \<le> 5"
    using assms by (intro that [of "nat (sh_retries e)"]) (auto simp: sh_validate_endpoint_def)
  have "1 \<le> snd (set_attempts rpc ctx 0 (Suc n) None)"
    using set_attempts_bound [of 1 rpc ctx n] by (auto split: option.splits)
  then show ?thesis
    using set_attempts_exact [of rpc ctx 0 "Suc n" None] set_attempts_bound [of 0 rpc ctx "Suc n" None] n
    by (auto simp: setWithRetry_def list_all_iff)
qed

section \<open>Concrete runs\<close>

definition sample_switch :: shelly_endpoint where
  "sample_switch =
     \<lparr>sh_id = sample_id 13, sh_equipment = sample_id 7, sh_base_url = ''plug'', sh_channel = 0,
      sh_poll_interval = 5000000000, sh_request_timeout = 1000000000, sh_retries = 2, sh_safe_on = False,
      sh_power_return = PowerReturnOff\<rparr>"

lemma sample_switch_valid: "sh_validate_endpoint plain_url sample_switch = None"
  by (simp add: sh_validate_endpoint_def sample_switch_def rpcURL_def plain_url_def)

theorem retry_exact_witness:
  "fst (setWithRetry (\<lambda>n. if n < 2 then Some (ErrorString ''timeout'') else None) (\<lambda>_. None) sample_switch) = None"
  using retry_exact [OF sample_switch_valid, of "\<lambda>n. if n < 2 then Some (ErrorString ''timeout'') else None" "\<lambda>_. None"]
  by (auto simp: sample_switch_def list_all_iff intro!: exI [of _ 2])

end
