(* ===== verification/Esp32.thy ===== *)
theory Esp32
  imports GoNet Health
begin

text \<open>
  The package \<open>internal/adapters/esp32\<close>: the sensor nodes with two temperature probes
  (\<open>adapter.go\<close>) and their HTTP client (\<open>client.go\<close>). The adapter hands measurements and failures
  to two sinks; here they are functions on a state \<open>'w\<close>, in the composed system the operations of
  the bench coordinator (theory Bench).
\<close>

section \<open>Endpoints and snapshots\<close>

record esp_endpoint =
  esp_id :: ident
  esp_device :: ident
  esp_base_url :: string
  esp_token :: string
  esp_probes :: "ident \<times> ident"
  esp_poll_interval :: duration
  esp_request_timeout :: duration
  esp_fresh_for :: duration
  esp_clock_skew :: duration
  esp_difference :: float64

record probe_dto =
  probe_sensor :: ident
  probe_celsius :: "float64 option"
  probe_valid :: bool
  probe_error :: string

record snapshot_dto =
  dto_schema :: string
  dto_node :: string
  dto_firmware :: string
  dto_boot :: string
  dto_sequence :: "64 word"
  dto_observed :: gotime
  dto_probes :: "probe_dto list"

section \<open>The HTTP client\<close>

definition snapshotURL :: "url_parser \<Rightarrow> string \<Rightarrow> go_error + url" where
  "snapshotURL parse base =
     (let bad = Inl (ErrorString ''esp32 base URL must be an http or https URL with a host and no credentials'')
      in case parse base of
           Inl _ \<Rightarrow> bad
         | Inr u \<Rightarrow>
             if url_scheme u \<noteq> ''http'' \<and> url_scheme u \<noteq> ''https'' \<or> url_host u = [] \<or> url_user u then bad
             else if url_raw_query u \<noteq> [] \<or> url_fragment u \<noteq> []
             then Inl (ErrorString ''esp32 base URL must not contain a query or fragment'')
             else Inr (u\<lparr>url_path := ''/aquaos/v1/snapshot''\<rparr>))"

definition maximumSnapshotBytes :: nat where
  "maximumSnapshotBytes = 64 * 1024"

definition esp_fetch ::
  "url_parser \<Rightarrow> snapshot_dto http_client \<Rightarrow> string \<Rightarrow> string \<Rightarrow> go_error + snapshot_dto"
where
  "esp_fetch parse do base token =
     (case snapshotURL parse base of
        Inl err \<Rightarrow> Inl err
      | Inr u \<Rightarrow>
          (let request = \<lparr>req_method = ''GET'', req_url = u, req_headers = [(''Accept'', ''application/json'')] @
                 (if token \<noteq> [] then [(''Authorization'', ''Bearer '' @ token)] else [])\<rparr>
           in case do request of
                Inl err \<Rightarrow> Inl (Wrapped ''fetch ESP32 snapshot'' err)
              | Inr response \<Rightarrow>
                  (case resp_body response of
                     Inl err \<Rightarrow> Inl (Wrapped ''read ESP32 snapshot'' err)
                   | Inr body \<Rightarrow>
                       if body_size body > maximumSnapshotBytes
                       then Inl (ErrorString ''esp32 snapshot exceeds size limit'')
                       else if \<not> http_success response
                       then Inl (ErrorFmt ''esp32 snapshot returned HTTP status %d'' [itoa (resp_status response)])
                       else case body_json body of
                              Inl err \<Rightarrow> Inl (Wrapped ''decode ESP32 snapshot'' err)
                            | Inr snapshot \<Rightarrow> Inr snapshot)))"

section \<open>The adapter\<close>

record esp_adapter =
  esp_endpoints :: "esp_endpoint list"
  esp_sequences :: "ident \<rightharpoonup> string \<times> 64 word"
  esp_started :: bool
  esp_errors :: "ident \<rightharpoonup> string"

definition esp_validate_endpoint :: "url_parser \<Rightarrow> esp_endpoint \<Rightarrow> go_error option" where
  "esp_validate_endpoint parse e = first_error [
     wrap ''esp32 endpoint ID'' (validateUUID (esp_id e)),
     wrap ''esp32 device ID'' (validateUUID (esp_device e)),
     guard (fst (esp_probes e) = snd (esp_probes e)) (ErrorString ''esp32 probes must have independent sensor IDs''),
     wrap ''esp32 probe ID'' (validateUUID (fst (esp_probes e))),
     wrap ''esp32 probe ID'' (validateUUID (snd (esp_probes e))),
     (case snapshotURL parse (esp_base_url e) of Inl err \<Rightarrow> Some err | Inr _ \<Rightarrow> None),
     guard (esp_poll_interval e \<le> 0 \<or> esp_request_timeout e \<le> 0 \<or> esp_request_timeout e > esp_poll_interval e)
       (ErrorString ''esp32 request timeout must be positive and no greater than poll interval''),
     guard (esp_fresh_for e < esp_poll_interval e \<or> esp_clock_skew e < 0 \<or> esp_clock_skew e > 60000000000)
       (ErrorString ''esp32 freshness or clock-skew configuration is invalid''),
     guard (f64_le (esp_difference e) (Finite 0) \<or> f64_lt (Finite 10) (esp_difference e))
       (ErrorString ''esp32 maximum probe difference must be greater than zero and at most 10 celsius'')]"

fun esp_validate_all :: "url_parser \<Rightarrow> esp_endpoint list \<Rightarrow> ident set \<Rightarrow> go_error option" where
  "esp_validate_all parse [] seen = None"
| "esp_validate_all parse (e # es) seen =
     (case esp_validate_endpoint parse e of
        Some err \<Rightarrow> Some err
      | None \<Rightarrow>
          if esp_id e \<in> seen then Some (ErrorFmt ''duplicate ESP32 endpoint %s'' [esp_id e])
          else esp_validate_all parse es (insert (esp_id e) seen))"

text \<open>The flag is whether every dependency was given.\<close>

definition NewEsp32Adapter :: "url_parser \<Rightarrow> bool \<Rightarrow> esp_endpoint list \<Rightarrow> go_error + esp_adapter" where
  "NewEsp32Adapter parse deps endpoints =
     (if \<not> deps then Inl (ErrorString ''all ESP32 adapter dependencies are required'')
      else case esp_validate_all parse endpoints {} of
             Some err \<Rightarrow> Inl err
           | None \<Rightarrow> Inr \<lparr>esp_endpoints = endpoints, esp_sequences = Map.empty, esp_started = False, esp_errors = Map.empty\<rparr>)"

definition esp_start :: "esp_adapter \<Rightarrow> esp_adapter" where
  "esp_start a = a\<lparr>esp_started := True\<rparr>"

text \<open>\<open>Stop\<close> with the error of the context on entry; on its way out it returns it again.\<close>

definition esp_stop :: "go_error option \<Rightarrow> go_error option \<Rightarrow> esp_adapter \<Rightarrow> esp_adapter \<times> go_error option" where
  "esp_stop entry exit a =
     (case entry of Some err \<Rightarrow> (a, Some err) | None \<Rightarrow> (a\<lparr>esp_started := False\<rparr>, exit))"

definition esp_health :: "gotime \<Rightarrow> esp_adapter \<Rightarrow> status" where
  "esp_health now a =
     (let failures = card (dom (esp_errors a));
          state = (if \<not> esp_started a then StateUnhealthy else if failures > 0 then StateDegraded else StateHealthy);
          message = (if failures > 0 then decimal failures @ '' ESP32 endpoint(s) unhealthy'' else [])
      in NewStatus ''adapter-esp32'' state message now)"

section \<open>Validation of a snapshot\<close>

text \<open>The probes by identifier; an identifier that is invalid or repeated is refused.\<close>

fun probes_by_id :: "probe_dto list \<Rightarrow> (ident \<rightharpoonup> probe_dto) \<Rightarrow> go_error + (ident \<rightharpoonup> probe_dto)" where
  "probes_by_id [] m = Inr m"
| "probes_by_id (p # ps) m =
     (if validateUUID (probe_sensor p) \<noteq> None then Inl (ErrorString ''esp32 probe identity is invalid'')
      else if m (probe_sensor p) \<noteq> None then Inl (ErrorString ''esp32 probe identity is duplicated'')
      else probes_by_id ps (m(probe_sensor p \<mapsto> p)))"

text \<open>The reading of a probe that can be used: reported, marked valid, with a finite value.\<close>

definition probe_reading :: "(ident \<rightharpoonup> probe_dto) \<Rightarrow> ident \<Rightarrow> float64 option" where
  "probe_reading m i =
     (case m i of
        None \<Rightarrow> None
      | Some p \<Rightarrow>
          (case probe_celsius p of
             None \<Rightarrow> None
           | Some c \<Rightarrow> if \<not> probe_valid p \<or> f64_is_nan c \<or> f64_is_inf c then None else Some c))"

definition probes_disagree :: "esp_endpoint \<Rightarrow> float64 option \<Rightarrow> float64 option \<Rightarrow> bool" where
  "probes_disagree e r0 r1 =
     (case (r0, r1) of
        (Some x, Some y) \<Rightarrow> f64_lt (esp_difference e) (f64_abs (f64_sub x y))
      | _ \<Rightarrow> False)"

text \<open>Quality and condition before the age of the snapshot is looked at, and after.\<close>

definition snapshot_quality ::
  "esp_endpoint \<Rightarrow> gotime \<Rightarrow> gotime \<Rightarrow> float64 option \<Rightarrow> float64 option \<Rightarrow> quality \<times> string"
where
  "snapshot_quality e observed now r0 r1 =
     (if \<not> now < observed + esp_fresh_for e then (QualityStale, ''esp32.snapshot_stale'')
      else if probes_disagree e r0 r1 then (QualitySuspect, ''esp32.probe_disagreement'')
      else (QualityGood, if r0 = None \<or> r1 = None then ''esp32.probe_invalid'' else []))"

definition probe_measurement ::
  "esp_endpoint \<Rightarrow> snapshot_dto \<Rightarrow> gotime \<Rightarrow> quality \<Rightarrow> ident \<Rightarrow> float64 option \<Rightarrow> measurement ret"
where
  "probe_measurement e s now q i r =
     (case NewQuantity QuantityTemperature (case r of None \<Rightarrow> Finite 0 | Some c \<Rightarrow> c) UnitCelsius of
        (_, Some err) \<Rightarrow> fail err
      | (None, None) \<Rightarrow> fail (ErrorString [])
      | (Some quantity, None) \<Rightarrow>
          ok \<lparr>m_sensor = i, m_value = quantity, m_quality = (if r = None then QualityInvalid else q),
              m_observed = dto_observed s, m_received = now, m_fresh_for = esp_fresh_for e\<rparr>)"

definition validateSnapshot ::
  "esp_endpoint \<Rightarrow> snapshot_dto \<Rightarrow> gotime \<Rightarrow> esp_adapter \<Rightarrow>
   esp_adapter \<times> measurement list \<times> string \<times> go_error option"
where
  "validateSnapshot e s now a =
     (if dto_schema s \<noteq> ''1.0''
      then (a, [], ''esp32.schema_unsupported'', Some (ErrorString ''unsupported ESP32 snapshot schema''))
      else if dto_node s \<noteq> esp_device e \<or> dto_boot s = [] \<or> length (dto_boot s) > 128 \<or> dto_sequence s = 0
      then (a, [], ''esp32.identity_invalid'', Some (ErrorString ''invalid ESP32 node identity, boot ID, or sequence''))
      else if is_zero (dto_observed s) \<or> dto_observed s > now + esp_clock_skew e
      then (a, [], ''esp32.timestamp_invalid'', Some (ErrorString ''invalid ESP32 observation timestamp''))
      else if length (dto_probes s) \<noteq> 2
      then (a, [], ''esp32.probe_count_invalid'', Some (ErrorString ''esp32 snapshot must contain exactly two probes''))
      else case probes_by_id (dto_probes s) Map.empty of
             Inl err \<Rightarrow> (a, [], ''esp32.probe_identity_invalid'', Some err)
           | Inr byID \<Rightarrow>
               (let r0 = probe_reading byID (fst (esp_probes e));
                    r1 = probe_reading byID (snd (esp_probes e));
                    (q, condition) = snapshot_quality e (dto_observed s) now r0 r1
                in case (probe_measurement e s now q (fst (esp_probes e)) r0,
                         probe_measurement e s now q (snd (esp_probes e)) r1) of
                     ((Some m0, None), (Some m1, None)) \<Rightarrow>
                       (let (boot, sequence) = (case esp_sequences a (esp_id e) of None \<Rightarrow> ([], 0) | Some p \<Rightarrow> p)
                        in if boot = dto_boot s \<and> dto_sequence s \<le> sequence
                           then (a, [], ''esp32.sequence_stale'',
                                 Some (ErrorString ''duplicate or out-of-order ESP32 snapshot''))
                           else (a\<lparr>esp_sequences := (esp_sequences a)(esp_id e \<mapsto> (dto_boot s, dto_sequence s))\<rparr>,
                                 [m0, m1], condition, None))
                   | ((_, Some err), _) \<Rightarrow> (a, [], ''esp32.temperature_invalid'', Some err)
                   | (_, (_, err)) \<Rightarrow> (a, [], ''esp32.temperature_invalid'', err)))"

section \<open>Polling\<close>

definition esp_set_error :: "ident \<Rightarrow> string \<Rightarrow> esp_adapter \<Rightarrow> esp_adapter" where
  "esp_set_error i message a =
     (if message = [] then a\<lparr>esp_errors := (esp_errors a)(i := None)\<rparr>
      else a\<lparr>esp_errors := (esp_errors a)(i \<mapsto> message)\<rparr>)"

text \<open>
  The sinks: \<open>ESP32Failure\<close> and \<open>ReportESP32\<close>. Their errors are logged and otherwise ignored. The
  text of an error is an argument, as what it says depends on the library.
\<close>

type_synonym 'w esp_failure = "esp_endpoint \<Rightarrow> bool \<Rightarrow> string \<Rightarrow> gotime \<Rightarrow> 'w \<Rightarrow> 'w \<times> go_error option"
type_synonym 'w esp_report = "ident \<Rightarrow> measurement \<Rightarrow> 'w \<Rightarrow> 'w \<times> go_error option"

definition esp_fail ::
  "(go_error \<Rightarrow> string) \<Rightarrow> 'w esp_failure \<Rightarrow> esp_endpoint \<Rightarrow> string \<Rightarrow> go_error \<Rightarrow> gotime \<Rightarrow> esp_adapter \<times> 'w \<Rightarrow> esp_adapter \<times> 'w"
where
  "esp_fail text failure e code err now = (\<lambda>(a, w).
     (esp_set_error (esp_id e) (code @ '': '' @ text err) a, fst (failure e True code now w)))"

definition esp_poll ::
  "(go_error \<Rightarrow> string) \<Rightarrow> 'w esp_failure \<Rightarrow> 'w esp_report \<Rightarrow> esp_endpoint \<Rightarrow> go_error + snapshot_dto \<Rightarrow> gotime \<Rightarrow>
   esp_adapter \<times> 'w \<Rightarrow> esp_adapter \<times> 'w"
where
  "esp_poll text failure report e fetched now = (\<lambda>(a, w).
     case fetched of
       Inl err \<Rightarrow> esp_fail text failure e ''esp32.unreachable'' err now (a, w)
     | Inr s \<Rightarrow>
         (case validateSnapshot e s now a of
            (a, _, condition, Some err) \<Rightarrow> esp_fail text failure e condition err now (a, w)
          | (a, ms, condition, None) \<Rightarrow>
              (let a = esp_set_error (esp_id e) [] a;
                   w = fst (failure e (condition \<noteq> []) condition now w)
               in (a, fold (\<lambda>m w. fst (report (esp_id e) m w)) ms w))))"

section \<open>Lemmas\<close>

lemma validateSnapshot_error:
  "validateSnapshot e s now a = (a', ms, c, Some err) \<Longrightarrow> a' = a \<and> ms = []"
  by (auto simp: validateSnapshot_def Let_def case_prod_beta split: if_splits sum.splits option.splits prod.splits)

lemma probe_reading_finite: "probe_reading m i = Some x \<Longrightarrow> f64_finite x"
  by (auto simp: probe_reading_def f64_finite_def split: option.splits if_splits)

abbreviation celsius :: "float64 \<Rightarrow> quantity" where
  "celsius x \<equiv> \<lparr>quantity_kind = QuantityTemperature, quantity_value = x, quantity_unit = UnitCelsius\<rparr>"

lemma temperature_value [simp]:
  assumes "f64_finite x"
  shows "quantity_validate (celsius x) = None" "NewQuantity QuantityTemperature x UnitCelsius = ok (celsius x)"
  using assms by (simp_all add: NewQuantity_def quantity_validate_def f64_finite_def)

lemma probe_measurement_ok:
  assumes "case r of None \<Rightarrow> True | Some c \<Rightarrow> f64_finite c"
  shows "\<exists>v. probe_measurement e s now q i r = ok \<lparr>m_sensor = i, m_value = v,
    m_quality = (if r = None then QualityInvalid else q), m_observed = dto_observed s, m_received = now,
    m_fresh_for = esp_fresh_for e\<rparr> \<and> quantity_validate v = None"
proof -
  let ?x = "case r of None \<Rightarrow> Finite 0 | Some c \<Rightarrow> c"
  have "f64_finite ?x" using assms by (simp add: f64_finite_iff split: option.splits)
  then show ?thesis
    by (intro exI [of _ "celsius ?x"]) (simp add: probe_measurement_def ok_def del: ok_simps)
qed

text \<open>What was checked of a snapshot that is accepted, and what comes of it.\<close>

lemma validateSnapshot_ok:
  assumes "validateSnapshot e s now a = (a', ms, c, None)"
  shows "\<exists>byID r0 r1 v0 v1. probes_by_id (dto_probes s) Map.empty = Inr byID \<and>
    r0 = probe_reading byID (fst (esp_probes e)) \<and> r1 = probe_reading byID (snd (esp_probes e)) \<and>
    dto_observed s \<noteq> 0 \<and> dto_observed s \<le> now + esp_clock_skew e \<and>
    c = snd (snapshot_quality e (dto_observed s) now r0 r1) \<and>
    quantity_validate v0 = None \<and> quantity_validate v1 = None \<and>
    ms = [\<lparr>m_sensor = fst (esp_probes e), m_value = v0,
           m_quality = (if r0 = None then QualityInvalid else fst (snapshot_quality e (dto_observed s) now r0 r1)),
           m_observed = dto_observed s, m_received = now, m_fresh_for = esp_fresh_for e\<rparr>,
          \<lparr>m_sensor = snd (esp_probes e), m_value = v1,
           m_quality = (if r1 = None then QualityInvalid else fst (snapshot_quality e (dto_observed s) now r0 r1)),
           m_observed = dto_observed s, m_received = now, m_fresh_for = esp_fresh_for e\<rparr>] \<and>
    dto_boot s \<noteq> [] \<and>
    (case esp_sequences a (esp_id e) of None \<Rightarrow> True | Some (boot, n) \<Rightarrow> if boot = dto_boot s then n < dto_sequence s else True) \<and>
    a' = a\<lparr>esp_sequences := (esp_sequences a)(esp_id e \<mapsto> (dto_boot s, dto_sequence s))\<rparr>"
proof (cases "probes_by_id (dto_probes s) Map.empty")
  case (Inl err)
  with assms show ?thesis by (auto simp: validateSnapshot_def split: if_splits)
next
  case (Inr byID)
  let ?r0 = "probe_reading byID (fst (esp_probes e))" and ?r1 = "probe_reading byID (snd (esp_probes e))"
  let ?q = "fst (snapshot_quality e (dto_observed s) now ?r0 ?r1)"
  have fin: "case probe_reading byID i of None \<Rightarrow> True | Some c \<Rightarrow> f64_finite c" for i
    using probe_reading_finite by (auto split: option.splits)
  obtain v0 where v0: "probe_measurement e s now ?q (fst (esp_probes e)) ?r0 = ok \<lparr>m_sensor = fst (esp_probes e), m_value = v0,
      m_quality = (if ?r0 = None then QualityInvalid else ?q), m_observed = dto_observed s, m_received = now,
      m_fresh_for = esp_fresh_for e\<rparr>" "quantity_validate v0 = None"
    using probe_measurement_ok [OF fin] by blast
  obtain v1 where v1: "probe_measurement e s now ?q (snd (esp_probes e)) ?r1 = ok \<lparr>m_sensor = snd (esp_probes e), m_value = v1,
      m_quality = (if ?r1 = None then QualityInvalid else ?q), m_observed = dto_observed s, m_received = now,
      m_fresh_for = esp_fresh_for e\<rparr>" "quantity_validate v1 = None"
    using probe_measurement_ok [OF fin] by blast
  show ?thesis
    using assms Inr v0 v1
    by (auto simp: validateSnapshot_def Let_def case_prod_beta ok_def split: if_splits option.splits)
qed

section \<open>Histories of polls\<close>

text \<open>The boot and sequence number of the snapshot a poll accepts.\<close>

definition esp_accepted :: "esp_endpoint \<Rightarrow> go_error + snapshot_dto \<Rightarrow> gotime \<Rightarrow> esp_adapter \<Rightarrow> (string \<times> 64 word) list" where
  "esp_accepted e fetched now a =
     (case fetched of
        Inl _ \<Rightarrow> []
      | Inr s \<Rightarrow> if snd (snd (snd (validateSnapshot e s now a))) = None then [(dto_boot s, dto_sequence s)] else [])"

text \<open>A snapshot is newer than an earlier one of the same boot when its number is greater.\<close>

definition newer :: "string \<times> 64 word \<Rightarrow> string \<times> 64 word \<Rightarrow> bool" where
  "newer x y = (if fst y = fst x then snd y < snd x else True)"

text \<open>
  \<open>esp_history e a h\<close>: \<open>a\<close> is reachable from a new adapter by polls of its endpoints in any order, and \<open>h\<close>
  holds what was accepted from endpoint \<open>e\<close>, the newest first. The adapter does not depend on its sinks, so
  that they are taken on a world of one state.
\<close>

lemma esp_poll_adapter:
  "fst (esp_poll describe failure report e fetched now (a, w)) = fst (esp_poll describe failure' report' e fetched now (a, w'))"
  by (auto simp: esp_poll_def esp_fail_def Let_def split: sum.splits prod.splits option.splits)

inductive esp_history :: "esp_endpoint \<Rightarrow> esp_adapter \<Rightarrow> (string \<times> 64 word) list \<Rightarrow> bool" where
  fresh: "NewEsp32Adapter parse deps es = Inr a \<Longrightarrow> esp_history e a []"
| own: "esp_history e a h \<Longrightarrow> a' = fst (esp_poll describe failure report e fetched now (a, ())) \<Longrightarrow>
    esp_history e a' (esp_accepted e fetched now a @ h)"
| other: "esp_history e a h \<Longrightarrow> esp_id e' \<noteq> esp_id e \<Longrightarrow>
    a' = fst (esp_poll describe failure report e' fetched now (a, ())) \<Longrightarrow> esp_history e a' h"
| lifecycle: "esp_history e a h \<Longrightarrow> a' = esp_start a \<or> a' = fst (esp_stop entry exit a) \<Longrightarrow> esp_history e a' h"

lemma esp_set_error_sequences [simp]: "esp_sequences (esp_set_error i message a) = esp_sequences a"
  by (simp add: esp_set_error_def)

lemma esp_poll_sequences:
  "esp_sequences (fst (esp_poll describe failure report e fetched now (a, w))) =
     (case esp_accepted e fetched now a of [] \<Rightarrow> esp_sequences a | x # _ \<Rightarrow> (esp_sequences a)(esp_id e \<mapsto> x))"
proof (cases fetched)
  case (Inl err)
  then show ?thesis by (simp add: esp_poll_def esp_fail_def esp_accepted_def)
next
  case (Inr s)
  show ?thesis
  proof (cases "validateSnapshot e s now a")
    case (fields a' ms c err)
    then show ?thesis
      using Inr validateSnapshot_error [of e s now a a' ms c] validateSnapshot_ok [of e s now a a' ms c]
      by (cases err) (auto simp: esp_poll_def esp_fail_def esp_accepted_def Let_def)
  qed
qed

lemma esp_accepted_newer:
  assumes "esp_accepted e fetched now a = [x]" "esp_sequences a (esp_id e) = Some y"
  shows "newer x y"
proof (cases fetched)
  case (Inr s)
  with assms(1) obtain a' ms c where "validateSnapshot e s now a = (a', ms, c, None)" "x = (dto_boot s, dto_sequence s)"
    by (cases "validateSnapshot e s now a") (auto simp: esp_accepted_def split: if_splits)
  with validateSnapshot_ok [of e s now a a' ms c] assms(2) show ?thesis by (auto simp: newer_def split: prod.splits)
qed (use assms(1) in \<open>simp add: esp_accepted_def\<close>)

lemma esp_accepted_cases: "esp_accepted e fetched now a = [] \<or> (\<exists>x. esp_accepted e fetched now a = [x])"
  by (auto simp: esp_accepted_def split: sum.splits)

lemma esp_history_inv:
  "esp_history e a h \<Longrightarrow>
     esp_sequences a (esp_id e) = (case h of [] \<Rightarrow> None | x # _ \<Rightarrow> Some x) \<and>
     successively newer h"
proof (induction rule: esp_history.induct)
  case (fresh parse deps es a e)
  then show ?case by (auto simp: NewEsp32Adapter_def split: if_splits option.splits)
next
  case (own e a h a' describe failure report fetched now)
  then show ?case
    using esp_accepted_cases [of e fetched now a] esp_accepted_newer [of e fetched now a]
    by (cases h) (auto simp: esp_poll_sequences)
next
  case (other e a h e' a' describe failure report fetched now)
  then show ?case by (auto simp: esp_poll_sequences split: list.splits)
next
  case (lifecycle e a h a' entry exit)
  then show ?case by (auto simp: esp_start_def esp_stop_def split: option.splits)
qed

section \<open>Properties\<close>

text \<open>
  Replayed and reordered snapshots are rejected: in any history of polls, of however many nodes, the snapshots
  accepted from a node have strictly increasing sequence numbers as long as it does not reboot.
\<close>

theorem sequences_increase:
  assumes "esp_history e a h"
  shows "successively newer h"
  using esp_history_inv [OF assms] by blast

text \<open>
  A probe tolerance that is not a number passes validation, and turns the comparison of the probes off: with it
  no two readings ever disagree.
\<close>

theorem nan_tolerance:
  assumes "esp_validate_endpoint parse e = None"
  shows "esp_validate_endpoint parse (e\<lparr>esp_difference := NaN\<rparr>) = None \<and>
    \<not> probes_disagree (e\<lparr>esp_difference := NaN\<rparr>) r0 r1"
  using assms by (simp add: esp_validate_endpoint_def f64_le_def probes_disagree_def split: option.splits)

section \<open>Concrete runs\<close>

definition sample_node :: esp_endpoint where
  "sample_node =
     \<lparr>esp_id = sample_id 9, esp_device = sample_id 10, esp_base_url = ''node'', esp_token = [],
      esp_probes = (sample_id 11, sample_id 12), esp_poll_interval = 5000000000, esp_request_timeout = 1000000000,
      esp_fresh_for = 15000000000, esp_clock_skew = 2000000000, esp_difference = Finite 1\<rparr>"

definition sample_probe :: "nat \<Rightarrow> rat \<Rightarrow> probe_dto" where
  "sample_probe n c = \<lparr>probe_sensor = sample_id n, probe_celsius = Some (Finite c), probe_valid = True, probe_error = []\<rparr>"

definition sample_snapshot :: "64 word \<Rightarrow> gotime \<Rightarrow> snapshot_dto" where
  "sample_snapshot n t =
     \<lparr>dto_schema = ''1.0'', dto_node = sample_id 10, dto_firmware = ''1'', dto_boot = ''b'', dto_sequence = n,
      dto_observed = t, dto_probes = [sample_probe 11 25, sample_probe 12 25]\<rparr>"

definition sample_esp :: esp_adapter where
  "sample_esp = \<lparr>esp_endpoints = [sample_node], esp_sequences = Map.empty, esp_started = False, esp_errors = Map.empty\<rparr>"

lemma sample_node_valid: "esp_validate_endpoint plain_url sample_node = None"
  by (simp add: esp_validate_endpoint_def sample_node_def snapshotURL_def plain_url_def f64_le_def)

lemma sample_esp_new: "NewEsp32Adapter plain_url True [sample_node] = Inr sample_esp"
  by (simp add: NewEsp32Adapter_def sample_node_valid sample_esp_def)

lemma sample_probes:
  "probes_by_id (dto_probes (sample_snapshot n t)) Map.empty =
     Inr [sample_id 11 \<mapsto> sample_probe 11 25, sample_id 12 \<mapsto> sample_probe 12 25]"
  by (simp add: sample_snapshot_def sample_probe_def)

lemma sample_readings:
  "probe_reading [sample_id 11 \<mapsto> sample_probe 11 25, sample_id 12 \<mapsto> sample_probe 12 25] (sample_id 11) = Some (Finite 25)"
  "probe_reading [sample_id 11 \<mapsto> sample_probe 11 25, sample_id 12 \<mapsto> sample_probe 12 25] (sample_id 12) = Some (Finite 25)"
  by (simp_all add: probe_reading_def sample_probe_def)

lemma sample_agree: "\<not> probes_disagree sample_node (Some (Finite 25)) (Some (Finite 25))"
  by (simp add: probes_disagree_def sample_node_def f64_sub_def f64_round_def)

lemma sample_accepted:
  assumes "0 < t" "t \<le> now + 2000000000" "now < t + 15000000000"
    and "esp_sequences a (sample_id 9) = None \<or> (\<exists>k. esp_sequences a (sample_id 9) = Some (''b'', k) \<and> k < n)" "0 < n"
  shows "\<exists>a' ms. validateSnapshot sample_node (sample_snapshot n t) now a = (a', ms, [], None)"
proof -
  have q: "snapshot_quality sample_node t now (Some (Finite 25)) (Some (Finite 25)) = (QualityGood, [])"
    using assms(3) sample_agree by (simp add: snapshot_quality_def) (simp add: sample_node_def)
  have m: "\<exists>m. probe_measurement sample_node (sample_snapshot n t) now QualityGood i (Some (Finite 25)) = (Some m, None)" for i
    by (simp add: probe_measurement_def NewQuantity_def quantity_validate_def ok_def)
  then obtain m0 m1 where
    "probe_measurement sample_node (sample_snapshot n t) now QualityGood (sample_id 11) (Some (Finite 25)) = (Some m0, None)"
    "probe_measurement sample_node (sample_snapshot n t) now QualityGood (sample_id 12) (Some (Finite 25)) = (Some m1, None)"
    by blast
  with q assms sample_probes [of n t] show ?thesis
    by (auto simp: validateSnapshot_def sample_readings sample_node_def is_zero_def sample_snapshot_def)
qed

theorem nan_tolerance_witness:
  "esp_validate_endpoint plain_url (sample_node\<lparr>esp_difference := NaN\<rparr>) = None \<and>
   \<not> probes_disagree (sample_node\<lparr>esp_difference := NaN\<rparr>) (Some (Finite 25)) (Some (Finite 85))"
  by (rule nan_tolerance [OF sample_node_valid])

lemma sample_esp_accepted:
  assumes "esp_sequences a (sample_id 9) = None \<or> (\<exists>k. esp_sequences a (sample_id 9) = Some (''b'', k) \<and> k < n)" "0 < n"
  shows "esp_accepted sample_node (Inr (sample_snapshot n 5)) 5 a = [(''b'', n)]"
proof -
  obtain a' ms where "validateSnapshot sample_node (sample_snapshot n 5) 5 a = (a', ms, [], None)"
    using sample_accepted [OF _ _ _ assms, of 5 5] by auto
  then show ?thesis by (simp add: esp_accepted_def sample_snapshot_def)
qed

lemma sample_poll:
  assumes "esp_history sample_node a h" "esp_accepted sample_node fetched 5 a = x"
  shows "\<exists>a'. esp_history sample_node a' (x @ h)"
  using own [OF assms(1) refl, where fetched = fetched and now = 5] assms(2) by metis

theorem sequences_increase_witness:
  "\<exists>a. esp_history sample_node a [(''b'', 2), (''b'', 1)] \<and> successively newer [(''b'', 2), (''b'', 1)]"
proof -
  have "esp_history sample_node sample_esp []" by (rule fresh [OF sample_esp_new])
  then obtain a where a: "esp_history sample_node a [(''b'', 1)]"
    using sample_poll [OF _ sample_esp_accepted [of _ 1]] by (force simp: sample_esp_def)
  then have "esp_sequences a (sample_id 9) = Some (''b'', 1)"
    using esp_history_inv [OF a] by (simp add: sample_node_def)
  then obtain a' where "esp_history sample_node a' [(''b'', 2), (''b'', 1)]"
    using sample_poll [OF a sample_esp_accepted [of a 2]] by auto
  then show ?thesis using sequences_increase by blast
qed

end
