(* ===== verification/Bench.thy ===== *)
theory Bench
  imports Shelly Esp32 Alarms
begin

text \<open>
  The package \<open>internal/bench\<close>: the coordinator between the direct adapters and the state manager,
  the alarm manager and the command service (\<open>coordinator.go\<close>), and the closed system of these parts,
  the \<open>plant\<close>: the coordinator submits safe responses to the command service, which dispatches them
  through the executor router to the Shelly adapter, whose polls report back to the coordinator.

  An operation of the plant takes what it needs from its surroundings, a \<open>plant_env\<close>. A poll makes several
  calls; the n-th call of a plant has the surroundings \<open>envs n\<close>, with \<open>pl_calls\<close> counting the calls.
\<close>

section \<open>The coordinator\<close>

record coordinator =
  co_shelly_rules :: "ident \<rightharpoonup> ident"
  co_esp_rules :: "ident \<rightharpoonup> ident"
  co_active :: "ident \<Rightarrow> bool"
  co_shelly :: "ident \<rightharpoonup> shelly_endpoint"
  co_esp :: "ident \<rightharpoonup> esp_endpoint"

fun add_shelly_policies :: "(shelly_endpoint \<times> ident) list \<Rightarrow> coordinator \<Rightarrow> go_error + coordinator" where
  "add_shelly_policies [] c = Inr c"
| "add_shelly_policies ((e, r) # ps) c =
     (case validateUUID r of
        Some err \<Rightarrow> Inl (Wrapped ''shelly alarm rule ID'' err)
      | None \<Rightarrow>
          if co_shelly_rules c (sh_id e) \<noteq> None then Inl (ErrorString ''duplicate Shelly bench policy'')
          else add_shelly_policies ps
                 (c\<lparr>co_shelly_rules := (co_shelly_rules c)(sh_id e \<mapsto> r), co_shelly := (co_shelly c)(sh_id e \<mapsto> e)\<rparr>))"

fun add_esp_policies :: "(esp_endpoint \<times> ident) list \<Rightarrow> coordinator \<Rightarrow> go_error + coordinator" where
  "add_esp_policies [] c = Inr c"
| "add_esp_policies ((e, r) # ps) c =
     (case validateUUID r of
        Some err \<Rightarrow> Inl (Wrapped ''esp32 alarm rule ID'' err)
      | None \<Rightarrow>
          if co_esp_rules c (esp_id e) \<noteq> None then Inl (ErrorString ''duplicate ESP32 bench policy'')
          else add_esp_policies ps
                 (c\<lparr>co_esp_rules := (co_esp_rules c)(esp_id e \<mapsto> r), co_esp := (co_esp c)(esp_id e \<mapsto> e)\<rparr>))"

definition NewCoordinator ::
  "bool \<Rightarrow> (shelly_endpoint \<times> ident) list \<Rightarrow> (esp_endpoint \<times> ident) list \<Rightarrow> go_error + coordinator"
where
  "NewCoordinator deps shelly esp =
     (if \<not> deps then Inl (ErrorString ''all bench coordinator dependencies are required'')
      else case add_shelly_policies shelly
                  \<lparr>co_shelly_rules = Map.empty, co_esp_rules = Map.empty, co_active = (\<lambda>_. False),
                   co_shelly = Map.empty, co_esp = Map.empty\<rparr> of
             Inl err \<Rightarrow> Inl err
           | Inr c \<Rightarrow> add_esp_policies esp c)"

definition shelly_rule :: "shelly_endpoint \<Rightarrow> ident \<Rightarrow> rule" where
  "shelly_rule e r =
     \<lparr>rule_id = r, rule_code = ''shelly.protection_or_connection_fault'',
      rule_name = ''Shelly protection or connection fault'',
      rule_subject = \<lparr>subject_kind = ''equipment'', subject_id = sh_equipment e\<rparr>,
      rule_severity = SeverityCritical, rule_debounce = 0, rule_hysteresis = 0, rule_latching = True\<rparr>"

definition esp_rule :: "esp_endpoint \<Rightarrow> ident \<Rightarrow> rule" where
  "esp_rule e r =
     \<lparr>rule_id = r, rule_code = ''esp32.node_unhealthy'', rule_name = ''ESP32 sensor node unhealthy'',
      rule_subject = \<lparr>subject_kind = ''device'', subject_id = esp_device e\<rparr>,
      rule_severity = SeverityCritical, rule_debounce = 0, rule_hysteresis = 0, rule_latching = True\<rparr>"

fun register_each :: "alarm env \<Rightarrow> string \<Rightarrow> rule list \<Rightarrow> alarm_manager \<Rightarrow> alarm_manager \<times> go_error option" where
  "register_each env what [] m = (m, None)"
| "register_each env what (r # rs) m =
     (case RegisterRule env r m of
        (m, Some err) \<Rightarrow> (m, Some (Wrapped what err))
      | (m, None) \<Rightarrow> register_each env what rs m)"

text \<open>\<open>RegisterRules\<close>; the two lists are the orders in which the maps of rules are ranged over.\<close>

definition RegisterRules ::
  "alarm env \<Rightarrow> ident list \<Rightarrow> ident list \<Rightarrow> coordinator \<Rightarrow> alarm_manager \<Rightarrow> alarm_manager \<times> go_error option"
where
  "RegisterRules env shelly esp c m =
     (case register_each env ''register Shelly alarm''
             (List.map_filter (\<lambda>i. case (co_shelly_rules c i, co_shelly c i) of
                (Some r, Some e) \<Rightarrow> Some (shelly_rule e r) | _ \<Rightarrow> None) shelly) m of
        (m, Some err) \<Rightarrow> (m, Some err)
      | (m, None) \<Rightarrow>
          register_each env ''register ESP32 alarm''
            (List.map_filter (\<lambda>i. case (co_esp_rules c i, co_esp c i) of
               (Some r, Some e) \<Rightarrow> Some (esp_rule e r) | _ \<Rightarrow> None) esp) m)"

section \<open>The plant\<close>

record plant =
  pl_state :: state_manager
  pl_alarms :: alarm_manager
  pl_output :: world
  pl_bench :: coordinator
  pl_calls :: nat

record plant_env =
  pe_state :: "nat \<Rightarrow> state_value env"
  pe_orders :: "nat \<Rightarrow> orders"
  pe_alarm :: "alarm env"
  pe_output :: "result env"
  pe_rpc :: "nat \<Rightarrow> go_error option"
  pe_rpc_ctx :: "nat \<Rightarrow> go_error option"
  pe_ack :: gotime

text \<open>
  Several writes of state in a row: \<open>ReportShelly\<close> stops at the first error, \<open>ESP32Failure\<close> makes
  them all and keeps the errors.
\<close>

fun set_all ::
  "(nat \<Rightarrow> state_value env) \<Rightarrow> (nat \<Rightarrow> orders) \<Rightarrow> nat \<Rightarrow> state_value list \<Rightarrow> state_manager \<Rightarrow>
   (state_manager \<times> go_error option) outcome"
where
  "set_all env ord n [] m = Done (m, None)"
| "set_all env ord n (v # vs) m =
     (case sm_set (env n) (ord n) v m of
        Panic \<Rightarrow> Panic
      | Blocked \<Rightarrow> Blocked
      | Done (m, (_, Some err)) \<Rightarrow> Done (m, Some err)
      | Done (m, (_, None)) \<Rightarrow> set_all env ord (Suc n) vs m)"

fun set_each ::
  "(nat \<Rightarrow> state_value env) \<Rightarrow> (nat \<Rightarrow> orders) \<Rightarrow> nat \<Rightarrow> state_value list \<Rightarrow> state_manager \<Rightarrow>
   (state_manager \<times> go_error option list) outcome"
where
  "set_each env ord n [] m = Done (m, [])"
| "set_each env ord n (v # vs) m =
     (case sm_set (env n) (ord n) v m of
        Panic \<Rightarrow> Panic
      | Blocked \<Rightarrow> Blocked
      | Done (m, (_, err)) \<Rightarrow>
          (case set_each env ord (Suc n) vs m of
             Done (m, errs) \<Rightarrow> Done (m, err # errs)
           | Panic \<Rightarrow> Panic
           | Blocked \<Rightarrow> Blocked))"

section \<open>Safe responses\<close>

definition failure_observation :: "ident \<Rightarrow> bool \<Rightarrow> gotime \<Rightarrow> string \<Rightarrow> string \<Rightarrow> observation" where
  "failure_observation r active t reason message =
     \<lparr>obs_rule = r, obs_active = active, obs_severity = SeverityOther [], obs_at = t,
      obs_evidence = \<lparr>evidence_code = reason, evidence_message = message, evidence_metadata = None\<rparr>,
      obs_correlation = []\<rparr>"

definition safe_command :: "shelly_endpoint \<Rightarrow> gotime \<Rightarrow> command" where
  "safe_command e t =
     \<lparr>cmd_id = [], cmd_key = ''adapter-failure/'' @ sh_id e @ ''/'' @ itoa (unix_nano t), cmd_correlation = [],
      cmd_equipment = sh_equipment e, cmd_requester = ''adapter-failure-policy'', cmd_issued = t,
      cmd_expires = t + wrap64 (2 * sh_request_timeout e), cmd_expected = None, cmd_on = sh_safe_on e\<rparr>"

text \<open>
  A submission in the plant: the safety engine reads the state manager, and the executor router hands the
  command to the Shelly adapter when the equipment is one of its endpoints.
\<close>

definition shelly_router :: "plant_env \<Rightarrow> shelly_adapter \<Rightarrow> router" where
  "shelly_router env a =
     \<lparr>routes = (\<lambda>i. if sa_endpoints a i = None then None
                    else Some (\<lambda>c. snd (shelly_dispatch (pe_rpc env) (pe_rpc_ctx env) (pe_ack env) c a))),
      fallback = RejectingExecutor\<rparr>"

definition plant_deps :: "plant_env \<Rightarrow> shelly_adapter \<Rightarrow> state_manager \<Rightarrow> deps" where
  "plant_deps env a m =
     \<lparr>d_env = pe_output env, d_reader = sm_get (pe_state env 0) m,
      d_revision = (case ctx_err (pe_output env) of Some err \<Rightarrow> fail err | None \<Rightarrow> ok (sm_revision m)),
      d_dispatch = router_dispatch (shelly_router env a)\<rparr>"

definition plant_submit ::
  "plant_env \<Rightarrow> command \<Rightarrow> shelly_adapter \<times> plant \<Rightarrow> (shelly_adapter \<times> plant) \<times> result ret"
where
  "plant_submit env c = (\<lambda>(a, p).
     let (w, r) = Submit (plant_deps env a (pl_state p)) c (pl_output p);
         a' = (if w_sent w = w_sent (pl_output p) then a
               else fst (shelly_dispatch (pe_rpc env) (pe_rpc_ctx env) (pe_ack env) (last (w_sent w)) a))
     in ((a', p\<lparr>pl_output := w\<rparr>), r))"

definition ShellyFailure ::
  "plant_env \<Rightarrow> shelly_endpoint \<Rightarrow> bool \<Rightarrow> string \<Rightarrow> gotime \<Rightarrow> shelly_adapter \<times> plant \<Rightarrow>
   (shelly_adapter \<times> plant) \<times> go_error option"
where
  "ShellyFailure env e active reason t = (\<lambda>(a, p).
     case co_shelly_rules (pl_bench p) (sh_id e) of
       None \<Rightarrow> ((a, p), Some (ErrorString ''unknown Shelly failure endpoint''))
     | Some r \<Rightarrow>
         (let (m, _, _, alarm_err) = Observe (pe_alarm env)
                (failure_observation r active t reason ''Shelly reported a protection or connection fault'') (pl_alarms p);
              was = co_active (pl_bench p) (sh_id e);
              p = p\<lparr>pl_alarms := m, pl_bench := (pl_bench p)\<lparr>co_active := (co_active (pl_bench p))(sh_id e := active)\<rparr>\<rparr>
          in if \<not> active \<or> was then ((a, p), alarm_err)
             else let (s, (_, err)) = plant_submit env (safe_command e t) (a, p)
                  in (s, errors_join [alarm_err, err])))"

section \<open>Reports\<close>

definition equipment_value :: "shelly_report \<Rightarrow> duration \<Rightarrow> string \<Rightarrow> canonical \<Rightarrow> state_value" where
  "equipment_value r fresh attribute v =
     \<lparr>sv_key = \<lparr>key_kind = EntityEquipment, key_entity = rep_equipment r, key_plane = PlaneReported, key_attribute = attribute\<rparr>,
      sv_value = v, sv_quality = QualityGood, sv_observed = rep_observed r, sv_received = rep_observed r,
      sv_fresh_for = fresh, sv_source = rep_endpoint r, sv_revision = 0\<rparr>"

fun report_quantities :: "(string \<times> quantity_kind \<times> unit_kind \<times> float64) list \<Rightarrow> go_error + (string \<times> canonical) list" where
  "report_quantities [] = Inr []"
| "report_quantities ((attribute, kind, unit, x) # qs) =
     (case NewQuantity kind x unit of
        (_, Some err) \<Rightarrow> Inl err
      | (None, None) \<Rightarrow> Inl (ErrorString [])
      | (Some q, None) \<Rightarrow>
          (case report_quantities qs of
             Inl err \<Rightarrow> Inl err
           | Inr vs \<Rightarrow> Inr ((attribute, NewQuantityValue q) # vs)))"

definition report_values :: "shelly_endpoint \<Rightarrow> shelly_report \<Rightarrow> go_error + state_value list" where
  "report_values e r =
     (case report_quantities
             [(''power'', QuantityPower, UnitWatts, rep_power r), (''voltage'', QuantityVoltage, UnitVolts, rep_voltage r),
              (''current'', QuantityCurrent, UnitAmperes, rep_current r)] of
        Inl err \<Rightarrow> Inl err
      | Inr vs \<Rightarrow> Inr (map (\<lambda>(attribute, v). equipment_value r (wrap64 (sh_poll_interval e * 2)) attribute v)
                          ((''on'', NewBooleanValue (rep_on r)) # vs)))"

text \<open>What a report says about the endpoint once the state was written: \<open>None\<close> when it says nothing.\<close>

definition report_verdict :: "shelly_endpoint \<Rightarrow> shelly_report \<Rightarrow> (bool \<times> string) option" where
  "report_verdict e r =
     (let desired = (case rep_desired r of None \<Rightarrow> sh_safe_on e | Some d \<Rightarrow> d)
      in if rep_errors r \<noteq> [] then Some (True, ''shelly.protection.'' @ join_with ''+'' (rep_errors r))
         else if \<not> rep_pending r \<and> rep_on r \<noteq> desired then Some (True, ''shelly.reported_divergence'')
         else if rep_on r = desired then Some (False, ''shelly.reported_converged'')
         else None)"

definition ReportShelly ::
  "plant_env \<Rightarrow> shelly_report \<Rightarrow> shelly_adapter \<times> plant \<Rightarrow> ((shelly_adapter \<times> plant) \<times> go_error option) outcome"
where
  "ReportShelly env r = (\<lambda>(a, p).
     case co_shelly (pl_bench p) (rep_endpoint r) of
       None \<Rightarrow> Done ((a, p), Some (ErrorString ''unknown Shelly report endpoint''))
     | Some e \<Rightarrow>
         if sh_equipment e \<noteq> rep_equipment r
         then Done ((a, p), Some (ErrorString ''unknown Shelly report endpoint''))
         else case report_values e r of
           Inl err \<Rightarrow> Done ((a, p), Some err)
         | Inr vs \<Rightarrow>
             (case set_all (pe_state env) (pe_orders env) 0 vs (pl_state p) of
                Panic \<Rightarrow> Panic
              | Blocked \<Rightarrow> Blocked
              | Done (m, Some err) \<Rightarrow> Done ((a, p\<lparr>pl_state := m\<rparr>), Some err)
              | Done (m, None) \<Rightarrow>
                  Done (case report_verdict e r of
                          None \<Rightarrow> ((a, p\<lparr>pl_state := m\<rparr>), None)
                        | Some (active, reason) \<Rightarrow> ShellyFailure env e active reason (rep_observed r) (a, p\<lparr>pl_state := m\<rparr>))))"

definition sensor_value :: "ident \<Rightarrow> measurement \<Rightarrow> state_value" where
  "sensor_value source m =
     \<lparr>sv_key = \<lparr>key_kind = EntitySensor, key_entity = m_sensor m, key_plane = PlaneObservation, key_attribute = ''measurement''\<rparr>,
      sv_value = NewQuantityValue (m_value m), sv_quality = m_quality m, sv_observed = m_observed m,
      sv_received = m_received m, sv_fresh_for = m_fresh_for m, sv_source = source, sv_revision = 0\<rparr>"

definition ReportESP32 :: "plant_env \<Rightarrow> ident \<Rightarrow> measurement \<Rightarrow> plant \<Rightarrow> (plant \<times> go_error option) outcome" where
  "ReportESP32 env i m p =
     (if co_esp (pl_bench p) i = None then Done (p, Some (ErrorString ''unknown ESP32 report endpoint''))
      else case sm_set (pe_state env 0) (pe_orders env 0) (sensor_value i m) (pl_state p) of
             Panic \<Rightarrow> Panic
           | Blocked \<Rightarrow> Blocked
           | Done (s, (_, err)) \<Rightarrow> Done (p\<lparr>pl_state := s\<rparr>, err))"

definition unavailable_value :: "esp_endpoint \<Rightarrow> quantity \<Rightarrow> gotime \<Rightarrow> ident \<Rightarrow> state_value" where
  "unavailable_value e q t i =
     sensor_value (esp_id e) \<lparr>m_sensor = i, m_value = q, m_quality = QualityUnavailable, m_observed = t,
       m_received = t, m_fresh_for = esp_fresh_for e\<rparr>"

definition esp_unavailable ::
  "plant_env \<Rightarrow> esp_endpoint \<Rightarrow> gotime \<Rightarrow> state_manager \<Rightarrow> (state_manager \<times> go_error option list) outcome"
where
  "esp_unavailable env e t m =
     (case NewQuantity QuantityTemperature (Finite 0) UnitCelsius of
        (_, Some err) \<Rightarrow> Done (m, [Some err])
      | (None, None) \<Rightarrow> Done (m, [])
      | (Some q, None) \<Rightarrow>
          set_each (pe_state env) (pe_orders env) 0
            [unavailable_value e q t (fst (esp_probes e)), unavailable_value e q t (snd (esp_probes e))] m)"

definition ESP32Failure ::
  "plant_env \<Rightarrow> esp_endpoint \<Rightarrow> bool \<Rightarrow> string \<Rightarrow> gotime \<Rightarrow> plant \<Rightarrow> (plant \<times> go_error option) outcome"
where
  "ESP32Failure env e active reason t p =
     (case co_esp_rules (pl_bench p) (esp_id e) of
        None \<Rightarrow> Done (p, Some (ErrorString ''unknown ESP32 failure endpoint''))
      | Some r \<Rightarrow>
          (case (if active then esp_unavailable env e t (pl_state p) else Done (pl_state p, [])) of
             Panic \<Rightarrow> Panic
           | Blocked \<Rightarrow> Blocked
           | Done (s, errs) \<Rightarrow>
               (let (m, _, _, alarm_err) = Observe (pe_alarm env)
                      (failure_observation r active t reason ''ESP32 node or probe condition'') (pl_alarms p)
                in Done (p\<lparr>pl_state := s, pl_alarms := m\<rparr>, errors_join (errs @ [alarm_err])))))"

section \<open>Polls of the plant\<close>

text \<open>
  A call into the coordinator from an adapter: it uses the surroundings of its number, and it is not
  made when an earlier call panicked or blocked.
\<close>

definition on_plant ::
  "('a \<times> plant \<Rightarrow> (('a \<times> plant) \<times> go_error option) outcome) \<Rightarrow> 'a \<times> plant outcome \<Rightarrow> ('a \<times> plant outcome) \<times> go_error option"
where
  "on_plant f = (\<lambda>(a, w).
     case w of
       Panic \<Rightarrow> ((a, Panic), None)
     | Blocked \<Rightarrow> ((a, Blocked), None)
     | Done p \<Rightarrow>
         (case f (a, p) of
            Panic \<Rightarrow> ((a, Panic), None)
          | Blocked \<Rightarrow> ((a, Blocked), None)
          | Done ((a', p'), err) \<Rightarrow> ((a', Done (p'\<lparr>pl_calls := Suc (pl_calls p)\<rparr>)), err)))"

definition plant_sinks :: "(nat \<Rightarrow> plant_env) \<Rightarrow> plant outcome shelly_sinks" where
  "plant_sinks envs =
     \<lparr>sink_report = (\<lambda>r. on_plant (\<lambda>(a, p). ReportShelly (envs (pl_calls p)) r (a, p))),
      sink_failure = (\<lambda>e active reason t. on_plant (\<lambda>(a, p). Done (ShellyFailure (envs (pl_calls p)) e active reason t (a, p)))),
      sink_reconcile = (\<lambda>i on t. on_plant (\<lambda>(a, p).
        let (w, r) = Reconcile (pe_output (envs (pl_calls p))) i on t (pl_output p) in Done ((a, p\<lparr>pl_output := w\<rparr>), snd r))),
      sink_expire = (\<lambda>i reason t. on_plant (\<lambda>(a, p).
        let (w, r) = ExpireAcknowledged (pe_output (envs (pl_calls p))) i reason t (pl_output p)
        in Done ((a, p\<lparr>pl_output := w\<rparr>), snd r)))\<rparr>"

definition plant_shelly_poll ::
  "(go_error \<Rightarrow> string) \<Rightarrow> (nat \<Rightarrow> plant_env) \<Rightarrow> shelly_endpoint \<Rightarrow> go_error + switch_config \<Rightarrow>
   go_error + switch_status \<Rightarrow> gotime \<Rightarrow> shelly_adapter \<times> plant outcome \<Rightarrow> shelly_adapter \<times> plant outcome"
where
  "plant_shelly_poll text envs = shelly_poll text (plant_sinks envs)"

definition esp_failure_sink :: "(nat \<Rightarrow> plant_env) \<Rightarrow> plant outcome esp_failure" where
  "esp_failure_sink envs e active reason t w =
     (let ((_, w), err) = on_plant (\<lambda>(_, p).
            case ESP32Failure (envs (pl_calls p)) e active reason t p of
              Done (p, err) \<Rightarrow> Done (((), p), err) | Panic \<Rightarrow> Panic | Blocked \<Rightarrow> Blocked) ((), w)
      in (w, err))"

definition esp_report_sink :: "(nat \<Rightarrow> plant_env) \<Rightarrow> plant outcome esp_report" where
  "esp_report_sink envs i m w =
     (let ((_, w), err) = on_plant (\<lambda>(_, p).
            case ReportESP32 (envs (pl_calls p)) i m p of
              Done (p, err) \<Rightarrow> Done (((), p), err) | Panic \<Rightarrow> Panic | Blocked \<Rightarrow> Blocked) ((), w)
      in (w, err))"

definition plant_esp_poll ::
  "(go_error \<Rightarrow> string) \<Rightarrow> (nat \<Rightarrow> plant_env) \<Rightarrow> esp_endpoint \<Rightarrow> go_error + snapshot_dto \<Rightarrow> gotime \<Rightarrow>
   esp_adapter \<times> plant outcome \<Rightarrow> esp_adapter \<times> plant outcome"
where
  "plant_esp_poll text envs = esp_poll text (esp_failure_sink envs) (esp_report_sink envs)"

section \<open>Lemmas: writes of state\<close>

lemma sm_set_effect:
  assumes "sm_inv m" "orders_ok ord m"
  shows "\<exists>m' r. sm_set env ord v m = Done (m', r) \<and> sm_inv m' \<and> sm_subscribers m' = sm_subscribers m \<and>
    sm_values m' = (if ctx_err env = None \<and> sv_validate v = None
      then (sm_values m)(sv_key v \<mapsto> v\<lparr>sv_revision := sm_revision m + 1\<rparr>) else sm_values m)"
proof (cases "ctx_err env = None \<and> sv_validate v = None")
  case True
  with sm_set_result [OF assms] sm_set_inv [OF assms, of env v] show ?thesis
    by (auto simp: deliver_to_def)
next
  case False
  then obtain err where "first_error [ctx_err env, sv_validate v] = Some err"
    by (metis first_error_Cons_None not_None_eq)
  then have "sm_set env ord v m = Done (m, fail err)" by (rule sm_set_rejected)
  with False assms(1) show ?thesis by auto
qed

text \<open>Surroundings in which nothing was cancelled and the orders fit the manager's subscribers.\<close>

definition calm :: "(nat \<Rightarrow> plant_env) \<Rightarrow> state_manager \<Rightarrow> bool" where
  "calm envs m \<longleftrightarrow> (\<forall>n i. ctx_err (pe_state (envs n) i) = None \<and> orders_ok (pe_orders (envs n) i) m)"

lemma calm_subscribers: "sm_subscribers m' = sm_subscribers m \<Longrightarrow> calm envs m' = calm envs m"
  by (simp add: calm_def orders_ok_def)

section \<open>Lemmas: failures of a sensor node\<close>

abbreviation probe_key :: "ident \<Rightarrow> state_key" where
  "probe_key i \<equiv> \<lparr>key_kind = EntitySensor, key_entity = i, key_plane = PlaneObservation, key_attribute = ''measurement''\<rparr>"

text \<open>What \<open>NewAdapter\<close> established about an endpoint, as far as its measurements depend on it.\<close>

definition node_ok :: "esp_endpoint \<Rightarrow> bool" where
  "node_ok e \<longleftrightarrow> validateUUID (esp_id e) = None \<and> validateUUID (fst (esp_probes e)) = None \<and>
     validateUUID (snd (esp_probes e)) = None \<and> fst (esp_probes e) \<noteq> snd (esp_probes e) \<and> 0 < esp_fresh_for e"

lemma esp_validate_endpoint_ok: "esp_validate_endpoint parse e = None \<Longrightarrow> node_ok e"
  by (simp add: esp_validate_endpoint_def node_ok_def)

lemma sensor_value_valid:
  "sv_validate (sensor_value s m) = None \<longleftrightarrow>
     validateUUID (m_sensor m) = None \<and> quantity_validate (m_value m) = None \<and> validQuality (m_quality m) \<and>
     m_observed m \<noteq> 0 \<and> m_received m \<noteq> 0 \<and> m_observed m \<le> m_received m \<and> 0 < m_fresh_for m \<and> validateUUID s = None"
  by (auto simp: sv_validate_def sensor_value_def value_validate_def NewQuantityValue_def)

lemma sensor_value_simps [simp]:
  "sv_key (sensor_value s m) = probe_key (m_sensor m)" "sv_quality (sensor_value s m) = m_quality m"
  by (simp_all add: sensor_value_def)

lemma esp_unavailable_effect:
  assumes "sm_inv m" "calm envs m" "node_ok e" "t \<noteq> 0"
  shows "\<exists>m' errs. esp_unavailable (envs n) e t m = Done (m', errs) \<and> sm_inv m' \<and> sm_subscribers m' = sm_subscribers m \<and>
    (\<forall>i \<in> {fst (esp_probes e), snd (esp_probes e)}. \<exists>v. sm_values m' (probe_key i) = Some v \<and> sv_quality v = QualityUnavailable)"
proof -
  let ?q = "\<lparr>quantity_kind = QuantityTemperature, quantity_value = Finite 0, quantity_unit = UnitCelsius\<rparr>"
  let ?v = "\<lambda>i. unavailable_value e ?q t i"
  have q: "NewQuantity QuantityTemperature (Finite 0) UnitCelsius = ok ?q"
    by (rule temperature_value) (simp add: f64_finite_iff)
  have calm: "ctx_err (pe_state (envs n) i) = None" "orders_ok (pe_orders (envs n) i) m" for i
    using assms(2) by (simp_all add: calm_def)
  have v: "sv_validate (?v i) = None" if "i \<in> {fst (esp_probes e), snd (esp_probes e)}" for i
    using that assms(3,4)
    by (auto simp: unavailable_value_def sensor_value_valid node_ok_def quantity_validate_def)
  obtain m1 r1 where m1: "sm_set (pe_state (envs n) 0) (pe_orders (envs n) 0) (?v (fst (esp_probes e))) m = Done (m1, r1)"
    "sm_inv m1" "sm_subscribers m1 = sm_subscribers m"
    "sm_values m1 = (sm_values m)(probe_key (fst (esp_probes e)) \<mapsto>
       (?v (fst (esp_probes e)))\<lparr>sv_revision := sm_revision m + 1\<rparr>)"
    using sm_set_effect [OF assms(1) calm(2) [of 0], of "pe_state (envs n) 0" "?v (fst (esp_probes e))"] calm(1) v
    by (auto simp: unavailable_value_def)
  have "orders_ok (pe_orders (envs n) 1) m1" using calm(2) m1(3) by (simp add: orders_ok_def)
  then obtain m2 r2 where m2: "sm_set (pe_state (envs n) 1) (pe_orders (envs n) 1) (?v (snd (esp_probes e))) m1 = Done (m2, r2)"
    "sm_inv m2" "sm_subscribers m2 = sm_subscribers m1"
    "sm_values m2 = (sm_values m1)(probe_key (snd (esp_probes e)) \<mapsto>
       (?v (snd (esp_probes e)))\<lparr>sv_revision := sm_revision m1 + 1\<rparr>)"
    using sm_set_effect [OF m1(2), of "pe_orders (envs n) 1" "pe_state (envs n) 1" "?v (snd (esp_probes e))"] calm(1) v
    by (auto simp: unavailable_value_def)
  show ?thesis
    using m1 m2 assms(3)
    by (auto simp: esp_unavailable_def q ok_def unavailable_value_def node_ok_def split: prod.splits)
qed

lemma ESP32Failure_effect:
  assumes "sm_inv (pl_state p)" "calm envs (pl_state p)" "node_ok e" "t \<noteq> 0" "co_esp_rules (pl_bench p) (esp_id e) \<noteq> None"
  shows "\<exists>p' err. ESP32Failure (envs n) e active reason t p = Done (p', err) \<and> sm_inv (pl_state p') \<and>
    sm_subscribers (pl_state p') = sm_subscribers (pl_state p) \<and> pl_bench p' = pl_bench p \<and> pl_output p' = pl_output p \<and>
    (if active
     then \<forall>i \<in> {fst (esp_probes e), snd (esp_probes e)}.
            \<exists>v. sm_values (pl_state p') (probe_key i) = Some v \<and> sv_quality v = QualityUnavailable
     else pl_state p' = pl_state p)"
proof (cases active)
  case True
  then show ?thesis
    using esp_unavailable_effect [OF assms(1-4), of n] assms(5)
    by (auto simp: ESP32Failure_def case_prod_beta)
next
  case False
  then show ?thesis using assms(1,5) by (auto simp: ESP32Failure_def case_prod_beta)
qed

lemma ReportESP32_effect:
  assumes "sm_inv (pl_state p)" "calm envs (pl_state p)" "co_esp (pl_bench p) i \<noteq> None"
  shows "\<exists>p' err. ReportESP32 (envs n) i m p = Done (p', err) \<and> sm_inv (pl_state p') \<and>
    sm_subscribers (pl_state p') = sm_subscribers (pl_state p) \<and> pl_bench p' = pl_bench p \<and>
    (\<exists>rev. sm_values (pl_state p') = (if sv_validate (sensor_value i m) = None
      then (sm_values (pl_state p))(probe_key (m_sensor m) \<mapsto> (sensor_value i m)\<lparr>sv_revision := rev\<rparr>)
      else sm_values (pl_state p)))"
proof -
  have "orders_ok (pe_orders (envs n) 0) (pl_state p)" "ctx_err (pe_state (envs n) 0) = None"
    using assms(2) by (simp_all add: calm_def)
  then show ?thesis
    using sm_set_effect [OF assms(1), of "pe_orders (envs n) 0" "pe_state (envs n) 0" "sensor_value i m"] assms(3)
    by (auto simp: ReportESP32_def)
qed

lemma esp_failure_sink_Done:
  "ESP32Failure (envs (pl_calls p)) e active reason t p = Done (p', err) \<Longrightarrow>
   esp_failure_sink envs e active reason t (Done p) = (Done (p'\<lparr>pl_calls := Suc (pl_calls p)\<rparr>), err)"
  by (simp add: esp_failure_sink_def on_plant_def)

lemma esp_report_sink_Done:
  "ReportESP32 (envs (pl_calls p)) i m p = Done (p', err) \<Longrightarrow>
   esp_report_sink envs i m (Done p) = (Done (p'\<lparr>pl_calls := Suc (pl_calls p)\<rparr>), err)"
  by (simp add: esp_report_sink_def on_plant_def)

text \<open>The plant as an endpoint expects it: the node is registered with the coordinator.\<close>

definition node_attached :: "(nat \<Rightarrow> plant_env) \<Rightarrow> esp_endpoint \<Rightarrow> plant \<Rightarrow> bool" where
  "node_attached envs e p \<longleftrightarrow> sm_inv (pl_state p) \<and> calm envs (pl_state p) \<and> node_ok e \<and>
     co_esp_rules (pl_bench p) (esp_id e) \<noteq> None \<and> co_esp (pl_bench p) (esp_id e) \<noteq> None"

lemma failure_step:
  assumes "node_attached envs e p" "t \<noteq> 0"
  obtains p' err where "esp_failure_sink envs e active reason t (Done p) = (Done p', err)" "node_attached envs e p'"
    "if active
     then \<forall>i \<in> {fst (esp_probes e), snd (esp_probes e)}.
            \<exists>v. sm_values (pl_state p') (probe_key i) = Some v \<and> sv_quality v = QualityUnavailable
     else pl_state p' = pl_state p"
proof -
  have "sm_inv (pl_state p)" "calm envs (pl_state p)" "node_ok e" "co_esp_rules (pl_bench p) (esp_id e) \<noteq> None"
    using assms(1) by (simp_all add: node_attached_def)
  from ESP32Failure_effect [OF this(1-3) assms(2) this(4), of "pl_calls p" active reason]
  obtain p' err where p': "ESP32Failure (envs (pl_calls p)) e active reason t p = Done (p', err)" "sm_inv (pl_state p')"
    "sm_subscribers (pl_state p') = sm_subscribers (pl_state p)" "pl_bench p' = pl_bench p"
    "if active
     then \<forall>i \<in> {fst (esp_probes e), snd (esp_probes e)}.
            \<exists>v. sm_values (pl_state p') (probe_key i) = Some v \<and> sv_quality v = QualityUnavailable
     else pl_state p' = pl_state p"
    by blast
  show thesis
  proof (rule that)
    show "esp_failure_sink envs e active reason t (Done p) = (Done (p'\<lparr>pl_calls := Suc (pl_calls p)\<rparr>), err)"
      using p'(1) by (rule esp_failure_sink_Done)
    show "node_attached envs e (p'\<lparr>pl_calls := Suc (pl_calls p)\<rparr>)"
      using assms(1) p'(2,3,4) calm_subscribers [OF p'(3)] by (simp add: node_attached_def)
  qed (use p'(5) in simp)
qed

lemma report_step:
  assumes "node_attached envs e p"
  obtains p' err rev where "esp_report_sink envs (esp_id e) m (Done p) = (Done p', err)" "node_attached envs e p'"
    "sm_values (pl_state p') = (if sv_validate (sensor_value (esp_id e) m) = None
      then (sm_values (pl_state p))(probe_key (m_sensor m) \<mapsto> (sensor_value (esp_id e) m)\<lparr>sv_revision := rev\<rparr>)
      else sm_values (pl_state p))"
proof -
  have "sm_inv (pl_state p)" "calm envs (pl_state p)" "co_esp (pl_bench p) (esp_id e) \<noteq> None"
    using assms(1) by (simp_all add: node_attached_def)
  from ReportESP32_effect [OF this, of "pl_calls p" m] obtain p' err rev where p':
    "ReportESP32 (envs (pl_calls p)) (esp_id e) m p = Done (p', err)" "sm_inv (pl_state p')"
    "sm_subscribers (pl_state p') = sm_subscribers (pl_state p)" "pl_bench p' = pl_bench p"
    "sm_values (pl_state p') = (if sv_validate (sensor_value (esp_id e) m) = None
      then (sm_values (pl_state p))(probe_key (m_sensor m) \<mapsto> (sensor_value (esp_id e) m)\<lparr>sv_revision := rev\<rparr>)
      else sm_values (pl_state p))"
    by blast
  show thesis
  proof (rule that)
    show "esp_report_sink envs (esp_id e) m (Done p) = (Done (p'\<lparr>pl_calls := Suc (pl_calls p)\<rparr>), err)"
      using p'(1) by (rule esp_report_sink_Done)
    show "node_attached envs e (p'\<lparr>pl_calls := Suc (pl_calls p)\<rparr>)"
      using assms(1) p'(2,3,4) calm_subscribers [OF p'(3)] by (simp add: node_attached_def)
  qed (use p'(5) in simp)
qed

text \<open>Everything a poll of an attached node does to the state of its probes.\<close>

definition fetch_failed :: "esp_endpoint \<Rightarrow> go_error + snapshot_dto \<Rightarrow> gotime \<Rightarrow> esp_adapter \<Rightarrow> bool" where
  "fetch_failed e fetched now a =
     (case fetched of Inl _ \<Rightarrow> True | Inr s \<Rightarrow> snd (snd (snd (validateSnapshot e s now a))) \<noteq> None)"

lemma failed_poll_effect:
  assumes "node_attached envs e p" "now \<noteq> 0" "fetch_failed e fetched now a"
  shows "\<exists>a' p'. plant_esp_poll text envs e fetched now (a, Done p) = (a', Done p') \<and> node_attached envs e p' \<and>
    (\<forall>i \<in> {fst (esp_probes e), snd (esp_probes e)}.
       \<exists>v. sm_values (pl_state p') (probe_key i) = Some v \<and> sv_quality v = QualityUnavailable)"
proof -
  have "\<exists>code err a'. plant_esp_poll text envs e fetched now (a, Done p) =
      esp_fail text (esp_failure_sink envs) e code err now (a', Done p)"
  proof (cases fetched)
    case (Inl err)
    then show ?thesis unfolding plant_esp_poll_def esp_poll_def by auto
  next
    case (Inr s)
    then obtain a1 ms c err where "validateSnapshot e s now a = (a1, ms, c, Some err)"
      using assms(3) by (cases "validateSnapshot e s now a") (auto simp: fetch_failed_def)
    then have "plant_esp_poll text envs e fetched now (a, Done p) =
        esp_fail text (esp_failure_sink envs) e c err now (a1, Done p)"
      by (simp add: Inr plant_esp_poll_def esp_poll_def)
    then show ?thesis by blast
  qed
  then obtain code err a' where poll: "plant_esp_poll text envs e fetched now (a, Done p) =
      esp_fail text (esp_failure_sink envs) e code err now (a', Done p)"
    by blast
  obtain p' err' where "esp_failure_sink envs e True code now (Done p) = (Done p', err')" "node_attached envs e p'"
    "\<forall>i \<in> {fst (esp_probes e), snd (esp_probes e)}.
       \<exists>v. sm_values (pl_state p') (probe_key i) = Some v \<and> sv_quality v = QualityUnavailable"
    using failure_step [OF assms(1,2), of True code] by auto
  with poll show ?thesis by (auto simp: esp_fail_def)
qed

lemma accepted_poll_effect:
  assumes "node_attached envs e p" "now \<noteq> 0" "validateSnapshot e s now a = (a0, [m0, m1], c, None)"
  shows "\<exists>s1 p' rev0 rev1. plant_esp_poll text envs e (Inr s) now (a, Done p) = (esp_set_error (esp_id e) [] a0, Done p') \<and>
    (if c = [] then s1 = pl_state p
     else \<forall>i \<in> {fst (esp_probes e), snd (esp_probes e)}.
       \<exists>v. sm_values (s1) (probe_key i) = Some v \<and> sv_quality v = QualityUnavailable) \<and>
    sm_values (pl_state p') =
      (let vs = (if sv_validate (sensor_value (esp_id e) m0) = None
                 then (sm_values (s1))(probe_key (m_sensor m0) \<mapsto> (sensor_value (esp_id e) m0)\<lparr>sv_revision := rev0\<rparr>)
                 else sm_values (s1))
       in if sv_validate (sensor_value (esp_id e) m1) = None
          then vs(probe_key (m_sensor m1) \<mapsto> (sensor_value (esp_id e) m1)\<lparr>sv_revision := rev1\<rparr>) else vs)"
proof -
  obtain p1 err1 where p1: "esp_failure_sink envs e (c \<noteq> []) c now (Done p) = (Done p1, err1)" "node_attached envs e p1"
    "if c \<noteq> [] then \<forall>i \<in> {fst (esp_probes e), snd (esp_probes e)}.
       \<exists>v. sm_values (pl_state p1) (probe_key i) = Some v \<and> sv_quality v = QualityUnavailable
     else pl_state p1 = pl_state p"
    by (rule failure_step [OF assms(1,2)])
  obtain p2 err2 rev0 where p2: "esp_report_sink envs (esp_id e) m0 (Done p1) = (Done p2, err2)" "node_attached envs e p2"
    "sm_values (pl_state p2) = (if sv_validate (sensor_value (esp_id e) m0) = None
      then (sm_values (pl_state p1))(probe_key (m_sensor m0) \<mapsto> (sensor_value (esp_id e) m0)\<lparr>sv_revision := rev0\<rparr>)
      else sm_values (pl_state p1))"
    by (rule report_step [OF p1(2)])
  obtain p3 err3 rev1 where p3: "esp_report_sink envs (esp_id e) m1 (Done p2) = (Done p3, err3)"
    "sm_values (pl_state p3) = (if sv_validate (sensor_value (esp_id e) m1) = None
      then (sm_values (pl_state p2))(probe_key (m_sensor m1) \<mapsto> (sensor_value (esp_id e) m1)\<lparr>sv_revision := rev1\<rparr>)
      else sm_values (pl_state p2))"
    by (rule report_step [OF p2(2)])
  have "plant_esp_poll text envs e (Inr s) now (a, Done p) = (esp_set_error (esp_id e) [] a0, Done p3)"
    using p1(1) p2(1) p3(1) by (simp add: plant_esp_poll_def esp_poll_def assms(3))
  then show ?thesis
    using p1(3) p2(3) p3(2)
    by (intro exI [of _ "pl_state p1"] exI [of _ p3] exI [of _ rev0] exI [of _ rev1]) (auto simp: Let_def)
qed

section \<open>Properties of the sensor path\<close>

abbreviation good_at :: "state_value env \<Rightarrow> state_manager \<Rightarrow> state_key \<Rightarrow> bool" where
  "good_at env m k \<equiv> \<exists>v. sm_get env m k = (Some v, None) \<and> sv_quality v = QualityGood"

lemma good_at_value:
  "ctx_err env = None \<Longrightarrow> good_at env m k \<longleftrightarrow>
     (\<exists>v. sm_values m k = Some v \<and> sv_quality v = QualityGood \<and> env_now env < sv_observed v + sv_fresh_for v)"
  by (auto simp: sm_get_def ok_def fail_def refresh_good split: option.splits)

lemma sensor_value_fields [simp]:
  "sv_observed (sensor_value i m) = m_observed m" "sv_fresh_for (sensor_value i m) = m_fresh_for m"
  by (simp_all add: sensor_value_def)

lemma snapshot_quality_good:
  "fst (snapshot_quality e t now r0 r1) = QualityGood \<longleftrightarrow> now < t + esp_fresh_for e \<and> \<not> probes_disagree e r0 r1"
  by (simp add: snapshot_quality_def)

lemma accepted_good:
  assumes "node_attached envs e p" "now \<noteq> 0" "validateSnapshot e s now a = (a0, ms, c, None)" "dto_observed s \<le> now"
    and "probes_by_id (dto_probes s) Map.empty = Inr byID" "i \<in> {fst (esp_probes e), snd (esp_probes e)}"
  shows "\<exists>a' p'. plant_esp_poll text envs e (Inr s) now (a, Done p) = (a', Done p') \<and>
    (\<exists>v. sm_values (pl_state p') (probe_key i) = Some v \<and> sv_observed v = dto_observed s \<and> sv_fresh_for v = esp_fresh_for e \<and>
       (sv_quality v = QualityGood \<longleftrightarrow> probe_reading byID i \<noteq> None \<and> now < dto_observed s + esp_fresh_for e \<and>
          \<not> probes_disagree e (probe_reading byID (fst (esp_probes e))) (probe_reading byID (snd (esp_probes e)))))"
proof -
  let ?r0 = "probe_reading byID (fst (esp_probes e))" and ?r1 = "probe_reading byID (snd (esp_probes e))"
  let ?q = "fst (snapshot_quality e (dto_observed s) now ?r0 ?r1)"
  from validateSnapshot_ok [OF assms(3)] assms(5) obtain v0 v1 where s: "dto_observed s \<noteq> 0"
    "quantity_validate v0 = None" "quantity_validate v1 = None"
    and ms: "ms = [\<lparr>m_sensor = fst (esp_probes e), m_value = v0, m_quality = (if ?r0 = None then QualityInvalid else ?q),
      m_observed = dto_observed s, m_received = now, m_fresh_for = esp_fresh_for e\<rparr>,
     \<lparr>m_sensor = snd (esp_probes e), m_value = v1, m_quality = (if ?r1 = None then QualityInvalid else ?q),
      m_observed = dto_observed s, m_received = now, m_fresh_for = esp_fresh_for e\<rparr>]"
    by auto
  have node: "node_ok e" using assms(1) by (simp add: node_attached_def)
  have "validQuality ?q" by (simp add: snapshot_quality_def)
  then have valid: "sv_validate (sensor_value (esp_id e) m) = None" if "m \<in> set ms" for m
    using that node assms(2,4) s by (auto simp: ms sensor_value_valid node_ok_def)
  obtain m0 m1 where m: "ms = [m0, m1]" using ms by simp
  have "m_sensor m0 = fst (esp_probes e)" "m_sensor m1 = snd (esp_probes e)" "m_sensor m0 \<noteq> m_sensor m1"
    "m_quality m0 = (if ?r0 = None then QualityInvalid else ?q)" "m_quality m1 = (if ?r1 = None then QualityInvalid else ?q)"
    "m_observed m0 = dto_observed s" "m_observed m1 = dto_observed s" "m_fresh_for m0 = esp_fresh_for e"
    "m_fresh_for m1 = esp_fresh_for e"
    using ms m node by (auto simp: node_ok_def)
  moreover from accepted_poll_effect [OF assms(1,2) assms(3) [unfolded m], of "text"] valid
  obtain p' vs rev0 rev1 where "plant_esp_poll text envs e (Inr s) now (a, Done p) = (esp_set_error (esp_id e) [] a0, Done p')"
    "sm_values (pl_state p') = (vs(probe_key (m_sensor m0) \<mapsto> (sensor_value (esp_id e) m0)\<lparr>sv_revision := rev0\<rparr>))
       (probe_key (m_sensor m1) \<mapsto> (sensor_value (esp_id e) m1)\<lparr>sv_revision := rev1\<rparr>)"
    unfolding m Let_def by auto
  ultimately show ?thesis
    using assms(6) snapshot_quality_good [of e "dto_observed s" now ?r0 ?r1]
    by (intro exI [of _ "esp_set_error (esp_id e) [] a0"] exI [of _ p']) auto
qed

text \<open>
  C9. Exactly when a temperature probe counts as good after its node was polled, whatever came back, as long as
  the node's clock was not ahead: the snapshot was fetched and accepted, it holds a usable reading of that
  probe, the two probes do not disagree, and it was fresh both when it was received and when it is read.
\<close>

theorem probe_good_exact:
  assumes "node_attached envs e p" "now \<noteq> 0" "case fetched of Inl _ \<Rightarrow> True | Inr s \<Rightarrow> dto_observed s \<le> now"
    and "i \<in> {fst (esp_probes e), snd (esp_probes e)}" "ctx_err env = None"
  shows "\<exists>a' p'. plant_esp_poll text envs e fetched now (a, Done p) = (a', Done p') \<and>
    (good_at env (pl_state p') (probe_key i) \<longleftrightarrow>
      (\<exists>s byID. fetched = Inr s \<and> \<not> fetch_failed e fetched now a \<and> probes_by_id (dto_probes s) Map.empty = Inr byID \<and>
         probe_reading byID i \<noteq> None \<and>
         \<not> probes_disagree e (probe_reading byID (fst (esp_probes e))) (probe_reading byID (snd (esp_probes e))) \<and>
         now < dto_observed s + esp_fresh_for e \<and> env_now env < dto_observed s + esp_fresh_for e))"
proof (cases "fetch_failed e fetched now a")
  case True
  with failed_poll_effect [OF assms(1,2) True, of "text"] assms(4) show ?thesis
    unfolding good_at_value [OF assms(5)] by fastforce
next
  case False
  then obtain s a0 ms c where s: "fetched = Inr s" "validateSnapshot e s now a = (a0, ms, c, None)"
    by (cases fetched; cases "validateSnapshot e (projr fetched) now a") (auto simp: fetch_failed_def)
  obtain byID where byID: "probes_by_id (dto_probes s) Map.empty = Inr byID"
    using validateSnapshot_ok [OF s(2)] by blast
  have "dto_observed s \<le> now" using assms(3) s(1) by simp
  from accepted_good [OF assms(1,2) s(2) this byID assms(4), of "text"] s(1) byID False show ?thesis
    unfolding good_at_value [OF assms(5)] by fastforce
qed

text \<open>
  C7. A sensor node that fails stops hazardous equipment from being switched on, across the adapter, the coordinator,
  the state manager and the safety engine: after a poll that failed, for whatever reason, and until
  another one succeeds, the engine refuses to switch on any hazardous equipment that requires one of the
  node's probes, at whatever time and in whatever mode.
\<close>

theorem failed_poll_blocks_hazard:
  assumes "node_attached envs e p" "now \<noteq> 0" "fetch_failed e fetched now a"
    and "eng_profiles g (intent_equipment x) = Some prof" "profile_hazardous prof" "intent_on x"
    and "q \<in> set (profile_required prof)" "req_key q \<in> {probe_key (fst (esp_probes e)), probe_key (snd (esp_probes e))}"
  shows "\<exists>a' p'. plant_esp_poll text envs e fetched now (a, Done p) = (a', Done p') \<and>
    \<not> granted (snd (Evaluate env (sm_get env' (pl_state p')) x g))"
proof -
  obtain a' p' v where p': "plant_esp_poll text envs e fetched now (a, Done p) = (a', Done p')"
    "sm_values (pl_state p') (req_key q) = Some v" "sv_quality v = QualityUnavailable"
    using failed_poll_effect [OF assms(1-3), of "text"] assms(8) by fastforce
  have "\<not> input_satisfied (sm_get env' (pl_state p')) q"
    using p'(2,3) by (auto simp: input_satisfied_def sm_get_def ok_def fail_def refresh_good split: option.splits)
  then have "\<not> granted (snd (Evaluate env (sm_get env' (pl_state p')) x g))"
    using assms(4-7) by (auto simp: Evaluate_decision evaluate_on_granted simp del: ok_simps split: option.splits)
  with p'(1) show ?thesis by blast
qed

text \<open>
  The clock-skew allowance does not reach the state: a snapshot from a node whose clock is ahead, within the
  allowance, is accepted as healthy and clears the adapter's error, but the state manager refuses a
  measurement observed after it was received, so the state of the probes stays what it was.
\<close>

theorem snapshot_ahead_is_lost:
  assumes "node_attached envs e p" "now \<noteq> 0" "validateSnapshot e s now a = (a0, ms, [], None)" "now < dto_observed s"
  shows "\<exists>a' p'. plant_esp_poll text envs e (Inr s) now (a, Done p) = (a', Done p') \<and>
    esp_errors a' (esp_id e) = None \<and> sm_values (pl_state p') = sm_values (pl_state p)"
proof -
  obtain m0 m1 where m: "ms = [m0, m1]" "m_observed m0 = dto_observed s" "m_observed m1 = dto_observed s"
    "m_received m0 = now" "m_received m1 = now"
    using validateSnapshot_ok [OF assms(3)] by auto
  then have "sv_validate (sensor_value (esp_id e) m0) \<noteq> None" "sv_validate (sensor_value (esp_id e) m1) \<noteq> None"
    using assms(4) unfolding sensor_value_valid by auto
  with accepted_poll_effect [OF assms(1,2) assms(3) [unfolded m(1)], of "text"] show ?thesis
    by (auto simp: esp_set_error_def Let_def)
qed

section \<open>The plant and the command service\<close>

lemma plant_submit_output:
  "pl_output (snd (fst (plant_submit env c (a, p)))) = fst (Submit (plant_deps env a (pl_state p)) c (pl_output p))"
  "pl_state (snd (fst (plant_submit env c (a, p)))) = pl_state p"
  "pl_bench (snd (fst (plant_submit env c (a, p)))) = pl_bench p"
  by (simp_all add: plant_submit_def case_prod_beta Let_def)

text \<open>
  What a call of the coordinator does to the plant, apart from the state manager: the command service takes no step, or one
  submission with the surroundings of the call.
\<close>

definition one_submission :: "plant_env \<Rightarrow> plant \<Rightarrow> plant \<Rightarrow> bool" where
  "one_submission env p p' \<longleftrightarrow> pl_output p' = pl_output p \<or>
     (\<exists>d c. d_env d = pe_output env \<and> pl_output p' = fst (Submit d c (pl_output p)))"

lemma one_submission_none [simp]: "pl_output p' = pl_output p \<Longrightarrow> one_submission env p p'"
  by (simp add: one_submission_def)

lemma one_submission_deps:
  "pl_output p' = fst (Submit (plant_deps env a m) c (pl_output p)) \<Longrightarrow> one_submission env p p'"
  unfolding one_submission_def by (intro disjI2 exI [of _ "plant_deps env a m"]) (auto simp: plant_deps_def)

lemma ShellyFailure_submission:
  "one_submission env p (snd (fst (ShellyFailure env e active reason t (a, p))))"
  "pl_state (snd (fst (ShellyFailure env e active reason t (a, p)))) = pl_state p"
  by (auto simp: ShellyFailure_def case_prod_beta Let_def plant_submit_output split: option.splits
      intro!: one_submission_deps)

lemma ReportShelly_submission:
  assumes "ReportShelly env r (a, p) = Done (s, err)"
  shows "one_submission env p (snd s)"
proof -
  have "one_submission env p (snd (fst (ShellyFailure env e active reason t (a, p\<lparr>pl_state := m\<rparr>))))" for e active reason t m
    using ShellyFailure_submission(1) [of env "p\<lparr>pl_state := m\<rparr>"] by (simp add: one_submission_def)
  then show ?thesis
    using assms
    by (auto simp: ReportShelly_def split: option.splits if_splits sum.splits outcome.splits prod.splits) (metis fst_conv)
qed

text \<open>The plant is a run of the command service, as long as its clock has been set.\<close>

definition plant_runs :: "(nat \<Rightarrow> plant_env) \<Rightarrow> profile list \<Rightarrow> shelly_adapter \<times> plant outcome \<Rightarrow> bool" where
  "plant_runs envs profiles s \<longleftrightarrow>
     ((\<forall>n. env_now (pe_output (envs n)) \<noteq> 0) \<longrightarrow>
       (case snd s of Done p \<Rightarrow> out_reach profiles (pl_output p) | _ \<Rightarrow> True))"

lemma plant_runs_map [simp]: "plant_runs envs profiles (map_prod f id s) = plant_runs envs profiles s"
  by (simp add: plant_runs_def)

lemma plant_runs_on_plant:
  assumes "plant_runs envs profiles s"
    and "\<And>a p a' p' err. snd s = Done p \<Longrightarrow> f (fst s, p) = Done ((a', p'), err) \<Longrightarrow> out_reach profiles (pl_output p) \<Longrightarrow>
      env_now (pe_output (envs (pl_calls p))) \<noteq> 0 \<Longrightarrow> out_reach profiles (pl_output p')"
  shows "plant_runs envs profiles (fst (on_plant f s))"
  using assms
  by (cases s; cases "snd s") (auto simp: plant_runs_def on_plant_def split: outcome.splits prod.splits)

lemma one_submission_runs:
  assumes "one_submission env p p'" "out_reach profiles (pl_output p)" "env_now (pe_output env) \<noteq> 0"
  shows "out_reach profiles (pl_output p')"
  using assms by (auto simp: one_submission_def intro!: out_reach.submit)

interpretation runs: sink_invariant "plant_sinks envs" "plant_runs envs profiles" for envs profiles
proof
  fix s
  assume s: "plant_runs envs profiles s"
  show "plant_runs envs profiles (fst (sink_report (plant_sinks envs) r s))" for r
  proof (simp add: plant_sinks_def, rule plant_runs_on_plant [OF s], simp)
    fix p a' p' err
    assume "ReportShelly (envs (pl_calls p)) r (fst s, p) = Done ((a', p'), err)"
      "out_reach profiles (pl_output p)" "env_now (pe_output (envs (pl_calls p))) \<noteq> 0"
    then show "out_reach profiles (pl_output p')"
      using ReportShelly_submission one_submission_runs by fastforce
  qed
  show "plant_runs envs profiles (fst (sink_failure (plant_sinks envs) e active reason t s))" for e active reason t
  proof (simp add: plant_sinks_def, rule plant_runs_on_plant [OF s], simp)
    fix p a' p' err
    assume "ShellyFailure (envs (pl_calls p)) e active reason t (fst s, p) = ((a', p'), err)"
      "out_reach profiles (pl_output p)" "env_now (pe_output (envs (pl_calls p))) \<noteq> 0"
    then show "out_reach profiles (pl_output p')"
      using ShellyFailure_submission(1) [of "envs (pl_calls p)" p e active reason t "fst s"] one_submission_runs by fastforce
  qed
  show "plant_runs envs profiles (fst (sink_reconcile (plant_sinks envs) i on t s))" for i on t
    unfolding plant_sinks_def
    by (simp, rule plant_runs_on_plant [OF s]) (auto simp: Let_def case_prod_beta intro: out_reach.reconcile)
  show "plant_runs envs profiles (fst (sink_expire (plant_sinks envs) i reason t s))" for i reason t
    unfolding plant_sinks_def
    by (simp, rule plant_runs_on_plant [OF s]) (auto simp: Let_def case_prod_beta intro: out_reach.expire)
qed (simp_all)

text \<open>No call of the coordinator panics or blocks.\<close>

lemma set_all_effect:
  assumes "sm_inv m" "\<And>i. orders_ok (ord i) m"
  shows "\<exists>m' err. set_all env ord n vs m = Done (m', err) \<and> sm_inv m' \<and> sm_subscribers m' = sm_subscribers m"
  using assms
proof (induction env ord n vs m rule: set_all.induct)
  case (2 env ord n v vs m)
  obtain m1 x err where m1: "sm_set (env n) (ord n) v m = Done (m1, (x, err))" "sm_inv m1" "sm_subscribers m1 = sm_subscribers m"
    using sm_set_effect [OF 2(2) 2(3) [of n], of "env n" v] by (metis prod.exhaust)
  moreover have "orders_ok (ord i) m1" for i using 2(3) m1(3) by (simp add: orders_ok_def)
  ultimately show ?case
    using 2(1) [OF m1(1) refl] by (cases err) auto
qed simp

definition plant_live :: "(nat \<Rightarrow> plant_env) \<Rightarrow> shelly_adapter \<times> plant outcome \<Rightarrow> bool" where
  "plant_live envs s \<longleftrightarrow> (\<exists>p. snd s = Done p \<and> sm_inv (pl_state p) \<and> calm envs (pl_state p))"

lemma plant_live_map [simp]: "plant_live envs (map_prod f id s) = plant_live envs s"
  by (simp add: plant_live_def)

lemma plant_live_on_plant:
  assumes "plant_live envs s"
    and "\<And>p. snd s = Done p \<Longrightarrow> sm_inv (pl_state p) \<Longrightarrow> calm envs (pl_state p) \<Longrightarrow>
      \<exists>a' p' err. f (fst s, p) = Done ((a', p'), err) \<and> sm_inv (pl_state p') \<and> sm_subscribers (pl_state p') = sm_subscribers (pl_state p)"
  shows "plant_live envs (fst (on_plant f s))"
proof -
  obtain p where p: "snd s = Done p" "sm_inv (pl_state p)" "calm envs (pl_state p)"
    using assms(1) by (auto simp: plant_live_def)
  obtain a' p' err where p': "f (fst s, p) = Done ((a', p'), err)" "sm_inv (pl_state p')"
    "sm_subscribers (pl_state p') = sm_subscribers (pl_state p)"
    using assms(2) [OF p] by blast
  with p show ?thesis
    using calm_subscribers [OF p'(3), of envs] by (cases s) (auto simp: plant_live_def on_plant_def)
qed

lemma ReportShelly_live:
  assumes "sm_inv (pl_state p)" "\<And>i. orders_ok (pe_orders env i) (pl_state p)"
  shows "\<exists>a' p' err. ReportShelly env r (a, p) = Done ((a', p'), err) \<and> sm_inv (pl_state p') \<and>
    sm_subscribers (pl_state p') = sm_subscribers (pl_state p)"
proof (cases "co_shelly (pl_bench p) (rep_endpoint r)")
  case None
  then show ?thesis using assms(1) by (simp add: ReportShelly_def)
next
  case (Some e)
  show ?thesis
  proof (cases "report_values e r")
    case (Inl err)
    then show ?thesis using assms(1) Some by (simp add: ReportShelly_def)
  next
    case (Inr vs)
    obtain m err where m: "set_all (pe_state env) (pe_orders env) 0 vs (pl_state p) = Done (m, err)" "sm_inv m"
      "sm_subscribers m = sm_subscribers (pl_state p)"
      using set_all_effect [OF assms(1), of "pe_orders env" "pe_state env" 0 vs] assms(2) by blast
    have "\<exists>a' p' err. ShellyFailure env e active reason t (a, p\<lparr>pl_state := m\<rparr>) = ((a', p'), err) \<and> pl_state p' = m"
      for active reason t
      using ShellyFailure_submission(2) [of env e active reason t a "p\<lparr>pl_state := m\<rparr>"]
      by (cases "ShellyFailure env e active reason t (a, p\<lparr>pl_state := m\<rparr>)") auto
    then show ?thesis
      using assms(1) Some Inr m by (cases err; cases "report_verdict e r") (fastforce simp: ReportShelly_def)+
  qed
qed

interpretation live: sink_invariant "plant_sinks envs" "plant_live envs" for envs
proof
  fix s
  assume s: "plant_live envs s"
  show "plant_live envs (fst (sink_report (plant_sinks envs) r s))" for r
  proof (simp add: plant_sinks_def, rule plant_live_on_plant [OF s], simp)
    fix p :: plant
    assume "sm_inv (pl_state p)" "calm envs (pl_state p)"
    then show "\<exists>a' p'. (\<exists>err. ReportShelly (envs (pl_calls p)) r (fst s, p) = Done ((a', p'), err)) \<and> sm_inv (pl_state p') \<and>
        sm_subscribers (pl_state p') = sm_subscribers (pl_state p)"
      using ReportShelly_live [of p "envs (pl_calls p)" r "fst s"] by (auto simp: calm_def)
  qed
  show "plant_live envs (fst (sink_failure (plant_sinks envs) e active reason t s))" for e active reason t
  proof (simp add: plant_sinks_def, rule plant_live_on_plant [OF s], simp)
    fix p :: plant
    assume "sm_inv (pl_state p)"
    then show "\<exists>a' p'. (\<exists>err. ShellyFailure (envs (pl_calls p)) e active reason t (fst s, p) = ((a', p'), err)) \<and>
        sm_inv (pl_state p') \<and> sm_subscribers (pl_state p') = sm_subscribers (pl_state p)"
      using ShellyFailure_submission(2) [of "envs (pl_calls p)" e active reason t "fst s" p]
      by (metis prod.exhaust fst_conv snd_conv)
  qed
  show "plant_live envs (fst (sink_reconcile (plant_sinks envs) i on t s))" for i on t
    unfolding plant_sinks_def
    by (simp, rule plant_live_on_plant [OF s]) (auto simp: Let_def case_prod_beta)
  show "plant_live envs (fst (sink_expire (plant_sinks envs) i reason t s))" for i reason t
    unfolding plant_sinks_def
    by (simp, rule plant_live_on_plant [OF s]) (auto simp: Let_def case_prod_beta)
qed (simp_all)

section \<open>Properties of the switch path\<close>


lemma ExpireAcknowledged_sent: "w_sent (fst (ExpireAcknowledged env i reason t w)) = w_sent w"
  by (auto simp: ExpireAcknowledged_def Let_def split: option.splits prod.splits)

lemma expire_sink_Done:
  "\<exists>p'. fst (sink_expire (plant_sinks envs) i reason t (a, Done p)) = (a, Done p') \<and> pl_bench p' = pl_bench p \<and>
     w_sent (pl_output p') = w_sent (pl_output p)"
  using ExpireAcknowledged_sent
  by (auto simp: plant_sinks_def on_plant_def case_prod_beta Let_def)

lemma failure_sink_latched:
  assumes "co_active (pl_bench p) (sh_id e)"
  shows "\<exists>p'. fst (sink_failure (plant_sinks envs) e True reason t (a, Done p)) = (a, Done p') \<and>
    co_active (pl_bench p') (sh_id e) \<and> pl_output p' = pl_output p"
  using assms
  by (auto simp: plant_sinks_def on_plant_def ShellyFailure_def case_prod_beta Let_def split: option.splits)

lemma expireIfNeeded_latched:
  assumes "co_active (pl_bench p) (sh_id e)"
  shows "\<exists>a' p'. expireIfNeeded (plant_sinks envs) e now force (a, Done p) = (a', Done p') \<and>
    co_active (pl_bench p') (sh_id e) \<and> w_sent (pl_output p') = w_sent (pl_output p)"
proof (cases "sa_pending a (sh_equipment e)")
  case None
  with assms show ?thesis by (simp add: expireIfNeeded_def)
next
  case (Some c)
  obtain p1 err where p1: "sink_expire (plant_sinks envs) (pc_id c) ''shelly.reconciliation_expired'' now (a, Done p) =
      ((a, Done p1), err)" "pl_bench p1 = pl_bench p" "w_sent (pl_output p1) = w_sent (pl_output p)"
    using expire_sink_Done [of envs "pc_id c" "''shelly.reconciliation_expired''" now a p] by (metis prod.collapse)
  obtain p2 where "fst (sink_failure (plant_sinks envs) e True ''shelly.reconciliation_expired'' now
      (if err = None then forget_pending (sh_equipment e) a else a, Done p1)) =
      (if err = None then forget_pending (sh_equipment e) a else a, Done p2)"
    "co_active (pl_bench p2) (sh_id e)" "pl_output p2 = pl_output p1"
    using failure_sink_latched [of p1 e] assms p1(2) by metis
  with Some p1 assms show ?thesis by (auto simp: expireIfNeeded_def Let_def split: if_splits)
qed

text \<open>
  The safe response is requested once per outage: while a switch is known to have failed, a further failed poll
  dispatches nothing and keeps the failure latched, whether or not the one command that was
  requested at the start of the outage reached the device.
\<close>

theorem safe_response_once:
  assumes "co_active (pl_bench p) (sh_id e)"
  shows "\<exists>a' p'. plant_shelly_poll describe envs e (Inl err) status now (a, Done p) = (a', Done p') \<and>
    w_sent (pl_output p') = w_sent (pl_output p) \<and> co_active (pl_bench p') (sh_id e)"
proof -
  obtain p1 where p1: "fst (sink_failure (plant_sinks envs) e True ''shelly.config_unavailable'' now
      (sa_set_error (sh_id e) (''shelly.config_unavailable: '' @ describe err) a, Done p)) =
      (sa_set_error (sh_id e) (''shelly.config_unavailable: '' @ describe err) a, Done p1)"
    "co_active (pl_bench p1) (sh_id e)" "pl_output p1 = pl_output p"
    using failure_sink_latched [OF assms] by blast
  with expireIfNeeded_latched [OF p1(2), of envs now True] show ?thesis
    unfolding plant_shelly_poll_def shelly_poll_def failPoll_def by (fastforce simp: Let_def)
qed

section \<open>Concrete runs\<close>

definition sample_plant :: plant where
  "sample_plant =
     \<lparr>pl_state = NewStateManager, pl_alarms = \<lparr>am_rules = Map.empty, am_alarms = Map.empty, am_limit = 10, am_started = True\<rparr>,
      pl_output = sample_world,
      pl_bench = \<lparr>co_shelly_rules = [sample_id 13 \<mapsto> sample_id 14], co_esp_rules = [sample_id 9 \<mapsto> sample_id 15],
        co_active = (\<lambda>_. False), co_shelly = [sample_id 13 \<mapsto> sample_switch], co_esp = [sample_id 9 \<mapsto> sample_node]\<rparr>,
      pl_calls = 0\<rparr>"

definition sample_plant_env :: "nat \<Rightarrow> plant_env" where
  "sample_plant_env n =
     \<lparr>pe_state = (\<lambda>_. sample_env\<lparr>env_now := noon\<rparr>), pe_orders = (\<lambda>_. \<lparr>ord_values = [], ord_subscribers = []\<rparr>),
      pe_alarm = sample_env\<lparr>env_now := noon\<rparr>, pe_output = sample_env\<lparr>env_now := noon\<rparr>,
      pe_rpc = (\<lambda>_. Some (ErrorString ''timeout'')), pe_rpc_ctx = (\<lambda>_. None), pe_ack = noon\<rparr>"

definition sample_shelly :: shelly_adapter where
  "sample_shelly =
     \<lparr>sa_endpoints = [sample_id 7 \<mapsto> sample_switch], sa_pending = Map.empty, sa_desired = Map.empty, sa_started = True,
      sa_errors = Map.empty\<rparr>"

lemma sample_calm: "calm sample_plant_env (pl_state sample_plant)"
  by (auto simp: calm_def sample_plant_env_def sample_plant_def orders_ok_def NewStateManager_def)

lemma sample_attached: "node_attached sample_plant_env sample_node sample_plant"
  using sm_reach_inv [OF reach_new] sample_calm
  by (simp add: node_attached_def node_ok_def) (simp add: sample_plant_def sample_node_def)

theorem probe_good_exact_witness:
  "\<exists>a' p'. plant_esp_poll (\<lambda>_. []) sample_plant_env sample_node (Inr (sample_snapshot 1 noon)) noon (sample_esp, Done sample_plant) =
     (a', Done p') \<and> good_at (sample_env\<lparr>env_now := noon\<rparr>) (pl_state p') (probe_key (sample_id 11))"
proof -
  have "\<not> fetch_failed sample_node (Inr (sample_snapshot 1 noon)) noon sample_esp"
    using sample_accepted [of noon noon sample_esp 1] by (force simp: fetch_failed_def sample_esp_def)
  moreover have "fst (esp_probes sample_node) = sample_id 11" "snd (esp_probes sample_node) = sample_id 12"
    "dto_observed (sample_snapshot 1 noon) = noon" "esp_fresh_for sample_node = 15000000000"
    by (simp_all add: sample_node_def sample_snapshot_def)
  moreover note probe_good_exact [OF sample_attached, of noon "Inr (sample_snapshot 1 noon)" "sample_id 11"
      "sample_env\<lparr>env_now := noon\<rparr>" "\<lambda>_. []" sample_esp] sample_probes [of 1 noon] sample_readings sample_agree
  ultimately show ?thesis by simp
qed

theorem failed_poll_blocks_hazard_witness:
  "\<exists>a' p'. plant_esp_poll (\<lambda>_. []) sample_plant_env sample_node (Inl (ErrorString ''timeout'')) noon (sample_esp, Done sample_plant) =
     (a', Done p') \<and>
     \<not> granted (snd (Evaluate sample_env (sm_get sample_env (pl_state p')) (sample_intent 5 noon)
       (sample_engine\<lparr>eng_profiles := [sample_id 5 \<mapsto>
          sample_heater\<lparr>profile_required := [\<lparr>req_key = probe_key (sample_id 11), req_boolean = None\<rparr>]\<rparr>]\<rparr>)))"
  by (rule failed_poll_blocks_hazard [OF sample_attached,
        where q = "\<lparr>req_key = probe_key (sample_id 11), req_boolean = None\<rparr>"
          and prof = "sample_heater\<lparr>profile_required := [\<lparr>req_key = probe_key (sample_id 11), req_boolean = None\<rparr>]\<rparr>"])
     (simp_all add: fetch_failed_def sample_heater_def sample_node_def)

theorem snapshot_ahead_is_lost_witness:
  "\<exists>a' p'. plant_esp_poll (\<lambda>_. []) sample_plant_env sample_node (Inr (sample_snapshot 1 (noon + 1000000000))) noon
     (sample_esp, Done sample_plant) = (a', Done p') \<and> sm_values (pl_state p') = Map.empty"
proof -
  obtain a' ms where "validateSnapshot sample_node (sample_snapshot 1 (noon + 1000000000)) noon sample_esp = (a', ms, [], None)"
    using sample_accepted [of "noon + 1000000000" noon sample_esp 1] by (force simp: sample_esp_def)
  from snapshot_ahead_is_lost [OF sample_attached _ this] show ?thesis
    by (fastforce simp: sample_plant_def NewStateManager_def sample_snapshot_def)
qed


theorem safe_response_once_witness:
  "\<exists>a' p'. plant_shelly_poll (\<lambda>_. []) sample_plant_env sample_switch (Inl (ErrorString ''timeout'')) (Inl (ErrorString ''timeout''))
     noon (sample_shelly, Done (sample_plant\<lparr>pl_bench := (pl_bench sample_plant)\<lparr>co_active := (\<lambda>_. True)\<rparr>\<rparr>)) = (a', Done p') \<and>
     w_sent (pl_output p') = []"
  using safe_response_once [of "sample_plant\<lparr>pl_bench := (pl_bench sample_plant)\<lparr>co_active := (\<lambda>_. True)\<rparr>\<rparr>" sample_switch
      "\<lambda>_. []" sample_plant_env "ErrorString ''timeout''" "Inl (ErrorString ''timeout'')" noon sample_shelly]
  by (auto simp: sample_plant_def)

end
