(* ===== verification/Config.thy ===== *)
theory Config
  imports GoNet MqttTopics Domain
begin

text \<open>
  The configuration of AquaOS (\<open>config/config.go\<close>): its structure, the defaults, environment overrides,
  loading, and validation. Every struct is a record with the fields of the source. A slice is a list; whether an empty
  slice is \<open>nil\<close> is not kept, because every snapshot the program works with was made by \<open>Clone\<close>, which turns
  empty slices into \<open>nil\<close>. Deep copies are the identity on immutable values.

  The YAML decoder (a third-party package), the URL and host parsers and the JSON encoder are arguments.
\<close>

section \<open>Structure\<close>

record application_config =
  app_log_level :: string
  app_startup :: duration
  app_shutdown :: duration
  app_component :: duration
  app_concurrency :: int

record http_config =
  http_address :: string
  http_read :: duration
  http_write :: duration
  http_idle :: duration
  http_token_file :: string
  http_max_bytes :: int
  http_rate :: int
  http_burst :: int

record tombstone =
  tomb_component :: string
  tomb_object :: string

record home_assistant_config =
  ha_enabled :: bool
  ha_command_ttl :: duration
  ha_tombstones :: "tombstone list"

record mqtt_config =
  mq_enabled :: bool
  mq_site :: string
  mq_broker :: string
  mq_client :: string
  mq_username :: string
  mq_password :: string
  mq_connect_timeout :: duration
  mq_keep_alive :: duration
  mq_quiesce :: duration
  mq_required :: bool
  mq_max_payload :: int
  mq_queue :: int
  mq_idempotency :: int
  mq_reconnect_min :: duration
  mq_reconnect_max :: duration
  mq_jitter :: float64
  mq_home_assistant :: home_assistant_config

record influx_config =
  in_enabled :: bool
  in_url :: string
  in_organization :: string
  in_bucket :: string
  in_token_file :: string
  in_queue :: int
  in_batch :: int
  in_flush :: duration
  in_retry_min :: duration
  in_retry_max :: duration
  in_write_timeout :: duration

record shelly_config =
  shc_id :: string
  shc_equipment :: string
  shc_rule :: string
  shc_base_url :: string
  shc_channel :: int
  shc_poll :: duration
  shc_timeout :: duration
  shc_retries :: int
  shc_safe_on :: bool
  shc_power_return :: string
  shc_kind :: string
  shc_maximum_on :: duration
  shc_probes :: "string list"

record esp32_config =
  espc_id :: string
  espc_device :: string
  espc_rule :: string
  espc_base_url :: string
  espc_token_file :: string
  espc_probes :: "string list"
  espc_poll :: duration
  espc_timeout :: duration
  espc_fresh_for :: duration
  espc_skew :: duration
  espc_difference :: float64

record adapters_config =
  shelly_enabled :: bool
  shelly_endpoints :: "shelly_config list"
  esp32_enabled :: bool
  esp32_endpoints :: "esp32_config list"

record bench_config =
  bench_enabled :: bool
  bench_acknowledged :: bool

record device_config =
  dc_id :: string
  dc_entity :: string
  dc_name :: string
  dc_description :: string
  dc_manufacturer :: string
  dc_model :: string
  dc_firmware :: string
  dc_metadata :: "(string \<rightharpoonup> string) option"

record calibration_config =
  cal_enabled :: bool
  cal_scale :: float64
  cal_offset :: float64
  cal_reference :: string
  cal_by :: string
  cal_at :: gotime

record sensor_config =
  senc_id :: string
  senc_entity :: string
  senc_device :: string
  senc_unit :: string
  senc_minimum :: "float64 option"
  senc_maximum :: "float64 option"
  senc_name :: string
  senc_quantity :: string
  senc_calibration :: calibration_config

record commissioning_config =
  com_stage :: string
  com_safe_load :: bool
  com_fail_safe :: bool
  com_power_return :: bool
  com_safeguard :: bool
  com_by :: string
  com_at :: gotime

record equipment_config =
  eqc_id :: string
  eqc_entity :: string
  eqc_device :: string
  eqc_name :: string
  eqc_kind :: string
  eqc_capabilities :: "capability list"
  eqc_hazardous :: bool
  eqc_fail_safe_on :: bool
  eqc_maximum_on :: duration
  eqc_maximum_daily :: duration
  eqc_minimum_off :: duration
  eqc_sensors :: "string list"
  eqc_commissioning :: commissioning_config

record inventory_config =
  invc_devices :: "device_config list"
  invc_sensors :: "sensor_config list"
  invc_equipment :: "equipment_config list"

record alarm_config =
  ac_id :: string
  ac_name :: string
  ac_sensor :: string
  ac_condition :: string
  ac_threshold :: float64
  ac_threshold_high :: "float64 option"
  ac_severity :: string
  ac_delay :: duration
  ac_clear_delay :: duration
  ac_latching :: bool
  ac_notifications :: "string list"

record backup_config =
  bk_enabled :: bool
  bk_destination :: string
  bk_retention :: int

record config =
  cfg_schema :: int
  cfg_application :: application_config
  cfg_http :: http_config
  cfg_mqtt :: mqtt_config
  cfg_simulator :: bool
  cfg_adapters :: adapters_config
  cfg_bench :: bench_config
  cfg_influx :: influx_config
  cfg_inventory :: inventory_config
  cfg_alarms :: "alarm_config list"
  cfg_backups :: backup_config

section \<open>Defaults, environment and loading\<close>

abbreviation second :: duration where "second \<equiv> 1000000000"
abbreviation minute :: duration where "minute \<equiv> 60000000000"
abbreviation millisecond :: duration where "millisecond \<equiv> 1000000"

definition CurrentSchemaVersion :: int where
  "CurrentSchemaVersion = 1"

definition zero_backup :: backup_config where
  "zero_backup = \<lparr>bk_enabled = False, bk_destination = [], bk_retention = 0\<rparr>"

definition Defaults :: config where
  "Defaults =
     \<lparr>cfg_schema = CurrentSchemaVersion,
      cfg_application = \<lparr>app_log_level = ''info'', app_startup = 30 * second, app_shutdown = 15 * second,
        app_component = 5 * second, app_concurrency = 64\<rparr>,
      cfg_http = \<lparr>http_address = ''localhost:8080'', http_read = 5 * second, http_write = 10 * second,
        http_idle = 60 * second, http_token_file = [], http_max_bytes = 64 * 1024, http_rate = 10, http_burst = 20\<rparr>,
      cfg_mqtt = \<lparr>mq_enabled = False, mq_site = [], mq_broker = [], mq_client = [], mq_username = [], mq_password = [],
        mq_connect_timeout = 10 * second, mq_keep_alive = 30 * second, mq_quiesce = 250 * millisecond, mq_required = False,
        mq_max_payload = 256 * 1024, mq_queue = 256, mq_idempotency = 4096, mq_reconnect_min = second,
        mq_reconnect_max = minute, mq_jitter = f64_round (1 / 5),
        mq_home_assistant = \<lparr>ha_enabled = False, ha_command_ttl = 10 * second, ha_tombstones = []\<rparr>\<rparr>,
      cfg_simulator = True,
      cfg_adapters = \<lparr>shelly_enabled = False, shelly_endpoints = [], esp32_enabled = False, esp32_endpoints = []\<rparr>,
      cfg_bench = \<lparr>bench_enabled = False, bench_acknowledged = False\<rparr>,
      cfg_influx = \<lparr>in_enabled = False, in_url = [], in_organization = [], in_bucket = [], in_token_file = [],
        in_queue = 4096, in_batch = 200, in_flush = 5 * second, in_retry_min = second, in_retry_max = minute,
        in_write_timeout = 5 * second\<rparr>,
      cfg_inventory = \<lparr>invc_devices = [], invc_sensors = [], invc_equipment = []\<rparr>,
      cfg_alarms = [], cfg_backups = zero_backup\<rparr>"

definition validationError :: "string \<Rightarrow> string \<Rightarrow> string \<Rightarrow> go_error" where
  "validationError path code message = Validation path code message"

text \<open>\<open>strconv.ParseBool\<close>.\<close>

definition parse_bool :: "string \<Rightarrow> go_error + bool" where
  "parse_bool s =
     (if s \<in> set [''1'', ''t'', ''T'', ''true'', ''TRUE'', ''True''] then Inr True
      else if s \<in> set [''0'', ''f'', ''F'', ''false'', ''FALSE'', ''False''] then Inr False
      else Inl (ErrorFmt ''strconv.ParseBool: parsing %s: invalid syntax'' [s]))"

definition override :: "string option \<Rightarrow> string \<Rightarrow> string" where
  "override v current = (case v of None \<Rightarrow> current | Some s \<Rightarrow> s)"

definition override_bool :: "(go_error \<Rightarrow> string) \<Rightarrow> string \<Rightarrow> string option \<Rightarrow> bool \<Rightarrow> go_error + bool" where
  "override_bool describe name v current =
     (case v of
        None \<Rightarrow> Inr current
      | Some s \<Rightarrow>
          (case parse_bool s of
             Inl err \<Rightarrow> Inl (validationError (''environment.'' @ name) ''invalid_boolean'' (describe err))
           | Inr b \<Rightarrow> Inr b))"

definition override_texts :: "(string \<Rightarrow> string option) \<Rightarrow> config \<Rightarrow> config" where
  "override_texts lookup c =
     c\<lparr>cfg_application := (cfg_application c)\<lparr>
         app_log_level := override (lookup ''AQUAOS_LOG_LEVEL'') (app_log_level (cfg_application c))\<rparr>,
       cfg_http := (cfg_http c)\<lparr>http_address := override (lookup ''AQUAOS_HTTP_ADDRESS'') (http_address (cfg_http c))\<rparr>,
       cfg_mqtt := (cfg_mqtt c)\<lparr>
         mq_broker := override (lookup ''AQUAOS_MQTT_BROKER'') (mq_broker (cfg_mqtt c)),
         mq_client := override (lookup ''AQUAOS_MQTT_CLIENT_ID'') (mq_client (cfg_mqtt c)),
         mq_site := override (lookup ''AQUAOS_MQTT_SITE_ID'') (mq_site (cfg_mqtt c)),
         mq_username := override (lookup ''AQUAOS_MQTT_USERNAME'') (mq_username (cfg_mqtt c)),
         mq_password := override (lookup ''AQUAOS_MQTT_PASSWORD'') (mq_password (cfg_mqtt c))\<rparr>\<rparr>"

definition applyEnvironment ::
  "(go_error \<Rightarrow> string) \<Rightarrow> (string \<Rightarrow> string option) \<Rightarrow> config \<Rightarrow> go_error + config"
where
  "applyEnvironment describe lookup c =
     (let c = override_texts lookup c;
          bool = (\<lambda>name current. override_bool describe name (lookup name) current)
      in case bool ''AQUAOS_MQTT_ENABLED'' (mq_enabled (cfg_mqtt c)) of
           Inl err \<Rightarrow> Inl err
         | Inr enabled \<Rightarrow>
             (case bool ''AQUAOS_MQTT_REQUIRED_FOR_READY'' (mq_required (cfg_mqtt c)) of
                Inl err \<Rightarrow> Inl err
              | Inr required \<Rightarrow>
                  (case bool ''AQUAOS_SIMULATOR_ENABLED'' (cfg_simulator c) of
                     Inl err \<Rightarrow> Inl err
                   | Inr simulator \<Rightarrow>
                       Inr (c\<lparr>cfg_mqtt := (cfg_mqtt c)\<lparr>mq_enabled := enabled, mq_required := required\<rparr>,
                              cfg_simulator := simulator\<rparr>))))"

section \<open>Validation\<close>

text \<open>
  The surroundings of a validation: what the parsers of \<open>net/url\<close> and \<open>net\<close> say about a text, the text of an
  error, and the orders in which the runtime ranges over the two maps that \<open>Validate\<close> makes.
\<close>

record config_env =
  ce_url :: url_parser
  ce_host_port :: "string \<Rightarrow> go_error + string \<times> string"
  ce_loopback :: "string \<Rightarrow> bool option"
  ce_describe :: "go_error \<Rightarrow> string"
  ce_durations :: "(string \<times> duration) list \<Rightarrow> (string \<times> duration) list"
  ce_texts :: "(string \<times> string) list \<Rightarrow> (string \<times> string) list"

definition ranges_ok :: "config_env \<Rightarrow> bool" where
  "ranges_ok env \<longleftrightarrow> (\<forall>xs. mset (ce_durations env xs) = mset xs) \<and> (\<forall>xs. mset (ce_texts env xs) = mset xs)"

definition identifierPattern :: "string \<Rightarrow> bool" where
  "identifierPattern s = segment_pattern (CHR ''-'') s"

definition haIdentifierPattern :: "string \<Rightarrow> bool" where
  "haIdentifierPattern s = segment_pattern (CHR ''_'') s"

definition reject :: "bool \<Rightarrow> string \<Rightarrow> string \<Rightarrow> string \<Rightarrow> go_error option" where
  "reject b path code message = guard b (validationError path code message)"

lemma reject_None [simp]: "reject b path code message = None \<longleftrightarrow> \<not> b"
  by (simp add: reject_def)

definition url_rejected :: "config_env \<Rightarrow> string \<Rightarrow> (url \<Rightarrow> bool) \<Rightarrow> bool" where
  "url_rejected env s bad = (case ce_url env s of Inl _ \<Rightarrow> True | Inr u \<Rightarrow> bad u)"

definition cfg_validateUUID :: "config_env \<Rightarrow> string \<Rightarrow> string \<Rightarrow> go_error option" where
  "cfg_validateUUID env path value =
     (case validateUUID value of None \<Rightarrow> None | Some err \<Rightarrow> Some (validationError path ''invalid_uuid'' (ce_describe env err)))"

definition validateID :: "string \<Rightarrow> string \<Rightarrow> go_error option" where
  "validateID path i = reject (\<not> identifierPattern i) path ''invalid_id'' ''must match ^[a-z][a-z0-9-]{0,62}$''"

definition item_path :: "string \<Rightarrow> nat \<Rightarrow> string" where
  "item_path base n = base @ ''['' @ decimal n @ '']''"

definition validate_timeouts :: "config_env \<Rightarrow> config \<Rightarrow> go_error option" where
  "validate_timeouts env c =
     first_error (map (\<lambda>(path, value). reject (value \<le> 0 \<or> value > 10 * minute) path ''out_of_range''
         ''must be greater than zero and at most 10m'')
       (ce_durations env
         [(''application.startup_timeout'', app_startup (cfg_application c)),
          (''application.shutdown_timeout'', app_shutdown (cfg_application c)),
          (''application.component_timeout'', app_component (cfg_application c)),
          (''http.read_timeout'', http_read (cfg_http c)), (''http.write_timeout'', http_write (cfg_http c)),
          (''http.idle_timeout'', http_idle (cfg_http c))]))"

definition validate_http :: "config_env \<Rightarrow> http_config \<Rightarrow> go_error option" where
  "validate_http env h = first_error [
     reject (trim_space (http_address h) = []) ''http.address'' ''required'' ''is required'',
     (case ce_host_port env (http_address h) of
        Inl _ \<Rightarrow> Some (validationError ''http.address'' ''invalid_address'' ''must contain a host and port'')
      | Inr (host, _) \<Rightarrow>
          reject (\<not> (host = ''localhost'' \<or> ce_loopback env host = Some True) \<and> http_token_file h = [])
            ''http.bearer_token_file'' ''required'' ''is required for a non-loopback listener''),
     reject (http_max_bytes h < 1024 \<or> http_max_bytes h > 1024 * 1024)
       ''http.maximum_request_bytes'' ''out_of_range'' ''must be between 1024 and 1048576'',
     reject (http_rate h < 1 \<or> http_rate h > 1000 \<or> http_burst h < 1 \<or> http_burst h > 1000)
       ''http.mutation_rate'' ''out_of_range'' ''mutation rate and burst must be between 1 and 1000'']"

definition validate_mqtt :: "config_env \<Rightarrow> mqtt_config \<Rightarrow> go_error option" where
  "validate_mqtt env m = first_error [
     reject (\<not> identifierPattern (mq_site m)) ''mqtt.site_id'' ''invalid_id''
       ''must be lowercase kebab-case when MQTT is enabled'',
     reject (mq_broker m = []) ''mqtt.broker'' ''required'' ''is required when MQTT is enabled'',
     reject (url_rejected env (mq_broker m) (\<lambda>u. url_scheme u \<noteq> ''tcp'' \<and> url_scheme u \<noteq> ''ssl'' \<or> url_host u = []))
       ''mqtt.broker'' ''invalid_uri'' ''must be a tcp:// or ssl:// URI with a host'',
     reject (url_rejected env (mq_broker m) url_user) ''mqtt.broker'' ''secret_inline''
       ''must not contain credentials; use explicit environment overrides'',
     reject (mq_client m = []) ''mqtt.client_id'' ''required'' ''is required when MQTT is enabled'',
     reject (mq_connect_timeout m \<le> 0 \<or> mq_connect_timeout m > minute) ''mqtt.connect_timeout'' ''out_of_range''
       ''must be greater than zero and at most 1m'',
     reject (mq_keep_alive m < second \<or> mq_keep_alive m > 10 * minute) ''mqtt.keep_alive'' ''out_of_range''
       ''must be between 1s and 10m'',
     reject (mq_max_payload m < 256 \<or> mq_max_payload m > 16 * 1024 * 1024) ''mqtt.maximum_payload'' ''out_of_range''
       ''must be between 256 and 16777216 bytes'',
     reject (mq_queue m < 1 \<or> mq_queue m > 65536 \<or> mq_idempotency m < 1 \<or> mq_idempotency m > 1000000)
       ''mqtt.queue_capacity'' ''out_of_range'' ''queue and idempotency capacities are outside safe bounds'',
     reject (mq_reconnect_min m \<le> 0 \<or> mq_reconnect_max m < mq_reconnect_min m \<or> mq_reconnect_max m > 10 * minute)
       ''mqtt.reconnect_maximum'' ''out_of_range'' ''reconnect bounds are invalid'',
     reject (f64_lt (mq_jitter m) (Finite 0) \<or> f64_lt (Finite (1 / 2)) (mq_jitter m))
       ''mqtt.reconnect_jitter'' ''out_of_range'' ''must be between 0 and 0.5'']"

definition validate_influx :: "config_env \<Rightarrow> influx_config \<Rightarrow> go_error option" where
  "validate_influx env s = first_error [
     reject (in_queue s < 1 \<or> in_queue s > 1000000 \<or> in_batch s < 1 \<or> in_batch s > in_queue s)
       ''storage.influxdb.queue_capacity'' ''out_of_range'' ''queue and batch bounds are invalid'',
     reject (in_flush s \<le> 0 \<or> in_retry_min s \<le> 0 \<or> in_retry_max s < in_retry_min s \<or> in_retry_max s > 10 * minute \<or>
         in_write_timeout s \<le> 0 \<or> in_write_timeout s > minute)
       ''storage.influxdb.retry_maximum'' ''out_of_range'' ''storage timing bounds are invalid'',
     (if in_enabled s then first_error [
        reject (url_rejected env (in_url s) (\<lambda>u. url_host u = [] \<or> url_scheme u \<noteq> ''http'' \<and> url_scheme u \<noteq> ''https''))
          ''storage.influxdb.url'' ''invalid_uri'' ''must be an HTTP or HTTPS origin'',
        reject (url_rejected env (in_url s) url_user) ''storage.influxdb.url'' ''secret_inline''
          ''must not contain credentials'',
        reject (in_organization s = [] \<or> in_bucket s = [] \<or> in_token_file s = []) ''storage.influxdb'' ''required''
          ''organization, bucket, and token_file are required when enabled'']
      else None)]"

definition validate_tombstones :: "tombstone list \<Rightarrow> go_error option" where
  "validate_tombstones ts =
     error_of (each_indexed (\<lambda>n t s. check_then
       (reject (\<not> haIdentifierPattern (tomb_component t) \<or> \<not> identifierPattern (tomb_object t))
          (item_path ''mqtt.home_assistant.tombstones'' n) ''invalid_id'' ''component or object_id is invalid'') s) 0 ts ())"

subsection \<open>Adapters\<close>

definition validate_uuids :: "config_env \<Rightarrow> string \<Rightarrow> (string \<times> string) list \<Rightarrow> go_error option" where
  "validate_uuids env base texts =
     first_error (map (\<lambda>(path, value). cfg_validateUUID env (base @ ''.'' @ path) value) (ce_texts env texts))"

definition validate_heater :: "config_env \<Rightarrow> string \<Rightarrow> shelly_config \<Rightarrow> go_error option" where
  "validate_heater env base e = first_error [
     reject (shc_safe_on e) (base @ ''.safe_on'') ''unsafe_value'' ''must be false for heater equipment'',
     reject (shc_maximum_on e \<le> 0) (base @ ''.maximum_on'') ''out_of_range'' ''must be positive for heater equipment'',
     reject (length (shc_probes e) \<noteq> 2) (base @ ''.required_probe_ids'') ''invalid_count''
       ''must contain both independent probe IDs for heater equipment'',
     error_of (each_indexed (\<lambda>n p s. check_then (cfg_validateUUID env (item_path (base @ ''.required_probe_ids'') n) p) s)
       0 (shc_probes e) ()),
     (case shc_probes e of
        [p, q] \<Rightarrow> reject (p = q) (base @ ''.required_probe_ids'') ''duplicate_id'' ''heater probes must be independent''
      | _ \<Rightarrow> None)]"

definition validate_shelly :: "config_env \<Rightarrow> nat \<Rightarrow> shelly_config \<Rightarrow> string set \<times> string set \<Rightarrow> go_error option" where
  "validate_shelly env n e seen =
     (let base = item_path ''adapters.shelly.endpoints'' n
      in first_error [
        validate_uuids env base [(''id'', shc_id e), (''equipment_id'', shc_equipment e), (''alarm_rule_id'', shc_rule e)],
        reject (shc_id e \<in> fst seen) (base @ ''.id'') ''duplicate_id'' (''duplicates endpoint '' @ shc_id e),
        reject (shc_equipment e \<in> snd seen) (base @ ''.equipment_id'') ''duplicate_id''
          ''equipment has more than one owning adapter'',
        reject (url_rejected env (shc_base_url e) (\<lambda>u. url_scheme u \<noteq> ''http'' \<or> url_host u = [] \<or> url_user u \<or>
            url_raw_query u \<noteq> [] \<or> url_fragment u \<noteq> []))
          (base @ ''.base_url'') ''invalid_uri'' ''must be an unauthenticated http URL with a host'',
        reject (shc_channel e < 0 \<or> shc_channel e > 31) (base @ ''.channel'') ''out_of_range'' ''must be between 0 and 31'',
        reject (shc_poll e \<le> 0 \<or> shc_timeout e \<le> 0 \<or> shc_timeout e > shc_poll e) (base @ ''.request_timeout'')
          ''out_of_range'' ''must be positive and no greater than poll_interval'',
        reject (shc_retries e < 0 \<or> shc_retries e > 5) (base @ ''.retries'') ''out_of_range'' ''must be between 0 and 5'',
        reject (shc_power_return e \<noteq> ''off'' \<and> shc_power_return e \<noteq> ''restore'') (base @ ''.power_return_policy'')
          ''invalid_enum'' ''must be off or restore'',
        reject (shc_kind e \<noteq> ''outlet'' \<and> shc_kind e \<noteq> ''heater'') (base @ ''.equipment_kind'')
          ''invalid_enum'' ''must be outlet or heater'',
        (if shc_kind e = ''heater'' then validate_heater env base e
         else reject (shc_maximum_on e < 0 \<or> shc_probes e \<noteq> []) (base @ ''.maximum_on'') ''invalid_combination''
           ''outlet equipment cannot declare heater probe requirements and maximum_on cannot be negative'')])"

definition see_shelly :: "shelly_config \<Rightarrow> string set \<times> string set \<Rightarrow> string set \<times> string set" where
  "see_shelly e seen = (insert (shc_id e) (fst seen), insert (shc_equipment e) (snd seen))"

definition validate_probes :: "config_env \<Rightarrow> string \<Rightarrow> string list \<Rightarrow> string set \<Rightarrow> go_error option" where
  "validate_probes env base probes seen =
     error_of (each_indexed (\<lambda>n p seen. check_then
       (first_error [cfg_validateUUID env (item_path (base @ ''.probe_ids'') n) p,
          reject (p \<in> seen) (base @ ''.probe_ids'') ''duplicate_id'' ''probe identity is reused'']) (insert p seen))
       0 probes seen)"

record seen_nodes =
  seen_ids :: "string set"
  seen_devices :: "string set"
  seen_probes :: "string set"

definition validate_esp32 :: "config_env \<Rightarrow> nat \<Rightarrow> esp32_config \<Rightarrow> seen_nodes \<Rightarrow> go_error option" where
  "validate_esp32 env n e seen =
     (let base = item_path ''adapters.esp32.endpoints'' n
      in first_error [
        validate_uuids env base [(''id'', espc_id e), (''device_id'', espc_device e), (''alarm_rule_id'', espc_rule e)],
        reject (espc_id e \<in> seen_ids seen) (base @ ''.id'') ''duplicate_id'' (''duplicates endpoint '' @ espc_id e),
        reject (espc_device e \<in> seen_devices seen) (base @ ''.device_id'') ''duplicate_id''
          ''device has more than one node endpoint'',
        reject (url_rejected env (espc_base_url e) (\<lambda>u. url_scheme u \<noteq> ''http'' \<and> url_scheme u \<noteq> ''https'' \<or>
            url_host u = [] \<or> url_user u \<or> url_raw_query u \<noteq> [] \<or> url_fragment u \<noteq> []))
          (base @ ''.base_url'') ''invalid_uri'' ''must be an http or https URL with a host and no credentials'',
        reject (length (espc_probes e) \<noteq> 2) (base @ ''.probe_ids'') ''invalid_count'' ''must contain exactly two probe IDs'',
        validate_probes env base (espc_probes e) (seen_probes seen),
        reject (espc_poll e \<le> 0 \<or> espc_timeout e \<le> 0 \<or> espc_timeout e > espc_poll e \<or> espc_fresh_for e < espc_poll e)
          (base @ ''.fresh_for'') ''out_of_range'' ''poll, timeout, and freshness bounds are invalid'',
        reject (espc_skew e < 0 \<or> espc_skew e > minute) (base @ ''.maximum_clock_skew'') ''out_of_range''
          ''must be between zero and 1m'',
        reject (f64_le (espc_difference e) (Finite 0) \<or> f64_lt (Finite 10) (espc_difference e))
          (base @ ''.maximum_difference_celsius'') ''out_of_range'' ''must be greater than zero and at most 10''])"

definition see_esp32 :: "esp32_config \<Rightarrow> seen_nodes \<Rightarrow> seen_nodes" where
  "see_esp32 e seen =
     \<lparr>seen_ids = insert (espc_id e) (seen_ids seen), seen_devices = insert (espc_device e) (seen_devices seen),
      seen_probes = set (espc_probes e) \<union> seen_probes seen\<rparr>"

definition validate_required_probes :: "adapters_config \<Rightarrow> string set \<Rightarrow> go_error option" where
  "validate_required_probes a probes =
     error_of (each_indexed (\<lambda>n e s. check_then
       (if shc_kind e \<noteq> ''heater'' \<or> \<not> shelly_enabled a then None
        else let path = item_path ''adapters.shelly.endpoints'' n @ ''.required_probe_ids''
             in first_error
               (reject (\<not> esp32_enabled a) path ''adapter_dependency'' ''heater bench equipment requires the direct ESP32 adapter'' #
                map (\<lambda>p. reject (p \<notin> probes) path ''invalid_reference'' (''references an unknown ESP32 probe '' @ p))
                  (shc_probes e))) s) 0 (shelly_endpoints a) ())"

definition validateAdapters :: "config_env \<Rightarrow> config \<Rightarrow> go_error option" where
  "validateAdapters env c =
     (let a = cfg_adapters c; real = shelly_enabled a \<or> esp32_enabled a
      in case first_error [
           reject (real \<and> cfg_simulator c) ''simulator.enabled'' ''adapter_conflict''
             ''must be false when a real adapter is enabled'',
           reject (real \<and> (\<not> bench_enabled (cfg_bench c) \<or> \<not> bench_acknowledged (cfg_bench c)))
             ''bench.safe_load_acknowledged'' ''activation_guard''
             ''must be true with bench.enabled before real adapters can start'',
           reject (shelly_enabled a \<and> shelly_endpoints a = []) ''adapters.shelly.endpoints'' ''required''
             ''must contain at least one endpoint when enabled''] of
         Some err \<Rightarrow> Some err
       | None \<Rightarrow>
           (case each_indexed (\<lambda>n e s. check_then (validate_shelly env n e s) (see_shelly e s)) 0 (shelly_endpoints a) ({}, {}) of
              Inl err \<Rightarrow> Some err
            | Inr (ids, _) \<Rightarrow>
                if esp32_enabled a \<and> esp32_endpoints a = []
                then Some (validationError ''adapters.esp32.endpoints'' ''required''
                       ''must contain at least one endpoint when enabled'')
                else case each_indexed (\<lambda>n e s. check_then (validate_esp32 env n e s) (see_esp32 e s)) 0 (esp32_endpoints a)
                            \<lparr>seen_ids = ids, seen_devices = {}, seen_probes = {}\<rparr> of
                       Inl err \<Rightarrow> Some err
                     | Inr seen \<Rightarrow> validate_required_probes a (seen_probes seen)))"

subsection \<open>Inventory, alarms and backups\<close>

definition validate_device :: "config_env \<Rightarrow> nat \<Rightarrow> device_config \<Rightarrow> string set \<Rightarrow> go_error option" where
  "validate_device env n d seen =
     (let path = item_path ''inventory.devices'' n
      in first_error [
        validateID (path @ ''.id'') (dc_id d),
        reject (dc_id d \<in> seen) (path @ ''.id'') ''duplicate_id'' (''duplicates '' @ dc_id d),
        (if dc_entity d \<noteq> [] then cfg_validateUUID env (path @ ''.entity_id'') (dc_entity d) else None)])"

definition not_finite :: "float64 option \<Rightarrow> bool" where
  "not_finite x = (case x of None \<Rightarrow> False | Some v \<Rightarrow> f64_is_nan v \<or> f64_is_inf v)"

definition validate_calibration :: "string \<Rightarrow> calibration_config \<Rightarrow> go_error option" where
  "validate_calibration base k = first_error [
     reject (f64_eq (cal_scale k) (Finite 0) \<or> not_finite (Some (cal_scale k)) \<or> not_finite (Some (cal_offset k)))
       (base @ ''.calibration'') ''out_of_range'' ''scale must be non-zero and calibration values must be finite'',
     reject (trim_space (cal_reference k) = [] \<or> trim_space (cal_by k) = [] \<or> is_zero (cal_at k))
       (base @ ''.calibration'') ''evidence_required'' ''reference, operator, and calibration time are required'']"

definition empty_range :: "float64 option \<Rightarrow> float64 option \<Rightarrow> bool" where
  "empty_range low high = (case (low, high) of (Some a, Some b) \<Rightarrow> f64_le b a | _ \<Rightarrow> False)"

definition validate_sensor :: "config_env \<Rightarrow> string set \<Rightarrow> nat \<Rightarrow> sensor_config \<Rightarrow> (string \<rightharpoonup> string) \<Rightarrow> go_error option" where
  "validate_sensor env devices n s seen =
     (let base = item_path ''inventory.sensors'' n
      in first_error [
        validateID (base @ ''.id'') (senc_id s),
        (case seen (senc_id s) of
           None \<Rightarrow> None
         | Some previous \<Rightarrow> Some (validationError (base @ ''.id'') ''duplicate_id'' (''duplicates '' @ previous))),
        (if senc_entity s \<noteq> [] then cfg_validateUUID env (base @ ''.entity_id'') (senc_entity s) else None),
        reject (senc_device s \<notin> devices) (base @ ''.device_id'') ''invalid_reference''
          (''references unknown device '' @ senc_device s),
        reject (\<not> oneOf (senc_unit s) [''celsius'', ''fahrenheit'', ''pH'', ''ppt'', ''liters_per_hour'', ''boolean''])
          (base @ ''.unit'') ''unsupported_unit'' ''is not a supported canonical unit'',
        reject (not_finite (senc_minimum s)) (base @ ''.minimum'') ''out_of_range'' ''must be finite'',
        reject (not_finite (senc_maximum s)) (base @ ''.maximum'') ''out_of_range'' ''must be finite'',
        reject (empty_range (senc_minimum s) (senc_maximum s)) (base @ ''.maximum'') ''out_of_range''
          ''must be greater than minimum'',
        (if cal_enabled (senc_calibration s) then validate_calibration base (senc_calibration s) else None)])"

definition see_sensor :: "nat \<Rightarrow> sensor_config \<Rightarrow> (string \<rightharpoonup> string) \<Rightarrow> string \<rightharpoonup> string" where
  "see_sensor n s seen = seen(senc_id s \<mapsto> item_path ''inventory.sensors'' n @ ''.id'')"

definition commissioning_validate :: "string \<Rightarrow> commissioning_config \<Rightarrow> go_error option" where
  "commissioning_validate path k =
     (let stage = (if com_stage k = [] then ''uncommissioned'' else com_stage k)
      in reject (\<not> oneOf stage [''uncommissioned'', ''discovered'', ''mapped'', ''configured'', ''validated'',
            ''bench-tested'', ''commissioned'', ''disabled''])
           (path @ ''.stage'') ''invalid_enum'' ''is not a supported commissioning stage'')"

definition hazardous_kind :: "equipment_config \<Rightarrow> bool" where
  "hazardous_kind e = oneOf (eqc_kind e) [''heater'', ''dosing-pump'', ''ato'']"

definition validate_equipment ::
  "config_env \<Rightarrow> string set \<Rightarrow> string set \<Rightarrow> nat \<Rightarrow> equipment_config \<Rightarrow> (string \<rightharpoonup> string) \<Rightarrow> go_error option"
where
  "validate_equipment env devices sensors n e seen =
     (let base = item_path ''inventory.equipment'' n
      in first_error ([
        validateID (base @ ''.id'') (eqc_id e),
        (case seen (eqc_id e) of
           None \<Rightarrow> None
         | Some previous \<Rightarrow> Some (validationError (base @ ''.id'') ''duplicate_id'' (''duplicates '' @ previous))),
        (if eqc_entity e \<noteq> [] then cfg_validateUUID env (base @ ''.entity_id'') (eqc_entity e) else None),
        reject (eqc_device e \<notin> devices) (base @ ''.device_id'') ''invalid_reference''
          (''references unknown device '' @ eqc_device e),
        (if eqc_kind e \<noteq> [] then first_error [
           reject (\<not> oneOf (eqc_kind e) [''outlet'', ''heater'', ''return-pump'', ''circulation-pump'', ''dosing-pump'',
               ''light'', ''ato'']) (base @ ''.kind'') ''invalid_enum'' ''is not a supported equipment kind'',
           (case ValidateCapabilities (eqc_capabilities e) of
              None \<Rightarrow> None
            | Some err \<Rightarrow> Some (validationError (base @ ''.capabilities'') ''invalid_capability'' (ce_describe env err)))]
         else None),
        reject (eqc_maximum_on e < 0 \<or> eqc_maximum_daily e < 0 \<or> eqc_minimum_off e < 0) (base @ ''.maximum_on'')
          ''out_of_range'' ''equipment time limits cannot be negative'',
        reject (eqc_maximum_daily e > 0 \<and> eqc_maximum_on e > eqc_maximum_daily e) (base @ ''.maximum_daily_on'')
          ''out_of_range'' ''must be at least maximum_on'',
        reject (hazardous_kind e \<and> (\<not> eqc_hazardous e \<or> eqc_fail_safe_on e \<or> eqc_maximum_on e \<le> 0 \<or> eqc_sensors e = []))
          base ''unsafe_equipment'' ''heater, dosing-pump, and ATO equipment must be hazardous, fail safe off, have a positive maximum_on, and require safety sensors''] @
        map (\<lambda>s. reject (s \<notin> sensors) (base @ ''.required_sensor_ids'') ''invalid_reference''
          (''references unknown sensor '' @ s)) (eqc_sensors e) @ [
        reject (eqc_kind e = ''dosing-pump'' \<and> eqc_maximum_daily e \<le> 0) (base @ ''.maximum_daily_on'') ''required''
          ''is required for dosing equipment'',
        commissioning_validate (base @ ''.commissioning'') (eqc_commissioning e)]))"

definition see_equipment :: "nat \<Rightarrow> equipment_config \<Rightarrow> (string \<rightharpoonup> string) \<Rightarrow> string \<rightharpoonup> string" where
  "see_equipment n e seen = seen(eqc_id e \<mapsto> item_path ''inventory.equipment'' n @ ''.id'')"

definition inventory_validate :: "config_env \<Rightarrow> inventory_config \<Rightarrow> go_error option" where
  "inventory_validate env i =
     (case each_indexed (\<lambda>n d s. check_then (validate_device env n d s) (insert (dc_id d) s)) 0 (invc_devices i) {} of
        Inl err \<Rightarrow> Some err
      | Inr devices \<Rightarrow>
          (case each_indexed (\<lambda>n x s. check_then (validate_sensor env devices n x s) (see_sensor n x s))
                  0 (invc_sensors i) Map.empty of
             Inl err \<Rightarrow> Some err
           | Inr seen \<Rightarrow>
               error_of (each_indexed (\<lambda>n x s. check_then
                   (validate_equipment env devices (senc_id ` set (invc_sensors i)) n x s) (see_equipment n x s))
                 0 (invc_equipment i) seen)))"

definition validate_alarm :: "(string \<rightharpoonup> string) \<Rightarrow> nat \<Rightarrow> alarm_config \<Rightarrow> string set \<Rightarrow> go_error option" where
  "validate_alarm sensors n r seen =
     (let base = item_path ''alarms.rules'' n
      in first_error ([
        validateID (base @ ''.id'') (ac_id r),
        reject (ac_id r \<in> seen) (base @ ''.id'') ''duplicate_id'' ''alarm rule ID is duplicated'',
        (case sensors (ac_sensor r) of
           None \<Rightarrow> Some (validationError (base @ ''.sensor_id'') ''invalid_reference'' (''references unknown sensor '' @ ac_sensor r))
         | Some entity \<Rightarrow> reject (entity = []) (base @ ''.sensor_id'') ''runtime_identity_required''
             ''referenced sensor requires entity_id''),
        reject (trim_space (ac_name r) = []) (base @ ''.name'') ''required'' ''is required'',
        reject (\<not> oneOf (ac_condition r) [''above'', ''below'', ''outside'', ''true'', ''false'']) (base @ ''.condition'')
          ''invalid_enum'' ''must be above, below, outside, true, or false'',
        reject (not_finite (Some (ac_threshold r)) \<or> not_finite (ac_threshold_high r)) (base @ ''.threshold'') ''out_of_range''
          ''threshold values must be finite'',
        reject (ac_condition r = ''outside'' \<and>
            (ac_threshold_high r = None \<or> empty_range (Some (ac_threshold r)) (ac_threshold_high r)))
          (base @ ''.threshold_high'') ''out_of_range''
          ''outside condition requires an upper threshold greater than the lower threshold'',
        reject (\<not> oneOf (ac_severity r) [''info'', ''warning'', ''critical'']) (base @ ''.severity'') ''invalid_enum''
          ''must be info, warning, or critical'',
        reject (ac_delay r < 0 \<or> ac_delay r > 24 * 60 * minute \<or> ac_clear_delay r < 0 \<or> ac_clear_delay r > 24 * 60 * minute)
          (base @ ''.delay'') ''out_of_range'' ''delay and clear_delay must be between zero and 24h''] @
        map (\<lambda>target. reject (\<not> oneOf target [''home-assistant'', ''mqtt'', ''log'']) (base @ ''.notifications'')
          ''invalid_enum'' ''contains an unsupported notification target'') (ac_notifications r)))"

definition alarms_validate :: "inventory_config \<Rightarrow> alarm_config list \<Rightarrow> go_error option" where
  "alarms_validate i rules =
     (let sensors = fold (\<lambda>s m. m(senc_id s \<mapsto> senc_entity s)) (invc_sensors i) Map.empty
      in error_of (each_indexed (\<lambda>n r s. check_then (validate_alarm sensors n r s) (insert (ac_id r) s)) 0 rules {}))"

definition backup_validate :: "backup_config \<Rightarrow> go_error option" where
  "backup_validate b =
     (if \<not> bk_enabled b then None
      else let clean = path_clean (bk_destination b)
           in first_error [
             reject (\<not> has_prefix clean ''/'' \<or> clean = ''/'') ''backups.destination'' ''invalid_path''
               ''must be a dedicated absolute directory'',
             reject (bk_retention b < 1 \<or> bk_retention b > 3650) ''backups.retention_days'' ''out_of_range''
               ''must be between 1 and 3650''])"

subsection \<open>The whole configuration\<close>

definition Validate :: "config_env \<Rightarrow> config \<Rightarrow> go_error option" where
  "Validate env c = first_error [
     reject (cfg_schema c \<noteq> CurrentSchemaVersion) ''schema_version'' ''unsupported_version''
       (''must equal '' @ itoa CurrentSchemaVersion),
     reject (\<not> oneOf (to_lower (app_log_level (cfg_application c))) [''debug'', ''info'', ''warn'', ''error''])
       ''application.log_level'' ''invalid_enum'' ''must be debug, info, warn, or error'',
     validate_timeouts env c,
     validate_http env (cfg_http c),
     reject (app_concurrency (cfg_application c) < 1 \<or> app_concurrency (cfg_application c) > 4096)
       ''application.event_concurrency'' ''out_of_range'' ''must be between 1 and 4096'',
     (if mq_enabled (cfg_mqtt c) then validate_mqtt env (cfg_mqtt c) else None),
     reject (ha_enabled (mq_home_assistant (cfg_mqtt c)) \<and> \<not> mq_enabled (cfg_mqtt c))
       ''mqtt.home_assistant.enabled'' ''dependency_disabled'' ''requires MQTT to be enabled'',
     reject (ha_command_ttl (mq_home_assistant (cfg_mqtt c)) \<le> 0 \<or> ha_command_ttl (mq_home_assistant (cfg_mqtt c)) > minute)
       ''mqtt.home_assistant.command_ttl'' ''out_of_range'' ''must be greater than zero and at most 1m'',
     validate_influx env (cfg_influx c),
     validate_tombstones (ha_tombstones (mq_home_assistant (cfg_mqtt c))),
     validateAdapters env c,
     inventory_validate env (cfg_inventory c),
     alarms_validate (cfg_inventory c) (cfg_alarms c),
     backup_validate (cfg_backups c)]"

text \<open>
  Reading a file: what the file system returned, what the YAML decoder finds as the schema version alone, and what it makes of
  the text strictly, on top of the defaults.
\<close>

definition decode_onto_defaults ::
  "string \<Rightarrow> (string \<Rightarrow> go_error + int option) \<Rightarrow> (string \<Rightarrow> config \<Rightarrow> go_error + config) \<Rightarrow> string \<Rightarrow> string \<Rightarrow> go_error + config"
where
  "decode_onto_defaults context version decode secret data =
     (case version data of
        Inl err \<Rightarrow> Inl (Wrapped context err)
      | Inr None \<Rightarrow> Inl (validationError ''schema_version'' ''required'' ''is required'')
      | Inr (Some _) \<Rightarrow>
          (case decode data Defaults of
             Inl err \<Rightarrow> Inl (Wrapped context err)
           | Inr c \<Rightarrow>
               if mq_password (cfg_mqtt c) \<noteq> [] then Inl (validationError ''mqtt.password'' ''secret_inline'' secret)
               else Inr c))"

definition cfg_Load ::
  "config_env \<Rightarrow> (string \<Rightarrow> string option) \<Rightarrow> (string \<Rightarrow> go_error + int option) \<Rightarrow> (string \<Rightarrow> config \<Rightarrow> go_error + config) \<Rightarrow>
   string \<Rightarrow> go_error + string \<Rightarrow> go_error + config"
where
  "cfg_Load env lookup version decode path file =
     (if path = [] then Inl (ErrorString ''configuration file path is required'')
      else case file of
             Inl err \<Rightarrow> Inl (Wrapped ''read config'' err)
           | Inr data \<Rightarrow>
               (case decode_onto_defaults ''decode config'' version decode
                       ''must be supplied through AQUAOS_MQTT_PASSWORD'' data of
                  Inl err \<Rightarrow> Inl err
                | Inr c \<Rightarrow>
                    (case applyEnvironment (ce_describe env) lookup c of
                       Inl err \<Rightarrow> Inl err
                     | Inr c' \<Rightarrow> check_then (Validate env c') c')))"

definition DecodeCandidate ::
  "config_env \<Rightarrow> (string \<Rightarrow> go_error + int option) \<Rightarrow> (string \<Rightarrow> config \<Rightarrow> go_error + config) \<Rightarrow> string \<Rightarrow> go_error + config"
where
  "DecodeCandidate env version decode data =
     (if data = [] then Inl (ErrorString ''candidate configuration is empty'')
      else if length data > 1024 * 1024 then Inl (ErrorString ''candidate configuration exceeds 1048576 bytes'')
      else case decode_onto_defaults ''decode candidate config'' version decode
                  ''must not be supplied in candidate configuration'' data of
             Inl err \<Rightarrow> Inl err
           | Inr c \<Rightarrow> check_then (Validate env c) c)"

end
