(* ===== verification/ConfigSpec.thy ===== *)
theory ConfigSpec
  imports Config
begin

text \<open>
  What validation of a configuration means: the validators of \<open>Config\<close>, loops that keep what they have seen and
  return at the first error, accept exactly the configurations described here without any loop.
\<close>

section \<open>Loops\<close>

text \<open>Validation loops: no error exactly when every element passes with what was seen before it.\<close>

lemma each_indexed_exact:
  assumes "\<And>n x s. f n x s = check_then (g n x s) (u n x s)" "\<And>n x s. proj (u n x s) = v x (proj s)"
    and "\<And>n x s. g n x s = None \<longleftrightarrow> P x (proj s)"
  shows "(\<exists>s'. each_indexed f n xs s = Inr s') \<longleftrightarrow> (\<forall>i < length xs. P (xs ! i) (fold v (take i xs) (proj s)))"
    and "each_indexed f n xs s = Inr s' \<Longrightarrow> proj s' = fold v xs (proj s)"
proof (induction xs arbitrary: n s s')
  case (Cons x xs)
  {
    case 1
    show ?case
      using assms(3) [of n x s] Cons.IH(1) [of "Suc n" "u n x s"]
      by (cases "g n x s") (auto simp: assms(1,2) check_then_def All_less_Suc2)
  next
    case 2
    then show ?case
      using Cons.IH(2) [of "Suc n" "u n x s" s'] by (cases "g n x s") (auto simp: assms(1,2) check_then_def)
  }
qed auto

lemma fold_insert_image: "fold (\<lambda>x. insert (key x)) xs S = key ` set xs \<union> S"
  by (induction xs arbitrary: S) auto

lemma fold_union: "fold (\<lambda>x S. g x \<union> S) xs S = \<Union> (g ` set xs) \<union> S"
  by (induction xs arbitrary: S) auto

lemma distinct_by_prefix:
  "(\<forall>i < length xs. Q (xs ! i) \<and> key (xs ! i) \<notin> key ` set (take i xs) \<union> S) \<longleftrightarrow>
     (\<forall>x \<in> set xs. Q x) \<and> distinct (map key xs) \<and> (\<forall>x \<in> set xs. key x \<notin> S)"
proof (induction xs rule: rev_induct)
  case (snoc x xs)
  have "(\<forall>i < length (xs @ [x]). Q ((xs @ [x]) ! i) \<and> key ((xs @ [x]) ! i) \<notin> key ` set (take i (xs @ [x])) \<union> S) \<longleftrightarrow>
      (\<forall>i < length xs. Q (xs ! i) \<and> key (xs ! i) \<notin> key ` set (take i xs) \<union> S) \<and> Q x \<and> key x \<notin> key ` set xs \<union> S"
    by (auto simp: nth_append less_Suc_eq)
  also have "\<dots> \<longleftrightarrow> (\<forall>y \<in> set (xs @ [x]). Q y) \<and> distinct (map key (xs @ [x])) \<and> (\<forall>y \<in> set (xs @ [x]). key y \<notin> S)"
    unfolding snoc.IH by auto
  finally show ?case .
qed simp

lemma each_plain:
  "(\<exists>s'. each_indexed (\<lambda>n x s. check_then (g n x) s) n xs () = Inr s') \<longleftrightarrow> (\<forall>i < length xs. g (n + i) (xs ! i) = None)"
proof (induction xs arbitrary: n)
  case (Cons x xs)
  then show ?case by (cases "g n x") (auto simp: check_then_def All_less_Suc2)
qed simp

lemma each_plain_exact:
  assumes "\<And>n x. g n x = None \<longleftrightarrow> P x"
  shows "error_of (each_indexed (\<lambda>n x s. check_then (g n x) s) n xs ()) = None \<longleftrightarrow> (\<forall>x \<in> set xs. P x)"
  unfolding error_of_None each_plain assms by (simp add: all_set_conv_all_nth)

lemma each_keyed_exact:
  assumes "\<And>n x s. g n x s = None \<longleftrightarrow> P x \<and> key x \<notin> s"
  shows "(\<exists>s'. each_indexed (\<lambda>n x s. check_then (g n x s) (insert (key x) s)) n xs S = Inr s') \<longleftrightarrow>
      (\<forall>x \<in> set xs. P x) \<and> distinct (map key xs) \<and> (\<forall>x \<in> set xs. key x \<notin> S)"
    and "each_indexed (\<lambda>n x s. check_then (g n x s) (insert (key x) s)) n xs S = Inr s' \<Longrightarrow> s' = key ` set xs \<union> S"
proof -
  note exact = each_indexed_exact [where f = "\<lambda>n x s. check_then (g n x s) (insert (key x) s)" and proj = id
      and v = "\<lambda>x. insert (key x)" and u = "\<lambda>n x. insert (key x)" and P = "\<lambda>x s. P x \<and> key x \<notin> s", OF refl]
  show "(\<exists>s'. each_indexed (\<lambda>n x s. check_then (g n x s) (insert (key x) s)) n xs S = Inr s') \<longleftrightarrow>
      (\<forall>x \<in> set xs. P x) \<and> distinct (map key xs) \<and> (\<forall>x \<in> set xs. key x \<notin> S)"
    using exact(1) [of n xs S] assms distinct_by_prefix [of xs P key S] by (simp add: fold_insert_image)
  show "s' = key ` set xs \<union> S" if "each_indexed (\<lambda>n x s. check_then (g n x s) (insert (key x) s)) n xs S = Inr s'"
    using exact(2) [of n xs S s'] assms that by (simp add: fold_insert_image)
qed

subsection \<open>Adapters\<close>

definition url_accepted :: "config_env \<Rightarrow> string list \<Rightarrow> string \<Rightarrow> bool" where
  "url_accepted env schemes s \<longleftrightarrow>
     (\<exists>u. ce_url env s = Inr u \<and> url_scheme u \<in> set schemes \<and> url_host u \<noteq> [] \<and> \<not> url_user u \<and> url_raw_query u = [] \<and>
        url_fragment u = [])"

abbreviation uuid :: "string \<Rightarrow> bool" where "uuid s \<equiv> validateUUID s = None"

definition heater_ok :: "shelly_config \<Rightarrow> bool" where
  "heater_ok e \<longleftrightarrow> \<not> shc_safe_on e \<and> 0 < shc_maximum_on e \<and>
     (\<exists>p q. shc_probes e = [p, q] \<and> p \<noteq> q \<and> uuid p \<and> uuid q)"

definition shelly_ok :: "config_env \<Rightarrow> shelly_config \<Rightarrow> bool" where
  "shelly_ok env e \<longleftrightarrow> uuid (shc_id e) \<and> uuid (shc_equipment e) \<and> uuid (shc_rule e) \<and>
     url_accepted env [''http''] (shc_base_url e) \<and> 0 \<le> shc_channel e \<and> shc_channel e \<le> 31 \<and>
     0 < shc_timeout e \<and> shc_timeout e \<le> shc_poll e \<and> 0 \<le> shc_retries e \<and> shc_retries e \<le> 5 \<and>
     shc_power_return e \<in> {''off'', ''restore''} \<and>
     (if shc_kind e = ''heater'' then heater_ok e
      else shc_kind e = ''outlet'' \<and> 0 \<le> shc_maximum_on e \<and> shc_probes e = [])"

definition esp32_ok :: "config_env \<Rightarrow> esp32_config \<Rightarrow> bool" where
  "esp32_ok env e \<longleftrightarrow> uuid (espc_id e) \<and> uuid (espc_device e) \<and> uuid (espc_rule e) \<and>
     url_accepted env [''http'', ''https''] (espc_base_url e) \<and>
     length (espc_probes e) = 2 \<and> distinct (espc_probes e) \<and> (\<forall>p \<in> set (espc_probes e). uuid p) \<and>
     0 < espc_timeout e \<and> espc_timeout e \<le> espc_poll e \<and> espc_poll e \<le> espc_fresh_for e \<and>
     0 \<le> espc_skew e \<and> espc_skew e \<le> minute \<and>
     \<not> f64_le (espc_difference e) (Finite 0) \<and> \<not> f64_lt (Finite 10) (espc_difference e)"

definition adapters_ok :: "config_env \<Rightarrow> config \<Rightarrow> bool" where
  "adapters_ok env c \<longleftrightarrow>
     (let a = cfg_adapters c; sh = shelly_endpoints a; es = esp32_endpoints a
      in (shelly_enabled a \<or> esp32_enabled a \<longrightarrow>
            \<not> cfg_simulator c \<and> bench_enabled (cfg_bench c) \<and> bench_acknowledged (cfg_bench c)) \<and>
         (shelly_enabled a \<longrightarrow> sh \<noteq> []) \<and> (esp32_enabled a \<longrightarrow> es \<noteq> []) \<and>
         (\<forall>e \<in> set sh. shelly_ok env e) \<and> (\<forall>e \<in> set es. esp32_ok env e) \<and>
         distinct (map shc_id sh @ map espc_id es) \<and> distinct (map shc_equipment sh) \<and>
         distinct (map espc_device es) \<and> distinct (concat (map espc_probes es)) \<and>
         (\<forall>e \<in> set sh. shelly_enabled a \<and> shc_kind e = ''heater'' \<longrightarrow>
            esp32_enabled a \<and> set (shc_probes e) \<subseteq> set (concat (map espc_probes es))))"

lemma url_rejected_accepted:
  "url_rejected env s (\<lambda>u. url_scheme u \<noteq> ''http'' \<or> url_host u = [] \<or> url_user u \<or> url_raw_query u \<noteq> [] \<or> url_fragment u \<noteq> []) \<longleftrightarrow>
     \<not> url_accepted env [''http''] s"
  "url_rejected env s (\<lambda>u. url_scheme u \<noteq> ''http'' \<and> url_scheme u \<noteq> ''https'' \<or> url_host u = [] \<or> url_user u \<or>
       url_raw_query u \<noteq> [] \<or> url_fragment u \<noteq> []) \<longleftrightarrow> \<not> url_accepted env [''http'', ''https''] s"
  by (auto simp: url_rejected_def url_accepted_def split: sum.splits)

lemma cfg_validateUUID_None [simp]: "cfg_validateUUID env path s = None \<longleftrightarrow> uuid s"
  by (simp add: cfg_validateUUID_def split: option.splits)

lemma ranges_ok_set:
  "ranges_ok env \<Longrightarrow> set (ce_texts env xs) = set xs" "ranges_ok env \<Longrightarrow> set (ce_durations env ys) = set ys"
  unfolding ranges_ok_def by (metis set_mset_mset)+

lemma validate_uuids_None: "ranges_ok env \<Longrightarrow> validate_uuids env base xs = None \<longleftrightarrow> (\<forall>x \<in> set xs. uuid (snd x))"
  by (auto simp: validate_uuids_def first_error_None ranges_ok_set)

lemma validate_heater_None: "validate_heater env base e = None \<longleftrightarrow> heater_ok e"
proof -
  have "error_of (each_indexed (\<lambda>n p s. check_then (cfg_validateUUID env (item_path (base @ ''.required_probe_ids'') n) p) s)
      0 (shc_probes e) ()) = None \<longleftrightarrow> (\<forall>p \<in> set (shc_probes e). uuid p)"
    by (rule each_plain_exact) simp
  then show ?thesis
    unfolding validate_heater_def heater_ok_def
    by (auto simp del: error_of_None split: list.splits simp: numeral_2_eq_2 length_Suc_conv)
qed

lemma validate_shelly_None:
  "ranges_ok env \<Longrightarrow> validate_shelly env n e seen = None \<longleftrightarrow>
     shelly_ok env e \<and> shc_id e \<notin> fst seen \<and> shc_equipment e \<notin> snd seen"
  unfolding validate_shelly_def shelly_ok_def Let_def url_rejected_accepted
  by (auto simp: validate_uuids_None validate_heater_None)

lemma validate_probes_None:
  "validate_probes env base probes seen = None \<longleftrightarrow> (\<forall>p \<in> set probes. uuid p) \<and> distinct probes \<and> set probes \<inter> seen = {}"
proof -
  have "validate_probes env base probes seen = None \<longleftrightarrow>
      (\<forall>p \<in> set probes. uuid p) \<and> distinct (map (\<lambda>p. p) probes) \<and> (\<forall>p \<in> set probes. p \<notin> seen)"
    unfolding validate_probes_def error_of_None by (rule each_keyed_exact(1)) auto
  then show ?thesis by auto
qed

lemma validate_esp32_None:
  "ranges_ok env \<Longrightarrow> validate_esp32 env n e seen = None \<longleftrightarrow>
     esp32_ok env e \<and> espc_id e \<notin> seen_ids seen \<and> espc_device e \<notin> seen_devices seen \<and>
     set (espc_probes e) \<inter> seen_probes seen = {}"
  unfolding validate_esp32_def esp32_ok_def Let_def url_rejected_accepted
  by (auto simp: validate_uuids_None validate_probes_None)

lemma fold_see_shelly: "fold see_shelly xs s = (shc_id ` set xs \<union> fst s, shc_equipment ` set xs \<union> snd s)"
  by (induction xs arbitrary: s) (auto simp: see_shelly_def)

lemma fold_see_esp32:
  "fold see_esp32 xs s = \<lparr>seen_ids = espc_id ` set xs \<union> seen_ids s, seen_devices = espc_device ` set xs \<union> seen_devices s,
     seen_probes = set (concat (map espc_probes xs)) \<union> seen_probes s\<rparr>"
  by (induction xs arbitrary: s) (auto simp: see_esp32_def)

lemma distinct_concat_prefix:
  "(\<forall>i < length xs. set (f (xs ! i)) \<inter> set (concat (map f (take i xs))) = {}) \<and> (\<forall>x \<in> set xs. distinct (f x)) \<longleftrightarrow>
     distinct (concat (map f xs))"
proof (induction xs rule: rev_induct)
  case (snoc x xs)
  have "(\<forall>i < length (xs @ [x]). set (f ((xs @ [x]) ! i)) \<inter> set (concat (map f (take i (xs @ [x])))) = {}) \<longleftrightarrow>
      (\<forall>i < length xs. set (f (xs ! i)) \<inter> set (concat (map f (take i xs))) = {}) \<and> set (f x) \<inter> set (concat (map f xs)) = {}"
    by (simp add: nth_append less_Suc_eq all_conj_distrib imp_conjL [symmetric])
  with snoc.IH show ?case by auto
qed simp

lemma esp32_ok_distinct: "esp32_ok env e \<Longrightarrow> distinct (espc_probes e)"
  by (simp add: esp32_ok_def)

lemma shelly_loop:
  assumes "ranges_ok env"
  shows "(\<exists>s'. each_indexed (\<lambda>n e s. check_then (validate_shelly env n e s) (see_shelly e s)) n xs ({}, {}) = Inr s') \<longleftrightarrow>
      (\<forall>e \<in> set xs. shelly_ok env e) \<and> distinct (map shc_id xs) \<and> distinct (map shc_equipment xs)" (is ?A)
    and "each_indexed (\<lambda>n e s. check_then (validate_shelly env n e s) (see_shelly e s)) n xs ({}, {}) = Inr s' \<Longrightarrow>
      fst s' = shc_id ` set xs"
proof -
  note exact = each_indexed_exact [where f = "\<lambda>n e s. check_then (validate_shelly env n e s) (see_shelly e s)" and proj = id
      and v = see_shelly and u = "\<lambda>n. see_shelly"
      and P = "\<lambda>e s. shelly_ok env e \<and> shc_id e \<notin> fst s \<and> shc_equipment e \<notin> snd s", OF refl]
  have "(\<exists>s'. each_indexed (\<lambda>n e s. check_then (validate_shelly env n e s) (see_shelly e s)) n xs ({}, {}) = Inr s') \<longleftrightarrow>
      (\<forall>i < length xs. shelly_ok env (xs ! i) \<and> shc_id (xs ! i) \<notin> shc_id ` set (take i xs) \<and>
         shc_equipment (xs ! i) \<notin> shc_equipment ` set (take i xs))"
    using exact(1) [of n xs "({}, {})"] validate_shelly_None [OF assms] by (simp add: fold_see_shelly)
  also have "\<dots> \<longleftrightarrow> (\<forall>i < length xs. shelly_ok env (xs ! i) \<and> shc_id (xs ! i) \<notin> shc_id ` set (take i xs) \<union> {}) \<and>
      (\<forall>i < length xs. True \<and> shc_equipment (xs ! i) \<notin> shc_equipment ` set (take i xs) \<union> {})"
    by auto
  also have "\<dots> \<longleftrightarrow> (\<forall>e \<in> set xs. shelly_ok env e) \<and> distinct (map shc_id xs) \<and> distinct (map shc_equipment xs)"
    using distinct_by_prefix [of xs "shelly_ok env" shc_id "{}"] distinct_by_prefix [of xs "\<lambda>_. True" shc_equipment "{}"]
    by simp
  finally show ?A .
  show "fst s' = shc_id ` set xs"
    if "each_indexed (\<lambda>n e s. check_then (validate_shelly env n e s) (see_shelly e s)) n xs ({}, {}) = Inr s'"
    using exact(2) [of n xs "({}, {})" s'] that validate_shelly_None [OF assms] by (simp add: fold_see_shelly)
qed

lemma esp32_loop:
  assumes "ranges_ok env"
  shows "(\<exists>s'. each_indexed (\<lambda>n e s. check_then (validate_esp32 env n e s) (see_esp32 e s)) n xs
        \<lparr>seen_ids = ids, seen_devices = {}, seen_probes = {}\<rparr> = Inr s') \<longleftrightarrow>
      (\<forall>e \<in> set xs. esp32_ok env e) \<and> distinct (map espc_id xs) \<and> (\<forall>e \<in> set xs. espc_id e \<notin> ids) \<and>
      distinct (map espc_device xs) \<and> distinct (concat (map espc_probes xs))" (is ?A)
    and "each_indexed (\<lambda>n e s. check_then (validate_esp32 env n e s) (see_esp32 e s)) n xs
        \<lparr>seen_ids = ids, seen_devices = {}, seen_probes = {}\<rparr> = Inr s' \<Longrightarrow>
      seen_probes s' = set (concat (map espc_probes xs))"
proof -
  let ?s = "\<lparr>seen_ids = ids, seen_devices = {}, seen_probes = {}\<rparr>"
  note exact = each_indexed_exact [where f = "\<lambda>n e s. check_then (validate_esp32 env n e s) (see_esp32 e s)" and proj = id
      and v = see_esp32 and u = "\<lambda>n. see_esp32" and P = "\<lambda>e s. esp32_ok env e \<and> espc_id e \<notin> seen_ids s \<and>
        espc_device e \<notin> seen_devices s \<and> set (espc_probes e) \<inter> seen_probes s = {}", OF refl]
  have "(\<exists>s'. each_indexed (\<lambda>n e s. check_then (validate_esp32 env n e s) (see_esp32 e s)) n xs ?s = Inr s') \<longleftrightarrow>
      (\<forall>i < length xs. esp32_ok env (xs ! i) \<and> espc_id (xs ! i) \<notin> espc_id ` set (take i xs) \<union> ids \<and>
         espc_device (xs ! i) \<notin> espc_device ` set (take i xs) \<and>
         set (espc_probes (xs ! i)) \<inter> set (concat (map espc_probes (take i xs))) = {})" (is "_ = (\<forall>i < _. ?P i \<and> ?Q i \<and> ?R i \<and> ?S i)")
    using exact(1) [of n xs ?s] validate_esp32_None [OF assms] by (simp add: fold_see_esp32)
  also have "\<dots> \<longleftrightarrow> (\<forall>i < length xs. ?P i \<and> ?Q i) \<and> (\<forall>i < length xs. ?R i) \<and> (\<forall>i < length xs. ?S i)"
    by blast
  also have "\<dots> \<longleftrightarrow> (\<forall>e \<in> set xs. esp32_ok env e) \<and> distinct (map espc_id xs) \<and> (\<forall>e \<in> set xs. espc_id e \<notin> ids) \<and>
      distinct (map espc_device xs) \<and> distinct (concat (map espc_probes xs))"
    using distinct_concat_prefix [of xs espc_probes] distinct_by_prefix [of xs "esp32_ok env" espc_id ids]
      distinct_by_prefix [of xs "\<lambda>_. True" espc_device "{}"] esp32_ok_distinct
    by (simp del: set_concat) blast
  finally show ?A .
  show "seen_probes s' = set (concat (map espc_probes xs))"
    if "each_indexed (\<lambda>n e s. check_then (validate_esp32 env n e s) (see_esp32 e s)) n xs ?s = Inr s'"
    using exact(2) [of n xs ?s s'] that validate_esp32_None [OF assms] by (simp add: fold_see_esp32)
qed

lemma validate_required_probes_None:
  "validate_required_probes a probes = None \<longleftrightarrow>
     (\<forall>e \<in> set (shelly_endpoints a). shelly_enabled a \<and> shc_kind e = ''heater'' \<longrightarrow>
        esp32_enabled a \<and> set (shc_probes e) \<subseteq> probes)"
  unfolding validate_required_probes_def
  by (rule each_plain_exact) (auto simp: Let_def first_error_None)

lemma case_error_None: "(case e of None \<Rightarrow> r | Some err \<Rightarrow> Some err) = None \<longleftrightarrow> e = None \<and> r = None"
  by (cases e) auto

lemma validateAdapters_None:
  assumes "ranges_ok env"
  shows "validateAdapters env c = None \<longleftrightarrow> adapters_ok env c"
proof -
  let ?a = "cfg_adapters c"
  let ?sh = "shelly_endpoints ?a" and ?es = "esp32_endpoints ?a"
  let ?r = "each_indexed (\<lambda>n e s. check_then (validate_shelly env n e s) (see_shelly e s)) 0 ?sh ({}, {})"
  let ?q = "each_indexed (\<lambda>n e s. check_then (validate_esp32 env n e s) (see_esp32 e s)) 0 ?es
    \<lparr>seen_ids = shc_id ` set ?sh, seen_devices = {}, seen_probes = {}\<rparr>"
  note shelly = shelly_loop [OF assms, where n = 0 and xs = ?sh]
  note esp = esp32_loop [OF assms, where n = 0 and xs = ?es and ids = "shc_id ` set ?sh"]
  consider (bad) err where "?r = Inl err" | (bad') err equipment where "?r = Inr (shc_id ` set ?sh, equipment)" "?q = Inl err"
    | (good) equipment seen where "?r = Inr (shc_id ` set ?sh, equipment)" "?q = Inr seen"
        "seen_probes seen = set (concat (map espc_probes ?es))"
    using shelly(2) esp(2) by (cases ?r; cases ?q) (auto simp del: set_concat)
  then show ?thesis
  proof cases
    case bad
    then have "validateAdapters env c \<noteq> None" by (simp add: validateAdapters_def Let_def case_error_None)
    moreover have "\<not> adapters_ok env c" using bad shelly(1) by (auto simp: adapters_ok_def Let_def simp del: set_concat)
    ultimately show ?thesis by blast
  next
    case bad'
    then have "validateAdapters env c \<noteq> None" by (simp add: validateAdapters_def Let_def case_error_None)
    moreover have "\<not> adapters_ok env c"
      using bad' esp(1) by (simp add: adapters_ok_def Let_def del: set_concat) blast
    ultimately show ?thesis by blast
  next
    case good
    then have "(\<forall>e \<in> set ?sh. shelly_ok env e) \<and> distinct (map shc_id ?sh) \<and> distinct (map shc_equipment ?sh)"
      "(\<forall>e \<in> set ?es. esp32_ok env e) \<and> distinct (map espc_id ?es) \<and> (\<forall>e \<in> set ?es. espc_id e \<notin> shc_id ` set ?sh) \<and>
      distinct (map espc_device ?es) \<and> distinct (concat (map espc_probes ?es))"
      using shelly(1) esp(1) by blast+
    moreover from this have "distinct (map shc_id ?sh @ map espc_id ?es)"
      by (simp add: disjoint_iff) (metis image_iff)
    ultimately show ?thesis
      using good
      by (simp add: validateAdapters_def adapters_ok_def Let_def validate_required_probes_None case_error_None
          del: set_concat distinct_append) blast
  qed
qed

subsection \<open>Inventory and alarms\<close>

definition entity_ok :: "string \<Rightarrow> bool" where
  "entity_ok i \<longleftrightarrow> i = [] \<or> uuid i"

definition sensor_ok :: "string set \<Rightarrow> sensor_config \<Rightarrow> bool" where
  "sensor_ok devices s \<longleftrightarrow> identifierPattern (senc_id s) \<and> entity_ok (senc_entity s) \<and> senc_device s \<in> devices \<and>
     senc_unit s \<in> {''celsius'', ''fahrenheit'', ''pH'', ''ppt'', ''liters_per_hour'', ''boolean''} \<and>
     \<not> not_finite (senc_minimum s) \<and> \<not> not_finite (senc_maximum s) \<and> \<not> empty_range (senc_minimum s) (senc_maximum s) \<and>
     (cal_enabled (senc_calibration s) \<longrightarrow> validate_calibration [] (senc_calibration s) = None)"

definition equipment_ok :: "string set \<Rightarrow> string set \<Rightarrow> equipment_config \<Rightarrow> bool" where
  "equipment_ok devices sensors e \<longleftrightarrow> identifierPattern (eqc_id e) \<and> entity_ok (eqc_entity e) \<and> eqc_device e \<in> devices \<and>
     (eqc_kind e \<noteq> [] \<longrightarrow> eqc_kind e \<in> {''outlet'', ''heater'', ''return-pump'', ''circulation-pump'', ''dosing-pump'',
        ''light'', ''ato''} \<and> ValidateCapabilities (eqc_capabilities e) = None) \<and>
     0 \<le> eqc_maximum_on e \<and> 0 \<le> eqc_maximum_daily e \<and> 0 \<le> eqc_minimum_off e \<and>
     (eqc_maximum_daily e > 0 \<longrightarrow> eqc_maximum_on e \<le> eqc_maximum_daily e) \<and>
     (hazardous_kind e \<longrightarrow> eqc_hazardous e \<and> \<not> eqc_fail_safe_on e \<and> 0 < eqc_maximum_on e \<and> eqc_sensors e \<noteq> []) \<and>
     set (eqc_sensors e) \<subseteq> sensors \<and> (eqc_kind e = ''dosing-pump'' \<longrightarrow> 0 < eqc_maximum_daily e) \<and>
     commissioning_validate [] (eqc_commissioning e) = None"

definition inventory_ok :: "inventory_config \<Rightarrow> bool" where
  "inventory_ok i \<longleftrightarrow>
     (let devices = dc_id ` set (invc_devices i); sensors = senc_id ` set (invc_sensors i)
      in (\<forall>d \<in> set (invc_devices i). identifierPattern (dc_id d) \<and> entity_ok (dc_entity d)) \<and>
         distinct (map dc_id (invc_devices i)) \<and>
         (\<forall>s \<in> set (invc_sensors i). sensor_ok devices s) \<and>
         (\<forall>e \<in> set (invc_equipment i). equipment_ok devices sensors e) \<and>
         distinct (map senc_id (invc_sensors i) @ map eqc_id (invc_equipment i)))"

lemma entity_check: "(if s \<noteq> [] then cfg_validateUUID env path s else None) = None \<longleftrightarrow> entity_ok s"
  by (simp add: entity_ok_def)

lemma optional_None:
  "(case r of None \<Rightarrow> None | Some x \<Rightarrow> Some (f x)) = None \<longleftrightarrow> r = None"
  "(if b then r else None) = None \<longleftrightarrow> (b \<longrightarrow> r = None)"
  by (auto split: option.splits)

lemma first_error_append: "first_error (xs @ ys) = None \<longleftrightarrow> first_error xs = None \<and> first_error ys = None"
  by (auto simp: first_error_None)

lemma first_error_rejects: "first_error (map (\<lambda>x. reject (b x) (p x) (c x) (m x)) xs) = None \<longleftrightarrow> (\<forall>x \<in> set xs. \<not> b x)"
  by (auto simp: first_error_None)

lemma commissioning_None: "commissioning_validate path k = None \<longleftrightarrow> commissioning_validate [] k = None"
  by (simp add: commissioning_validate_def Let_def)

lemmas checks_None = optional_None first_error_append first_error_rejects case_error_None

lemma validate_device_None:
  "validate_device env n d seen = None \<longleftrightarrow> (identifierPattern (dc_id d) \<and> entity_ok (dc_entity d)) \<and> dc_id d \<notin> seen"
  unfolding validate_device_def Let_def validateID_def by (auto simp: entity_ok_def)

lemma validate_calibration_None: "validate_calibration base k = None \<longleftrightarrow> validate_calibration [] k = None"
  by (simp add: validate_calibration_def)

lemma validate_sensor_None:
  "validate_sensor env devices n s seen = None \<longleftrightarrow> sensor_ok devices s \<and> senc_id s \<notin> dom seen"
  unfolding validate_sensor_def sensor_ok_def Let_def validateID_def entity_ok_def
  using validate_calibration_None [of _ "senc_calibration s"]
  by (auto split: option.splits)

lemma validate_equipment_None:
  "validate_equipment env devices sensors n e seen = None \<longleftrightarrow> equipment_ok devices sensors e \<and> eqc_id e \<notin> dom seen"
proof -
  define kinds where "kinds = set [''outlet'', ''heater'', ''return-pump'', ''circulation-pump'', ''dosing-pump'', ''light'', ''ato'']"
  have ok: "equipment_ok devices sensors e \<longleftrightarrow> identifierPattern (eqc_id e) \<and> entity_ok (eqc_entity e) \<and> eqc_device e \<in> devices \<and>
     (eqc_kind e \<noteq> [] \<longrightarrow> eqc_kind e \<in> kinds \<and> ValidateCapabilities (eqc_capabilities e) = None) \<and>
     0 \<le> eqc_maximum_on e \<and> 0 \<le> eqc_maximum_daily e \<and> 0 \<le> eqc_minimum_off e \<and>
     (eqc_maximum_daily e > 0 \<longrightarrow> eqc_maximum_on e \<le> eqc_maximum_daily e) \<and>
     (hazardous_kind e \<longrightarrow> eqc_hazardous e \<and> \<not> eqc_fail_safe_on e \<and> 0 < eqc_maximum_on e \<and> eqc_sensors e \<noteq> []) \<and>
     set (eqc_sensors e) \<subseteq> sensors \<and> (eqc_kind e = ''dosing-pump'' \<longrightarrow> 0 < eqc_maximum_daily e) \<and>
     commissioning_validate [] (eqc_commissioning e) = None"
    unfolding equipment_ok_def kinds_def by simp
  show ?thesis
    unfolding validate_equipment_def ok Let_def validateID_def entity_ok_def domIff subset_iff
    using commissioning_None [of "item_path ''inventory.equipment'' n @ ''.commissioning''" "eqc_commissioning e"]
    by (simp only: checks_None first_error_Cons_None first_error.simps reject_None cfg_validateUUID_None oneOf_iff
        kinds_def [symmetric]) (auto simp: not_less not_le)
qed

lemma dom_see:
  "dom (see_sensor n s seen) = insert (senc_id s) (dom seen)" "dom (see_equipment n e seen) = insert (eqc_id e) (dom seen)"
  by (auto simp: see_sensor_def see_equipment_def)

lemma each_dom_exact:
  assumes "\<And>n x s. g n x s = None \<longleftrightarrow> P x \<and> key x \<notin> dom s" "\<And>n x s. dom (u n x s) = insert (key x) (dom s)"
  shows "(\<exists>s'. each_indexed (\<lambda>n x s. check_then (g n x s) (u n x s)) n xs m = Inr s') \<longleftrightarrow>
      (\<forall>x \<in> set xs. P x) \<and> distinct (map key xs) \<and> (\<forall>x \<in> set xs. key x \<notin> dom m)" (is ?A)
    and "each_indexed (\<lambda>n x s. check_then (g n x s) (u n x s)) n xs m = Inr s' \<Longrightarrow> dom s' = key ` set xs \<union> dom m"
proof -
  note exact = each_indexed_exact [where f = "\<lambda>n x s. check_then (g n x s) (u n x s)" and proj = dom
      and v = "\<lambda>x. insert (key x)" and u = u and P = "\<lambda>x s. P x \<and> key x \<notin> s", OF refl]
  show ?A
    using exact(1) [of n xs m] assms distinct_by_prefix [of xs P key "dom m"] by (simp add: fold_insert_image)
  show "dom s' = key ` set xs \<union> dom m" if "each_indexed (\<lambda>n x s. check_then (g n x s) (u n x s)) n xs m = Inr s'"
    using exact(2) [of n xs m s'] assms that by (simp add: fold_insert_image)
qed

lemma inventory_validate_None: "inventory_validate env i = None \<longleftrightarrow> inventory_ok i"
proof -
  let ?devices = "dc_id ` set (invc_devices i)" and ?sensors = "senc_id ` set (invc_sensors i)"
  let ?d = "each_indexed (\<lambda>n d s. check_then (validate_device env n d s) (insert (dc_id d) s)) 0 (invc_devices i) {}"
  let ?s = "each_indexed (\<lambda>n x s. check_then (validate_sensor env ?devices n x s) (see_sensor n x s)) 0 (invc_sensors i) Map.empty"
  let ?e = "\<lambda>seen. each_indexed (\<lambda>n x s. check_then (validate_equipment env ?devices ?sensors n x s) (see_equipment n x s))
    0 (invc_equipment i) seen"
  have d: "(\<exists>s'. ?d = Inr s') \<longleftrightarrow> (\<forall>d \<in> set (invc_devices i). identifierPattern (dc_id d) \<and> entity_ok (dc_entity d)) \<and>
      distinct (map dc_id (invc_devices i))" "?d = Inr s' \<Longrightarrow> s' = ?devices" for s'
    using each_keyed_exact [where g = "validate_device env" and key = dc_id and n = 0 and xs = "invc_devices i" and S = "{}",
        OF validate_device_None] by auto
  have s: "(\<exists>s'. ?s = Inr s') \<longleftrightarrow> (\<forall>x \<in> set (invc_sensors i). sensor_ok ?devices x) \<and> distinct (map senc_id (invc_sensors i))"
    "?s = Inr s' \<Longrightarrow> dom s' = ?sensors" for s'
    using each_dom_exact [where g = "validate_sensor env ?devices" and u = see_sensor and key = senc_id and n = 0
        and xs = "invc_sensors i" and m = Map.empty, OF validate_sensor_None dom_see(1)] by auto
  have e: "(\<exists>s'. ?e seen = Inr s') \<longleftrightarrow> (\<forall>x \<in> set (invc_equipment i). equipment_ok ?devices ?sensors x) \<and>
      distinct (map eqc_id (invc_equipment i)) \<and> (\<forall>x \<in> set (invc_equipment i). eqc_id x \<notin> dom seen)" for seen
    by (rule each_dom_exact(1) [where key = eqc_id, OF validate_equipment_None dom_see(2)])
  have "inventory_validate env i = None \<longleftrightarrow> (\<exists>s'. ?d = Inr s') \<and> (\<exists>seen. ?s = Inr seen \<and> (\<exists>s'. ?e seen = Inr s'))"
    using d(2) by (cases ?d; cases ?s) (auto simp: inventory_validate_def)
  also have "\<dots> \<longleftrightarrow> (\<exists>s'. ?d = Inr s') \<and> (\<exists>seen. ?s = Inr seen) \<and> (\<forall>x \<in> set (invc_equipment i). equipment_ok ?devices ?sensors x) \<and>
      distinct (map eqc_id (invc_equipment i)) \<and> (\<forall>x \<in> set (invc_equipment i). eqc_id x \<notin> ?sensors)"
    unfolding e using s(2) by blast
  also have "\<dots> \<longleftrightarrow> inventory_ok i"
  proof -
    have "distinct (map senc_id (invc_sensors i) @ map eqc_id (invc_equipment i)) \<longleftrightarrow>
        distinct (map senc_id (invc_sensors i)) \<and> distinct (map eqc_id (invc_equipment i)) \<and>
        (\<forall>x \<in> set (invc_equipment i). eqc_id x \<notin> ?sensors)"
      by (simp add: disjoint_iff) blast
    then show ?thesis unfolding d(1) s(1) inventory_ok_def Let_def by blast
  qed
  finally show ?thesis .
qed

section \<open>Properties\<close>

text \<open>
  C22. Exactly which adapter configurations validation accepts. Real adapters need the simulator off and the bench guard
  acknowledged; identifiers are valid and none is used twice, across both kinds of adapter; every bound holds; a heater is safe
  when off, has a positive maximum on time and two different probes, both of which belong to a configured
  node of an enabled ESP32 adapter.
\<close>

theorem adapters_exact:
  assumes "ranges_ok env"
  shows "validateAdapters env c = None \<longleftrightarrow> adapters_ok env c"
  by (rule validateAdapters_None [OF assms])

text \<open>
  Exactly which inventories validation accepts: valid identifiers, unique among devices and among sensors and equipment
  together, references that resolve, finite and ordered ranges, known kinds, and hazardous equipment that is
  marked hazardous, fails safe off, is limited in time and requires sensors.
\<close>

theorem inventory_exact: "inventory_validate env i = None \<longleftrightarrow> inventory_ok i"
  by (rule inventory_validate_None)

lemma applyEnvironment_password:
  "applyEnvironment describe lookup c = Inr c' \<Longrightarrow>
     mq_password (cfg_mqtt c') = override (lookup ''AQUAOS_MQTT_PASSWORD'') (mq_password (cfg_mqtt c))"
  by (auto simp: applyEnvironment_def override_texts_def Let_def split: sum.splits)

lemma decode_onto_defaults_password:
  "decode_onto_defaults context version decode secret data = Inr c \<Longrightarrow> mq_password (cfg_mqtt c) = []"
  by (auto simp: decode_onto_defaults_def split: sum.splits option.splits if_splits)

text \<open>
  A configuration that was loaded is valid, and the broker password in it can only have come from the environment: one
  that is written in the file is rejected.
\<close>

theorem loaded_is_valid:
  assumes "cfg_Load env lookup version decode path file = Inr c"
  shows "Validate env c = None \<and>
    (case lookup ''AQUAOS_MQTT_PASSWORD'' of None \<Rightarrow> mq_password (cfg_mqtt c) = [] | Some s \<Rightarrow> mq_password (cfg_mqtt c) = s)"
  using assms
  by (auto simp: cfg_Load_def override_def dest!: applyEnvironment_password decode_onto_defaults_password
      split: if_splits sum.splits option.splits)

section \<open>Concrete runs\<close>

definition sample_config_env :: config_env where
  "sample_config_env =
     \<lparr>ce_url = plain_url, ce_host_port = (\<lambda>s. Inr (takeWhile (\<lambda>c. c \<noteq> CHR '':'') s, [])), ce_loopback = (\<lambda>_. None),
      ce_describe = (\<lambda>_. []), ce_durations = rev, ce_texts = (\<lambda>xs. xs)\<rparr>"

definition heater_endpoint :: shelly_config where
  "heater_endpoint =
     \<lparr>shc_id = sample_id 1, shc_equipment = sample_id 2, shc_rule = sample_id 3, shc_base_url = ''10.0.0.5'', shc_channel = 0,
      shc_poll = 5 * second, shc_timeout = second, shc_retries = 2, shc_safe_on = False, shc_power_return = ''off'',
      shc_kind = ''heater'', shc_maximum_on = 30 * minute, shc_probes = [sample_id 11, sample_id 12]\<rparr>"

definition node_endpoint :: esp32_config where
  "node_endpoint =
     \<lparr>espc_id = sample_id 4, espc_device = sample_id 5, espc_rule = sample_id 6, espc_base_url = ''10.0.0.6'',
      espc_token_file = [], espc_probes = [sample_id 11, sample_id 12], espc_poll = 5 * second, espc_timeout = second,
      espc_fresh_for = 15 * second, espc_skew = 2 * second, espc_difference = Finite 1\<rparr>"

definition bench_configuration :: config where
  "bench_configuration = Defaults\<lparr>cfg_simulator := False, cfg_bench := \<lparr>bench_enabled = True, bench_acknowledged = True\<rparr>,
     cfg_adapters := \<lparr>shelly_enabled = True, shelly_endpoints = [heater_endpoint], esp32_enabled = True,
       esp32_endpoints = [node_endpoint]\<rparr>\<rparr>"

lemma sample_ranges: "ranges_ok sample_config_env"
  by (simp add: ranges_ok_def sample_config_env_def)

lemma sample_url: "url_accepted sample_config_env [''http''] ''10.0.0.5''" "url_accepted sample_config_env [''http'', ''https''] ''10.0.0.6''"
  by (simp_all add: url_accepted_def sample_config_env_def plain_url_def)

lemma heater_endpoint_ok: "shelly_ok sample_config_env heater_endpoint"
  using sample_url by (simp add: shelly_ok_def heater_ok_def heater_endpoint_def)

lemma node_endpoint_ok: "esp32_ok sample_config_env node_endpoint"
  using sample_url by (simp add: esp32_ok_def node_endpoint_def f64_le_def)

lemma bench_adapters_ok: "adapters_ok sample_config_env bench_configuration"
  using heater_endpoint_ok node_endpoint_ok
  by (simp add: adapters_ok_def bench_configuration_def) (simp add: heater_endpoint_def node_endpoint_def)

theorem adapters_exact_witness: "validateAdapters sample_config_env bench_configuration = None"
  using adapters_exact [OF sample_ranges, of bench_configuration] bench_adapters_ok by blast

lemma default_address: "trim_space ''localhost:8080'' \<noteq> []"
proof -
  have "plain_text ''localhost:8080''" by (simp add: plain_text_def)
  from trim_plain [OF this] show ?thesis by simp
qed

lemma sample_defaults: "Validate sample_config_env Defaults = None"
proof -
  have "validateAdapters sample_config_env Defaults = None"
    unfolding validateAdapters_None [OF sample_ranges] by (simp add: adapters_ok_def Defaults_def)
  moreover have "inventory_validate sample_config_env (cfg_inventory Defaults) = None"
    unfolding inventory_validate_None by (simp add: inventory_ok_def Defaults_def)
  ultimately show ?thesis
    unfolding Validate_def
    by (simp add: validate_timeouts_def first_error_None ranges_ok_set [OF sample_ranges])
      (simp add: Defaults_def CurrentSchemaVersion_def validate_http_def sample_config_env_def default_address
        validate_influx_def validate_tombstones_def alarms_validate_def backup_validate_def zero_backup_def)
qed

lemma Validate_password: "Validate env (c\<lparr>cfg_mqtt := (cfg_mqtt c)\<lparr>mq_password := s\<rparr>\<rparr>) = Validate env c"
  by (simp add: Validate_def validate_timeouts_def validateAdapters_def validate_mqtt_def Let_def)

theorem loaded_is_valid_witness:
  "\<exists>c. cfg_Load sample_config_env ((\<lambda>_. None)(''AQUAOS_MQTT_PASSWORD'' := Some ''secret'')) (\<lambda>_. Inr (Some 1)) (\<lambda>_ c. Inr c)
     ''aquaos.yaml'' (Inr ''schema_version: 1'') = Inr c \<and> mq_password (cfg_mqtt c) = ''secret''"
proof -
  let ?lookup = "(\<lambda>_. None)(''AQUAOS_MQTT_PASSWORD'' := Some ''secret'')"
  let ?c = "Defaults\<lparr>cfg_mqtt := (cfg_mqtt Defaults)\<lparr>mq_password := ''secret''\<rparr>\<rparr>"
  have "mq_password (cfg_mqtt Defaults) = []" by (simp add: Defaults_def)
  moreover have "applyEnvironment describe ?lookup Defaults = Inr ?c" for describe
    by (simp add: applyEnvironment_def override_texts_def override_def override_bool_def Let_def)
  ultimately have load: "cfg_Load sample_config_env ?lookup (\<lambda>_. Inr (Some 1)) (\<lambda>_ c. Inr c) ''aquaos.yaml'' (Inr ''schema_version: 1'') = Inr ?c"
    by (simp add: cfg_Load_def decode_onto_defaults_def Validate_password sample_defaults check_then_def)
  from loaded_is_valid [OF this] load show ?thesis by auto
qed

end
