(* ===== verification/ConfigManager.thy ===== *)
theory ConfigManager
  imports ConfigSpec Sha256 Health Events
begin

text \<open>
  The configuration manager (\<open>config/manager.go\<close>): the active snapshot with its digest, planning of a change, and
  reload with an audit event and rollback.

  \<open>reflect.DeepEqual\<close> is equality except on floating point numbers, which it compares with \<open>==\<close>, so that a NaN differs from
  itself; time stamps are compared as instants. The JSON text of a configuration, of which only the digest is used,
  is an argument, and so is the live log level: \<open>None\<close> when the manager has no \<open>LogLevelSetter\<close>.
\<close>

section \<open>Digest\<close>

definition redactedSecret :: string where
  "redactedSecret = ''[REDACTED]''"

definition mqtt_Redacted :: "mqtt_config \<Rightarrow> mqtt_config" where
  "mqtt_Redacted m = (if mq_password m \<noteq> [] then m\<lparr>mq_password := redactedSecret\<rparr> else m)"

definition Redacted :: "config \<Rightarrow> config" where
  "Redacted c = c\<lparr>cfg_mqtt := mqtt_Redacted (cfg_mqtt c)\<rparr>"

type_synonym config_json = "config \<Rightarrow> go_error + byte list"

definition Digest :: "config_json \<Rightarrow> config \<Rightarrow> go_error + string" where
  "Digest marshal c =
     (case marshal (Redacted c) of
        Inl err \<Rightarrow> Inl (Wrapped ''encode configuration digest'' err)
      | Inr encoded \<Rightarrow> Inr (hex_encode (sha256 encoded)))"

section \<open>Changes\<close>

record change =
  change_path :: string
  change_reloadable :: bool
  change_reason :: string

record reload_plan =
  plan_digest :: string
  plan_changes :: "change list"

definition equal_mqtt :: "mqtt_config \<Rightarrow> mqtt_config \<Rightarrow> bool" where
  "equal_mqtt m n \<longleftrightarrow> m\<lparr>mq_jitter := NaN\<rparr> = n\<lparr>mq_jitter := NaN\<rparr> \<and> f64_eq (mq_jitter m) (mq_jitter n)"

definition equal_esp32 :: "esp32_config \<Rightarrow> esp32_config \<Rightarrow> bool" where
  "equal_esp32 e f \<longleftrightarrow> e\<lparr>espc_difference := NaN\<rparr> = f\<lparr>espc_difference := NaN\<rparr> \<and> f64_eq (espc_difference e) (espc_difference f)"

definition equal_adapters :: "adapters_config \<Rightarrow> adapters_config \<Rightarrow> bool" where
  "equal_adapters a b \<longleftrightarrow> a\<lparr>esp32_endpoints := []\<rparr> = b\<lparr>esp32_endpoints := []\<rparr> \<and>
     list_all2 equal_esp32 (esp32_endpoints a) (esp32_endpoints b)"

definition equal_calibration :: "calibration_config \<Rightarrow> calibration_config \<Rightarrow> bool" where
  "equal_calibration k l \<longleftrightarrow> k\<lparr>cal_scale := NaN, cal_offset := NaN\<rparr> = l\<lparr>cal_scale := NaN, cal_offset := NaN\<rparr> \<and>
     f64_eq (cal_scale k) (cal_scale l) \<and> f64_eq (cal_offset k) (cal_offset l)"

definition equal_sensor :: "sensor_config \<Rightarrow> sensor_config \<Rightarrow> bool" where
  "equal_sensor s t \<longleftrightarrow>
     s\<lparr>senc_minimum := None, senc_maximum := None, senc_calibration := senc_calibration t\<rparr> =
       t\<lparr>senc_minimum := None, senc_maximum := None\<rparr> \<and>
     rel_option f64_eq (senc_minimum s) (senc_minimum t) \<and> rel_option f64_eq (senc_maximum s) (senc_maximum t) \<and>
     equal_calibration (senc_calibration s) (senc_calibration t)"

definition equal_inventory :: "inventory_config \<Rightarrow> inventory_config \<Rightarrow> bool" where
  "equal_inventory i j \<longleftrightarrow> i\<lparr>invc_sensors := []\<rparr> = j\<lparr>invc_sensors := []\<rparr> \<and>
     list_all2 equal_sensor (invc_sensors i) (invc_sensors j)"

definition add_change :: "string \<Rightarrow> bool \<Rightarrow> string \<Rightarrow> bool \<Rightarrow> change list" where
  "add_change path reloadable reason equal =
     (if equal then [] else [\<lparr>change_path = path, change_reloadable = reloadable, change_reason = reason\<rparr>])"

definition changesBetween :: "config \<Rightarrow> config \<Rightarrow> change list" where
  "changesBetween current next =
     (let a = cfg_application current; b = cfg_application next
      in add_change ''schema_version'' False ''schema changes require migration and restart''
           (cfg_schema current = cfg_schema next) @
         add_change ''application.log_level'' True ''logging verbosity is operationally harmless''
           (app_log_level a = app_log_level b) @
         add_change ''application.startup_timeout'' False ''lifecycle bounds are fixed at startup''
           (app_startup a = app_startup b) @
         add_change ''application.shutdown_timeout'' False ''lifecycle bounds are fixed at startup''
           (app_shutdown a = app_shutdown b) @
         add_change ''application.component_timeout'' False ''lifecycle bounds are fixed at startup''
           (app_component a = app_component b) @
         add_change ''http'' False ''HTTP listeners and timeouts require restart'' (cfg_http current = cfg_http next) @
         add_change ''mqtt'' False ''MQTT connection changes require restart''
           (equal_mqtt (mqtt_Redacted (cfg_mqtt current)) (mqtt_Redacted (cfg_mqtt next))) @
         add_change ''simulator'' False ''adapter activation requires restart'' (cfg_simulator current = cfg_simulator next) @
         add_change ''adapters'' False ''direct adapter identity, safety, and connection changes require restart''
           (equal_adapters (cfg_adapters current) (cfg_adapters next)) @
         add_change ''bench'' False ''bench activation guard changes require restart'' (cfg_bench current = cfg_bench next) @
         add_change ''storage'' False ''storage pipeline changes require restart'' (cfg_influx current = cfg_influx next) @
         add_change ''inventory'' False ''inventory changes require validated registry activation''
           (equal_inventory (cfg_inventory current) (cfg_inventory next)))"

section \<open>The manager\<close>

record config_manager =
  cm_current :: config
  cm_digest :: string
  cm_started :: bool
  cm_level :: "string option"

definition NewConfigManager :: "config_json \<Rightarrow> config \<Rightarrow> string option \<Rightarrow> config_manager" where
  "NewConfigManager marshal initial level =
     \<lparr>cm_current = initial, cm_digest = (case Digest marshal initial of Inl _ \<Rightarrow> [] | Inr d \<Rightarrow> d), cm_started = False,
      cm_level = level\<rparr>"

definition cm_start :: "config_manager \<Rightarrow> config_manager" where
  "cm_start m = m\<lparr>cm_started := True\<rparr>"

definition cm_stop :: "config_manager \<Rightarrow> config_manager" where
  "cm_stop m = m\<lparr>cm_started := False\<rparr>"

definition cm_health :: "gotime \<Rightarrow> config_manager \<Rightarrow> status" where
  "cm_health now m = started_status ''configuration'' (cm_started m) now"

definition Plan :: "config_env \<Rightarrow> config_json \<Rightarrow> config \<Rightarrow> config_manager \<Rightarrow> reload_plan ret" where
  "Plan cenv marshal next m =
     (case Validate cenv next of
        Some err \<Rightarrow> fail err
      | None \<Rightarrow>
          (case Digest marshal next of
             Inl err \<Rightarrow> fail err
           | Inr digest \<Rightarrow>
               (let changes = changesBetween (cm_current m) next;
                    unsafe = filter (\<lambda>c. \<not> change_reloadable c) changes;
                    plan = \<lparr>plan_digest = digest, plan_changes = changes\<rparr>
                in if unsafe \<noteq> []
                   then (Some plan, Some (ErrorFmt ''configuration reload rejected: %d change(s) require restart''
                           [decimal (length unsafe)]))
                   else ok plan)))"

definition set_level :: "reload_plan \<Rightarrow> string \<Rightarrow> config_manager \<Rightarrow> config_manager" where
  "set_level plan level m = (if plan_changes plan \<noteq> [] then m\<lparr>cm_level := Some level\<rparr> else m)"

definition reload_event :: "reload_plan env \<Rightarrow> reload_plan \<Rightarrow> reload_plan event ret" where
  "reload_event env plan =
     factory_new (env_now env) (env_new_correlation env) (\<lambda>_. True) ''configuration'' ConfigurationChanged SeverityInfo plan
       (ctx_correlation env)"

definition commit :: "reload_plan env \<Rightarrow> config \<Rightarrow> reload_plan \<Rightarrow> reload_plan event \<Rightarrow> config_manager \<Rightarrow> config_manager \<times> go_error option" where
  "commit env next plan event m =
     (let m' = (set_level plan (app_log_level (cfg_application next)) m)\<lparr>cm_current := next, cm_digest := plan_digest plan\<rparr>
      in case env_publish env of
           None \<Rightarrow> (m', None)
         | Some pub \<Rightarrow>
             (case pub event of
                None \<Rightarrow> (m', None)
              | Some err \<Rightarrow>
                  ((set_level plan (app_log_level (cfg_application (cm_current m))) m')
                     \<lparr>cm_current := cm_current m, cm_digest := cm_digest m\<rparr>,
                   Some (Wrapped ''publish configuration reload event'' err))))"

definition Reload ::
  "config_env \<Rightarrow> config_json \<Rightarrow> reload_plan env \<Rightarrow> (go_error + config) option \<Rightarrow> config_manager \<Rightarrow> config_manager \<times> go_error option"
where
  "Reload cenv marshal env loader m =
     (case loader of
        None \<Rightarrow> (m, Some (ErrorString ''configuration reload is not available''))
      | Some (Inl err) \<Rightarrow> (m, Some err)
      | Some (Inr next) \<Rightarrow>
          (case Plan cenv marshal next m of
             (_, Some err) \<Rightarrow> (m, Some err)
           | (None, None) \<Rightarrow> (m, None)
           | (Some plan, None) \<Rightarrow>
               if plan_changes plan \<noteq> [] \<and> cm_level m = None
               then (m, Some (ErrorString ''configuration reload rejected: live log-level setter is unavailable''))
               else case reload_event env plan of
                      (_, Some err) \<Rightarrow> (m, Some (Wrapped ''create configuration reload event'' err))
                    | (None, None) \<Rightarrow> (m, None)
                    | (Some event, None) \<Rightarrow> commit env next plan event m))"

text \<open>\<open>FileLoader.Load\<close>.\<close>

definition file_load :: "go_error option \<Rightarrow> go_error + config \<Rightarrow> go_error + config" where
  "file_load ctx loaded = (case ctx of Some err \<Rightarrow> Inl err | None \<Rightarrow> loaded)"

section \<open>Invariants\<close>

interpretation config_component: component "\<lambda>_. ''configuration''" cm_start cm_stop cm_health
  by unfold_locales (simp_all add: cm_start_def cm_stop_def cm_health_def started_status_def NewStatus_def)

text \<open>The parts of a configuration that a reload may not change, as far as the comparison looks.\<close>

definition fixed_parts :: "config \<Rightarrow> config \<Rightarrow> bool" where
  "fixed_parts c d \<longleftrightarrow> cfg_schema c = cfg_schema d \<and> cfg_http c = cfg_http d \<and> cfg_simulator c = cfg_simulator d \<and>
     cfg_bench c = cfg_bench d \<and> cfg_influx c = cfg_influx d \<and>
     app_startup (cfg_application c) = app_startup (cfg_application d) \<and>
     app_shutdown (cfg_application c) = app_shutdown (cfg_application d) \<and>
     app_component (cfg_application c) = app_component (cfg_application d) \<and>
     equal_mqtt (mqtt_Redacted (cfg_mqtt c)) (mqtt_Redacted (cfg_mqtt d)) \<and>
     equal_adapters (cfg_adapters c) (cfg_adapters d) \<and> equal_inventory (cfg_inventory c) (cfg_inventory d)"

lemma unsafe_changes: "filter (\<lambda>c. \<not> change_reloadable c) (changesBetween c d) = [] \<longleftrightarrow> fixed_parts c d"
  by (auto simp: changesBetween_def add_change_def fixed_parts_def Let_def)

lemma no_changes:
  "changesBetween c d = [] \<longleftrightarrow> fixed_parts c d \<and> app_log_level (cfg_application c) = app_log_level (cfg_application d)"
  by (auto simp: changesBetween_def add_change_def fixed_parts_def Let_def)

lemma f64_eq_trans: "f64_eq x y \<Longrightarrow> f64_eq y z \<Longrightarrow> f64_eq x z"
  by (cases x; cases y; cases z) auto

lemma rel_option_trans: "rel_option f64_eq x y \<Longrightarrow> rel_option f64_eq y z \<Longrightarrow> rel_option f64_eq x z"
  by (cases x; cases y; cases z) (auto intro: f64_eq_trans)

lemma equal_mqtt_trans: "equal_mqtt l m \<Longrightarrow> equal_mqtt m n \<Longrightarrow> equal_mqtt l n"
  by (auto simp: equal_mqtt_def intro: f64_eq_trans)

lemma equal_esp32_trans: "equal_esp32 l m \<Longrightarrow> equal_esp32 m n \<Longrightarrow> equal_esp32 l n"
  by (auto simp: equal_esp32_def intro: f64_eq_trans)

lemma equal_adapters_trans: "equal_adapters l m \<Longrightarrow> equal_adapters m n \<Longrightarrow> equal_adapters l n"
  unfolding equal_adapters_def using list_all2_trans [of equal_esp32 equal_esp32 equal_esp32] equal_esp32_trans by metis

lemma equal_sensor_trans: "equal_sensor l m \<Longrightarrow> equal_sensor m n \<Longrightarrow> equal_sensor l n"
  unfolding equal_sensor_def equal_calibration_def
  by (cases l; cases m; cases n) (auto intro: f64_eq_trans rel_option_trans)

lemma equal_inventory_trans: "equal_inventory l m \<Longrightarrow> equal_inventory m n \<Longrightarrow> equal_inventory l n"
  unfolding equal_inventory_def using list_all2_trans [of equal_sensor equal_sensor equal_sensor] equal_sensor_trans by metis

lemma fixed_parts_trans: "fixed_parts l m \<Longrightarrow> fixed_parts m n \<Longrightarrow> fixed_parts l n"
  unfolding fixed_parts_def using equal_mqtt_trans equal_adapters_trans equal_inventory_trans by metis

lemma Plan_ok:
  "Plan cenv marshal next m = (Some plan, None) \<longleftrightarrow>
     Validate cenv next = None \<and> Digest marshal next = Inr (plan_digest plan) \<and> fixed_parts (cm_current m) next \<and>
     plan_changes plan = changesBetween (cm_current m) next"
  using unsafe_changes [of "cm_current m" "next"]
  by (cases plan) (auto simp: Plan_def ok_def fail_def Let_def split: option.splits sum.splits)

lemma Plan_never_empty: "Plan cenv marshal next m \<noteq> (None, None)"
  by (simp add: Plan_def ok_def fail_def Let_def split: option.splits sum.splits)

lemma reload_event_never_empty: "reload_event env plan \<noteq> (None, None)"
  by (auto simp: reload_event_def factory_new_def fail_def Let_def split: sum.splits)

text \<open>The live log level is the one of the active snapshot.\<close>

definition level_in_sync :: "config_manager \<Rightarrow> bool" where
  "level_in_sync m \<longleftrightarrow> (case cm_level m of None \<Rightarrow> True | Some level \<Rightarrow> level = app_log_level (cfg_application (cm_current m)))"

lemma Reload_cases:
  obtains err where "Reload cenv marshal env loader m = (m, Some err)"
  | "next" plan event where "loader = Some (Inr next)" "Plan cenv marshal next m = (Some plan, None)"
      "plan_changes plan = [] \<or> cm_level m \<noteq> None" "reload_event env plan = (Some event, None)"
      "Reload cenv marshal env loader m = commit env next plan event m"
proof (cases loader)
  case None
  with that(1) show ?thesis by (simp add: Reload_def)
next
  case (Some r)
  show ?thesis
  proof (cases r)
    case (Inl err)
    with Some that(1) show ?thesis by (simp add: Reload_def)
  next
    case (Inr "next")
    note loader = Some Inr
    obtain p err where plan: "Plan cenv marshal next m = (p, err)" by fastforce
    show ?thesis
    proof (cases err)
      case (Some e)
      with loader plan that(1) show ?thesis by (cases p) (simp_all add: Reload_def)
    next
      case None
      then obtain pl where p: "p = Some pl" using plan Plan_never_empty [of cenv marshal "next" m] by (cases p) auto
      obtain v err' where ev: "reload_event env pl = (v, err')" by fastforce
      show ?thesis
      proof (cases "err' = None \<and> (plan_changes pl = [] \<or> cm_level m \<noteq> None)")
        case True
        then obtain event where "v = Some event" using ev reload_event_never_empty [of env pl] by (cases v) auto
        moreover from this True loader plan p None ev have "Reload cenv marshal env loader m = commit env next pl event m"
          by (auto simp: Reload_def)
        ultimately show ?thesis using True loader plan p None ev that(2) by auto
      next
        case False
        with loader plan p None ev have "\<exists>e. Reload cenv marshal env loader m = (m, Some e)"
          by (cases err'; cases v) (auto simp: Reload_def)
        with that(1) show ?thesis by blast
      qed
    qed
  qed
qed

lemma Reload_outcome:
  assumes "level_in_sync m"
  shows "case Reload cenv marshal env loader m of
      (m', Some err) \<Rightarrow> m' = m
    | (m', None) \<Rightarrow> \<exists>c d. loader = Some (Inr c) \<and> cm_current m' = c \<and> Validate cenv c = None \<and>
        Digest marshal c = Inr d \<and> cm_digest m' = d \<and> fixed_parts (cm_current m) c \<and> level_in_sync m'"
proof (cases rule: Reload_cases [of cenv marshal env loader m])
  case (2 "next" plan event)
  have plan: "Validate cenv next = None" "Digest marshal next = Inr (plan_digest plan)" "fixed_parts (cm_current m) next"
    "plan_changes plan = changesBetween (cm_current m) next"
    using 2(2) by (simp_all add: Plan_ok)
  show ?thesis
  proof (cases "\<exists>pub err. env_publish env = Some pub \<and> pub event = Some err")
    case True
    then show ?thesis
      using 2 plan(4) assms no_changes [of "cm_current m" "next"]
      by (cases m) (auto simp: commit_def set_level_def level_in_sync_def Let_def)
  next
    case False
    then have "commit env next plan event m =
        ((set_level plan (app_log_level (cfg_application next)) m)\<lparr>cm_current := next, cm_digest := plan_digest plan\<rparr>, None)"
      by (auto simp: commit_def Let_def split: option.splits)
    then show ?thesis
      using 2 plan assms no_changes [of "cm_current m" "next"]
      by (auto simp: set_level_def level_in_sync_def split: option.splits)
  qed
qed simp

text \<open>Managers that reloads lead to, from one snapshot.\<close>

inductive cm_reach :: "config_env \<Rightarrow> config_json \<Rightarrow> config \<Rightarrow> config_manager \<Rightarrow> bool" for cenv marshal initial where
  new: "cm_reach cenv marshal initial (NewConfigManager marshal initial level)"
    if "Validate cenv initial = None" "fixed_parts initial initial"
      "level = None \<or> level = Some (app_log_level (cfg_application initial))"
| reload: "cm_reach cenv marshal initial m \<Longrightarrow> cm_reach cenv marshal initial (fst (Reload cenv marshal env loader m))"
| lifecycle: "cm_reach cenv marshal initial m \<Longrightarrow> m' = cm_start m \<or> m' = cm_stop m \<Longrightarrow> cm_reach cenv marshal initial m'"

section \<open>Properties\<close>


text \<open>
  However often the configuration is reloaded, the active snapshot is valid, the live log level is its own, and everything
  that was fixed at startup is as it was at startup.
\<close>

theorem snapshot_stays_valid:
  "cm_reach cenv marshal initial m \<Longrightarrow>
     Validate cenv (cm_current m) = None \<and> fixed_parts initial (cm_current m) \<and> level_in_sync m"
proof (induction rule: cm_reach.induct)
  case (new level)
  then show ?case by (auto simp: NewConfigManager_def level_in_sync_def)
next
  case (reload m env loader)
  then show ?case
    using Reload_outcome [of m, where loader = loader and cenv = cenv and marshal = marshal and env = env] fixed_parts_trans [of initial "cm_current m"]
    by (cases "Reload cenv marshal env loader m"; cases "snd (Reload cenv marshal env loader m)") auto
next
  case (lifecycle m m')
  then show ?case by (auto simp: cm_start_def cm_stop_def level_in_sync_def split: option.splits)
qed

text \<open>
  A plan does not see every change: for a candidate that differs in its alarm rules, its backups, the event concurrency or the
  broker password it lists no change at all, so that a reload activates the candidate without a restart.
\<close>

theorem unlisted_changes:
  assumes "fixed_parts (cm_current m) (cm_current m)" "mq_password (cfg_mqtt (cm_current m)) \<noteq> []" "p \<noteq> []"
    and "candidate = (cm_current m)\<lparr>cfg_alarms := rules, cfg_backups := b,
      cfg_application := (cfg_application (cm_current m))\<lparr>app_concurrency := n\<rparr>,
      cfg_mqtt := (cfg_mqtt (cm_current m))\<lparr>mq_password := p\<rparr>\<rparr>"
    and "Validate cenv candidate = None" "Digest marshal candidate = Inr d"
  shows "Plan cenv marshal candidate m = ok \<lparr>plan_digest = d, plan_changes = []\<rparr>"
proof -
  have "changesBetween (cm_current m) candidate = []"
    unfolding no_changes using assms(1-4) by (simp add: fixed_parts_def mqtt_Redacted_def)
  with assms(5,6) show ?thesis by (simp add: Plan_def Let_def)
qed

section \<open>Concrete runs\<close>

definition any_json :: config_json where
  "any_json c = Inr []"

definition sample_manager :: config_manager where
  "sample_manager = NewConfigManager any_json Defaults (Some ''info'')"

lemma Defaults_fixed: "fixed_parts Defaults Defaults"
proof -
  have "f64_eq (f64_round (1 / 5)) (f64_round (1 / 5))"
    by (cases "f64_round (1 / 5)") (simp_all add: f64_round_def Let_def split: if_splits)
  then show ?thesis
    by (simp add: fixed_parts_def equal_mqtt_def mqtt_Redacted_def equal_adapters_def equal_inventory_def Defaults_def)
qed

lemma sample_manager_reach: "cm_reach sample_config_env any_json Defaults sample_manager"
  unfolding sample_manager_def
  by (rule cm_reach.new) (use sample_defaults Defaults_fixed in \<open>simp_all add: Defaults_def\<close>)

lemma sample_in_sync: "level_in_sync sample_manager"
  by (simp add: sample_manager_def NewConfigManager_def level_in_sync_def Defaults_def)

theorem snapshot_stays_valid_witness:
  "\<exists>m. cm_reach sample_config_env any_json Defaults m \<and> Validate sample_config_env (cm_current m) = None"
  using snapshot_stays_valid [OF sample_manager_reach] sample_manager_reach by blast


definition with_password :: "string \<Rightarrow> config" where
  "with_password s = Defaults\<lparr>cfg_mqtt := (cfg_mqtt Defaults)\<lparr>mq_password := s\<rparr>\<rparr>"

theorem unlisted_changes_witness:
  "\<exists>d. Plan sample_config_env any_json (with_password ''new'') (sample_manager\<lparr>cm_current := with_password ''old''\<rparr>) =
     ok \<lparr>plan_digest = d, plan_changes = []\<rparr>"
proof -
  have "fixed_parts (with_password ''old'') (with_password ''old'')"
    using Defaults_fixed by (simp add: fixed_parts_def with_password_def mqtt_Redacted_def equal_mqtt_def split: if_splits)
  moreover have "with_password ''new'' = (with_password ''old'')\<lparr>cfg_alarms := [], cfg_backups := zero_backup,
      cfg_application := (cfg_application (with_password ''old''))\<lparr>app_concurrency := 64\<rparr>,
      cfg_mqtt := (cfg_mqtt (with_password ''old''))\<lparr>mq_password := ''new''\<rparr>\<rparr>"
    by (simp add: with_password_def Defaults_def)
  moreover have "Validate sample_config_env (with_password ''new'') = None"
    using sample_defaults by (simp add: with_password_def Validate_password)
  moreover have "\<exists>d. Digest any_json (with_password ''new'') = Inr d"
    by (simp add: Digest_def any_json_def)
  ultimately show ?thesis
    using unlisted_changes [where m = "sample_manager\<lparr>cm_current := with_password ''old''\<rparr>" and p = "''new''"
        and candidate = "with_password ''new''" and rules = "[]" and b = zero_backup and n = 64 and cenv = sample_config_env
        and marshal = any_json]
    by (auto simp: with_password_def)
qed

end
