(* ===== verification/HomeAssistant.thy ===== *)
theory HomeAssistant
  imports MqttRouter Inventory GoNet
begin

text \<open>
  The Home Assistant integration (\<open>integrations/homeassistant/manager.go\<close> and \<open>inventory.go\<close>): the retained discovery
  messages of the inventory, the status message, and the translation of switch requests into commands.
  The transport is an argument that decides about each publication; what was published is kept in order, so that the message a
  broker retains on a topic can be read off it.
\<close>

section \<open>Discovery\<close>

record ha_device =
  hd_identifiers :: "string list"
  hd_name :: string
  hd_manufacturer :: string
  hd_model :: string

record discovery_payload =
  dp_name :: string
  dp_unique :: string
  dp_object :: string
  dp_state_topic :: string
  dp_command_topic :: string
  dp_availability :: string
  dp_template :: string
  dp_on :: string
  dp_off :: string
  dp_unit :: string
  dp_class :: string
  dp_state_class :: string
  dp_device :: ha_device

record ha_entity =
  ent_component :: string
  ent_object :: string
  ent_payload :: discovery_payload

definition object_char :: "char \<Rightarrow> char" where
  "object_char c = (if lower c \<or> digit c \<or> c = CHR ''_'' then c else CHR ''_'')"

text \<open>\<open>entityObjectID\<close>, on the ASCII texts it is given: constants, site IDs and UUIDs.\<close>

definition entityObjectID :: "string \<Rightarrow> string \<Rightarrow> string" where
  "entityObjectID kind i = map object_char (to_lower (''aquaos_'' @ kind @ ''_'' @ i))"

definition deviceInfo :: "ident \<Rightarrow> string \<Rightarrow> ha_device" where
  "deviceInfo i name =
     \<lparr>hd_identifiers = [if i \<noteq> [] then ''aquaos-device-'' @ i else ''aquaos-core''],
      hd_name = (if name = [] then ''AquaOS Device'' else name), hd_manufacturer = ''AquaOS'',
      hd_model = ''AquaOS managed device''\<rparr>"

fun haUnit :: "unit_kind \<Rightarrow> string" where
  "haUnit UnitCelsius = [CHR 0xC2, CHR 0xB0, CHR ''C'']"
| "haUnit UnitPPT = ''ppt''"
| "haUnit UnitLitersPerHour = ''L/h''"
| "haUnit UnitPercent = ''%''"
| "haUnit UnitWatts = ''W''"
| "haUnit UnitVolts = ''V''"
| "haUnit UnitAmperes = ''A''"
| "haUnit unit = unit_string unit"

fun deviceClass :: "quantity_kind \<Rightarrow> string" where
  "deviceClass QuantityTemperature = ''temperature''"
| "deviceClass QuantityPower = ''power''"
| "deviceClass QuantityVoltage = ''voltage''"
| "deviceClass QuantityCurrent = ''current''"
| "deviceClass _ = []"

record ha_config =
  hc_site :: string
  hc_ttl :: duration
  hc_maximum :: int
  hc_tombstones :: "(string \<times> string) list"
  hc_rules :: "ident list"

definition sensor_entity :: "topic_registry \<Rightarrow> string \<Rightarrow> (ident \<rightharpoonup> string) \<Rightarrow> sensor \<Rightarrow> ha_entity ret" where
  "sensor_entity r availability names s =
     (let resource = ''sensor-'' @ sensor_id s
      in case Topic r PurposeSensorState resource of
           (_, Some err) \<Rightarrow> fail err
         | (None, None) \<Rightarrow> fail (ErrorString [])
         | (Some (state, _), None) \<Rightarrow>
             ok \<lparr>ent_component = ''sensor'', ent_object = resource, ent_payload =
               \<lparr>dp_name = sensor_name s, dp_unique = ''aquaos_sensor_'' @ sensor_id s,
                dp_object = entityObjectID ''sensor'' (sensor_id s), dp_state_topic = state, dp_command_topic = [],
                dp_availability = availability, dp_template = ''{{ value_json.data.value.quantity.value }}'', dp_on = [],
                dp_off = [], dp_unit = haUnit (sensor_unit s), dp_class = deviceClass (sensor_quantity s),
                dp_state_class = ''measurement'',
                dp_device = deviceInfo (sensor_device s) (case names (sensor_device s) of None \<Rightarrow> [] | Some n \<Rightarrow> n)\<rparr>\<rparr>)"

definition switch_resource :: "ident \<Rightarrow> string" where
  "switch_resource i = ''equipment-'' @ i"

definition switch_entity :: "topic_registry \<Rightarrow> string \<Rightarrow> (ident \<rightharpoonup> string) \<Rightarrow> equipment \<Rightarrow> ha_entity ret" where
  "switch_entity r availability names e =
     (let resource = switch_resource (equipment_id e)
      in case Topic r PurposeEquipmentReported resource of
           (_, Some err) \<Rightarrow> fail err
         | (None, None) \<Rightarrow> fail (ErrorString [])
         | (Some (state, _), None) \<Rightarrow>
             (case HACommand r resource of
                (_, Some err) \<Rightarrow> fail err
              | (None, None) \<Rightarrow> fail (ErrorString [])
              | (Some (command, _), None) \<Rightarrow>
                  ok \<lparr>ent_component = ''switch'', ent_object = resource, ent_payload =
                    \<lparr>dp_name = equipment_name e, dp_unique = ''aquaos_equipment_'' @ equipment_id e,
                     dp_object = entityObjectID ''equipment'' (equipment_id e), dp_state_topic = state,
                     dp_command_topic = command, dp_availability = availability,
                     dp_template = ''{{ 'ON' if value_json.data.value.boolean else 'OFF' }}'', dp_on = ''ON'', dp_off = ''OFF'',
                     dp_unit = [], dp_class = [], dp_state_class = [],
                     dp_device = deviceInfo (equipment_device e) (case names (equipment_device e) of None \<Rightarrow> [] | Some n \<Rightarrow> n)\<rparr>\<rparr>))"

definition core_entity ::
  "topic_registry \<Rightarrow> string \<Rightarrow> string \<Rightarrow> string \<Rightarrow> string \<Rightarrow> string \<Rightarrow> string \<Rightarrow> string \<times> string \<times> string \<Rightarrow> ha_entity"
where
  "core_entity r availability site part name suffix template = (\<lambda>(on, off, class).
     \<lparr>ent_component = part, ent_object = ''aquaos-'' @ site @ ''-'' @ suffix, ent_payload =
       \<lparr>dp_name = name, dp_unique = ''aquaos_'' @ site @ ''_'' @ suffix, dp_object = entityObjectID site suffix,
        dp_state_topic = fst (HAStatus r), dp_command_topic = [], dp_availability = availability, dp_template = template,
        dp_on = on, dp_off = off, dp_unit = [], dp_class = class, dp_state_class = [], dp_device = deviceInfo [] ''AquaOS Core''\<rparr>\<rparr>)"

fun ret_map :: "('a \<Rightarrow> 'b ret) \<Rightarrow> 'a list \<Rightarrow> 'b list ret" where
  "ret_map f [] = ok []"
| "ret_map f (x # xs) =
     (case f x of
        (_, Some err) \<Rightarrow> fail err
      | (None, None) \<Rightarrow> fail (ErrorString [])
      | (Some y, None) \<Rightarrow>
          (case ret_map f xs of (_, Some err) \<Rightarrow> fail err | (None, None) \<Rightarrow> fail (ErrorString []) | (Some ys, None) \<Rightarrow> ok (y # ys)))"

section \<open>The manager\<close>

record ha_status =
  hs_status :: string
  hs_active :: nat
  hs_notifications :: nat

datatype ha_message = Discovery discovery_payload | Cleared | StatusMessage "ha_status payload"

record ha_publication =
  hp_topic :: string
  hp_qos :: byte
  hp_retained :: bool
  hp_message :: ha_message

record ha_manager =
  ham_registry :: topic_registry
  ham_codec :: codec
  ham_cfg :: ha_config
  ham_running :: bool
  ham_last_err :: "go_error option"
  ham_published :: "string set"
  ham_allowed :: "string \<rightharpoonup> ident"

text \<open>
  What the manager reads while it publishes: the three inventory lists (\<open>RegistryInventory\<close>), the active alarms (\<open>None\<close> when
  there is no alarm reader), the clock, a generated correlation ID, the size of an encoded envelope, and the transport's
  decision about the \<open>n\<close>-th publication.
\<close>

record ha_env =
  he_devices :: "device list ret"
  he_sensors :: "sensor list ret"
  he_equipment :: "equipment list ret"
  he_alarms :: "alarm list ret option"
  he_now :: gotime
  he_correlation :: "go_error + ident"
  he_size :: "ha_status envelope \<Rightarrow> nat"
  he_publish :: "nat \<Rightarrow> ha_publication \<Rightarrow> go_error option"

type_synonym ha_world = "ha_publication list"

definition NewHomeAssistant :: "ha_config \<Rightarrow> bool \<Rightarrow> go_error + ha_manager" where
  "NewHomeAssistant cfg dependencies =
     (if \<not> dependencies then Inl (ErrorString ''home assistant dependencies are required'')
      else if hc_ttl cfg \<le> 0 \<or> hc_ttl cfg > 60000000000
      then Inl (ErrorString ''home assistant command TTL must be positive and at most one minute'')
      else case NewTopicRegistry (hc_site cfg) of
             Inl err \<Rightarrow> Inl err
           | Inr r \<Rightarrow>
               (case NewCodec (hc_site cfg) (hc_maximum cfg) True of
                  Inl err \<Rightarrow> Inl err
                | Inr c \<Rightarrow>
                    Inr \<lparr>ham_registry = r, ham_codec = c, ham_cfg = cfg, ham_running = False, ham_last_err = None,
                         ham_published = {}, ham_allowed = Map.empty\<rparr>))"

definition device_names :: "device list \<Rightarrow> ident \<rightharpoonup> string" where
  "device_names ds = fold (\<lambda>d m. m(device_id d \<mapsto> device_name d)) ds Map.empty"

definition allowed_switches :: "equipment list \<Rightarrow> string \<rightharpoonup> ident" where
  "allowed_switches es = fold (\<lambda>e m. m(switch_resource (equipment_id e) \<mapsto> equipment_id e)) es Map.empty"

definition core_entities :: "topic_registry \<Rightarrow> string \<Rightarrow> string \<Rightarrow> ha_entity list" where
  "core_entities r availability site =
     [core_entity r availability site ''sensor'' ''AquaOS Core'' ''core'' ''{{ value_json.data.status }}'' ([], [], []),
      core_entity r availability site ''binary_sensor'' ''Active alarm'' ''alarm''
        ''{{ 'ON' if value_json.data.activeAlarmCount > 0 else 'OFF' }}'' (''ON'', ''OFF'', ''problem''),
      core_entity r availability site ''binary_sensor'' ''Notifiable alarm'' ''notification''
        ''{{ 'ON' if value_json.data.notificationAlarmCount > 0 else 'OFF' }}'' (''ON'', ''OFF'', ''problem'')]"

definition entities :: "ha_env \<Rightarrow> ha_manager \<Rightarrow> (ha_entity list \<times> (string \<rightharpoonup> ident)) ret" where
  "entities env m =
     (case (he_devices env, he_sensors env, he_equipment env) of
        ((Some devices, None), (Some sensors, None), (Some switches, None)) \<Rightarrow>
          (case Topic (ham_registry m) PurposeAvailability ''core'' of
             (_, Some err) \<Rightarrow> fail err
           | (None, None) \<Rightarrow> fail (ErrorString [])
           | (Some (availability, _), None) \<Rightarrow>
               (let names = device_names devices
                in case ret_map (sensor_entity (ham_registry m) availability names) sensors of
                     (_, Some err) \<Rightarrow> fail err
                   | (None, None) \<Rightarrow> fail (ErrorString [])
                   | (Some sensed, None) \<Rightarrow>
                       (case ret_map (switch_entity (ham_registry m) availability names) switches of
                          (_, Some err) \<Rightarrow> fail err
                        | (None, None) \<Rightarrow> fail (ErrorString [])
                        | (Some switched, None) \<Rightarrow>
                            ok (sensed @ switched @ core_entities (ham_registry m) availability (hc_site (ham_cfg m)),
                                allowed_switches switches))))
      | ((_, Some err), _, _) \<Rightarrow> fail err
      | (_, (_, Some err), _) \<Rightarrow> fail err
      | (_, _, (_, Some err)) \<Rightarrow> fail err
      | _ \<Rightarrow> fail (ErrorString []))"

definition ha_send :: "ha_env \<Rightarrow> string \<times> policy \<Rightarrow> ha_message \<Rightarrow> ha_world \<Rightarrow> ha_world \<times> go_error option" where
  "ha_send env target message w =
     (let p = \<lparr>hp_topic = fst target, hp_qos = policy_qos (snd target), hp_retained = policy_retained (snd target),
               hp_message = message\<rparr>
      in case he_publish env (length w) p of None \<Rightarrow> (w @ [p], None) | Some err \<Rightarrow> (w, Some err))"

definition entity_key :: "string \<Rightarrow> string \<Rightarrow> string" where
  "entity_key part object = part @ ''/'' @ object"

text \<open>\<open>strings.SplitN(key, "/", 2)\<close>.\<close>

definition split_key :: "string \<Rightarrow> string \<times> string" where
  "split_key key = (takeWhile (\<lambda>c. c \<noteq> CHR ''/'') key, tl (dropWhile (\<lambda>c. c \<noteq> CHR ''/'') key))"

fun publish_entities :: "ha_env \<Rightarrow> topic_registry \<Rightarrow> ha_entity list \<Rightarrow> ha_world \<Rightarrow> ha_world \<times> go_error option" where
  "publish_entities env r [] w = (w, None)"
| "publish_entities env r (e # es) w =
     (case HADiscovery r (ent_component e) (ent_object e) of
        (_, Some err) \<Rightarrow> (w, Some err)
      | (None, None) \<Rightarrow> (w, None)
      | (Some target, None) \<Rightarrow>
          (case ha_send env target (Discovery (ent_payload e)) w of
             (w, Some err) \<Rightarrow> (w, Some (Wrapped ''publish Home Assistant discovery'' err))
           | (w, None) \<Rightarrow> publish_entities env r es w))"

definition ha_clear :: "ha_env \<Rightarrow> topic_registry \<Rightarrow> string \<Rightarrow> string \<Rightarrow> ha_world \<Rightarrow> ha_world \<times> go_error option" where
  "ha_clear env r part object w =
     (case HADiscovery r part object of
        (_, Some err) \<Rightarrow> (w, Some err)
      | (None, None) \<Rightarrow> (w, None)
      | (Some target, None) \<Rightarrow> ha_send env target Cleared w)"

fun clear_removed :: "ha_env \<Rightarrow> topic_registry \<Rightarrow> string set \<Rightarrow> string list \<Rightarrow> ha_world \<Rightarrow> ha_world \<times> go_error option" where
  "clear_removed env r keep [] w = (w, None)"
| "clear_removed env r keep (k # ks) w =
     (if k \<in> keep then clear_removed env r keep ks w
      else case ha_clear env r (fst (split_key k)) (snd (split_key k)) w of
             (w, Some err) \<Rightarrow> (w, Some err)
           | (w, None) \<Rightarrow> clear_removed env r keep ks w)"

fun clear_tombstones ::
  "ha_env \<Rightarrow> topic_registry \<Rightarrow> string set \<Rightarrow> (string \<times> string) list \<Rightarrow> ha_world \<Rightarrow> ha_world \<times> go_error option"
where
  "clear_tombstones env r active [] w = (w, None)"
| "clear_tombstones env r active ((part, object) # ts) w =
     (if entity_key part object \<in> active
      then (w, Some (ErrorString ''home assistant tombstone conflicts with active entity''))
      else case ha_clear env r part object w of
             (w, Some err) \<Rightarrow> (w, Some err)
           | (w, None) \<Rightarrow> clear_tombstones env r active ts w)"

definition status_data :: "ha_env \<Rightarrow> ha_config \<Rightarrow> ha_status ret" where
  "status_data env cfg =
     (case he_alarms env of
        None \<Rightarrow> ok \<lparr>hs_status = ''online'', hs_active = 0, hs_notifications = 0\<rparr>
      | Some (_, Some err) \<Rightarrow> fail err
      | Some (None, None) \<Rightarrow> fail (ErrorString [])
      | Some (Some active, None) \<Rightarrow>
          ok \<lparr>hs_status = ''online'', hs_active = length active,
              hs_notifications = length (filter (\<lambda>a. al_rule a \<in> set (hc_rules cfg)) active)\<rparr>)"

definition publishStatus :: "ha_env \<Rightarrow> ha_manager \<Rightarrow> ha_world \<Rightarrow> ha_world \<times> go_error option" where
  "publishStatus env m w =
     (case status_data env (ham_cfg m) of
        (_, Some err) \<Rightarrow> (w, Some err)
      | (None, None) \<Rightarrow> (w, None)
      | (Some data, None) \<Rightarrow>
          (case he_correlation env of
             Inl err \<Rightarrow> (w, Some err)
           | Inr correlation \<Rightarrow>
               (case Encode (he_size env) (\<lambda>_. True) (he_now env) (ham_codec m) ''ha-status'' ''home-assistant'' correlation
                       (he_now env) None None data of
                  (_, Some err) \<Rightarrow> (w, Some err)
                | (None, None) \<Rightarrow> (w, None)
                | (Some payload, None) \<Rightarrow> ha_send env (HAStatus (ham_registry m)) (StatusMessage payload) w)))"

definition active_keys :: "ha_entity list \<Rightarrow> string set" where
  "active_keys es = (\<lambda>e. entity_key (ent_component e) (ent_object e)) ` set es"

text \<open>\<open>Refresh\<close>; the list is the order in which the runtime ranges over the keys published before.\<close>

definition Refresh :: "ha_env \<Rightarrow> string list \<Rightarrow> ha_manager \<Rightarrow> ha_world \<Rightarrow> (ha_manager \<times> ha_world) \<times> go_error option" where
  "Refresh env previous m w =
     (case entities env m of
        (_, Some err) \<Rightarrow> ((m, w), Some err)
      | (None, None) \<Rightarrow> ((m, w), None)
      | (Some (es, allowed), None) \<Rightarrow>
          (case publish_entities env (ham_registry m) es w of
             (w, Some err) \<Rightarrow> ((m, w), Some err)
           | (w, None) \<Rightarrow>
               (let m' = m\<lparr>ham_published := active_keys es, ham_allowed := allowed, ham_last_err := None\<rparr>
                in case clear_removed env (ham_registry m) (active_keys es) previous w of
                     (w, Some err) \<Rightarrow> ((m', w), Some err)
                   | (w, None) \<Rightarrow>
                       (case clear_tombstones env (ham_registry m) (active_keys es) (hc_tombstones (ham_cfg m)) w of
                          (w, Some err) \<Rightarrow> ((m', w), Some err)
                        | (w, None) \<Rightarrow> (let (w, err) = publishStatus env m' w in ((m', w), err))))))"

definition ham_set_error :: "go_error option \<Rightarrow> ha_manager \<Rightarrow> ha_manager" where
  "ham_set_error err m = (case err of None \<Rightarrow> m | Some e \<Rightarrow> m\<lparr>ham_last_err := Some e\<rparr>)"

definition ham_start ::
  "ha_env \<Rightarrow> (string \<times> byte \<Rightarrow> go_error option) \<Rightarrow> string list \<Rightarrow> ha_manager \<Rightarrow> ha_world \<Rightarrow> (ha_manager \<times> ha_world) \<times> go_error option"
where
  "ham_start env subscribing previous m w =
     (let m = m\<lparr>ham_running := True\<rparr>
      in case SubscriptionFilter (ham_registry m) PurposeHACommand of
           (_, Some err) \<Rightarrow> ((m, w), Some err)
         | (None, None) \<Rightarrow> ((m, w), None)
         | (Some f, None) \<Rightarrow>
             (case subscribing f of
                Some err \<Rightarrow> ((ham_set_error (Some err) m, w), None)
              | None \<Rightarrow> (let ((m, w), err) = Refresh env previous m w in ((ham_set_error err m, w), None))))"

definition ham_stop :: "ha_manager \<Rightarrow> ha_manager" where
  "ham_stop m = m\<lparr>ham_running := False\<rparr>"

definition ham_health :: "(go_error \<Rightarrow> string) \<Rightarrow> gotime \<Rightarrow> ha_manager \<Rightarrow> status" where
  "ham_health describe now m =
     NewStatus ''home-assistant'' (if ham_running m \<and> ham_last_err m = None then StateHealthy else StateUnhealthy)
       (case ham_last_err m of None \<Rightarrow> [] | Some err \<Rightarrow> describe err) now"

definition HandleAlarmEvent :: "ha_env \<Rightarrow> ha_manager \<Rightarrow> ha_world \<Rightarrow> ha_manager \<times> ha_world" where
  "HandleAlarmEvent env m w = (let (w, err) = publishStatus env m w in (ham_set_error err m, w))"

section \<open>Commands\<close>

definition ha_command :: "ha_config \<Rightarrow> gotime \<Rightarrow> ident \<Rightarrow> string \<Rightarrow> ident \<Rightarrow> string \<Rightarrow> 16 word \<Rightarrow> command" where
  "ha_command cfg now correlation resource i raw message =
     \<lparr>cmd_id = [], cmd_key = ''ha/'' @ resource @ ''/'' @ itoa (int (unat message)) @ ''/'' @ to_lower raw,
      cmd_correlation = correlation, cmd_equipment = i, cmd_requester = ''home-assistant'', cmd_issued = now,
      cmd_expires = now + hc_ttl cfg, cmd_expected = None, cmd_on = (raw = ''ON'')\<rparr>"

text \<open>\<open>HandleCommand\<close>: what it submits, or why nothing; and the submission.\<close>

definition translate ::
  "gotime \<Rightarrow> go_error + ident \<Rightarrow> ha_manager \<Rightarrow> string \<Rightarrow> string \<Rightarrow> 16 word \<Rightarrow> go_error + command"
where
  "translate now correlation m topic payload message =
     (case split_on (CHR ''/'') topic of
        [a, site, v, b, resource, s] \<Rightarrow>
          if a \<noteq> ''aquaos'' \<or> site \<noteq> hc_site (ham_cfg m) \<or> v \<noteq> ''v1'' \<or> b \<noteq> ''home-assistant'' \<or> s \<noteq> ''set''
          then Inl (ErrorString ''home assistant command topic is outside the configured namespace'')
          else (case ham_allowed m resource of
                  None \<Rightarrow> Inl (ErrorString ''home assistant command targets unknown equipment'')
                | Some i \<Rightarrow>
                    (let raw = trim_space payload
                     in if raw \<noteq> ''ON'' \<and> raw \<noteq> ''OFF''
                        then Inl (ErrorString ''home assistant command payload must be ON or OFF'')
                        else case correlation of
                               Inl err \<Rightarrow> Inl err
                             | Inr c \<Rightarrow> Inr (ha_command (ham_cfg m) now c resource i raw message)))
      | _ \<Rightarrow> Inl (ErrorString ''home assistant command topic is outside the configured namespace''))"

definition HandleCommand ::
  "deps \<Rightarrow> gotime \<Rightarrow> go_error + ident \<Rightarrow> ha_manager \<Rightarrow> string \<Rightarrow> string \<Rightarrow> 16 word \<Rightarrow> world \<Rightarrow> world \<times> go_error option"
where
  "HandleCommand d now correlation m topic payload message w =
     (case translate now correlation m topic payload message of
        Inl err \<Rightarrow> (w, Some err)
      | Inr c \<Rightarrow> (let (w, r) = Submit d c w in (w, snd r)))"

definition receive ::
  "deps \<Rightarrow> gotime \<Rightarrow> go_error + ident \<Rightarrow> bool \<Rightarrow> string \<Rightarrow> string \<Rightarrow> 16 word \<Rightarrow> ha_manager \<times> world \<Rightarrow> ha_manager \<times> world"
where
  "receive d now correlation retained topic payload message = (\<lambda>(m, w).
     if retained \<or> \<not> ham_running m then (m, w)
     else let (w, err) = HandleCommand d now correlation m topic payload message w in (ham_set_error err m, w))"

section \<open>Invariants\<close>

definition ham_inv :: "ha_manager \<Rightarrow> bool" where
  "ham_inv m \<longleftrightarrow> site_id (ham_registry m) = hc_site (ham_cfg m) \<and> (\<forall>r i. ham_allowed m r = Some i \<longrightarrow> r = switch_resource i)"

text \<open>The managers that exist: constructed, then refreshed, started, stopped, and receiving messages.\<close>

inductive ham_reach :: "ha_manager \<Rightarrow> bool" where
  new: "NewHomeAssistant cfg dependencies = Inr m \<Longrightarrow> ham_reach m"
| refresh: "ham_reach m \<Longrightarrow> ham_reach (fst (fst (Refresh env previous m w)))"
| start: "ham_reach m \<Longrightarrow> ham_reach (fst (fst (ham_start env subscribing previous m w)))"
| stop: "ham_reach m \<Longrightarrow> ham_reach (ham_stop m)"
| alarm: "ham_reach m \<Longrightarrow> ham_reach (fst (HandleAlarmEvent env m w))"
| receive: "ham_reach m \<Longrightarrow> ham_reach (fst (receive d now correlation retained topic payload message (m, v)))"

lemma allowed_switches_key: "allowed_switches es r = Some i \<Longrightarrow> r = switch_resource i \<and> i \<in> equipment_id ` set es"
proof -
  have "fold (\<lambda>e m. m(switch_resource (equipment_id e) \<mapsto> equipment_id e)) es m r = Some i \<Longrightarrow>
      (r = switch_resource i \<and> i \<in> equipment_id ` set es) \<or> m r = Some i" for m
    by (induction es arbitrary: m) (fastforce split: if_splits)+
  from this [of Map.empty] show "allowed_switches es r = Some i \<Longrightarrow> r = switch_resource i \<and> i \<in> equipment_id ` set es"
    by (simp add: allowed_switches_def)
qed

lemma entities_ok:
  assumes "entities env m = (Some (es, allowed), None)"
  obtains switches where "he_equipment env = (Some switches, None)" "allowed = allowed_switches switches"
  using assms by (auto simp: entities_def Let_def split: prod.splits option.splits)

lemma ham_set_error_inv [simp]: "ham_inv (ham_set_error err m) = ham_inv m"
  by (simp add: ham_set_error_def ham_inv_def split: option.splits)

lemma Refresh_manager:
  "fst (fst (Refresh env previous m w)) = m \<or>
   (\<exists>es allowed. entities env m = (Some (es, allowed), None) \<and>
      fst (fst (Refresh env previous m w)) = m\<lparr>ham_published := active_keys es, ham_allowed := allowed, ham_last_err := None\<rparr>)"
  by (auto simp: Refresh_def Let_def split: prod.splits option.splits)

lemma Refresh_inv:
  assumes "ham_inv m"
  shows "ham_inv (fst (fst (Refresh env previous m w)))"
proof -
  consider "fst (fst (Refresh env previous m w)) = m"
    | es allowed where "entities env m = (Some (es, allowed), None)"
        "fst (fst (Refresh env previous m w)) = m\<lparr>ham_published := active_keys es, ham_allowed := allowed, ham_last_err := None\<rparr>"
    using Refresh_manager [of env previous m w] by blast
  then show ?thesis
  proof cases
    case 2
    then obtain switches where "allowed = allowed_switches switches" by (auto elim: entities_ok)
    with 2(2) assms allowed_switches_key show ?thesis by (auto simp: ham_inv_def)
  qed (use assms in simp)
qed

lemma ham_reach_inv: "ham_reach m \<Longrightarrow> ham_inv m"
proof (induction rule: ham_reach.induct)
  case (new cfg dependencies m)
  then show ?case
    by (auto simp: NewHomeAssistant_def NewTopicRegistry_def ham_inv_def split: if_splits sum.splits)
next
  case (refresh m env previous w)
  then show ?case by (simp add: Refresh_inv)
next
  case (start m env subscribing previous w)
  have running: "ham_inv (m\<lparr>ham_running := b\<rparr>) = ham_inv m" for b by (simp add: ham_inv_def)
  from start Refresh_inv [of "m\<lparr>ham_running := True\<rparr>" env previous w] show ?case
    by (auto simp: ham_start_def Let_def running split: prod.splits option.splits)
next
  case (stop m)
  then show ?case by (simp add: ham_stop_def ham_inv_def)
next
  case (alarm m env w)
  then show ?case by (simp add: HandleAlarmEvent_def case_prod_beta Let_def)
next
  case (receive m d now correlation retained topic payload message v)
  then show ?case by (simp add: receive_def case_prod_beta Let_def)
qed

lemma translate_ok:
  assumes "translate now correlation m topic payload message = Inr c" "ham_inv m"
  shows "topic = topic_root (ham_registry m) @ ''/home-assistant/'' @ switch_resource (cmd_equipment c) @ ''/set''"
    "ham_allowed m (switch_resource (cmd_equipment c)) = Some (cmd_equipment c)"
    "trim_space payload = (if cmd_on c then ''ON'' else ''OFF'')" "cmd_requester c = ''home-assistant''"
    "cmd_issued c = now" "cmd_expires c = now + hc_ttl (ham_cfg m)"
    "cmd_key c = ''ha/'' @ switch_resource (cmd_equipment c) @ ''/'' @ itoa (int (unat message)) @ ''/'' @ to_lower (trim_space payload)"
proof -
  obtain resource i cid where parts: "split_on (CHR ''/'') topic = [''aquaos'', hc_site (ham_cfg m), ''v1'', ''home-assistant'', resource, ''set'']"
    and i: "ham_allowed m resource = Some i" and raw: "trim_space payload \<in> {''ON'', ''OFF''}"
    and c: "c = ha_command (ham_cfg m) now cid resource i (trim_space payload) message"
    using assms(1) by (auto simp: translate_def Let_def split: list.splits if_splits option.splits sum.splits)
  have "resource = switch_resource i" "site_id (ham_registry m) = hc_site (ham_cfg m)"
    using assms(2) i by (auto simp: ham_inv_def)
  moreover have "topic = join_with [CHR ''/''] [''aquaos'', hc_site (ham_cfg m), ''v1'', ''home-assistant'', resource, ''set'']"
    using join_split [of "CHR ''/''" topic] unfolding parts by simp
  ultimately show "topic = topic_root (ham_registry m) @ ''/home-assistant/'' @ switch_resource (cmd_equipment c) @ ''/set''"
    "ham_allowed m (switch_resource (cmd_equipment c)) = Some (cmd_equipment c)"
    "trim_space payload = (if cmd_on c then ''ON'' else ''OFF'')" "cmd_requester c = ''home-assistant''"
    "cmd_issued c = now" "cmd_expires c = now + hc_ttl (ham_cfg m)"
    "cmd_key c = ''ha/'' @ switch_resource (cmd_equipment c) @ ''/'' @ itoa (int (unat message)) @ ''/'' @ to_lower (trim_space payload)"
    using i raw c by (auto simp: ha_command_def topic_root_def)
qed

lemma Submit_result: "snd (snd (Submit d c w)) = None \<Longrightarrow> \<exists>r. snd (Submit d c w) = ok r"
proof (cases rule: Submit_cases [of d c w])
  case (known c' answer)
  then show "snd (snd (Submit d c w)) = None \<Longrightarrow> \<exists>r. snd (Submit d c w) = ok r"
    by (auto simp: known_def ok_def fail_def split: option.splits if_splits)
next
  case (refused c' w' st reason etype)
  then show "snd (snd (Submit d c w)) = None \<Longrightarrow> \<exists>r. snd (Submit d c w) = ok r"
    using refuse_result(1) [of c' d st reason etype w'] by (auto simp: ok_def prod_eq_iff)
next
  case (admitted c' w')
  then show "snd (snd (Submit d c w)) = None \<Longrightarrow> \<exists>r. snd (Submit d c w) = ok r"
    using dispatch_result(1) [of c' d w'] by (auto simp: ok_def prod_eq_iff)
qed simp_all

section \<open>What the broker retains\<close>

definition broker_retains :: "ha_world \<Rightarrow> string \<Rightarrow> ha_message option" where
  "broker_retains w topic =
     (case filter (\<lambda>p. hp_retained p \<and> hp_topic p = topic) (rev w) of [] \<Rightarrow> None | p # _ \<Rightarrow> Some (hp_message p))"

definition discovery_topic :: "string \<Rightarrow> string \<Rightarrow> string" where
  "discovery_topic part object = ''homeassistant/'' @ part @ ''/'' @ object @ ''/config''"

abbreviation discoverable :: "string \<Rightarrow> string \<Rightarrow> bool" where
  "discoverable part object \<equiv> haComponentPattern part \<and> topicSegmentPattern object"

definition discovery_publication :: "string \<Rightarrow> string \<Rightarrow> ha_message \<Rightarrow> ha_publication" where
  "discovery_publication part object message =
     \<lparr>hp_topic = discovery_topic part object, hp_qos = 1, hp_retained = True, hp_message = message\<rparr>"

lemma discovery_publication_simps [simp]:
  "hp_topic (discovery_publication p object message) = discovery_topic p object"
  "hp_retained (discovery_publication p object message)" "hp_message (discovery_publication p object message) = message"
  by (simp_all add: discovery_publication_def)

lemma HADiscovery_ok:
  "HADiscovery r part object =
     (if discoverable part object then ok (discovery_topic part object, delivery PurposeHADiscovery True)
      else fail (ErrorString ''component and object ID for Home Assistant must be lowercase kebab-case''))"
  by (simp add: HADiscovery_def discovery_topic_def)

lemma ha_send_ok:
  "ha_send env target message w = (w', None) \<Longrightarrow>
     w' = w @ [\<lparr>hp_topic = fst target, hp_qos = policy_qos (snd target), hp_retained = policy_retained (snd target), hp_message = message\<rparr>]"
  by (auto simp: ha_send_def Let_def split: option.splits)

lemma discovery_send:
  "ha_send env (discovery_topic part object, delivery PurposeHADiscovery True) message w = (w', None) \<Longrightarrow>
     w' = w @ [discovery_publication part object message]"
  by (drule ha_send_ok) (simp add: discovery_publication_def delivery_def)

lemma publish_entities_ok:
  "publish_entities env r es w = (w', None) \<Longrightarrow>
     (\<forall>e \<in> set es. discoverable (ent_component e) (ent_object e)) \<and>
     w' = w @ map (\<lambda>e. discovery_publication (ent_component e) (ent_object e) (Discovery (ent_payload e))) es"
proof (induction es arbitrary: w)
  case (Cons e es)
  then show ?case
    by (fastforce simp: HADiscovery_ok dest: discovery_send split: if_splits prod.splits option.splits)
qed simp

lemma ha_clear_ok:
  "ha_clear env r part object w = (w', None) \<Longrightarrow>
     discoverable part object \<and> w' = w @ [discovery_publication part object Cleared]"
  by (auto simp: ha_clear_def HADiscovery_ok ok_def fail_def dest: discovery_send split: if_splits)

lemma clear_removed_ok:
  "clear_removed env r keep ks w = (w', None) \<Longrightarrow>
     (\<forall>k \<in> set ks - keep. discoverable (fst (split_key k)) (snd (split_key k))) \<and>
     w' = w @ map (\<lambda>k. discovery_publication (fst (split_key k)) (snd (split_key k)) Cleared) (filter (\<lambda>k. k \<notin> keep) ks)"
proof (induction ks arbitrary: w)
  case (Cons k ks)
  then show ?case by (fastforce dest: ha_clear_ok split: if_splits prod.splits option.splits)
qed simp

lemma clear_tombstones_ok:
  "clear_tombstones env r active ts w = (w', None) \<Longrightarrow>
     (\<forall>t \<in> set ts. discoverable (fst t) (snd t) \<and> entity_key (fst t) (snd t) \<notin> active) \<and>
     w' = w @ map (\<lambda>t. discovery_publication (fst t) (snd t) Cleared) ts"
proof (induction ts arbitrary: w)
  case (Cons t ts)
  then show ?case by (cases t) (fastforce dest: ha_clear_ok split: if_splits prod.splits option.splits)
qed simp

lemma publishStatus_ok:
  "publishStatus env m w = (w', None) \<Longrightarrow> w' = w \<or> (\<exists>p. w' = w @ [p] \<and> hp_topic p = fst (HAStatus (ham_registry m)))"
  by (auto simp: publishStatus_def dest: ha_send_ok split: prod.splits option.splits sum.splits)

lemma retained_append:
  "broker_retains (w @ ps) topic =
     (if \<exists>p \<in> set ps. hp_retained p \<and> hp_topic p = topic then broker_retains ps topic else broker_retains w topic)"
proof -
  have "filter (\<lambda>p. hp_retained p \<and> hp_topic p = topic) (rev ps) = [] \<longleftrightarrow> \<not> (\<exists>p \<in> set ps. hp_retained p \<and> hp_topic p = topic)"
    by (auto simp: filter_empty_conv)
  then show ?thesis by (auto simp: broker_retains_def split: list.splits)
qed

lemma retained_all:
  assumes "\<forall>p \<in> set ps. hp_retained p \<and> hp_topic p = topic \<longrightarrow> hp_message p = message"
    and "\<exists>p \<in> set ps. hp_retained p \<and> hp_topic p = topic"
  shows "broker_retains ps topic = Some message"
proof -
  obtain p rest where p: "filter (\<lambda>p. hp_retained p \<and> hp_topic p = topic) (rev ps) = p # rest"
    using assms(2) by (cases "filter (\<lambda>p. hp_retained p \<and> hp_topic p = topic) (rev ps)") (auto simp: filter_empty_conv)
  then have "p \<in> set (filter (\<lambda>p. hp_retained p \<and> hp_topic p = topic) (rev ps))" by simp
  then have "hp_message p = message" using assms(1) by simp
  with p show ?thesis by (simp add: broker_retains_def)
qed

lemma slash_split:
  assumes "CHR ''/'' \<notin> set p" "CHR ''/'' \<notin> set p'" "p @ CHR ''/'' # o1 = p' @ CHR ''/'' # o2"
  shows "p = p' \<and> o1 = o2"
  using assms by (induction p arbitrary: p') (auto simp: Cons_eq_append_conv append_eq_Cons_conv)

lemma component_no_slash: "haComponentPattern p \<Longrightarrow> CHR ''/'' \<notin> set p"
  using segment_char [of "CHR ''_''" p "CHR ''/''"] special_chars by (auto simp: haComponentPattern_def)

lemma discovery_topic_inj:
  assumes "haComponentPattern p" "haComponentPattern p'" "discovery_topic p o1 = discovery_topic p' o2"
  shows "p = p' \<and> o1 = o2"
  using slash_split [OF component_no_slash component_no_slash, of p p' "o1 @ ''/config''" "o2 @ ''/config''"] assms
  by (simp add: discovery_topic_def)

lemma split_key_key: "topicSegmentPattern (snd (split_key k)) \<Longrightarrow> k = entity_key (fst (split_key k)) (snd (split_key k))"
proof -
  assume "topicSegmentPattern (snd (split_key k))"
  then have "dropWhile (\<lambda>c. c \<noteq> CHR ''/'') k \<noteq> []"
    unfolding split_key_def topicSegmentPattern_def snd_conv by (metis list.sel(2) segment_pattern.simps(1))
  then have "dropWhile (\<lambda>c. c \<noteq> CHR ''/'') k = CHR ''/'' # tl (dropWhile (\<lambda>c. c \<noteq> CHR ''/'') k)"
    using hd_dropWhile [of "\<lambda>c. c \<noteq> CHR ''/''" k] by (cases "dropWhile (\<lambda>c. c \<noteq> CHR ''/'') k") auto
  then show "k = entity_key (fst (split_key k)) (snd (split_key k))"
    using takeWhile_dropWhile_id [of "\<lambda>c. c \<noteq> CHR ''/''" k] by (simp add: split_key_def entity_key_def)
qed

lemma status_topic: "fst (HAStatus r) \<noteq> discovery_topic p object"
  by (simp add: HAStatus_def topic_root_def discovery_topic_def)

text \<open>A refresh that succeeds, as the publications it made: discovery, what was removed, tombstones, status.\<close>

lemma Refresh_ok:
  assumes "Refresh env previous m w = ((m', w'), None)" "entities env m = (Some (es, allowed), None)"
  obtains status where
    "w' = w @ map (\<lambda>e. discovery_publication (ent_component e) (ent_object e) (Discovery (ent_payload e))) es @
       (map (\<lambda>k. discovery_publication (fst (split_key k)) (snd (split_key k)) Cleared)
         (filter (\<lambda>k. k \<notin> active_keys es) previous) @
        map (\<lambda>t. discovery_publication (fst t) (snd t) Cleared) (hc_tombstones (ham_cfg m))) @ status"
    "\<forall>p \<in> set status. hp_topic p = fst (HAStatus (ham_registry m))"
    "\<forall>e \<in> set es. discoverable (ent_component e) (ent_object e)"
    "\<forall>k \<in> set previous - active_keys es. discoverable (fst (split_key k)) (snd (split_key k))"
    "\<forall>t \<in> set (hc_tombstones (ham_cfg m)). discoverable (fst t) (snd t) \<and> entity_key (fst t) (snd t) \<notin> active_keys es"
proof -
  let ?m = "m\<lparr>ham_published := active_keys es, ham_allowed := allowed, ham_last_err := None\<rparr>"
  from assms obtain w1 w2 w3 where "publish_entities env (ham_registry m) es w = (w1, None)"
    "clear_removed env (ham_registry m) (active_keys es) previous w1 = (w2, None)"
    "clear_tombstones env (ham_registry m) (active_keys es) (hc_tombstones (ham_cfg m)) w2 = (w3, None)"
    "publishStatus env ?m w3 = (w', None)"
    by (auto simp: Refresh_def Let_def split: prod.splits option.splits)
  note steps = publish_entities_ok [OF this(1)] clear_removed_ok [OF this(2)] clear_tombstones_ok [OF this(3)]
    publishStatus_ok [OF this(4)]
  from steps(4) obtain status where "w' = w3 @ status" "\<forall>p \<in> set status. hp_topic p = fst (HAStatus (ham_registry m))"
    by fastforce
  with steps(1-3) that [of status] show thesis by simp
qed

text \<open>Entities first, then messages that remove other topics, then the status: what remains on each topic.\<close>

lemma retained_cleared:
  assumes "\<exists>p \<in> set cleared. hp_topic p = topic" "\<forall>p \<in> set cleared. hp_retained p \<and> hp_message p = Cleared"
    and "\<forall>p \<in> set status. hp_topic p \<noteq> topic"
  shows "broker_retains (w @ cleared @ status) topic = Some Cleared"
  unfolding retained_append using assms by (auto intro!: retained_all)

lemma retained_middle:
  assumes "broker_retains ps topic = Some x" "\<exists>p \<in> set ps. hp_retained p \<and> hp_topic p = topic"
    and "\<forall>p \<in> set later. hp_topic p \<noteq> topic"
  shows "broker_retains (w @ ps @ later) topic = Some x"
  unfolding retained_append using assms by auto

lemma retained_entity:
  assumes "e \<in> set es" "distinct (map (\<lambda>e. (ent_component e, ent_object e)) es)"
    and "\<forall>e \<in> set es. discoverable (ent_component e) (ent_object e)"
    and "\<forall>p \<in> set later. hp_topic p \<noteq> discovery_topic (ent_component e) (ent_object e)"
  shows "broker_retains (w @ map (\<lambda>e. discovery_publication (ent_component e) (ent_object e) (Discovery (ent_payload e))) es @ later)
    (discovery_topic (ent_component e) (ent_object e)) = Some (Discovery (ent_payload e))"
proof -
  have "e' = e" if "e' \<in> set es" "discovery_topic (ent_component e') (ent_object e') = discovery_topic (ent_component e) (ent_object e)" for e'
    using discovery_topic_inj [OF _ _ that(2)] assms(1-3) that(1) by (auto simp: distinct_map inj_on_def)
  then have "broker_retains (map (\<lambda>e. discovery_publication (ent_component e) (ent_object e) (Discovery (ent_payload e))) es)
      (discovery_topic (ent_component e) (ent_object e)) = Some (Discovery (ent_payload e))"
    by (intro retained_all) (use assms(1) in auto)
  moreover have "\<exists>p \<in> set (map (\<lambda>e. discovery_publication (ent_component e) (ent_object e) (Discovery (ent_payload e))) es).
      hp_retained p \<and> hp_topic p = discovery_topic (ent_component e) (ent_object e)"
    using assms(1) by auto
  ultimately show ?thesis
    using assms(4) by (rule retained_middle)
qed

lemma active_key_topic:
  assumes "e \<in> set es" "discoverable (ent_component e) (ent_object e)" "discoverable p object" "entity_key p object \<notin> active_keys es"
  shows "discovery_topic p object \<noteq> discovery_topic (ent_component e) (ent_object e)"
  using discovery_topic_inj [of p "ent_component e" object "ent_object e"] assms by (auto simp: active_keys_def)

section \<open>Properties\<close>

text \<open>
  C29. A switch request from Home Assistant goes through the command service or has no effect. It is submitted, as one command,
  only when it was not retained, while the integration runs, and when it arrived on the very command topic
  that discovery announced for that equipment; what it asks for is the payload, and it expires after the configured time.
\<close>

theorem switch_request_exact:
  assumes "ham_reach m"
  shows "let w' = snd (receive d now correlation retained topic payload message (m, w))
    in w' = w \<or> (\<exists>c. w' = fst (Submit d c w) \<and> \<not> retained \<and> ham_running m \<and>
      ham_allowed m (switch_resource (cmd_equipment c)) = Some (cmd_equipment c) \<and>
      topic = topic_root (ham_registry m) @ ''/home-assistant/'' @ switch_resource (cmd_equipment c) @ ''/set'' \<and>
      trim_space payload = (if cmd_on c then ''ON'' else ''OFF'') \<and>
      cmd_requester c = ''home-assistant'' \<and> cmd_expires c = now + hc_ttl (ham_cfg m))"
proof (cases "translate now correlation m topic payload message")
  case (Inl err)
  then show ?thesis by (simp add: receive_def HandleCommand_def)
next
  case (Inr c)
  note ok = translate_ok [OF Inr ham_reach_inv [OF assms]]
  show ?thesis
  proof (cases "retained \<or> \<not> ham_running m")
    case False
    then have "snd (receive d now correlation retained topic payload message (m, w)) = fst (Submit d c w)"
      by (simp add: receive_def HandleCommand_def Inr case_prod_beta Let_def)
    with False ok(1-4,6) show ?thesis unfolding Let_def by blast
  qed (simp add: receive_def)
qed

text \<open>
  The idempotency key of a switch request holds the MQTT packet identifier, a 16-bit number that the broker uses again and that
  is zero for every message of quality of service zero. A request that repeats topic, payload and
  identifier of one that was answered without error changes nothing, at whatever later time, in whatever later
  state of the command service, which forgets no key.
\<close>

theorem reused_packet_id_is_lost:
  assumes "ham_reach m" "HandleCommand d now correlation m topic payload message w = (w', None)"
    and "extends (w_service w') (w_service v)"
  shows "fst (HandleCommand d' now' correlation' m topic payload message v) = v"
proof (cases "translate now' correlation' m topic payload message")
  case (Inl err)
  then show ?thesis by (simp add: HandleCommand_def)
next
  case (Inr c')
  note inv = ham_reach_inv [OF assms(1)]
  obtain c r where c: "translate now correlation m topic payload message = Inr c" "Submit d c w = (w', r)" "snd r = None"
    using assms(2) by (cases "translate now correlation m topic payload message") (auto simp: HandleCommand_def split: prod.splits)
  have "switch_resource (cmd_equipment c) = switch_resource (cmd_equipment c')"
    using translate_ok(1) [OF c(1) inv] translate_ok(1) [OF Inr inv] by (metis append_same_eq same_append_eq)
  then have "cmd_key c = cmd_key c'"
    using translate_ok(7) [OF c(1) inv] translate_ok(7) [OF Inr inv] by simp
  moreover have "svc_idempotency (w_service w') (cmd_key c) \<noteq> None"
    using c(2,3) Submit_result [of d c w] Submit_ok_key [of d c w w'] by auto
  ultimately show ?thesis
    using extends_key [OF assms(3), of "cmd_key c"] Submit_known_key [of v c' d'] by (simp add: HandleCommand_def Inr case_prod_beta Let_def)
qed


section \<open>Concrete runs\<close>

definition sample_ha :: ha_manager where
  "sample_ha =
     \<lparr>ham_registry = \<lparr>site_id = ''reef''\<rparr>, ham_codec = sample_codec,
      ham_cfg = \<lparr>hc_site = ''reef'', hc_ttl = 10000000000, hc_maximum = 4096, hc_tombstones = [(''sensor'', ''old'')], hc_rules = []\<rparr>,
      ham_running = False, ham_last_err = None, ham_published = {}, ham_allowed = Map.empty\<rparr>"

definition sample_pump_equipment :: equipment where
  "sample_pump_equipment =
     \<lparr>equipment_id = sample_id 7, equipment_device = sample_id 1, equipment_endpoint = sample_id 1,
      equipment_name = ''Return pump'', equipment_capabilities = [CapabilitySwitch], equipment_metadata = None\<rparr>"

definition sample_ha_env :: ha_env where
  "sample_ha_env =
     \<lparr>he_devices = ok [], he_sensors = ok [], he_equipment = ok [sample_pump_equipment], he_alarms = None, he_now = noon,
      he_correlation = Inr (sample_id 1), he_size = (\<lambda>_. 512), he_publish = (\<lambda>_ _. None)\<rparr>"

lemma sample_ha_new: "ham_reach sample_ha"
proof -
  have "NewHomeAssistant (ham_cfg sample_ha) True = Inr sample_ha"
    by (simp add: NewHomeAssistant_def sample_ha_def NewTopicRegistry_def NewCodec_def topicSegmentPattern_def lower_def)
  then show ?thesis by (rule ham_reach.new)
qed

lemma sample_resource: "topicSegmentPattern (switch_resource (sample_id 7))"
  by (simp add: switch_resource_def sample_id_def topicSegmentPattern_def hex_digit_def lower_def digit_def)

lemma sample_resource_plain: "\<not> contains_any (switch_resource (sample_id 7)) ''+#/''"
  using segment_plain [OF sample_resource] by (auto simp: plain_def contains_any_def list_ex_iff)

lemma sample_entities:
  "\<exists>es. entities sample_ha_env sample_ha = (Some (es, [switch_resource (sample_id 7) \<mapsto> sample_id 7]), None) \<and>
     distinct (map (\<lambda>e. (ent_component e, ent_object e)) es) \<and> list_all (\<lambda>e. discoverable (ent_component e) (ent_object e)) es \<and>
     entity_key ''sensor'' ''old'' \<notin> active_keys es"
  using sample_resource sample_resource_plain
  by (simp add: entities_def sample_ha_env_def sample_ha_def ok_def Topic_def topicSegmentPattern_def [of "''core''"] lower_def
      contains_any_def [of "''core''"] list_ex_iff switch_entity_def sample_pump_equipment_def HACommand_def Let_def
      core_entities_def core_entity_def allowed_switches_def active_keys_def entity_key_def haComponentPattern_def)
    (simp add: topicSegmentPattern_def switch_resource_def lower_def digit_def)

lemma discovery_published:
  assumes "\<And>n p. he_publish env n p = None"
  shows "snd (ha_send env target message w) = None"
  using assms by (simp add: ha_send_def Let_def)

lemma cleared_published:
  assumes "\<And>n p. he_publish env n p = None" "discoverable part object"
  shows "snd (ha_clear env r part object w) = None"
  using assms discovery_published [OF assms(1)] by (simp add: ha_clear_def HADiscovery_ok ok_def)

lemma all_published:
  assumes "\<And>n p. he_publish env n p = None" "list_all (\<lambda>e. discoverable (ent_component e) (ent_object e)) es"
  shows "snd (publish_entities env r es w) = None"
  using assms(2)
proof (induction es arbitrary: w)
  case (Cons e es)
  then show ?case
    using discovery_published [OF assms(1), of "(discovery_topic (ent_component e) (ent_object e), delivery PurposeHADiscovery True)"
        "Discovery (ent_payload e)" w]
    by (auto simp: HADiscovery_ok ok_def split: prod.splits)
qed simp

lemma sample_status: "snd (publishStatus sample_ha_env m w) = None" if "ham_codec m = sample_codec"
  using that validateUUID_length [OF sample_id_valid, of 1]
  by (simp add: publishStatus_def status_data_def sample_ha_env_def Encode_def json_marshal_def json_time_def day_ns_def
      envelope_validate_def wrap_def ha_send_def ok_def Let_def)

lemma sample_refresh:
  "\<exists>m w. Refresh sample_ha_env [] sample_ha [] = ((m, w), None) \<and> ham_allowed m = [switch_resource (sample_id 7) \<mapsto> sample_id 7] \<and>
     ham_registry m = ham_registry sample_ha \<and> ham_cfg m = ham_cfg sample_ha"
proof -
  obtain es where es: "entities sample_ha_env sample_ha = (Some (es, [switch_resource (sample_id 7) \<mapsto> sample_id 7]), None)"
    "list_all (\<lambda>e. discoverable (ent_component e) (ent_object e)) es" "entity_key ''sensor'' ''old'' \<notin> active_keys es"
    using sample_entities by blast
  have pub: "\<And>n p. he_publish sample_ha_env n p = None" by (simp add: sample_ha_env_def)
  obtain w1 where w1: "publish_entities sample_ha_env (ham_registry sample_ha) es [] = (w1, None)"
    using all_published [OF pub es(2)] by (metis prod.collapse)
  have "discoverable ''sensor'' ''old''"
    by (simp add: haComponentPattern_def topicSegmentPattern_def lower_def)
  then obtain w2 where w2: "ha_clear sample_ha_env (ham_registry sample_ha) ''sensor'' ''old'' w1 = (w2, None)"
    using cleared_published [OF pub] by (metis prod.collapse)
  let ?m = "sample_ha\<lparr>ham_published := active_keys es, ham_allowed := [switch_resource (sample_id 7) \<mapsto> sample_id 7], ham_last_err := None\<rparr>"
  have "ham_codec ?m = sample_codec" by (simp add: sample_ha_def)
  from sample_status [OF this] obtain w3 where "publishStatus sample_ha_env ?m w2 = (w3, None)"
    by (metis prod.collapse)
  then show ?thesis
    using es(1,3) w1 w2 by (simp add: Refresh_def Let_def) (simp add: sample_ha_def)
qed


lemma sample_started: "\<exists>m. ham_reach m \<and> ham_running m \<and> ham_allowed m = [switch_resource (sample_id 7) \<mapsto> sample_id 7] \<and>
    ham_registry m = ham_registry sample_ha \<and> ham_cfg m = ham_cfg sample_ha"
proof -
  obtain m w where m: "Refresh sample_ha_env [] sample_ha [] = ((m, w), None)"
    "ham_allowed m = [switch_resource (sample_id 7) \<mapsto> sample_id 7]"
    "ham_registry m = ham_registry sample_ha" "ham_cfg m = ham_cfg sample_ha" using sample_refresh by blast
  have "ham_reach (fst (fst (ham_start sample_ha_env (\<lambda>_. Some (ErrorString [])) [] m w)))"
    using ham_reach.start [OF ham_reach.refresh [OF sample_ha_new, of sample_ha_env "[]" "[]"]] m(1) by simp
  then show ?thesis
    using m(2-4) by (intro exI [of _ "fst (fst (ham_start sample_ha_env (\<lambda>_. Some (ErrorString [])) [] m w))"])
      (simp add: ham_start_def SubscriptionFilter_def ham_set_error_def ok_def Let_def)
qed

definition sample_switch_topic :: string where
  "sample_switch_topic = ''aquaos/reef/v1/home-assistant/'' @ switch_resource (sample_id 7) @ ''/set''"

lemma sample_split: "split_on (CHR ''/'') sample_switch_topic =
    [''aquaos'', ''reef'', ''v1'', ''home-assistant'', switch_resource (sample_id 7), ''set'']"
proof -
  have "hex_digit (7 mod 16) = CHR ''7''" by code_simp
  then show ?thesis by (simp add: sample_switch_topic_def switch_resource_def sample_id_def)
qed

lemma sample_translate:
  assumes "ham_allowed m = [switch_resource (sample_id 7) \<mapsto> sample_id 7]" "ham_cfg m = ham_cfg sample_ha"
  shows "translate noon (Inr (sample_id 1)) m sample_switch_topic ''ON'' 0 =
    Inr (ha_command (ham_cfg sample_ha) noon (sample_id 1) (switch_resource (sample_id 7)) (sample_id 7) ''ON'' 0)"
proof -
  have "plain_text ''ON''" by (simp add: plain_text_def)
  from trim_plain [OF this] assms show ?thesis
    by (simp add: translate_def sample_split Let_def) (simp add: sample_ha_def)
qed

lemma ha_command_fields [simp]:
  "cmd_id (ha_command cfg now c r i raw n) = []" "cmd_correlation (ha_command cfg now c r i raw n) = c"
  "(ha_command cfg now c r i raw n)\<lparr>cmd_id := x, cmd_correlation := c\<rparr> = (ha_command cfg now c r i raw n)\<lparr>cmd_id := x\<rparr>"
  by (simp_all add: ha_command_def)

lemma sample_ha_submit:
  fixes c :: command
  defines "c \<equiv> ha_command (ham_cfg sample_ha) noon (sample_id 1) (switch_resource (sample_id 7)) (sample_id 7) ''ON'' 0"
  shows "snd (snd (Submit sample_deps c sample_world)) = None \<and> length (w_sent (fst (Submit sample_deps c sample_world))) = 1"
proof -
  let ?c = "ha_command (ham_cfg sample_ha) noon (sample_id 1) (switch_resource (sample_id 7)) (sample_id 7) ''ON'' 0"
  let ?c' = "?c\<lparr>cmd_id := sample_id 2\<rparr>"
  have "length (cmd_key ?c) \<le> 128" "cmd_key ?c \<noteq> []"
    by (simp_all add: ha_command_def switch_resource_def sample_id_def itoa_def decimal.simps)
  then have "validateCommand ?c' = None"
    by (simp add: validateCommand_None) (simp add: ha_command_def sample_ha_def)
  then have prepare: "prepare (d_env sample_deps) ?c = Inr ?c'"
    by (simp add: prepare_def assign_id_def sample_deps_def Let_def del: One_nat_def)
  have intent: "command_intent ?c' = command_intent sample_command"
    by (simp add: command_intent_def ha_command_def sample_command_def)
  let ?w = "sample_world\<lparr>w_policy := fst (Evaluate (d_env sample_deps) (d_reader sample_deps) (command_intent ?c') sample_engine)\<rparr>"
  have "known ?c' (w_service sample_world) = None" by (simp add: known_def NewService_def)
  moreover have "env_now (d_env sample_deps) < cmd_expires ?c'" by (simp add: ha_command_def sample_ha_def)
  moreover have "revision_check sample_deps ?c' = Inr True" by (simp add: revision_check_def ha_command_def)
  moreover have "granted (snd (Evaluate (d_env sample_deps) (d_reader sample_deps) (command_intent ?c') (w_policy sample_world)))"
    unfolding intent using sample_evaluated by simp
  ultimately have "Submit sample_deps ?c sample_world = dispatch sample_deps ?c' ?w"
    using Submit_granted [OF prepare] by simp
  moreover have "snd (snd (dispatch sample_deps ?c' ?w)) = None \<and> length (w_sent (fst (dispatch sample_deps ?c' ?w))) = 1"
    by (simp add: dispatch_def record_result_def transition_def conclude_def sample_unpublished Let_def ok_def)
  ultimately show ?thesis unfolding c_def by simp
qed

theorem switch_request_exact_witness:
  "\<exists>m. ham_reach m \<and> length (w_sent (snd (receive sample_deps noon (Inr (sample_id 1)) False sample_switch_topic ''ON'' 0 (m, sample_world)))) = 1 \<and>
     (\<exists>c :: command. cmd_on c \<and> ham_allowed m (switch_resource (cmd_equipment c)) = Some (cmd_equipment c))"
proof -
  obtain m where m: "ham_reach m" "ham_running m" "ham_allowed m = [switch_resource (sample_id 7) \<mapsto> sample_id 7]"
    "ham_cfg m = ham_cfg sample_ha"
    using sample_started by blast
  have one: "length (w_sent (snd (receive sample_deps noon (Inr (sample_id 1)) False sample_switch_topic ''ON'' 0 (m, sample_world)))) = 1"
    using sample_ha_submit sample_translate [OF m(3,4)] m(2) by (auto simp: receive_def HandleCommand_def case_prod_beta Let_def)
  then have "snd (receive sample_deps noon (Inr (sample_id 1)) False sample_switch_topic ''ON'' 0 (m, sample_world)) \<noteq> sample_world"
    by auto
  moreover have "trim_space ''ON'' \<noteq> ''OFF''"
    using trim_plain [of "''ON''"] by (simp add: plain_text_def)
  ultimately have "\<exists>c :: command. cmd_on c \<and> ham_allowed m (switch_resource (cmd_equipment c)) = Some (cmd_equipment c)"
    using switch_request_exact [OF m(1), of sample_deps noon "Inr (sample_id 1)" False sample_switch_topic "''ON''" 0 sample_world]
    by (auto simp: Let_def split: if_splits)
  with m(1) one show ?thesis by blast
qed

theorem reused_packet_id_is_lost_witness:
  "\<exists>m w. ham_reach m \<and> HandleCommand sample_deps noon (Inr (sample_id 1)) m sample_switch_topic ''ON'' 0 sample_world = (w, None) \<and>
     length (w_sent w) = 1 \<and>
     fst (HandleCommand sample_deps (noon + 3600000000000) (Inr (sample_id 1)) m sample_switch_topic ''ON'' 0 w) = w"
proof -
  obtain m where m: "ham_reach m" "ham_allowed m = [switch_resource (sample_id 7) \<mapsto> sample_id 7]" "ham_cfg m = ham_cfg sample_ha"
    using sample_started by blast
  obtain w where w: "HandleCommand sample_deps noon (Inr (sample_id 1)) m sample_switch_topic ''ON'' 0 sample_world = (w, None)"
    "length (w_sent w) = 1"
    using sample_ha_submit sample_translate [OF m(2,3)] by (auto simp: HandleCommand_def case_prod_beta Let_def)
  from reused_packet_id_is_lost [OF m(1) w(1) extends_refl] m(1) w show ?thesis by blast
qed

end
