(* ===== verification/GoRound.thy ===== *)
theory GoRound
  imports GoFloat
begin

text \<open>
  What rounding to \<open>float64\<close> does: integers up to \<open>2 ^ 53\<close> are kept, and other numbers move by at most
  half a unit in the last place.
\<close>

lemma two_powi_powi: "two_powi e = 2 powi e"
  by (simp add: two_powi_def power_int_def field_simps)

lemma two_powi_pos [simp]: "0 < two_powi e"
  by (simp add: two_powi_powi)

lemma two_powi_nat: "0 \<le> e \<Longrightarrow> (of_int (2 ^ nat e) :: rat) = 2 powi e"
  by (simp add: power_int_def)

lemma bin_exponent_bounds:
  assumes "0 < x"
  shows "two_powi (bin_exponent x) \<le> x" "x < 2 * two_powi (bin_exponent x)"
proof -
  obtain a b where q: "quotient_of x = (a, b)" by fastforce
  then have b: "0 < b" and x: "x = of_int a / of_int b" using quotient_of_denom_pos quotient_of_div by auto
  with assms have a: "0 < a" by (simp add: zero_less_divide_iff)
  have "1 \<le> bitlen n" if "0 < n" for n
    using bitlen_bounds [OF that] bitlen_nonneg [of n] that by (cases "bitlen n = 0") auto
  with a b have la: "1 \<le> bitlen a" and lb: "1 \<le> bitlen b" by simp_all
  have "(2 :: rat) powi (bitlen a - 1) \<le> of_int a" "of_int a < (2 :: rat) powi bitlen a"
    using bitlen_bounds [OF a] la by (metis two_powi_nat of_int_le_iff diff_ge_0_iff_ge)
      (metis bitlen_bounds [OF a] two_powi_nat of_int_less_iff bitlen_nonneg)
  moreover have "(2 :: rat) powi (bitlen b - 1) \<le> of_int b" "of_int b < (2 :: rat) powi bitlen b"
    using bitlen_bounds [OF b] lb by (metis two_powi_nat of_int_le_iff diff_ge_0_iff_ge)
      (metis bitlen_bounds [OF b] two_powi_nat of_int_less_iff bitlen_nonneg)
  ultimately have "x < 2 powi bitlen a / 2 powi (bitlen b - 1)" "2 powi (bitlen a - 1) / 2 powi bitlen b \<le> x"
    unfolding x using a b by (auto intro!: frac_less frac_le simp: less_imp_le)
  then have up: "x < 2 powi (bitlen a - bitlen b + 1)" and low: "2 powi (bitlen a - bitlen b - 1) \<le> x"
    by (simp_all add: power_int_diff [symmetric] algebra_simps)
  have e: "bin_exponent x =
      (if two_powi (bitlen a - bitlen b) \<le> x then bitlen a - bitlen b else bitlen a - bitlen b - 1)"
    by (simp add: bin_exponent_def q)
  show "two_powi (bin_exponent x) \<le> x" using low by (simp add: e two_powi_powi)
  have "(2 :: rat) powi (i + 1) = 2 * 2 powi i" for i by (simp add: power_int_add)
  with up show "x < 2 * two_powi (bin_exponent x)"
    by (simp add: e two_powi_powi power_int_diff)
qed

lemma round_half_even_near: "\<bar>of_int (round_half_even y) - y\<bar> \<le> 1 / 2"
proof -
  obtain n where n: "\<lfloor>y\<rfloor> = n" "of_int n \<le> y" "y < of_int (n + 1)"
    using floor_correct [of y] by blast
  then show ?thesis unfolding round_half_even_def Let_def n(1) by (auto simp: abs_le_iff)
qed

lemma round_half_even_int [simp]: "round_half_even (of_int n) = n"
  by (simp add: round_half_even_def)

lemma bin_exponent_less:
  assumes "0 < x" "x < 2 powi k"
  shows "bin_exponent x < k"
proof (rule ccontr)
  assume "\<not> bin_exponent x < k"
  then have "(2 :: rat) powi k \<le> 2 powi bin_exponent x" by (intro power_int_increasing) auto
  with bin_exponent_bounds(1) [OF assms(1)] assms(2) show False by (simp add: two_powi_powi)
qed

text \<open>The rounding error of a number below a power of two.\<close>

lemma f64_round_near:
  assumes "\<bar>x\<bar> < 2 powi k" "-1000 \<le> k" "k \<le> 1000"
  shows "\<exists>v. f64_round x = Finite v \<and> \<bar>v - x\<bar> \<le> 2 powi (k - 54)"
proof (cases "x = 0")
  case False
  define ulp :: rat where "ulp = 2 powi max (bin_exponent \<bar>x\<bar> - 52) (- 1074)"
  define v where "v = of_int (round_half_even (x / ulp)) * ulp"
  have "bin_exponent \<bar>x\<bar> < k" using bin_exponent_less [of "\<bar>x\<bar>" k] False assms(1) by simp
  then have "ulp \<le> 2 powi (k - 53)" unfolding ulp_def using assms(2) by (intro power_int_increasing) auto
  moreover have "(2 :: rat) powi (k - 53) = 2 * 2 powi (k - 54)"
    using power_int_add [of "2 :: rat" "k - 54" 1] by simp
  moreover have pos: "0 < ulp" by (simp add: ulp_def)
  moreover have "\<bar>v - x\<bar> \<le> ulp / 2"
  proof -
    have "v - x = (of_int (round_half_even (x / ulp)) - x / ulp) * ulp" using pos by (simp add: v_def field_simps)
    then have "\<bar>v - x\<bar> = \<bar>of_int (round_half_even (x / ulp)) - x / ulp\<bar> * ulp" using pos by (simp add: abs_mult)
    also have "\<dots> \<le> 1 / 2 * ulp" by (intro mult_right_mono round_half_even_near) (use pos in auto)
    finally show ?thesis by simp
  qed
  ultimately have near: "\<bar>v - x\<bar> \<le> 2 powi (k - 54)" by linarith
  have "(2 :: rat) powi (k - 54) \<le> 2 powi k" by (intro power_int_increasing) auto
  then have "\<bar>v\<bar> < 2 * 2 powi k" using near assms(1) by linarith
  also have "\<dots> \<le> 2 * 2 powi 1000" using assms(3) by (intro mult_left_mono power_int_increasing) auto
  also have "\<dots> < 2 ^ 1024" by simp
  finally have "\<bar>v\<bar> < 2 ^ 1024" .
  then have "f64_round x = Finite v"
    using False by (simp add: f64_round_def two_powi_powi Let_def flip: ulp_def v_def)
  with near show ?thesis by blast
qed (simp add: f64_round_def)

lemma f64_round_int:
  assumes "\<bar>n\<bar> < 2 ^ 53"
  shows "f64_round (of_int n) = Finite (of_int n)"
proof (cases "n = 0")
  case False
  let ?x = "of_int n :: rat"
  have "\<bar>?x\<bar> < 2 powi 53" using assms by (simp flip: of_int_abs)
  then have e: "bin_exponent \<bar>?x\<bar> < 53" using bin_exponent_less [of "\<bar>?x\<bar>" 53] False by simp
  have "(1 :: rat) \<le> \<bar>?x\<bar>" using False by (simp flip: of_int_abs)
  then have "\<not> \<bar>?x\<bar> < 2 powi 0" by simp
  then have "0 \<le> bin_exponent \<bar>?x\<bar>"
    using bin_exponent_bounds(2) [of "\<bar>?x\<bar>"] False power_int_increasing [of "bin_exponent \<bar>?x\<bar> + 1" 0 "2 :: rat"]
      power_int_add [of "2 :: rat" "bin_exponent \<bar>?x\<bar>" 1]
    by (fastforce simp: two_powi_powi)
  then have ulp: "two_powi (max (bin_exponent \<bar>?x\<bar> - 52) (- 1074)) = 1 / 2 ^ nat (52 - bin_exponent \<bar>?x\<bar>)"
    using e by (auto simp: two_powi_def max_def)
  have "?x / (1 / 2 ^ nat (52 - bin_exponent \<bar>?x\<bar>)) = of_int (n * 2 ^ nat (52 - bin_exponent \<bar>?x\<bar>))" by simp
  then have "round_half_even (?x / (1 / 2 ^ nat (52 - bin_exponent \<bar>?x\<bar>))) = n * 2 ^ nat (52 - bin_exponent \<bar>?x\<bar>)"
    by (simp only: round_half_even_int)
  moreover have "\<bar>?x\<bar> < 2 ^ 1024"
    using \<open>\<bar>?x\<bar> < 2 powi 53\<close> by (rule less_trans) (simp add: power_int_def)
  ultimately show ?thesis using False by (simp add: f64_round_def ulp Let_def)
qed (simp add: f64_round_def)

end
