(* ===== verification/MqttClient.thy ===== *)
theory MqttClient
  imports HomeAssistant ConfigSpec Lifecycle GoRound
begin

text \<open>
  The package \<open>internal/mqtt\<close>, the broker client (\<open>client.go\<close>): publication with its checks,
  subscriptions, the bounded offline queue, connection with restoration of subscriptions and retained
  state, and the delays of the reconnect loop.

  The broker library is the record \<open>broker\<close> of the calls of the interface \<open>brokerClient\<close> over a state of
  its own. A call returns a token; the token says at which poll it is complete, and what happens between
  the polls. The reconciliation hook is an argument where it is called.
\<close>

section \<open>Topics the client accepts\<close>

definition containsWildcard :: "string \<Rightarrow> bool" where
  "containsWildcard value \<longleftrightarrow> list_ex (\<lambda>c. c = CHR ''#'' \<or> c = CHR ''+'') value"

text \<open>\<open>splitTopic\<close>: the loop over the characters with the part that began at \<open>start\<close>.\<close>

fun split_topic_from :: "string \<Rightarrow> string \<Rightarrow> string list" where
  "split_topic_from part [] = [part]"
| "split_topic_from part (c # cs) =
     (if c = CHR ''/'' then part # split_topic_from [] cs else split_topic_from (part @ [c]) cs)"

definition splitTopic :: "string \<Rightarrow> string list" where
  "splitTopic topic = split_topic_from [] topic"

definition containsSegment :: "string \<Rightarrow> string \<Rightarrow> bool" where
  "containsSegment topic segment \<longleftrightarrow> list_ex (\<lambda>part. part = segment) (splitTopic topic)"

definition validatePublication :: "string \<Rightarrow> byte \<Rightarrow> bool \<Rightarrow> go_error option" where
  "validatePublication topic qos retained = first_error [
     guard (topic = [] \<or> containsWildcard topic) (ErrorString ''invalid MQTT publication topic''),
     guard (qos > 1) (ErrorString ''unsupported MQTT QoS''),
     guard (retained \<and> (containsSegment topic ''commands'' \<or> containsSegment topic ''events''))
       (ErrorString ''commands and events must never be retained'')]"

definition validSubscription :: "topic_registry \<Rightarrow> string \<Rightarrow> bool" where
  "validSubscription r topic =
     (if topic = [] \<or> containsSegment topic ''#'' \<or> topic = ''#'' then False
      else if \<not> containsWildcard topic then True
      else case (SubscriptionFilter r PurposeCommandRequest, SubscriptionFilter r PurposeAIObservation) of
        ((command, commandErr), (ai, aiErr)) \<Rightarrow>
          commandErr = None \<and> Some topic = map_option fst command \<or> aiErr = None \<and> Some topic = map_option fst ai)"

section \<open>Tokens\<close>

datatype wait_event = ContextDone go_error | Ticked

text \<open>
  \<open>waitToken\<close>: the token is polled, and between two polls the context ends, the ticker fires or, at the
  end of the list, the deadline passes.
\<close>

fun waitToken :: "(nat \<Rightarrow> bool) \<Rightarrow> go_error option \<Rightarrow> nat \<Rightarrow> wait_event list \<Rightarrow> go_error option" where
  "waitToken finished err n [] = (if finished n then err else Some DeadlineExceeded)"
| "waitToken finished err n (e # es) =
     (if finished n then err
      else case e of ContextDone failure \<Rightarrow> Some failure | Ticked \<Rightarrow> waitToken finished err (Suc n) es)"

record token =
  tok_complete :: "nat \<Rightarrow> bool"
  tok_error :: "go_error option"
  tok_events :: "wait_event list"

definition wait_for :: "token \<Rightarrow> go_error option" where
  "wait_for t = waitToken (tok_complete t) (tok_error t) 0 (tok_events t)"

section \<open>The client\<close>

text \<open>The data of the messages that pass through: an availability, or the text of another one.\<close>

datatype wire_data = Availability string | OtherData string

type_synonym wire = "wire_data MqttCodec.payload"

record publication_request =
  pr_topic :: string
  pr_qos :: byte
  pr_retained :: bool
  pr_payload :: wire
  pr_expires :: "gotime option"

record 'b broker =
  br_connected :: "'b \<Rightarrow> bool"
  br_connect :: "'b \<Rightarrow> token \<times> 'b"
  br_disconnect :: "64 word \<Rightarrow> 'b \<Rightarrow> 'b"
  br_publish :: "string \<Rightarrow> byte \<Rightarrow> bool \<Rightarrow> wire \<Rightarrow> 'b \<Rightarrow> token \<times> 'b"
  br_subscribe :: "string \<Rightarrow> byte \<Rightarrow> 'b \<Rightarrow> token \<times> 'b"

record mqtt_client =
  mc_cfg :: mqtt_config
  mc_registry :: topic_registry
  mc_codec :: codec
  mc_error :: "go_error option"
  mc_subscriptions :: "string \<rightharpoonup> byte"
  mc_queue :: "publication_request list"
  mc_reconciler :: bool
  mc_running :: bool
  mc_reconnect :: bool
  mc_connects :: "64 word"
  mc_reconnects :: "64 word"
  mc_published :: "64 word"
  mc_received :: "64 word"
  mc_dropped_expired :: "64 word"
  mc_queue_rejected :: "64 word"

text \<open>What a call reads from its surroundings: the clock, a correlation identifier, the size of an encoding.\<close>

record client_env =
  ce_now :: gotime
  ce_correlation :: "go_error + ident"
  ce_size :: "wire_data envelope \<Rightarrow> nat"

definition ErrDisconnected :: go_error where
  "ErrDisconnected = Sentinel ''mqtt.ErrDisconnected''"

definition ErrQueueFull :: go_error where
  "ErrQueueFull = Sentinel ''mqtt.ErrQueueFull''"

definition availabilityPayload :: "client_env \<Rightarrow> codec \<Rightarrow> string \<Rightarrow> wire ret" where
  "availabilityPayload env c status =
     (case ce_correlation env of
        Inl err \<Rightarrow> fail (Wrapped ''create MQTT availability correlation ID'' err)
      | Inr correlation \<Rightarrow>
          Encode (ce_size env) (\<lambda>_. True) (ce_now env) c (''availability-'' @ itoa (unix_nano (ce_now env)))
            ''aquaos-core'' correlation (ce_now env) None None (Availability status))"

definition newClient :: "mqtt_config \<Rightarrow> topic_registry \<Rightarrow> codec \<Rightarrow> mqtt_client" where
  "newClient cfg r c =
     \<lparr>mc_cfg = cfg, mc_registry = r, mc_codec = c, mc_error = None, mc_subscriptions = Map.empty, mc_queue = [],
      mc_reconciler = False, mc_running = False, mc_reconnect = False, mc_connects = 0, mc_reconnects = 0,
      mc_published = 0, mc_received = 0, mc_dropped_expired = 0, mc_queue_rejected = 0\<rparr>"

text \<open>\<open>New\<close> returns the client and the last will it registers with the broker library.\<close>

definition NewMqttClient :: "client_env \<Rightarrow> mqtt_config \<Rightarrow> bool \<Rightarrow> go_error + mqtt_client \<times> publication_request" where
  "NewMqttClient env cfg logger =
     (if \<not> logger then Inl (ErrorString ''MQTT logger is required'')
      else case NewTopicRegistry (mq_site cfg) of
        Inl err \<Rightarrow> Inl err
      | Inr r \<Rightarrow>
          (case NewCodec (mq_site cfg) (mq_max_payload cfg) True of
             Inl err \<Rightarrow> Inl err
           | Inr c \<Rightarrow>
               (case (Topic r PurposeAvailability ''core'', availabilityPayload env c ''offline'') of
                  (_, _, Some err) \<Rightarrow> Inl err
                | ((Some (topic, policy), _), Some lwt, None) \<Rightarrow>
                    Inr (newClient cfg r c, \<lparr>pr_topic = topic, pr_qos = policy_qos policy,
                      pr_retained = policy_retained policy, pr_payload = lwt, pr_expires = None\<rparr>)
                | _ \<Rightarrow> Inl (ErrorString []))))"



section \<open>Publishing and subscribing\<close>

definition mc_Publish ::
  "'b broker \<Rightarrow> string \<Rightarrow> byte \<Rightarrow> bool \<Rightarrow> wire \<Rightarrow> mqtt_client \<times> 'b \<Rightarrow> (mqtt_client \<times> 'b) \<times> go_error option"
where
  "mc_Publish br topic qos retained p = (\<lambda>(c, b).
     case validatePublication topic qos retained of
       Some err \<Rightarrow> ((c, b), Some err)
     | None \<Rightarrow>
         if \<not> br_connected br b then ((c, b), Some ErrDisconnected)
         else let (t, b) = br_publish br topic qos retained p b
         in case wait_for t of
              Some err \<Rightarrow> ((c, b), Some err)
            | None \<Rightarrow> ((c\<lparr>mc_published := mc_published c + 1\<rparr>, b), None))"

definition expired :: "gotime \<Rightarrow> publication_request \<Rightarrow> bool" where
  "expired now p \<longleftrightarrow> (case pr_expires p of None \<Rightarrow> False | Some t \<Rightarrow> \<not> now < t)"

definition publication_error :: "go_error option \<Rightarrow> publication_request \<Rightarrow> mqtt_client \<Rightarrow> go_error option" where
  "publication_error ctx p c = first_error [ctx, validatePublication (pr_topic p) (pr_qos p) (pr_retained p),
     guard (int (pay_size (pr_payload p)) > mq_max_payload (mc_cfg c)) ErrOversizedPayload]"

definition PublishPublication ::
  "'b broker \<Rightarrow> go_error option \<Rightarrow> gotime \<Rightarrow> publication_request \<Rightarrow> mqtt_client \<times> 'b \<Rightarrow>
   (mqtt_client \<times> 'b) \<times> go_error option"
where
  "PublishPublication br ctx now p = (\<lambda>(c, b).
     case publication_error ctx p c of
       Some err \<Rightarrow> ((c, b), Some err)
     | None \<Rightarrow>
         if expired now p
         then ((c\<lparr>mc_dropped_expired := mc_dropped_expired c + 1\<rparr>, b), Some ErrExpiredMessage)
         else if br_connected br b
         then mc_Publish br (pr_topic p) (pr_qos p) (pr_retained p) (pr_payload p) (c, b)
         else if int (length (mc_queue c)) \<ge> mq_queue (mc_cfg c)
         then ((c\<lparr>mc_queue_rejected := mc_queue_rejected c + 1\<rparr>, b), Some ErrQueueFull)
         else ((c\<lparr>mc_queue := mc_queue c @ [p]\<rparr>, b), None))"

definition mc_Subscribe ::
  "'b broker \<Rightarrow> go_error option \<Rightarrow> string \<Rightarrow> byte \<Rightarrow> bool \<Rightarrow> mqtt_client \<times> 'b \<Rightarrow> (mqtt_client \<times> 'b) \<times> go_error option"
where
  "mc_Subscribe br ctx topic qos handler = (\<lambda>(c, b).
     case ctx of
       Some err \<Rightarrow> ((c, b), Some err)
     | None \<Rightarrow>
         if \<not> validSubscription (mc_registry c) topic \<or> qos > 1 \<or> \<not> handler
         then ((c, b), Some (ErrorString ''invalid MQTT subscription''))
         else let c = c\<lparr>mc_subscriptions := (mc_subscriptions c)(topic \<mapsto> qos)\<rparr>
         in if \<not> br_connected br b then ((c, b), None)
            else let (t, b) = br_subscribe br topic qos b in ((c, b), wait_for t))"

text \<open>The wrapper that \<open>Subscribe\<close> puts around every handler counts the message.\<close>

definition mc_receive :: "mqtt_client \<Rightarrow> mqtt_client" where
  "mc_receive c = c\<lparr>mc_received := mc_received c + 1\<rparr>"

definition SetReconciler :: "mqtt_client \<Rightarrow> mqtt_client" where
  "SetReconciler c = c\<lparr>mc_reconciler := True\<rparr>"

definition mc_setError :: "go_error option \<Rightarrow> mqtt_client \<Rightarrow> mqtt_client" where
  "mc_setError err c = c\<lparr>mc_error := err\<rparr>"

definition signalReconnect :: "mqtt_client \<Rightarrow> mqtt_client" where
  "signalReconnect c = c\<lparr>mc_reconnect := True\<rparr>"

definition connection_lost :: "go_error \<Rightarrow> mqtt_client \<Rightarrow> mqtt_client" where
  "connection_lost err c = signalReconnect (mc_setError (Some err) c)"

record transport_metrics =
  tm_connects :: "64 word"
  tm_reconnects :: "64 word"
  tm_published :: "64 word"
  tm_received :: "64 word"
  tm_decode_errors :: "64 word"
  tm_dropped_expired :: "64 word"
  tm_queue_rejected :: "64 word"

definition mc_Metrics :: "mqtt_client \<Rightarrow> transport_metrics" where
  "mc_Metrics c =
     \<lparr>tm_connects = mc_connects c, tm_reconnects = mc_reconnects c, tm_published = mc_published c,
      tm_received = mc_received c,
      tm_decode_errors = codec_malformed (mc_codec c) + codec_oversized (mc_codec c) + codec_unknown (mc_codec c) +
        codec_expired (mc_codec c),
      tm_dropped_expired = mc_dropped_expired c, tm_queue_rejected = mc_queue_rejected c\<rparr>"

section \<open>Connecting\<close>

definition publishAvailability ::
  "'b broker \<Rightarrow> client_env \<Rightarrow> string \<Rightarrow> mqtt_client \<times> 'b \<Rightarrow> (mqtt_client \<times> 'b) \<times> go_error option"
where
  "publishAvailability br env status = (\<lambda>(c, b).
     case Topic (mc_registry c) PurposeAvailability ''core'' of
       (_, Some err) \<Rightarrow> ((c, b), Some err)
     | (None, None) \<Rightarrow> ((c, b), None)
     | (Some (topic, policy), None) \<Rightarrow>
         (case availabilityPayload env (mc_codec c) status of
            (_, Some err) \<Rightarrow> ((c, b), Some err)
          | (None, None) \<Rightarrow> ((c, b), None)
          | (Some p, None) \<Rightarrow> mc_Publish br topic (policy_qos policy) (policy_retained policy) p (c, b)))"

text \<open>
  \<open>flush\<close> takes the first publication off the queue, under the lock, and puts it back in front when
  it could not be published.
\<close>

fun flush_from ::
  "'b broker \<Rightarrow> gotime \<Rightarrow> publication_request list \<Rightarrow> mqtt_client \<times> 'b \<Rightarrow> (mqtt_client \<times> 'b) \<times> go_error option"
where
  "flush_from br now [] (c, b) = ((c, b), None)"
| "flush_from br now (p # rest) (c, b) =
     (let c = c\<lparr>mc_queue := rest\<rparr>
      in if expired now p then flush_from br now rest (c\<lparr>mc_dropped_expired := mc_dropped_expired c + 1\<rparr>, b)
         else case mc_Publish br (pr_topic p) (pr_qos p) (pr_retained p) (pr_payload p) (c, b) of
           ((c, b), Some err) \<Rightarrow> ((c\<lparr>mc_queue := p # mc_queue c\<rparr>, b), Some err)
         | ((c, b), None) \<Rightarrow> flush_from br now rest (c, b))"

definition flush :: "'b broker \<Rightarrow> gotime \<Rightarrow> mqtt_client \<times> 'b \<Rightarrow> (mqtt_client \<times> 'b) \<times> go_error option" where
  "flush br now s = flush_from br now (mc_queue (fst s)) s"

fun restore_subscriptions ::
  "'b broker \<Rightarrow> (string \<rightharpoonup> byte) \<Rightarrow> string list \<Rightarrow> 'b \<Rightarrow> 'b \<times> go_error option"
where
  "restore_subscriptions br subs [] b = (b, None)"
| "restore_subscriptions br subs (topic # topics) b =
     (case subs topic of
        None \<Rightarrow> restore_subscriptions br subs topics b
      | Some qos \<Rightarrow>
          (let (t, b) = br_subscribe br topic qos b
           in case wait_for t of
                Some err \<Rightarrow> (b, Some (Wrapped ''restore MQTT subscription'' err))
              | None \<Rightarrow> restore_subscriptions br subs topics b))"

type_synonym 'b reconcile_hook = "mqtt_client \<times> 'b \<Rightarrow> (mqtt_client \<times> 'b) \<times> go_error option"

text \<open>The end of \<open>restore\<close>: the birth message, then the queue.\<close>

definition announce :: "'b broker \<Rightarrow> client_env \<Rightarrow> mqtt_client \<times> 'b \<Rightarrow> (mqtt_client \<times> 'b) \<times> go_error option" where
  "announce br env s =
     (case publishAvailability br env ''online'' s of
        (s, Some err) \<Rightarrow> (s, Some err)
      | (s, None) \<Rightarrow> flush br (ce_now env) s)"

definition restore ::
  "'b broker \<Rightarrow> client_env \<Rightarrow> 'b reconcile_hook \<Rightarrow> string list \<Rightarrow> mqtt_client \<times> 'b \<Rightarrow> (mqtt_client \<times> 'b) \<times> go_error option"
where
  "restore br env hook order = (\<lambda>(c, b).
     case restore_subscriptions br (mc_subscriptions c) order b of
       (b, Some err) \<Rightarrow> ((c, b), Some err)
     | (b, None) \<Rightarrow>
         (case (if mc_reconciler c then hook (c, b) else ((c, b), None)) of
            (s, Some err) \<Rightarrow> (s, Some (Wrapped ''reconcile retained MQTT state'' err))
          | (s, None) \<Rightarrow> announce br env s))"

definition mc_connect ::
  "'b broker \<Rightarrow> client_env \<Rightarrow> 'b reconcile_hook \<Rightarrow> string list \<Rightarrow> bool \<Rightarrow> mqtt_client \<times> 'b \<Rightarrow>
   (mqtt_client \<times> 'b) \<times> go_error option"
where
  "mc_connect br env hook order reconnect = (\<lambda>(c, b).
     let (t, b) = br_connect br b
     in case wait_for t of
          Some err \<Rightarrow> ((mc_setError (Some err) c, b), Some (Wrapped ''connect MQTT'' err))
        | None \<Rightarrow>
            restore br env hook order
              (mc_setError None (c\<lparr>mc_connects := mc_connects c + 1,
                 mc_reconnects := (if reconnect then mc_reconnects c + 1 else mc_reconnects c)\<rparr>), b))"

definition mc_Start ::
  "'b broker \<Rightarrow> client_env \<Rightarrow> 'b reconcile_hook \<Rightarrow> string list \<Rightarrow> mqtt_client \<times> 'b \<Rightarrow> (mqtt_client \<times> 'b) \<times> go_error option"
where
  "mc_Start br env hook order s =
     (case mc_connect br env hook order False s of
        (s, Some err) \<Rightarrow> (s, Some err)
      | ((c, b), None) \<Rightarrow> ((c\<lparr>mc_running := True\<rparr>, b), None))"

definition milliseconds :: "duration \<Rightarrow> int" where
  "milliseconds d = (if d < 0 then - (- d div 1000000) else d div 1000000)"

text \<open>\<open>Stop\<close>; \<open>joined\<close> is the error of the context when it ends before the reconnect loop does.\<close>

definition mc_Stop ::
  "'b broker \<Rightarrow> client_env \<Rightarrow> go_error option \<Rightarrow> mqtt_client \<times> 'b \<Rightarrow> (mqtt_client \<times> 'b) \<times> go_error option"
where
  "mc_Stop br env joined = (\<lambda>(c, b).
     let running = mc_running c; c = c\<lparr>mc_running := False\<rparr>
     in if running \<and> joined \<noteq> None then ((c, b), joined)
        else if br_connected br b
        then let (c, b) = fst (publishAvailability br env ''offline'' (c, b))
             in ((c, br_disconnect br (word_of_int (milliseconds (mq_quiesce (mc_cfg c)))) b), None)
        else ((c, b), None))"

definition mc_Health :: "(go_error \<Rightarrow> string) \<Rightarrow> gotime \<Rightarrow> bool \<Rightarrow> mqtt_client \<Rightarrow> status" where
  "mc_Health describe now online c =
     NewStatus ''mqtt'' (if online then StateHealthy else StateUnhealthy)
       (case mc_error c of Some err \<Rightarrow> describe err | None \<Rightarrow> if \<not> online then ''disconnected'' else []) now"

section \<open>Reconnecting\<close>

text \<open>
  Conversions between durations and \<open>float64\<close>. A value outside the range of \<open>int64\<close> converts to what the
  processor makes of it, the argument \<open>wild\<close>.
\<close>

definition f64_of_duration :: "duration \<Rightarrow> float64" where
  "f64_of_duration d = f64_round (of_int d)"

definition duration_of_f64 :: "(float64 \<Rightarrow> duration) \<Rightarrow> float64 \<Rightarrow> duration" where
  "duration_of_f64 wild x =
     (case x of
        Finite q \<Rightarrow>
          (let n = (if q < 0 then \<lceil>q\<rceil> else \<lfloor>q\<rfloor>)
           in if - (2 ^ 63) \<le> n \<and> n < 2 ^ 63 then n else wild x)
      | _ \<Rightarrow> wild x)"

fun f64_min :: "float64 \<Rightarrow> float64 \<Rightarrow> float64" where
  "f64_min x y =
     (if x = Infinity True \<or> y = Infinity True then Infinity True
      else if f64_is_nan x \<or> f64_is_nan y then NaN
      else if f64_lt x y then x else y)"

definition jitter :: "(float64 \<Rightarrow> duration) \<Rightarrow> float64 \<Rightarrow> float64 \<Rightarrow> duration \<Rightarrow> duration" where
  "jitter wild spread random delay =
     (let factor = f64_add (Finite 1) (f64_mul (f64_sub (f64_mul random (Finite 2)) (Finite 1)) spread);
          result = duration_of_f64 wild (f64_mul (f64_of_duration delay) factor)
      in if result < millisecond then millisecond else result)"

definition next_delay :: "(float64 \<Rightarrow> duration) \<Rightarrow> duration \<Rightarrow> duration \<Rightarrow> duration" where
  "next_delay wild maximum delay =
     duration_of_f64 wild (f64_min (f64_of_duration maximum) (f64_mul (f64_of_duration delay) (Finite 2)))"

text \<open>
  The inner loop of \<open>reconnectLoop\<close>, after a signal: the timers it waits for, and whether it ended with a
  connection. An element of the list is one timer that fires before the context ends, with the random number
  drawn for it and what the attempt finds; at the end of the list the context is done.
\<close>

record 'b attempt =
  at_random :: float64
  at_env :: client_env
  at_order :: "string list"
  at_hook :: "'b reconcile_hook"

fun reconnect_attempts ::
  "(float64 \<Rightarrow> duration) \<Rightarrow> 'b broker \<Rightarrow> duration \<Rightarrow> 'b attempt list \<Rightarrow> mqtt_client \<times> 'b \<Rightarrow>
   duration list \<times> (mqtt_client \<times> 'b) \<times> bool"
where
  "reconnect_attempts wild br delay [] s = ([], s, False)"
| "reconnect_attempts wild br delay (a # as) s =
     (let timer = jitter wild (mq_jitter (mc_cfg (fst s))) (at_random a) delay
      in case mc_connect br (at_env a) (at_hook a) (at_order a) True s of
           (s, None) \<Rightarrow> ([timer], s, True)
         | (s, Some _) \<Rightarrow>
             (let (timers, result) =
                reconnect_attempts wild br (next_delay wild (mq_reconnect_max (mc_cfg (fst s))) delay) as s
              in (timer # timers, result)))"

definition reconnect_on_signal ::
  "(float64 \<Rightarrow> duration) \<Rightarrow> 'b broker \<Rightarrow> 'b attempt list \<Rightarrow> mqtt_client \<times> 'b \<Rightarrow>
   duration list \<times> (mqtt_client \<times> 'b) \<times> bool"
where
  "reconnect_on_signal wild br as = (\<lambda>(c, b).
     if \<not> mc_running c \<or> \<not> mc_reconnect c then ([], (c, b), False)
     else reconnect_attempts wild br (mq_reconnect_min (mc_cfg c)) as (c\<lparr>mc_reconnect := False\<rparr>, b))"

section \<open>The delays of the reconnect loop\<close>

lemma duration_of_int:
  "0 \<le> n \<Longrightarrow> n < 2 ^ 63 \<Longrightarrow> duration_of_f64 wild (Finite (of_int n)) = n"
  by (simp add: duration_of_f64_def Let_def)

lemma next_delay_exact:
  assumes "0 < delay" "delay \<le> maximum" "maximum < 2 ^ 52"
  shows "next_delay wild maximum delay = min maximum (2 * delay)"
proof -
  have "f64_of_duration maximum = Finite (of_int maximum)" "f64_of_duration delay = Finite (of_int delay)"
    using assms by (simp_all add: f64_of_duration_def f64_round_int)
  moreover have "f64_round (of_int delay * 2) = Finite (of_int (2 * delay))"
    using f64_round_int [of "2 * delay"] assms by (simp add: mult.commute)
  moreover have "duration_of_f64 wild (Finite (of_int (2 * delay))) = 2 * delay"
    "duration_of_f64 wild (Finite (of_int maximum)) = maximum"
    using assms duration_of_int [of "2 * delay"] duration_of_int [of maximum] by simp_all
  ultimately show ?thesis
    by (auto simp: next_delay_def min_def simp del: of_int_mult)
qed

lemma f64_near_small:
  assumes "\<bar>x\<bar> < 4"
  shows "\<exists>v. f64_round x = Finite v \<and> \<bar>v - x\<bar> \<le> 1 / 2 ^ 52"
  using f64_round_near [of x 2] assms by (simp add: power_int_def field_simps)

lemma near_trans: "\<bar>x - y\<bar> \<le> d \<Longrightarrow> \<bar>y - z\<bar> \<le> e \<Longrightarrow> \<bar>x - z\<bar> \<le> d + e" for x y z d e :: rat
  by linarith

lemma near_less: "\<bar>x - y\<bar> \<le> d \<Longrightarrow> \<bar>y\<bar> + d < k \<Longrightarrow> \<bar>x\<bar> < k" for x y d k :: rat
  by linarith

lemma jitter_factor:
  assumes "0 \<le> r" "r \<le> 1" "0 \<le> s" "s \<le> 1 / 2"
  shows "\<exists>f. f64_add (Finite 1) (f64_mul (f64_sub (f64_mul (Finite r) (Finite 2)) (Finite 1)) (Finite s)) = Finite f \<and>
    \<bar>f - (1 + (2 * r - 1) * s)\<bar> \<le> 1 / 2 ^ 50"
proof -
  define e :: rat where "e = 1 / 2 ^ 52"
  then have e: "0 < e" "e < 1 / 8" by simp_all
  note near = f64_near_small [folded e_def]
  obtain a where a: "f64_round (r * 2) = Finite a" "\<bar>a - r * 2\<bar> \<le> e"
    using near [of "r * 2"] assms by auto
  have "\<bar>(a - 1) - (2 * r - 1)\<bar> \<le> e" using a(2) by (simp add: mult.commute)
  moreover have r: "\<bar>2 * r - 1\<bar> \<le> 1" using assms by (simp add: abs_le_iff)
  ultimately have "\<bar>a - 1\<bar> < 4" using e by (intro near_less [of "a - 1" "2 * r - 1" e]) auto
  then obtain b where b: "f64_round (a - 1) = Finite b" "\<bar>b - (a - 1)\<bar> \<le> e"
    using near by blast
  have ab: "\<bar>b - (2 * r - 1)\<bar> \<le> 2 * e"
    using near_trans [OF b(2) \<open>\<bar>(a - 1) - (2 * r - 1)\<bar> \<le> e\<close>] by simp
  define p where "p = (2 * r - 1) * s"
  have "\<bar>b * s - p\<bar> = \<bar>b - (2 * r - 1)\<bar> * s"
    using assms(3) abs_mult [of "b - (2 * r - 1)" s] by (simp add: p_def left_diff_distrib)
  also have "\<dots> \<le> 2 * e * (1 / 2)" using ab assms by (intro mult_mono) auto
  finally have bs: "\<bar>b * s - p\<bar> \<le> e" by simp
  have "\<bar>2 * r - 1\<bar> * s \<le> 1 * (1 / 2)" using r assms by (intro mult_mono) auto
  then have p: "\<bar>p\<bar> \<le> 1 / 2" using assms(3) by (simp add: p_def abs_mult)
  have "\<bar>b * s\<bar> < 4" using p e by (intro near_less [OF bs]) auto
  then obtain c where c: "f64_round (b * s) = Finite c" "\<bar>c - b * s\<bar> \<le> e" using near by blast
  have cp: "\<bar>(1 + c) - (1 + p)\<bar> \<le> 2 * e" using near_trans [OF c(2) bs] by simp
  have "\<bar>1 + c\<bar> < 4" using p e by (intro near_less [OF cp]) linarith
  then obtain f where f: "f64_round (1 + c) = Finite f" "\<bar>f - (1 + c)\<bar> \<le> e" using near by blast
  have "\<bar>f - (1 + p)\<bar> \<le> 4 * e" using near_trans [OF f(2) cp] e by simp
  with a(1) b(1) c(1) f(1) show ?thesis by (simp add: f64_sub_def e_def p_def)
qed

lemma jitter_product:
  assumes "0 \<le> r" "r \<le> 1" "0 \<le> s" "s \<le> 1 / 2" "0 < delay" "delay < 2 ^ 41"
  shows "\<exists>v. f64_mul (f64_of_duration delay)
      (f64_add (Finite 1) (f64_mul (f64_sub (f64_mul (Finite r) (Finite 2)) (Finite 1)) (Finite s))) = Finite v \<and>
    of_int delay / 2 - 1 / 4 \<le> v \<and> v \<le> of_int delay * 3 / 2 + 1 / 4"
proof -
  define p where "p = (2 * r - 1) * s"
  define e :: rat where "e = 1 / 2 ^ 50"
  obtain f where f: "f64_add (Finite 1) (f64_mul (f64_sub (f64_mul (Finite r) (Finite 2)) (Finite 1)) (Finite s)) = Finite f"
    "\<bar>f - (1 + p)\<bar> \<le> e"
    using jitter_factor [OF assms(1-4)] unfolding p_def e_def by blast
  have "\<bar>2 * r - 1\<bar> * s \<le> 1 * (1 / 2)" using assms by (intro mult_mono) auto
  then have "\<bar>p\<bar> \<le> 1 / 2" using assms(3) by (simp add: p_def abs_mult)
  then have fb: "1 / 2 - e \<le> f" "f \<le> 3 / 2 + e" using f(2) by linarith+
  define d :: rat where "d = of_int delay"
  have d: "0 < d" "d < 2 ^ 41" using assms(5,6) by (simp_all add: d_def)
  then have de: "d * e \<le> 1 / 8" by (simp add: e_def)
  have "d * (1 / 2 - e) \<le> d * f" "d * f \<le> d * (3 / 2 + e)" using fb d(1) by (auto intro: mult_left_mono)
  then have y: "d / 2 - 1 / 8 \<le> d * f" "d * f \<le> d * 3 / 2 + 1 / 8" using de by (simp_all add: algebra_simps)
  have "\<bar>d * f\<bar> < 2 powi 42" using y d by (simp add: power_int_def abs_less_iff)
  then obtain v where v: "f64_round (d * f) = Finite v" "\<bar>v - d * f\<bar> \<le> 2 powi (- 12)"
    using f64_round_near [of "d * f" 42] by auto
  have "(2 :: rat) powi (- 12) \<le> 1 / 16" by (simp add: power_int_def power_one_over)
  with v(2) have "\<bar>v - d * f\<bar> \<le> 1 / 16" by (rule order_trans)
  with y have "d / 2 - 1 / 4 \<le> v" "v \<le> d * 3 / 2 + 1 / 4" by linarith+
  moreover have "f64_of_duration delay = Finite d"
    using f64_round_int [of delay] assms(5,6) by (simp add: f64_of_duration_def d_def)
  ultimately show ?thesis using f(1) v(1) by (simp add: d_def)
qed

lemma jitter_bounds:
  assumes "0 \<le> r" "r \<le> 1" "0 \<le> s" "s \<le> 1 / 2" "0 < delay" "delay < 2 ^ 41"
  shows "millisecond \<le> jitter wild (Finite s) (Finite r) delay"
    "2 * jitter wild (Finite s) (Finite r) delay \<le> max (2 * millisecond) (3 * delay)"
    "delay \<le> 2 * jitter wild (Finite s) (Finite r) delay + 2"
proof -
  obtain v where v: "f64_mul (f64_of_duration delay)
      (f64_add (Finite 1) (f64_mul (f64_sub (f64_mul (Finite r) (Finite 2)) (Finite 1)) (Finite s))) = Finite v"
    and v': "of_int delay / 2 - 1 / 4 \<le> v" "v \<le> of_int delay * 3 / 2 + 1 / 4"
    using jitter_product [OF assms] by blast
  have "(1 :: rat) \<le> of_int delay" using assms(5) by simp
  then have vpos: "0 < v" using v'(1) by linarith
  obtain n where n: "\<lfloor>v\<rfloor> = n" "of_int n \<le> v" "v < of_int (n + 1)" using floor_correct [of v] by blast
  have "(of_int (2 * n) :: rat) < of_int (3 * delay + 1)" using n(2) v'(2) unfolding of_int_mult of_int_add by simp
  then have up: "2 * n \<le> 3 * delay" by (simp only: of_int_less_iff)
  have "(of_int delay :: rat) < of_int (2 * n + 3)" using n(3) v'(1) unfolding of_int_mult of_int_add by simp
  then have low: "delay \<le> 2 * n + 2" by (simp only: of_int_less_iff)
  have "duration_of_f64 wild (Finite v) = n"
    using vpos up low n(1) assms(5,6) by (simp add: duration_of_f64_def Let_def)
  moreover have "jitter wild (Finite s) (Finite r) delay = (let n = duration_of_f64 wild (Finite v) in if n < millisecond then millisecond else n)"
    using v by (simp add: jitter_def)
  ultimately have "jitter wild (Finite s) (Finite r) delay = (if n < millisecond then millisecond else n)"
    by (simp add: Let_def)
  with up low show "millisecond \<le> jitter wild (Finite s) (Finite r) delay"
    "2 * jitter wild (Finite s) (Finite r) delay \<le> max (2 * millisecond) (3 * delay)"
    "delay \<le> 2 * jitter wild (Finite s) (Finite r) delay + 2"
    by auto
qed

text \<open>What a call to the broker leaves alone.\<close>

definition mc_fixed :: "mqtt_client \<Rightarrow> mqtt_config \<times> bool" where
  "mc_fixed c = (mc_cfg c, mc_running c)"

lemma mc_fixed_update [simp]:
  "mc_fixed (c\<lparr>mc_queue := q\<rparr>) = mc_fixed c" "mc_fixed (c\<lparr>mc_published := n\<rparr>) = mc_fixed c"
  "mc_fixed (c\<lparr>mc_dropped_expired := n\<rparr>) = mc_fixed c" "mc_fixed (c\<lparr>mc_error := e\<rparr>) = mc_fixed c"
  "mc_fixed (c\<lparr>mc_connects := n\<rparr>) = mc_fixed c" "mc_fixed (c\<lparr>mc_reconnects := n\<rparr>) = mc_fixed c"
  by (simp_all add: mc_fixed_def)

definition keeps_cfg :: "'b reconcile_hook \<Rightarrow> bool" where
  "keeps_cfg hook \<longleftrightarrow> (\<forall>s. mc_fixed (fst (fst (hook s))) = mc_fixed (fst s))"

lemma Publish_fields [simp]:
  "mc_fixed (fst (fst (mc_Publish br topic qos retained p s))) = mc_fixed (fst s)"
  "mc_cfg (fst (fst (mc_Publish br topic qos retained p s))) = mc_cfg (fst s)"
  "mc_queue (fst (fst (mc_Publish br topic qos retained p s))) = mc_queue (fst s)"
  by (cases s; simp add: mc_Publish_def split: option.split prod.split)+

lemma availability_cfg [simp]: "mc_fixed (fst (fst (publishAvailability br env status s))) = mc_fixed (fst s)"
  by (cases s) (simp add: publishAvailability_def split: option.split prod.split)

lemma flush_from_cfg [simp]: "mc_fixed (fst (fst (flush_from br now ps s))) = mc_fixed (fst s)"
proof (induction ps arbitrary: s)
  case Nil
  then show ?case by (cases s) simp
next
  case (Cons p ps)
  obtain c b where s: "s = (c, b)" by fastforce
  obtain c' b' err where pub: "mc_Publish br (pr_topic p) (pr_qos p) (pr_retained p) (pr_payload p) (c\<lparr>mc_queue := ps\<rparr>, b) =
      ((c', b'), err)"
    by (metis prod.collapse)
  then have "mc_fixed c' = mc_fixed c"
    using Publish_fields(1) [of br "pr_topic p" "pr_qos p" "pr_retained p" "pr_payload p" "(c\<lparr>mc_queue := ps\<rparr>, b)"] by simp
  then show ?case using Cons.IH by (cases err) (simp_all add: s Let_def pub)
qed

lemma announce_cfg [simp]: "mc_fixed (fst (fst (announce br env s))) = mc_fixed (fst s)"
proof -
  obtain s' err where "publishAvailability br env ''online'' s = (s', err)" by fastforce
  with availability_cfg [of br env "''online''" s] show ?thesis
    by (cases err) (simp_all add: announce_def flush_def)
qed

lemma restore_cfg:
  assumes "keeps_cfg hook"
  shows "mc_fixed (fst (fst (restore br env hook order s))) = mc_fixed (fst s)"
proof -
  obtain c b where s: "s = (c, b)" by fastforce
  obtain b' e where sub: "restore_subscriptions br (mc_subscriptions c) order b = (b', e)" by fastforce
  obtain s' err where h: "(if mc_reconciler c then hook (c, b') else ((c, b'), None)) = (s', err)" by fastforce
  with assms have "mc_fixed (fst s') = mc_fixed c" by (auto simp: keeps_cfg_def split: if_splits) (metis fst_conv)
  with h show ?thesis by (cases e; cases err) (simp_all add: s restore_def sub)
qed

lemma connect_cfg:
  assumes "keeps_cfg hook"
  shows "mc_fixed (fst (fst (mc_connect br env hook order again s))) = mc_fixed (fst s)"
  using restore_cfg [OF assms, of br env order]
  by (cases s) (simp add: mc_connect_def mc_setError_def split: prod.split option.split)

lemma reconnect_timers:
  assumes "0 < delay" "delay \<le> maximum" "maximum < 2 ^ 41" "mq_reconnect_max (mc_cfg (fst s)) = maximum"
    and "mq_jitter (mc_cfg (fst s)) = Finite q" "0 \<le> q" "q \<le> 1 / 2"
    and "list_all (\<lambda>a. keeps_cfg (at_hook a) \<and> (\<exists>r. at_random a = Finite r \<and> 0 \<le> r \<and> r \<le> 1)) as"
    and "i < length (fst (reconnect_attempts wild br delay as s))"
  shows "let d = min maximum (delay * 2 ^ i); t = fst (reconnect_attempts wild br delay as s) ! i
    in millisecond \<le> t \<and> 2 * t \<le> max (2 * millisecond) (3 * d) \<and> d \<le> 2 * t + 2"
  using assms
proof (induction as arbitrary: delay s i)
  case (Cons a as)
  from Cons.prems(8) obtain r where a: "keeps_cfg (at_hook a)" "at_random a = Finite r" "0 \<le> r" "r \<le> 1" by auto
  note j = jitter_bounds [OF a(3,4) Cons.prems(6,7,1), of wild]
  obtain s' err where s': "mc_connect br (at_env a) (at_hook a) (at_order a) True s = (s', err)" by fastforce
  then have cfg: "mc_cfg (fst s') = mc_cfg (fst s)" using connect_cfg [OF a(1), of br "at_env a" "at_order a" True s] by (simp add: mc_fixed_def)
  show ?case
  proof (cases i)
    case 0
    then show ?thesis
      using j Cons.prems(2,3,5) a(2) by (cases err) (auto simp: s' Let_def min_def split: prod.split)
  next
    case (Suc k)
    with Cons.prems(9) obtain e where err: "err = Some e" by (cases err) (auto simp: s' Let_def)
    let ?d = "next_delay wild maximum delay"
    have d: "?d = min maximum (2 * delay)" using next_delay_exact Cons.prems(1-3) by simp
    have rest: "fst (reconnect_attempts wild br delay (a # as) s) ! i = fst (reconnect_attempts wild br ?d as s') ! k"
      "k < length (fst (reconnect_attempts wild br ?d as s'))"
      using Cons.prems(4,9) cfg by (auto simp: s' err Suc Let_def split: prod.splits)
    have "min maximum (?d * 2 ^ k) = min maximum (delay * 2 ^ i)"
    proof (cases "2 * delay \<le> maximum")
      case False
      have "maximum * 1 \<le> maximum * 2 ^ k" "(2 * delay) * 1 \<le> (2 * delay) * 2 ^ k"
        using Cons.prems(1,2) by (intro mult_left_mono; simp)+
      then show ?thesis using False d by (simp add: Suc min_def algebra_simps)
    qed (simp add: d Suc min_def algebra_simps)
    moreover have "0 < ?d" "?d \<le> maximum" using d Cons.prems(1,2) by auto
    ultimately show ?thesis
      using Cons.IH [of ?d s' k] Cons.prems(3-8) rest cfg by (simp add: Let_def)
  qed
qed simp

lemma validated_reconnect:
  assumes "validate_mqtt env m = None" "mq_jitter m \<noteq> NaN"
  shows "0 < mq_reconnect_min m" "mq_reconnect_min m \<le> mq_reconnect_max m" "mq_reconnect_max m \<le> 10 * minute"
    "\<exists>q. mq_jitter m = Finite q \<and> 0 \<le> q \<and> q \<le> 1 / 2"
proof -
  have *: "\<not> f64_lt (mq_jitter m) (Finite 0) \<and> \<not> f64_lt (Finite (1 / 2)) (mq_jitter m)"
    "\<not> (mq_reconnect_min m \<le> 0 \<or> mq_reconnect_max m < mq_reconnect_min m \<or> mq_reconnect_max m > 10 * minute)"
    using assms(1) by (simp_all only: validate_mqtt_def first_error.simps reject_def guard_def split: option.splits if_splits; simp)+
  from *(2) show "0 < mq_reconnect_min m" "mq_reconnect_min m \<le> mq_reconnect_max m" "mq_reconnect_max m \<le> 10 * minute"
    by auto
  from *(1) assms(2) show "\<exists>q. mq_jitter m = Finite q \<and> 0 \<le> q \<and> q \<le> 1 / 2"
    by (cases "mq_jitter m") auto
qed


text \<open>
  A broker that is away when the program starts stays unused. When \<open>Start\<close> fails, for whatever reason, the
  reconnect loop is never launched: a client that was not running ignores every later signal, waits for no timer
  and makes no attempt, and nothing starts it again, since the lifecycle starts each component once and treats
  this one as optional.
\<close>

theorem failed_start_never_reconnects:
  assumes "mc_Start br env hook order (c, b) = ((c', b'), Some err)" "\<not> mc_running c" "keeps_cfg hook"
  shows "reconnect_on_signal wild br as (connection_lost e c', b'') = ([], (connection_lost e c', b''), False)"
proof -
  have "mc_connect br env hook order False (c, b) = ((c', b'), Some err)"
    using assms(1) by (auto simp: mc_Start_def split: prod.splits option.splits)
  with connect_cfg [OF assms(3), of br env order False "(c, b)"] assms(2) have "\<not> mc_running c'" by (simp add: mc_fixed_def)
  then show ?thesis by (simp add: reconnect_on_signal_def connection_lost_def signalReconnect_def mc_setError_def)
qed

section \<open>The offline queue\<close>

text \<open>
  The queue under interleaving. A publication may be offered at any time; \<open>flush\<close> holds the lock only while
  it takes the head of the queue and while it puts it back. \<open>off_accepted\<close> are the publications that entered
  the queue, \<open>off_settled\<close> those that left it: handed to the broker, or dropped as expired.
\<close>

record offline =
  off_client :: mqtt_client
  off_hand :: "publication_request option"
  off_accepted :: "publication_request list"
  off_settled :: "publication_request list"

definition in_hand :: "offline \<Rightarrow> publication_request list" where
  "in_hand q = (case off_hand q of None \<Rightarrow> [] | Some p \<Rightarrow> [p])"

inductive offline_run :: "'b broker \<Rightarrow> mqtt_client \<Rightarrow> offline \<Rightarrow> bool" for br c0 where
  start: "offline_run br c0 \<lparr>off_client = c0, off_hand = None, off_accepted = [], off_settled = []\<rparr>"
| offer: "offline_run br c0 q \<Longrightarrow> \<not> br_connected br b \<Longrightarrow>
    PublishPublication br ctx now p (off_client q, b) = ((c, b'), err) \<Longrightarrow>
    offline_run br c0 (q\<lparr>off_client := c, off_accepted := off_accepted q @ (if err = None then [p] else [])\<rparr>)"
| direct: "offline_run br c0 q \<Longrightarrow> br_connected br b \<Longrightarrow>
    PublishPublication br ctx now p (off_client q, b) = ((c, b'), err) \<Longrightarrow> offline_run br c0 (q\<lparr>off_client := c\<rparr>)"
| take: "offline_run br c0 q \<Longrightarrow> off_hand q = None \<Longrightarrow> mc_queue (off_client q) = p # rest \<Longrightarrow>
    offline_run br c0 (q\<lparr>off_client := (off_client q)\<lparr>mc_queue := rest\<rparr>, off_hand := Some p\<rparr>)"
| drop: "offline_run br c0 q \<Longrightarrow> off_hand q = Some p \<Longrightarrow> expired now p \<Longrightarrow>
    offline_run br c0 (q\<lparr>off_client := (off_client q)\<lparr>mc_dropped_expired := mc_dropped_expired (off_client q) + 1\<rparr>,
      off_hand := None, off_settled := off_settled q @ [p]\<rparr>)"
| deliver: "offline_run br c0 q \<Longrightarrow> off_hand q = Some p \<Longrightarrow>
    mc_Publish br (pr_topic p) (pr_qos p) (pr_retained p) (pr_payload p) (off_client q, b) = ((c, b'), None) \<Longrightarrow>
    offline_run br c0 (q\<lparr>off_client := c, off_hand := None, off_settled := off_settled q @ [p]\<rparr>)"
| put_back: "offline_run br c0 q \<Longrightarrow> off_hand q = Some p \<Longrightarrow>
    mc_Publish br (pr_topic p) (pr_qos p) (pr_retained p) (pr_payload p) (off_client q, b) = ((c, b'), Some err) \<Longrightarrow>
    offline_run br c0 (q\<lparr>off_client := c\<lparr>mc_queue := p # mc_queue c\<rparr>, off_hand := None\<rparr>)"

lemma PublishPublication_offline:
  assumes "\<not> br_connected br b" "PublishPublication br ctx now p (c, b) = ((c', b'), err)"
  shows "mc_cfg c' = mc_cfg c" "mc_queue c' = mc_queue c @ (if err = None then [p] else [])"
    "err = None \<Longrightarrow> int (length (mc_queue c)) < mq_queue (mc_cfg c)"
proof -
  let ?r = "PublishPublication br ctx now p (c, b)"
  have "mc_cfg (fst (fst ?r)) = mc_cfg c \<and> mc_queue (fst (fst ?r)) = mc_queue c @ (if snd ?r = None then [p] else []) \<and>
      (snd ?r = None \<longrightarrow> int (length (mc_queue c)) < mq_queue (mc_cfg c))"
    using assms(1) by (simp add: PublishPublication_def split: option.split)
  with assms(2) show "mc_cfg c' = mc_cfg c" "mc_queue c' = mc_queue c @ (if err = None then [p] else [])"
    "err = None \<Longrightarrow> int (length (mc_queue c)) < mq_queue (mc_cfg c)"
    by simp_all
qed

lemma PublishPublication_online:
  assumes "br_connected br b" "PublishPublication br ctx now p (c, b) = ((c', b'), err)"
  shows "mc_cfg c' = mc_cfg c" "mc_queue c' = mc_queue c"
proof -
  have "mc_cfg (fst (fst (PublishPublication br ctx now p (c, b)))) = mc_cfg c \<and>
    mc_queue (fst (fst (PublishPublication br ctx now p (c, b)))) = mc_queue c"
    using assms(1) by (simp add: PublishPublication_def split: option.split)
  with assms(2) show "mc_cfg c' = mc_cfg c" "mc_queue c' = mc_queue c" by simp_all
qed

lemma Publish_result:
  "mc_Publish br topic qos retained p (c, b) = ((c', b'), err) \<Longrightarrow> mc_cfg c' = mc_cfg c \<and> mc_queue c' = mc_queue c"
  using Publish_fields [of br topic qos retained p "(c, b)"] by simp


section \<open>Topics and subscriptions that are accepted\<close>

lemma split_topic_levels: "split_topic_from part s = (part @ hd (levels s)) # tl (levels s)"
  by (induction s arbitrary: part) (auto split: list.splits)

lemma splitTopic_levels: "splitTopic s = levels s"
  by (simp add: splitTopic_def split_topic_levels)

lemma containsSegment_levels: "containsSegment topic segment \<longleftrightarrow> segment \<in> set (levels topic)"
  by (auto simp: containsSegment_def splitTopic_levels list_ex_iff)

lemma levels_chars: "x \<in> set s \<Longrightarrow> x = CHR ''/'' \<or> (\<exists>l \<in> set (levels s). x \<in> set l)"
  by (induction s) (auto split: list.splits if_splits)

lemma plain_levels_no_wildcard: "list_all plain (levels s) \<Longrightarrow> \<not> containsWildcard s"
  using levels_chars [of _ s] by (fastforce simp: containsWildcard_def list_ex_iff list_all_iff plain_def)

text \<open>
  Which topics of the registry the client agrees to publish with the policy the registry gives them: every
  unretained one, and a retained one unless the site or the resource is called \<open>commands\<close> or \<open>events\<close>. A site
  with one of these names passes the validation of the configuration, and none of its retained state, its
  availability included, can be published.
\<close>

theorem registry_topics_publishable:
  assumes "NewTopicRegistry site = Inr r" "Topic r p x = ok (t, pol)"
  shows "validatePublication t (policy_qos pol) (policy_retained pol) = None \<longleftrightarrow>
    \<not> retained_purpose p \<or> site \<notin> {''commands'', ''events''} \<and>
      (x \<notin> {''commands'', ''events''} \<or> p = PurposeCoreStatus \<or> p = PurposeAvailability)"
proof -
  have site: "topicSegmentPattern (site_id r)" "site_id r = site"
    using assms(1) by (auto simp: NewTopicRegistry_def split: if_splits)
  note l = Topic_levels [OF site(1) assms(2)]
  have "list_all plain (levels t)"
    using l(1) segment_plain [OF site(1)] purpose_levels_plain [OF segment_plain [OF l(2)]] by (simp add: plain_def)
  then have "\<not> containsWildcard t" by (rule plain_levels_no_wildcard)
  moreover have "t \<noteq> []" using l(1) by auto
  moreover have "policy_qos pol = 1" "policy_retained pol = retained_purpose p" using l(3) by (simp_all add: delivery_def)
  ultimately have "validatePublication t (policy_qos pol) (policy_retained pol) = None \<longleftrightarrow>
      \<not> (retained_purpose p \<and> (''commands'' \<in> set (levels t) \<or> ''events'' \<in> set (levels t)))"
    by (simp add: validatePublication_def containsSegment_levels)
  also have "\<dots> \<longleftrightarrow> \<not> retained_purpose p \<or> site \<notin> {''commands'', ''events''} \<and>
      (x \<notin> {''commands'', ''events''} \<or> p = PurposeCoreStatus \<or> p = PurposeAvailability)"
    using l(1,4) site(2) by (cases p) (auto simp: retained_purpose_def)
  finally show ?thesis .
qed

lemma switch_filter_invalid: "SubscriptionFilter r' PurposeHACommand = ok (f, q) \<Longrightarrow> \<not> validSubscription r f"
proof -
  assume "SubscriptionFilter r' PurposeHACommand = ok (f, q)"
  then have f: "f = topic_root r' @ ''/home-assistant/+/set''" by (simp add: SubscriptionFilter_def)
  then have "rev f \<noteq> rev (topic_root r @ ''/commands/+/request'')" "rev f \<noteq> rev (topic_root r @ ''/ai/+/observations/+'')"
    by simp_all
  then have "f \<noteq> topic_root r @ ''/commands/+/request''" "f \<noteq> topic_root r @ ''/ai/+/observations/+''" by auto
  moreover have "containsWildcard f" by (simp add: f containsWildcard_def)
  ultimately show "\<not> validSubscription r f" by (simp add: validSubscription_def SubscriptionFilter_def ok_def)
qed

text \<open>
  C38. The Home Assistant integration never receives a switch request. The client accepts a filter with a
  wildcard only for command requests and AI observations, so that it refuses the filter the integration
  subscribes to when it starts, in every state of the client and of the broker: \<open>Start\<close> records the refusal as the
  integration's error, announces no entity and returns without an error.
\<close>

theorem switch_filter_refused:
  "ham_start env (\<lambda>(f, q). snd (mc_Subscribe br ctx f q True (c, b))) previous m w =
     ((m\<lparr>ham_running := True,
         ham_last_err := Some (case ctx of None \<Rightarrow> ErrorString ''invalid MQTT subscription'' | Some err \<Rightarrow> err)\<rparr>, w), None)"
proof -
  obtain f q where f: "SubscriptionFilter (ham_registry m) PurposeHACommand = ok (f, q)"
    by (simp add: SubscriptionFilter_def)
  with switch_filter_invalid [OF f, of "mc_registry c"] show ?thesis
    by (simp add: ham_start_def mc_Subscribe_def ham_set_error_def ok_def split: option.split)
qed

section \<open>Concrete runs\<close>

definition sample_mqtt :: mqtt_config where
  "sample_mqtt = (cfg_mqtt Defaults)\<lparr>mq_enabled := True, mq_site := ''reef'', mq_broker := ''broker'', mq_client := ''core'',
     mq_queue := 1, mq_jitter := Finite (1 / 4)\<rparr>"

definition sample_client :: mqtt_client where
  "sample_client = newClient sample_mqtt \<lparr>site_id = ''reef''\<rparr>
     \<lparr>codec_site = ''reef'', codec_maximum = 1024, codec_decoded = 0, codec_malformed = 0, codec_oversized = 0,
      codec_expired = 0, codec_unknown = 0, codec_duplicates = 0\<rparr>"

text \<open>A broker that is reachable or not, and accepts what reaches it; it refuses a connection at once.\<close>

definition sample_broker :: "bool broker" where
  "sample_broker =
     \<lparr>br_connected = (\<lambda>b. b),
      br_connect = (\<lambda>b. (\<lparr>tok_complete = (\<lambda>_. True), tok_error = Some (ErrorString ''refused''), tok_events = []\<rparr>, b)),
      br_disconnect = (\<lambda>_ b. False),
      br_publish = (\<lambda>_ _ _ _ b. (\<lparr>tok_complete = (\<lambda>_. True), tok_error = None, tok_events = []\<rparr>, b)),
      br_subscribe = (\<lambda>_ _ b. (\<lparr>tok_complete = (\<lambda>_. True), tok_error = None, tok_events = []\<rparr>, b))\<rparr>"

definition sample_publication :: publication_request where
  "sample_publication = \<lparr>pr_topic = ''reef'', pr_qos = 1, pr_retained = False,
     pr_payload = \<lparr>pay_size = 2, pay_envelope = Inl (ErrorString []), pay_rest = None\<rparr>, pr_expires = None\<rparr>"

lemma sample_mqtt_valid:
  "validate_mqtt (sample_config_env\<lparr>ce_url := (\<lambda>s. Inr \<lparr>url_scheme = ''tcp'', url_host = s, url_user = False,
     url_path = [], url_raw_query = [], url_fragment = []\<rparr>)\<rparr>) sample_mqtt = None"
  by (simp add: validate_mqtt_def sample_mqtt_def Defaults_def identifierPattern_def lower_def url_rejected_def)



theorem registry_topics_publishable_witness:
  "\<exists>r t pol. NewTopicRegistry ''events'' = Inr r \<and> Topic r PurposeAvailability ''core'' = ok (t, pol) \<and>
     validatePublication t (policy_qos pol) (policy_retained pol) \<noteq> None"
proof -
  have r: "NewTopicRegistry ''events'' = Inr \<lparr>site_id = ''events''\<rparr>"
    by (simp add: NewTopicRegistry_def topicSegmentPattern_def lower_def)
  obtain t pol where t: "Topic \<lparr>site_id = ''events''\<rparr> PurposeAvailability ''core'' = ok (t, pol)"
    by (simp add: Topic_def topicSegmentPattern_def lower_def digit_def contains_any_def)
  from registry_topics_publishable [OF r t] r t show ?thesis by (auto simp: retained_purpose_def)
qed

theorem failed_start_never_reconnects_witness:
  "\<exists>c b err. mc_Start sample_broker \<lparr>ce_now = noon, ce_correlation = Inr [], ce_size = (\<lambda>_. 0)\<rparr> (\<lambda>s. (s, None)) [] (sample_client, False) =
       ((c, b), Some err) \<and>
     fst (reconnect_on_signal (\<lambda>_. 0) sample_broker
       [\<lparr>at_random = Finite 0, at_env = \<lparr>ce_now = noon, ce_correlation = Inr [], ce_size = (\<lambda>_. 0)\<rparr>, at_order = [], at_hook = (\<lambda>s. (s, None))\<rparr>] (connection_lost (ErrorString ''lost'') c, True)) = []"
proof -
  obtain c b err where start: "mc_Start sample_broker \<lparr>ce_now = noon, ce_correlation = Inr [], ce_size = (\<lambda>_. 0)\<rparr> (\<lambda>s. (s, None)) []
      (sample_client, False) = ((c, b), Some err)"
    by (simp add: mc_Start_def mc_connect_def sample_broker_def wait_for_def) blast
  have "\<not> mc_running sample_client" by (simp add: sample_client_def newClient_def)
  from failed_start_never_reconnects [OF start this, of "\<lambda>_. 0"
      "[\<lparr>at_random = Finite 0, at_env = \<lparr>ce_now = noon, ce_correlation = Inr [], ce_size = (\<lambda>_. 0)\<rparr>, at_order = [], at_hook = (\<lambda>s. (s, None))\<rparr>]" "ErrorString ''lost''" True] start show ?thesis
    by (auto simp: keeps_cfg_def)
qed

end
