(* ===== verification/Storage.thy ===== *)
theory Storage
  imports MqttRouter GoNet
begin

text \<open>
  The package \<open>internal/storage\<close>: points and their validation, the batching writer (\<open>storage.go\<close>), the
  conversion of events (\<open>events.go\<close>) and the line protocol client (\<open>influx.go\<close>).

  The tags and fields of a point are Go maps; they are kept as the list of their entries in the order in
  which a range visits them. \<open>clonePoint\<close> copies a point so that the caller cannot change it afterwards;
  values here are never shared, so it is the identity and does not appear.

  The writer's goroutine is a step function: one step is one turn of its loop, with the case of the \<open>select\<close>
  and the outcome of \<open>wait\<close> as arguments.
\<close>

section \<open>Points\<close>

record point_field =
  fl_float :: "float64 option"
  fl_boolean :: "bool option"
  fl_string :: "string option"

definition FloatField :: "float64 \<Rightarrow> point_field" where
  "FloatField v = \<lparr>fl_float = Some v, fl_boolean = None, fl_string = None\<rparr>"

definition BooleanField :: "bool \<Rightarrow> point_field" where
  "BooleanField v = \<lparr>fl_float = None, fl_boolean = Some v, fl_string = None\<rparr>"

definition StringField :: "string \<Rightarrow> point_field" where
  "StringField v = \<lparr>fl_float = None, fl_boolean = None, fl_string = Some v\<rparr>"

record point =
  pt_measurement :: string
  pt_tags :: "(string \<times> string) list"
  pt_fields :: "(string \<times> point_field) list"
  pt_timestamp :: gotime

definition field_count :: "point_field \<Rightarrow> nat" where
  "field_count f = (if fl_float f \<noteq> None then 1 else 0) + (if fl_boolean f \<noteq> None then 1 else 0) +
     (if fl_string f \<noteq> None then 1 else 0)"

definition tag_error :: "string \<times> string \<Rightarrow> go_error option" where
  "tag_error = (\<lambda>(key, v). guard (key = [] \<or> v = [] \<or> length key > 64 \<or> length v > 128) (ErrorFmt ''invalid tag %q'' [key]))"

definition field_error :: "string \<times> point_field \<Rightarrow> go_error option" where
  "field_error = (\<lambda>(key, f). guard (key = [] \<or> length key > 64 \<or> field_count f \<noteq> 1) (ErrorFmt ''invalid field %q'' [key]))"

definition validatePoint :: "point \<Rightarrow> go_error option" where
  "validatePoint p = first_error
     ([guard (pt_measurement p = [] \<or> is_zero (pt_timestamp p) \<or> pt_fields p = [])
         (ErrorString ''measurement, timestamp, and fields are required''),
       guard (length (pt_tags p) > 16 \<or> length (pt_fields p) > 32) (ErrorString ''point exceeds tag or field count limit'')] @
      map tag_error (pt_tags p) @ map field_error (pt_fields p))"

section \<open>The writer\<close>

record storage_config =
  sc_queue :: int
  sc_batch :: int
  sc_flush :: duration
  sc_retry_min :: duration
  sc_retry_max :: duration
  sc_write_timeout :: duration

record writer =
  wr_cfg :: storage_config
  wr_queue :: "point list"
  wr_running :: bool
  wr_error :: "go_error option"
  wr_enqueued :: "64 word"
  wr_written :: "64 word"
  wr_dropped :: "64 word"
  wr_retries :: "64 word"
  wr_failures :: "64 word"

definition st_ErrQueueFull :: go_error where
  "st_ErrQueueFull = Sentinel ''storage.ErrQueueFull''"

definition ErrStopped :: go_error where
  "ErrStopped = Sentinel ''storage.ErrStopped''"

definition NewWriter :: "storage_config \<Rightarrow> bool \<Rightarrow> go_error + writer" where
  "NewWriter cfg dependencies =
     (if \<not> dependencies then Inl (ErrorString ''storage client and logger are required'')
      else if sc_queue cfg < 1 \<or> sc_queue cfg > 1000000 \<or> sc_batch cfg < 1 \<or> sc_batch cfg > sc_queue cfg
      then Inl (ErrorString ''storage queue and batch bounds are invalid'')
      else if sc_flush cfg \<le> 0 \<or> sc_retry_min cfg \<le> 0 \<or> sc_retry_max cfg < sc_retry_min cfg \<or> sc_write_timeout cfg \<le> 0
      then Inl (ErrorString ''storage timing bounds are invalid'')
      else Inr \<lparr>wr_cfg = cfg, wr_queue = [], wr_running = False, wr_error = None, wr_enqueued = 0, wr_written = 0,
                wr_dropped = 0, wr_retries = 0, wr_failures = 0\<rparr>)"

definition Enqueue :: "point \<Rightarrow> writer \<Rightarrow> writer \<times> go_error option" where
  "Enqueue p w =
     (case validatePoint p of
        Some err \<Rightarrow> (w, Some err)
      | None \<Rightarrow>
          if \<not> wr_running w then (w, Some ErrStopped)
          else if int (length (wr_queue w)) < sc_queue (wr_cfg w)
          then (w\<lparr>wr_queue := wr_queue w @ [p], wr_enqueued := wr_enqueued w + 1\<rparr>, None)
          else (w\<lparr>wr_dropped := wr_dropped w + 1\<rparr>, Some st_ErrQueueFull))"

definition disabled_Enqueue :: "point \<Rightarrow> go_error option" where
  "disabled_Enqueue p = Some ErrStopped"

definition disabled_Health :: "gotime \<Rightarrow> status" where
  "disabled_Health now = NewStatus ''storage'' StateHealthy ''disabled'' now"

definition wr_Health :: "(go_error \<Rightarrow> string) \<Rightarrow> gotime \<Rightarrow> writer \<Rightarrow> status" where
  "wr_Health describe now w =
     NewStatus ''storage'' (if wr_running w \<and> wr_error w = None then StateHealthy else StateUnhealthy)
       (case wr_error w of None \<Rightarrow> [] | Some err \<Rightarrow> describe err) now"

record storage_metrics =
  sm_enqueued :: "64 word"
  sm_written :: "64 word"
  sm_dropped :: "64 word"
  sm_retries :: "64 word"
  sm_failures :: "64 word"
  sm_depth :: nat

definition wr_Metrics :: "writer \<Rightarrow> storage_metrics" where
  "wr_Metrics w = \<lparr>sm_enqueued = wr_enqueued w, sm_written = wr_written w, sm_dropped = wr_dropped w,
     sm_retries = wr_retries w, sm_failures = wr_failures w, sm_depth = length (wr_queue w)\<rparr>"

section \<open>The writer's goroutine\<close>

type_synonym 'b store_client = "point list \<Rightarrow> 'b \<Rightarrow> 'b \<times> go_error option"

definition wr_write :: "'b store_client \<Rightarrow> point list \<Rightarrow> writer \<times> 'b \<Rightarrow> (writer \<times> 'b) \<times> go_error option" where
  "wr_write client batch = (\<lambda>(w, b).
     let (b, err) = client batch b; w = w\<lparr>wr_error := err\<rparr>
     in case err of
          Some _ \<Rightarrow> ((w\<lparr>wr_failures := wr_failures w + 1\<rparr>, b), err)
        | None \<Rightarrow> ((w\<lparr>wr_written := wr_written w + of_nat (length batch)\<rparr>, b), None))"

definition wr_final :: "'b store_client \<Rightarrow> point list \<Rightarrow> writer \<times> 'b \<Rightarrow> (writer \<times> 'b) \<times> go_error option" where
  "wr_final client batch s = (if batch = [] then (s, None) else wr_write client batch s)"

fun drain :: "nat \<Rightarrow> point list \<Rightarrow> point list \<Rightarrow> point list \<times> point list" where
  "drain limit batch [] = (batch, [])"
| "drain limit batch (p # queue) =
     (if length batch < limit then drain limit (batch @ [p]) queue else (batch, p # queue))"

definition next_backoff :: "storage_config \<Rightarrow> duration \<Rightarrow> duration" where
  "next_backoff cfg backoff =
     (let doubled = wrap64 (backoff * 2) in if doubled > sc_retry_max cfg then sc_retry_max cfg else doubled)"

datatype select_case = SelectDone | SelectPoint | SelectTick

text \<open>
  What the goroutine holds; \<open>go_outcome\<close> are the points that left it, with whether their batch was written.
\<close>

record 'b goroutine =
  go_writer :: writer
  go_backend :: 'b
  go_batch :: "point list"
  go_backoff :: duration
  go_ended :: bool
  go_outcome :: "(point \<times> bool) list"

definition batch_size :: "'b goroutine \<Rightarrow> nat" where
  "batch_size s = nat (sc_batch (wr_cfg (go_writer s)))"

text \<open>A write of the current batch that is kept when it fails, and the last one that is not.\<close>

definition write_batch :: "'b store_client \<Rightarrow> 'b goroutine \<Rightarrow> 'b goroutine \<times> bool" where
  "write_batch client s =
     (case wr_write client (go_batch s) (go_writer s, go_backend s) of
        ((w, b), None) \<Rightarrow>
          (s\<lparr>go_writer := w, go_backend := b, go_batch := [], go_backoff := sc_retry_min (wr_cfg w),
             go_outcome := go_outcome s @ map (\<lambda>p. (p, True)) (go_batch s)\<rparr>, True)
      | ((w, b), Some _) \<Rightarrow> (s\<lparr>go_writer := w, go_backend := b\<rparr>, False))"

definition end_batch :: "'b store_client \<Rightarrow> 'b goroutine \<Rightarrow> 'b goroutine" where
  "end_batch client s =
     (case wr_final client (go_batch s) (go_writer s, go_backend s) of
        ((w, b), err) \<Rightarrow>
          s\<lparr>go_writer := w, go_backend := b, go_batch := [], go_ended := True,
            go_outcome := go_outcome s @ map (\<lambda>p. (p, err = None)) (go_batch s)\<rparr>)"

definition count_retry :: "'b goroutine \<Rightarrow> 'b goroutine" where
  "count_retry s = s\<lparr>go_writer := (go_writer s)\<lparr>wr_retries := wr_retries (go_writer s) + 1\<rparr>\<rparr>"

definition run_step :: "'b store_client \<Rightarrow> select_case \<Rightarrow> bool \<Rightarrow> 'b goroutine \<Rightarrow> 'b goroutine" where
  "run_step client select waited s =
     (if length (go_batch s) = batch_size s
      then (case write_batch client s of
              (s, True) \<Rightarrow> s
            | (s, False) \<Rightarrow>
                if \<not> waited then end_batch client s
                else count_retry (s\<lparr>go_backoff := next_backoff (wr_cfg (go_writer s)) (go_backoff s)\<rparr>))
      else case select of
        SelectDone \<Rightarrow>
          (case drain (batch_size s) (go_batch s) (wr_queue (go_writer s)) of
             (batch, queue) \<Rightarrow> end_batch client (s\<lparr>go_batch := batch, go_writer := (go_writer s)\<lparr>wr_queue := queue\<rparr>\<rparr>))
      | SelectPoint \<Rightarrow>
          (case wr_queue (go_writer s) of
             [] \<Rightarrow> s
           | p # queue \<Rightarrow> s\<lparr>go_batch := go_batch s @ [p], go_writer := (go_writer s)\<lparr>wr_queue := queue\<rparr>\<rparr>)
      | SelectTick \<Rightarrow>
          if go_batch s = [] then s
          else case write_batch client s of (s, True) \<Rightarrow> s | (s, False) \<Rightarrow> count_retry s)"

definition wr_Start :: "'b goroutine \<Rightarrow> 'b goroutine \<times> go_error option" where
  "wr_Start s =
     (if wr_running (go_writer s) then (s, Some (ErrorString ''storage writer already started''))
      else (s\<lparr>go_writer := (go_writer s)\<lparr>wr_running := True\<rparr>, go_batch := [],
              go_backoff := sc_retry_min (wr_cfg (go_writer s)), go_ended := False\<rparr>, None))"

definition wr_Stop :: "'b goroutine \<Rightarrow> 'b goroutine" where
  "wr_Stop s = s\<lparr>go_writer := (go_writer s)\<lparr>wr_running := False\<rparr>\<rparr>"

text \<open>
  The writer under interleaving: points are offered at any time, the goroutine takes its steps, and it is
  started again only after the last one ended. The second argument lists the points that were accepted, the
  third counts the calls of \<open>Stop\<close>.
\<close>

inductive writer_run :: "'b store_client \<Rightarrow> point list \<Rightarrow> nat \<Rightarrow> 'b goroutine \<Rightarrow> bool" for client where
  new: "NewWriter cfg True = Inr w \<Longrightarrow> writer_run client [] 0
    \<lparr>go_writer = w, go_backend = b, go_batch = [], go_backoff = 0, go_ended = True, go_outcome = []\<rparr>"
| start: "writer_run client ps n s \<Longrightarrow> go_ended s \<Longrightarrow> writer_run client ps n (fst (wr_Start s))"
| stop: "writer_run client ps n s \<Longrightarrow> writer_run client ps (Suc n) (wr_Stop s)"
| offer: "writer_run client ps n s \<Longrightarrow>
    writer_run client (if snd (Enqueue p (go_writer s)) = None then ps @ [p] else ps) n
      (s\<lparr>go_writer := fst (Enqueue p (go_writer s))\<rparr>)"
| step: "writer_run client ps n s \<Longrightarrow> \<not> go_ended s \<Longrightarrow> (select = SelectDone \<or> \<not> waited \<Longrightarrow> \<not> wr_running (go_writer s)) \<Longrightarrow>
    writer_run client ps n (run_step client select waited s)"

section \<open>No point is lost while the writer runs\<close>

definition written_points :: "'b goroutine \<Rightarrow> point list" where
  "written_points s = map fst (filter snd (go_outcome s))"

definition writer_ok :: "point list \<Rightarrow> 'b goroutine \<Rightarrow> bool" where
  "writer_ok ps s \<longleftrightarrow>
     (let w = go_writer s; cfg = wr_cfg w
      in map fst (go_outcome s) @ go_batch s @ wr_queue w = ps \<and>
         int (length (wr_queue w)) \<le> sc_queue cfg \<and> int (length (go_batch s)) \<le> sc_batch cfg \<and>
         1 \<le> sc_batch cfg \<and> 0 < sc_retry_min cfg \<and> sc_retry_min cfg \<le> sc_retry_max cfg \<and>
         (\<not> go_ended s \<longrightarrow> sc_retry_min cfg \<le> go_backoff s \<and> go_backoff s \<le> sc_retry_max cfg) \<and>
         (go_ended s \<longrightarrow> go_batch s = []) \<and>
         wr_enqueued w = of_nat (length ps) \<and> wr_written w = of_nat (length (written_points s)))"

lemma Enqueue_cases:
  obtains (accepted) "validatePoint p = None" "wr_running w" "int (length (wr_queue w)) < sc_queue (wr_cfg w)"
      "Enqueue p w = (w\<lparr>wr_queue := wr_queue w @ [p], wr_enqueued := wr_enqueued w + 1\<rparr>, None)"
  | (full) "validatePoint p = None" "wr_running w" "\<not> int (length (wr_queue w)) < sc_queue (wr_cfg w)"
      "Enqueue p w = (w\<lparr>wr_dropped := wr_dropped w + 1\<rparr>, Some st_ErrQueueFull)"
  | (refused) err where "Enqueue p w = (w, Some err)"
  by (cases "validatePoint p"; cases "wr_running w") (auto simp: Enqueue_def)

lemma drain_spec:
  assumes "drain limit batch queue = (batch', queue')"
  shows "batch' @ queue' = batch @ queue" "length batch \<le> limit \<Longrightarrow> length batch' \<le> limit" "length queue' \<le> length queue"
  using assms by (induction limit batch queue rule: drain.induct) (auto split: if_splits)

lemma write_cases:
  obtains (good) b where "wr_write client batch (w, b0) =
      ((w\<lparr>wr_error := None, wr_written := wr_written w + of_nat (length batch)\<rparr>, b), None)"
  | (bad) b err where "wr_write client batch (w, b0) =
      ((w\<lparr>wr_error := Some err, wr_failures := wr_failures w + 1\<rparr>, b), Some err)"
  by (cases "client batch b0"; cases "snd (client batch b0)") (auto simp: wr_write_def)

lemma write_batch_ok:
  assumes "writer_ok ps s" "\<not> go_ended s" "write_batch client s = (s', done)"
  shows "writer_ok ps s'" "\<not> go_ended s'" "wr_cfg (go_writer s') = wr_cfg (go_writer s)"
  using assms
  by (cases rule: write_cases [of client "go_batch s" "go_writer s" "go_backend s"];
      auto simp: write_batch_def writer_ok_def written_points_def comp_def Let_def)+

lemma end_batch_ok:
  assumes "writer_ok ps s"
  shows "writer_ok ps (end_batch client s)"
  using assms
  by (cases rule: write_cases [of client "go_batch s" "go_writer s" "go_backend s"])
    (auto simp: end_batch_def wr_final_def writer_ok_def written_points_def comp_def Let_def)

lemma next_backoff_bounds:
  assumes "0 < sc_retry_min cfg" "sc_retry_min cfg \<le> b" "b \<le> sc_retry_max cfg" "sc_retry_max cfg < 2 ^ 62"
  shows "sc_retry_min cfg \<le> next_backoff cfg b" "next_backoff cfg b \<le> sc_retry_max cfg" "b \<le> next_backoff cfg b"
proof -
  have "wrap64 (b * 2) = b * 2" using assms by (intro wrap64_id) auto
  then show "sc_retry_min cfg \<le> next_backoff cfg b" "next_backoff cfg b \<le> sc_retry_max cfg" "b \<le> next_backoff cfg b"
    using assms by (auto simp: next_backoff_def Let_def)
qed

lemma run_step_ok:
  assumes ok: "writer_ok ps s" and live: "\<not> go_ended s" and max: "sc_retry_max (wr_cfg (go_writer s)) < 2 ^ 62"
  shows "writer_ok ps (run_step client select waited s)"
proof (cases "length (go_batch s) = batch_size s")
  case True
  obtain s' d where w: "write_batch client s = (s', d)" by fastforce
  note s' = write_batch_ok [OF ok live w]
  have "writer_ok ps (count_retry (s'\<lparr>go_backoff := next_backoff (wr_cfg (go_writer s')) (go_backoff s')\<rparr>))"
    using s' max next_backoff_bounds [of "wr_cfg (go_writer s')" "go_backoff s'"]
    by (auto simp: writer_ok_def count_retry_def written_points_def Let_def)
  then show ?thesis using True s'(1) end_batch_ok [OF s'(1)] by (cases d) (simp_all add: run_step_def w)
next
  case False
  then have room: "int (length (go_batch s)) < sc_batch (wr_cfg (go_writer s))"
    using ok by (auto simp: writer_ok_def batch_size_def Let_def)
  show ?thesis
  proof (cases select)
    case SelectDone
    obtain batch queue where d: "drain (batch_size s) (go_batch s) (wr_queue (go_writer s)) = (batch, queue)" by fastforce
    have len: "int (length batch) \<le> sc_batch (wr_cfg (go_writer s))"
    proof -
      have "length (go_batch s) \<le> batch_size s" using room by (simp add: batch_size_def)
      from drain_spec(2) [OF d this] room show ?thesis by (simp add: batch_size_def)
    qed
    have "writer_ok ps (s\<lparr>go_batch := batch, go_writer := (go_writer s)\<lparr>wr_queue := queue\<rparr>\<rparr>)"
      using ok drain_spec(1,3) [OF d] len live by (auto simp: writer_ok_def written_points_def Let_def)
    from end_batch_ok [OF this] show ?thesis using False SelectDone by (simp add: run_step_def d)
  next
    case SelectPoint
    then show ?thesis using ok False room live
      by (auto simp: run_step_def writer_ok_def written_points_def Let_def split: list.split)
  next
    case SelectTick
    obtain s' d where w: "write_batch client s = (s', d)" by fastforce
    note s' = write_batch_ok [OF ok live w]
    have "writer_ok ps (count_retry s')" using s'(1) by (simp add: writer_ok_def count_retry_def written_points_def Let_def)
    then show ?thesis using SelectTick False s'(1) ok by (cases d) (simp_all add: run_step_def w)
  qed
qed

definition lost_points :: "'b goroutine \<Rightarrow> nat" where
  "lost_points s = length (filter (\<lambda>x. \<not> snd x) (go_outcome s))"

lemma write_batch_frame:
  assumes "write_batch client s = (s', d)"
  shows "lost_points s' = lost_points s" "go_ended s' = go_ended s" "wr_running (go_writer s') = wr_running (go_writer s)"
    "wr_cfg (go_writer s') = wr_cfg (go_writer s)" "length (go_batch s') \<le> length (go_batch s)"
  using assms
  by (cases rule: write_cases [of client "go_batch s" "go_writer s" "go_backend s"];
      auto simp: write_batch_def lost_points_def comp_def)+

lemma end_batch_frame:
  "lost_points (end_batch client s) \<le> lost_points s + length (go_batch s)" "go_ended (end_batch client s)"
  "wr_running (go_writer (end_batch client s)) = wr_running (go_writer s)"
  "wr_cfg (go_writer (end_batch client s)) = wr_cfg (go_writer s)"
  by (cases rule: write_cases [of client "go_batch s" "go_writer s" "go_backend s"];
      simp add: end_batch_def wr_final_def lost_points_def comp_def)+

lemma run_step_frame:
  "wr_running (go_writer (run_step client select waited s)) = wr_running (go_writer s)"
  "wr_cfg (go_writer (run_step client select waited s)) = wr_cfg (go_writer s)"
  "length (go_batch s) \<le> batch_size s \<Longrightarrow>
     lost_points (run_step client select waited s) = lost_points s \<and> go_ended (run_step client select waited s) = go_ended s \<or>
     lost_points (run_step client select waited s) \<le> lost_points s + batch_size s \<and> go_ended (run_step client select waited s) \<and>
       (select = SelectDone \<or> \<not> waited)"
proof -
  obtain s' d where w: "write_batch client s = (s', d)" by fastforce
  obtain batch queue where q: "drain (batch_size s) (go_batch s) (wr_queue (go_writer s)) = (batch, queue)" by fastforce
  let ?q = "s\<lparr>go_batch := batch, go_writer := (go_writer s)\<lparr>wr_queue := queue\<rparr>\<rparr>"
  note f = write_batch_frame [OF w] end_batch_frame [of client s'] end_batch_frame [of client ?q]
  have keep: "lost_points (count_retry x) = lost_points x" "go_ended (count_retry x) = go_ended x" "wr_running (go_writer (count_retry x)) = wr_running (go_writer x)"
    "wr_cfg (go_writer (count_retry x)) = wr_cfg (go_writer x)" "lost_points (x\<lparr>go_backoff := b\<rparr>) = lost_points x"
    "lost_points (x\<lparr>go_batch := c, go_writer := v\<rparr>) = lost_points x" for x :: "'a goroutine" and b c v
    by (simp_all add: count_retry_def lost_points_def)
  show "wr_running (go_writer (run_step client select waited s)) = wr_running (go_writer s)"
    "wr_cfg (go_writer (run_step client select waited s)) = wr_cfg (go_writer s)"
    using f by (cases select; cases d; simp add: run_step_def w q keep split: list.split)+
  assume len: "length (go_batch s) \<le> batch_size s"
  then have "length batch \<le> batch_size s" by (rule drain_spec(2) [OF q])
  with len show "lost_points (run_step client select waited s) = lost_points s \<and> go_ended (run_step client select waited s) = go_ended s \<or>
     lost_points (run_step client select waited s) \<le> lost_points s + batch_size s \<and> go_ended (run_step client select waited s) \<and>
       (select = SelectDone \<or> \<not> waited)"
    using f by (cases select; cases d; auto simp: run_step_def w q keep split: list.split)
qed

lemma writer_run_ok:
  assumes "writer_run client ps n s" "sc_retry_max (wr_cfg (go_writer s)) < 2 ^ 62"
  shows "writer_ok ps s \<and> (go_ended s \<longrightarrow> \<not> wr_running (go_writer s)) \<and>
    lost_points s + (if \<not> go_ended s \<and> \<not> wr_running (go_writer s) then batch_size s else 0) \<le> n * batch_size s"
  using assms
proof (induction rule: writer_run.induct)
  case (new cfg w b)
  then show ?case
    by (auto simp: NewWriter_def writer_ok_def written_points_def lost_points_def batch_size_def split: if_splits)
next
  case (start ps n s)
  then show ?case
    by (auto simp: wr_Start_def writer_ok_def written_points_def lost_points_def batch_size_def Let_def split: if_splits)
next
  case (stop ps n s)
  then show ?case
    by (auto simp: wr_Stop_def writer_ok_def written_points_def lost_points_def batch_size_def Let_def split: if_splits)
next
  case (offer ps n s p)
  then show ?case
    by (cases rule: Enqueue_cases [of p "go_writer s"])
      (auto simp: writer_ok_def written_points_def lost_points_def batch_size_def Let_def split: if_splits)
next
  case (step ps n s select waited)
  let ?s = "run_step client select waited s"
  have cfg: "wr_cfg (go_writer ?s) = wr_cfg (go_writer s)" by (rule run_step_frame)
  then have size: "batch_size ?s = batch_size s" by (simp add: batch_size_def)
  from step cfg have ok: "writer_ok ps s"
    and lost: "lost_points s + (if \<not> wr_running (go_writer s) then batch_size s else 0) \<le> n * batch_size s" by auto
  then have len: "length (go_batch s) \<le> batch_size s" by (auto simp: writer_ok_def batch_size_def Let_def)
  have "writer_ok ps ?s" using run_step_ok [OF ok step.hyps(2)] step.prems cfg by simp
  with run_step_frame(1) [of client select waited s] run_step_frame(3) [OF len, of client select waited] step.hyps(2,3) lost size
  show ?case by (auto split: if_splits)
qed



section \<open>Points of events\<close>

text \<open>What the sink reads from an event: the value, the result or the alarm that its type stands for.\<close>

datatype stored_payload = StoredState state_value | StoredResult result | StoredAlarm alarm | StoredOther

fun command_status_string :: "command_status \<Rightarrow> string" where
  "command_status_string StatusValidated = ''validated''"
| "command_status_string StatusRejected = ''rejected''"
| "command_status_string StatusDispatched = ''dispatched''"
| "command_status_string StatusAcknowledged = ''acknowledged''"
| "command_status_string StatusSucceeded = ''succeeded''"
| "command_status_string StatusFailed = ''failed''"
| "command_status_string StatusExpired = ''expired''"

fun alarm_status_string :: "alarm_status \<Rightarrow> string" where
  "alarm_status_string AlarmStatusActive = ''active''"
| "alarm_status_string AlarmStatusAcknowledged = ''acknowledged''"
| "alarm_status_string AlarmStatusCleared = ''cleared''"
| "alarm_status_string (AlarmStatusOther s) = s"

fun severity_string :: "severity \<Rightarrow> string" where
  "severity_string SeverityDebug = ''debug''"
| "severity_string SeverityInfo = ''info''"
| "severity_string SeverityWarning = ''warning''"
| "severity_string SeverityCritical = ''critical''"
| "severity_string (SeverityOther s) = s"

definition base_tags :: "'v event \<Rightarrow> (string \<times> string) list" where
  "base_tags e = [(''event_type'', event_type_string (ev_type e)), (''severity'', severity_string (ev_severity e)),
     (''source'', ev_source e)]"

definition state_point :: "'v event \<Rightarrow> state_value \<Rightarrow> point" where
  "state_point e v =
     (let tags = base_tags e @ [(''entity_kind'', entity_kind_string (key_kind (sv_key v))), (''entity_id'', key_entity (sv_key v)),
            (''attribute'', key_attribute (sv_key v))];
          fs = [(''correlation_id'', StringField (ev_correlation e)), (''quality'', StringField (quality_string (sv_quality v))),
            (''revision'', StringField (decimal (unat (sv_revision v))))]
      in case value_quantity (sv_value v) of
           Some q \<Rightarrow>
             \<lparr>pt_measurement = ''aquaos_measurements_v1'',
              pt_tags = tags @ [(''quantity'', quantity_kind_string (quantity_kind q)), (''unit'', unit_string (quantity_unit q))],
              pt_fields = fs @ [(''value'', FloatField (quantity_value q))], pt_timestamp = ev_timestamp e\<rparr>
         | None \<Rightarrow>
             \<lparr>pt_measurement = ''aquaos_equipment_state_v1'', pt_tags = tags,
              pt_fields = fs @ (case value_boolean (sv_value v) of
                  Some b \<Rightarrow> [(''value'', BooleanField b)]
                | None \<Rightarrow> (case value_text (sv_value v) of Some t \<Rightarrow> [(''value'', StringField t)] | None \<Rightarrow> [])),
              pt_timestamp = ev_timestamp e\<rparr>)"

definition result_point :: "'v event \<Rightarrow> result \<Rightarrow> point" where
  "result_point e r =
     \<lparr>pt_measurement = ''aquaos_command_outcomes_v1'',
      pt_tags = base_tags e @ [(''equipment_id'', cmd_equipment (res_command r)),
        (''status'', command_status_string (res_status r)), (''reason'', res_reason r)],
      pt_fields = [(''correlation_id'', StringField (ev_correlation e)), (''command_id'', StringField (cmd_id (res_command r))),
        (''on'', BooleanField (cmd_on (res_command r)))],
      pt_timestamp = ev_timestamp e\<rparr>"

definition alarm_point :: "'v event \<Rightarrow> alarm \<Rightarrow> point" where
  "alarm_point e a =
     \<lparr>pt_measurement = ''aquaos_alarms_v1'',
      pt_tags = base_tags e @ [(''alarm_code'', al_code a), (''status'', alarm_status_string (al_status a)),
        (''subject_kind'', subject_kind (al_subject a))],
      pt_fields = [(''correlation_id'', StringField (ev_correlation e)), (''alarm_id'', StringField (al_id a)),
        (''subject_id'', StringField (subject_id (al_subject a))), (''condition_active'', BooleanField (al_condition a))],
      pt_timestamp = ev_timestamp e\<rparr>"

text \<open>
  \<open>pointFromEvent\<close>; a payload that is no JSON of the expected type is not converted. A payload of another
  type is one that the decoder reads as the zero value where the names of the members differ; the services
  never publish such an event, and it is not converted here.
\<close>

definition pointFromEvent :: "stored_payload event \<Rightarrow> point option" where
  "pointFromEvent e =
     (if ev_type e = StateChanged
      then (case ev_payload e of RawJSON (StoredState v) \<Rightarrow> Some (state_point e v) | _ \<Rightarrow> None)
      else if ev_type e \<in> {CommandValidated, CommandRejected, CommandDispatched, CommandAcknowledged, CommandReconciled, CommandExpired}
      then (case ev_payload e of RawJSON (StoredResult r) \<Rightarrow> Some (result_point e r) | _ \<Rightarrow> None)
      else if ev_type e \<in> {AlarmRaised, AlarmAcknowledged, AlarmCleared, AlarmEscalated}
      then (case ev_payload e of RawJSON (StoredAlarm a) \<Rightarrow> Some (alarm_point e a) | _ \<Rightarrow> None)
      else None)"

definition NewEventSink :: "bool \<Rightarrow> go_error option" where
  "NewEventSink dependencies = guard (\<not> dependencies) (ErrorString ''event storage and logger are required'')"

definition stored_events :: "event_type list" where
  "stored_events = [StateChanged, CommandValidated, CommandRejected, CommandDispatched, CommandAcknowledged, CommandReconciled,
     CommandExpired, AlarmRaised, AlarmAcknowledged, AlarmCleared, AlarmEscalated]"

definition sink_Attach :: "bus \<Rightarrow> bus \<times> nat list ret" where
  "sink_Attach b = attach_loop stored_events [] b"

definition sink_Handle :: "stored_payload event \<Rightarrow> writer \<Rightarrow> writer \<times> go_error option" where
  "sink_Handle e w = (case pointFromEvent e of None \<Rightarrow> (w, None) | Some p \<Rightarrow> (fst (Enqueue p w), None))"

section \<open>The line protocol\<close>

text \<open>
  The formatting of a float, of a quoted string and of a query value are those of the standard library; they
  are arguments, since only the bytes they produce matter.
\<close>

record formats =
  fm_float :: "float64 \<Rightarrow> string"
  fm_quote :: "string \<Rightarrow> string"
  fm_query :: "string \<Rightarrow> string"

definition escape_with :: "string \<Rightarrow> string \<Rightarrow> string" where
  "escape_with special s = concat (map (\<lambda>c. if c \<in> set special then [CHR 0x5C, c] else [c]) s)"

definition escapeMeasurement :: "string \<Rightarrow> string" where
  "escapeMeasurement s = escape_with '', '' s"

definition escapeTag :: "string \<Rightarrow> string" where
  "escapeTag s = escape_with '', ='' s"

definition sortedKeys :: "(string \<times> 'a) list \<Rightarrow> string list" where
  "sortedKeys entries = sort (map fst entries)"

definition encode_tag :: "point \<Rightarrow> string \<Rightarrow> string" where
  "encode_tag p key = '','' @ escapeTag key @ ''='' @ escapeTag (the (map_of (pt_tags p) key))"

definition encode_field_value :: "formats \<Rightarrow> point_field \<Rightarrow> string" where
  "encode_field_value fm f =
     (case fl_float f of
        Some x \<Rightarrow> fm_float fm x
      | None \<Rightarrow>
          (case fl_boolean f of
             Some b \<Rightarrow> if b then ''true'' else ''false''
           | None \<Rightarrow> (case fl_string f of Some s \<Rightarrow> fm_quote fm s | None \<Rightarrow> [])))"

definition encode_field :: "formats \<Rightarrow> point \<Rightarrow> string \<Rightarrow> string" where
  "encode_field fm p key = escapeTag key @ ''='' @ encode_field_value fm (the (map_of (pt_fields p) key))"

definition encodePoint :: "formats \<Rightarrow> point \<Rightarrow> string" where
  "encodePoint fm p =
     escapeMeasurement (pt_measurement p) @ concat (map (encode_tag p) (sortedKeys (pt_tags p))) @ '' '' @
     join_with '','' (map (encode_field fm p) (sortedKeys (pt_fields p))) @ '' '' @
     itoa (unix_nano (pt_timestamp p)) @ [CHR 0x0A]"

record influx_client =
  ic_endpoint :: string
  ic_token :: string

definition NewInfluxClient :: "formats \<Rightarrow> url_parser \<Rightarrow> (url \<Rightarrow> string) \<Rightarrow> string \<Rightarrow> string \<Rightarrow> string \<Rightarrow> string \<Rightarrow> bool \<Rightarrow> go_error + influx_client" where
  "NewInfluxClient fm parse render address organization bucket token http =
     (if \<not> http then Inl (ErrorString ''influx HTTP client is required'')
      else case parse address of
        Inl _ \<Rightarrow> Inl (ErrorString ''influx URL must be an HTTP or HTTPS origin'')
      | Inr u \<Rightarrow>
          if url_host u = [] \<or> url_scheme u \<noteq> ''http'' \<and> url_scheme u \<noteq> ''https''
          then Inl (ErrorString ''influx URL must be an HTTP or HTTPS origin'')
          else if url_user u \<or> url_raw_query u \<noteq> [] \<or> url_fragment u \<noteq> []
          then Inl (ErrorString ''influx URL must not contain credentials, query, or fragment'')
          else if organization = [] \<or> bucket = [] \<or> token = []
          then Inl (ErrorString ''influx organization, bucket, and token are required'')
          else Inr \<lparr>ic_endpoint = rev (dropWhile (\<lambda>c. c = CHR ''/'') (rev (render u))) @ ''/api/v2/write?org='' @
                      fm_query fm organization @ ''&bucket='' @ fm_query fm bucket @ ''&precision=ns'',
                    ic_token = token\<rparr>)"

fun encode_batch :: "formats \<Rightarrow> point list \<Rightarrow> go_error + string" where
  "encode_batch fm [] = Inr []"
| "encode_batch fm (p # ps) =
     (case validatePoint p of
        Some err \<Rightarrow> Inl err
      | None \<Rightarrow> (case encode_batch fm ps of Inl err \<Rightarrow> Inl err | Inr body \<Rightarrow> Inr (encodePoint fm p @ body)))"

record influx_request =
  ir_endpoint :: string
  ir_headers :: "(string \<times> string) list"
  ir_body :: string

text \<open>\<open>Write\<close>; the server is a function of the request to the status and the text of the answer.\<close>

definition influx_Write ::
  "formats \<Rightarrow> influx_client \<Rightarrow> (influx_request \<Rightarrow> 'b \<Rightarrow> 'b \<times> (go_error + int \<times> string)) \<Rightarrow> 'b store_client"
where
  "influx_Write fm c server points b =
     (if points = [] then (b, None)
      else case encode_batch fm points of
        Inl err \<Rightarrow> (b, Some err)
      | Inr body \<Rightarrow>
          (case server \<lparr>ir_endpoint = ic_endpoint c,
                  ir_headers = [(''Authorization'', ''Token '' @ ic_token c), (''Content-Type'', ''text/plain; charset=utf-8'')],
                  ir_body = body\<rparr> b of
             (b, Inl err) \<Rightarrow> (b, Some (Wrapped ''write influx batch'' err))
           | (b, Inr (status, answer)) \<Rightarrow>
               (b, if status < 200 \<or> status \<ge> 300
                   then Some (ErrorFmt ''influx write returned %d: %s'' [itoa status, trim_space (take 1024 answer)]) else None)))"

section \<open>Every committed state is recorded\<close>

lemma known_kind_string: "known_kind k \<Longrightarrow> entity_kind_string k \<noteq> [] \<and> length (entity_kind_string k) \<le> 128"
  by (cases k) auto

lemma valid_severity_string: "severity_rank s \<noteq> 0 \<Longrightarrow> severity_string s \<noteq> [] \<and> length (severity_string s) \<le> 128"
  by (cases s) auto

lemma canonical_unit_strings:
  "canonical_unit k = Some u \<Longrightarrow> quantity_kind_string k \<noteq> [] \<and> length (quantity_kind_string k) \<le> 128 \<and>
     unit_string u \<noteq> [] \<and> length (unit_string u) \<le> 128"
  by (cases k) auto

lemma field_count_one [simp]:
  "field_count (FloatField x) = 1" "field_count (BooleanField b) = 1" "field_count (StringField s) = 1"
  by (simp_all add: field_count_def FloatField_def BooleanField_def StringField_def)

lemma state_point_valid:
  assumes "event_validate e = None" "ev_type e = StateChanged" "length (ev_source e) \<le> 128"
    and "sv_validate v = None" "length (key_attribute (sv_key v)) \<le> 128"
  shows "validatePoint (state_point e v) = None"
proof -
  have e: "\<not> is_zero (ev_timestamp e)" "ev_source e \<noteq> []" "severity_rank (ev_severity e) \<noteq> 0"
    using assms(1) by (auto simp: event_validate_def)
  have v: "known_kind (key_kind (sv_key v))" "validateUUID (key_entity (sv_key v)) = None" "key_attribute (sv_key v) \<noteq> []"
    and valid: "value_validate (sv_value v) = None"
    using assms(4) by (auto simp: sv_validate_def)
  have i: "key_entity (sv_key v) \<noteq> []" "length (key_entity (sv_key v)) \<le> 128" using validateUUID_length [OF v(2)] by auto
  note strings = known_kind_string [OF v(1)] valid_severity_string [OF e(3)]
  show ?thesis
  proof (cases "value_quantity (sv_value v)")
    case None
    then show ?thesis using e v i strings assms(2,3,5)
      by (auto simp: validatePoint_def state_point_def base_tags_def tag_error_def field_error_def Let_def split: option.split)
  next
    case (Some q)
    with valid have "canonical_unit (quantity_kind q) = Some (quantity_unit q)"
      unfolding value_validate_None by (auto simp: NewQuantityValue_def NewBooleanValue_def NewTextValue_def dest: quantity_validate_unit)
    from canonical_unit_strings [OF this] Some show ?thesis using e v i strings assms(2,3,5)
      by (auto simp: validatePoint_def state_point_def base_tags_def tag_error_def field_error_def Let_def)
  qed
qed

text \<open>
  Every state change that is committed becomes a valid point: for an event the bus accepts, carrying a value
  the state manager accepts, whose source and attribute fit into a tag, a running writer with room takes the
  point, with the timestamp of the event, and reports no error to the bus whatever state it is in.
\<close>

theorem state_changes_are_recorded:
  assumes "event_validate e = None" "ev_type e = StateChanged" "ev_payload e = RawJSON (StoredState v)" "sv_validate v = None"
    and "length (ev_source e) \<le> 128" "length (key_attribute (sv_key v)) \<le> 128"
    and "wr_running w" "int (length (wr_queue w)) < sc_queue (wr_cfg w)"
  shows "sink_Handle e w = (w\<lparr>wr_queue := wr_queue w @ [state_point e v], wr_enqueued := wr_enqueued w + 1\<rparr>, None) \<and>
    pt_timestamp (state_point e v) = ev_timestamp e"
  using state_point_valid [OF assms(1,2,5,4,6)] assms
  by (auto simp: sink_Handle_def pointFromEvent_def Enqueue_def state_point_def Let_def split: option.split)

section \<open>Escaping\<close>

text \<open>The reading of an escaped text: a backslash before a special character is dropped.\<close>

fun unescape_with :: "string \<Rightarrow> string \<Rightarrow> string" where
  "unescape_with special [] = []"
| "unescape_with special [c] = [c]"
| "unescape_with special (c # d # s) =
     (if c = CHR 0x5C \<and> d \<in> set special then d # unescape_with special s else c # unescape_with special (d # s))"

lemma unescape_plain: "c \<noteq> CHR 0x5C \<or> s = [] \<or> hd s \<notin> set special \<Longrightarrow>
    unescape_with special (c # s) = c # unescape_with special s"
  by (cases s) auto

lemma escape_hd: "CHR 0x5C \<notin> set special \<Longrightarrow> escape_with special s = [] \<or> hd (escape_with special s) \<notin> set special"
  by (cases s) (auto simp: escape_with_def)

lemma unescape_escape: "CHR 0x5C \<notin> set special \<Longrightarrow> unescape_with special (escape_with special s) = s"
proof (induction s)
  case (Cons c s)
  have e: "escape_with special (c # s) = (if c \<in> set special then [CHR 0x5C, c] else [c]) @ escape_with special s"
    by (simp add: escape_with_def)
  show ?case using Cons unescape_plain [of c "escape_with special s" special] escape_hd [OF Cons.prems, of s] by (simp add: e)
qed (simp add: escape_with_def)

lemma escapeTag_roundtrip: "unescape_with '', ='' (escapeTag s) = s"
  by (simp add: escapeTag_def unescape_escape)

section \<open>Concrete runs\<close>

definition sample_storage :: storage_config where
  "sample_storage = \<lparr>sc_queue = 2, sc_batch = 1, sc_flush = 5000000000, sc_retry_min = 1000000000, sc_retry_max = 60000000000,
     sc_write_timeout = 5000000000\<rparr>"

definition sample_writer :: writer where
  "sample_writer = \<lparr>wr_cfg = sample_storage, wr_queue = [], wr_running = False, wr_error = None, wr_enqueued = 0, wr_written = 0,
     wr_dropped = 0, wr_retries = 0, wr_failures = 0\<rparr>"

definition sample_point :: point where
  "sample_point = \<lparr>pt_measurement = ''aquaos_alarms_v1'', pt_tags = [(''status'', ''active'')],
     pt_fields = [(''condition_active'', BooleanField True)], pt_timestamp = noon\<rparr>"

text \<open>A backend that counts the attempts and refuses all but the second.\<close>

definition sample_backend :: "nat store_client" where
  "sample_backend ps n = (Suc n, if n = 1 then None else Some (ErrorString ''unavailable''))"

text \<open>
  The writer after two points were accepted, the first was written at the second attempt, the second is in the batch,
  and \<open>Stop\<close> was called.
\<close>

definition busy_writer :: "nat goroutine" where
  "busy_writer =
     \<lparr>go_writer = sample_writer\<lparr>wr_error := None, wr_enqueued := 2, wr_written := 1, wr_retries := 1, wr_failures := 1\<rparr>,
      go_backend = 2, go_batch = [sample_point], go_backoff = 1000000000, go_ended = False, go_outcome = [(sample_point, True)]\<rparr>"

lemma sample_point_valid: "validatePoint sample_point = None"
  by (simp add: validatePoint_def sample_point_def tag_error_def field_error_def)

lemma busy_writer_run: "writer_run sample_backend [sample_point, sample_point] 1 busy_writer"
proof -
  let ?p = sample_point
  let ?s = "\<lambda>w n batch backoff out. \<lparr>go_writer = sample_writer\<lparr>wr_running := True\<rparr>\<lparr>wr_queue := fst w, wr_error := fst (snd w),
      wr_enqueued := 2, wr_written := fst (snd (snd w)), wr_retries := snd (snd (snd w)), wr_failures := snd (snd (snd w))\<rparr>,
      go_backend = n, go_batch = batch, go_backoff = backoff, go_ended = False, go_outcome = out\<rparr> :: nat goroutine"
  have "NewWriter sample_storage True = Inr sample_writer" by (simp add: NewWriter_def sample_storage_def sample_writer_def)
  from writer_run.start [OF writer_run.new [OF this, of sample_backend "0 :: nat"]]
  have "writer_run sample_backend [] 0 (?s ([], None, 0, 0) 0 [] 1000000000 []\<lparr>go_writer := sample_writer\<lparr>wr_running := True\<rparr>\<rparr>)"
    by (simp add: wr_Start_def) (simp add: sample_writer_def sample_storage_def)
  from writer_run.offer [OF this, of ?p]
  have "writer_run sample_backend [?p] 0 (?s ([], None, 0, 0) 0 [] 1000000000 []\<lparr>go_writer := sample_writer\<lparr>wr_running := True, wr_queue := [?p], wr_enqueued := 1\<rparr>\<rparr>)"
    by (simp add: Enqueue_def sample_point_valid) (simp add: sample_writer_def sample_storage_def)
  from writer_run.offer [OF this, of ?p]
  have r: "writer_run sample_backend [?p, ?p] 0 (?s ([?p, ?p], None, 0, 0) 0 [] 1000000000 [])"
    by (simp add: Enqueue_def sample_point_valid) (simp add: sample_writer_def sample_storage_def)
  have step: "writer_run sample_backend [?p, ?p] 0 s'" if "writer_run sample_backend [?p, ?p] 0 s" "\<not> go_ended s"
    "run_step sample_backend SelectPoint True s = s'" for s s'
    using writer_run.step [OF that(1,2), of SelectPoint True] that(3) by simp
  note run = run_step_def write_batch_def wr_write_def count_retry_def batch_size_def next_backoff_def sample_backend_def
    sample_writer_def sample_storage_def wrap64_def
  have "writer_run sample_backend [?p, ?p] 0 (?s ([?p], None, 0, 0) 0 [?p] 1000000000 [])"
    by (rule step [OF r]) (simp_all add: run)
  then have "writer_run sample_backend [?p, ?p] 0 (?s ([?p], Some (ErrorString ''unavailable''), 0, 1) 1 [?p] 2000000000 [])"
    by (rule step) (simp_all add: run)
  then have "writer_run sample_backend [?p, ?p] 0 (?s ([?p], None, 1, 1) 2 [] 1000000000 [(?p, True)])"
    by (rule step) (simp_all add: run)
  then have "writer_run sample_backend [?p, ?p] 0 (?s ([], None, 1, 1) 2 [?p] 1000000000 [(?p, True)])"
    by (rule step) (simp_all add: run)
  from writer_run.stop [OF this] show ?thesis by (simp add: busy_writer_def wr_Stop_def sample_writer_def)
qed

lemma busy_writer_state:
  "go_outcome busy_writer = [(sample_point, True)]" "go_batch busy_writer = [sample_point]" "wr_queue (go_writer busy_writer) = []"
  "wr_cfg (go_writer busy_writer) = sample_storage" "\<not> wr_running (go_writer busy_writer)" "\<not> go_ended busy_writer"
  by (simp_all add: busy_writer_def sample_writer_def)



theorem state_changes_are_recorded_witness:
  "let e = \<lparr>ev_timestamp = noon, ev_source = ''state'', ev_type = StateChanged, ev_severity = SeverityInfo,
       ev_payload = RawJSON (StoredState sample_value), ev_correlation = sample_id 1\<rparr>
   in length (wr_queue (fst (sink_Handle e (sample_writer\<lparr>wr_running := True\<rparr>)))) = 1"
proof -
  let ?e = "\<lparr>ev_timestamp = noon, ev_source = ''state'', ev_type = StateChanged, ev_severity = SeverityInfo,
       ev_payload = RawJSON (StoredState sample_value), ev_correlation = sample_id 1\<rparr>"
  have "event_validate ?e = None" by (simp add: event_validate_def json_valid_def)
  from state_changes_are_recorded [OF this, of sample_value "sample_writer\<lparr>wr_running := True\<rparr>"] sample_value_valid show ?thesis
    by (simp add: sample_writer_def sample_storage_def) (simp add: sample_value_def sample_key_def)
qed

end
