(* ===== verification/RateLimit.thy ===== *)
theory RateLimit
  imports GoRound GoNet
begin

text \<open>
  The token buckets of the HTTP servers: \<open>rateLimiter\<close> of \<open>internal/api/v1.go\<close> and its copy
  \<open>requestLimiter\<close> of \<open>internal/admin/rate_limit.go\<close>. A bucket holds \<open>float64\<close> tokens; the model
  rounds where the machine does. The bound on admitted requests states the rounding error.
\<close>

record bucket =
  bk_tokens :: float64
  bk_updated :: gotime

record rate_limiter =
  rl_rate :: float64
  rl_burst :: float64
  rl_maximum :: int
  rl_clients :: "string \<rightharpoonup> bucket"

definition newRateLimiter :: "int \<Rightarrow> int \<Rightarrow> rate_limiter" where
  "newRateLimiter rate burst =
     (let rate = (if rate < 1 then 1 else rate); burst = (if burst < 1 then 1 else burst)
      in \<lparr>rl_rate = f64_round (of_int rate), rl_burst = f64_round (of_int burst), rl_maximum = 1024,
          rl_clients = Map.empty\<rparr>)"

definition newRequestLimiter :: "int \<Rightarrow> int \<Rightarrow> int \<Rightarrow> rate_limiter" where
  "newRequestLimiter rate burst maximum =
     \<lparr>rl_rate = f64_round (of_int rate), rl_burst = f64_round (of_int burst), rl_maximum = maximum,
      rl_clients = Map.empty\<rparr>"

text \<open>\<open>Duration.Seconds\<close>: whole seconds and the rest, divided in \<open>float64\<close>.\<close>

definition seconds :: "duration \<Rightarrow> float64" where
  "seconds d =
     (let whole = sgn d * (\<bar>d\<bar> div 10 ^ 9); rest = sgn d * (\<bar>d\<bar> mod 10 ^ 9)
      in f64_add (f64_round (of_int whole)) (f64_round (of_int rest / 10 ^ 9)))"

text \<open>
  The search for the client to forget, in the order in which the language ranges over the map: the
  empty key counts as none found yet.
\<close>

fun oldest_loop :: "(string \<rightharpoonup> bucket) \<Rightarrow> string list \<Rightarrow> string \<Rightarrow> gotime \<Rightarrow> string" where
  "oldest_loop m [] oldestKey oldest = oldestKey"
| "oldest_loop m (candidate # rest) oldestKey oldest =
     (case m candidate of
        None \<Rightarrow> oldest_loop m rest oldestKey oldest
      | Some v \<Rightarrow>
          if oldestKey = [] \<or> bk_updated v < oldest then oldest_loop m rest candidate (bk_updated v)
          else oldest_loop m rest oldestKey oldest)"

definition evict :: "string list \<Rightarrow> rate_limiter \<Rightarrow> rate_limiter" where
  "evict ord l =
     (if rl_maximum l \<le> int (card (dom (rl_clients l)))
      then l\<lparr>rl_clients := (rl_clients l)(oldest_loop (rl_clients l) ord [] 0 := None)\<rparr>
      else l)"

definition refill :: "rate_limiter \<Rightarrow> gotime \<Rightarrow> bucket \<Rightarrow> float64" where
  "refill l now b =
     (let tokens = f64_add (bk_tokens b) (f64_mul (seconds (time_sub now (bk_updated b))) (rl_rate l))
      in if f64_lt (rl_burst l) tokens then rl_burst l else tokens)"

definition allow :: "string list \<Rightarrow> string \<Rightarrow> gotime \<Rightarrow> rate_limiter \<Rightarrow> rate_limiter \<times> bool" where
  "allow ord key now l =
     (case rl_clients l key of
        None \<Rightarrow>
          (let l = evict ord l
           in (l\<lparr>rl_clients := (rl_clients l)(key \<mapsto>
                 \<lparr>bk_tokens = f64_sub (rl_burst l) (Finite 1), bk_updated = now\<rparr>)\<rparr>, True))
      | Some b \<Rightarrow>
          (let tokens = refill l now b;
               admitted = \<not> f64_lt tokens (Finite 1);
               tokens = (if admitted then f64_sub tokens (Finite 1) else tokens)
           in (l\<lparr>rl_clients := (rl_clients l)(key \<mapsto> \<lparr>bk_tokens = tokens, bk_updated = now\<rparr>)\<rparr>, admitted)))"

section \<open>Rounding of positive numbers\<close>

lemma round_half_even_ge: "of_int n \<le> y \<Longrightarrow> n \<le> round_half_even y"
proof -
  assume "of_int n \<le> y"
  then have "n \<le> \<lfloor>y\<rfloor>" by (simp add: le_floor_iff)
  then show ?thesis unfolding round_half_even_def Let_def by auto
qed

text \<open>
  A positive number of ordinary size is moved by at most one part in \<open>2 ^ 53\<close>, and never below a power
  of two that it reaches.
\<close>

lemma f64_round_pos:
  assumes "2 powi (- 900) \<le> x" "x < 2 powi 900"
  shows "\<exists>v. f64_round x = Finite v \<and> \<bar>v - x\<bar> \<le> x * 2 powi (- 53) \<and> (1 \<le> x \<longrightarrow> 1 \<le> v)"
proof -
  have pos: "0 < x" using assms(1) by (rule less_le_trans [rotated]) simp
  let ?e = "bin_exponent x"
  have e: "2 powi ?e \<le> x" "x < 2 powi (?e + 1)"
    using bin_exponent_bounds [OF pos] by (simp_all add: two_powi_powi power_int_add)
  have "?e < 900" by (rule bin_exponent_less [OF pos assms(2)])
  moreover have "- 900 \<le> ?e"
  proof (rule ccontr)
    assume "\<not> - 900 \<le> ?e"
    then have "(2 :: rat) powi (?e + 1) \<le> 2 powi (- 900)" by (intro power_int_increasing) auto
    with e(2) assms(1) show False by simp
  qed
  ultimately obtain v where v: "f64_round x = Finite v" "\<bar>v - x\<bar> \<le> 2 powi (?e + 1 - 54)"
    using f64_round_near [of x "?e + 1"] e(2) pos by auto
  have "(2 :: rat) powi (?e + 1 - 54) = 2 powi ?e * 2 powi (- 53)"
    using power_int_add [of "2 :: rat" ?e "- 53"] by simp
  also have "\<dots> \<le> x * 2 powi (- 53)" using e(1) by (intro mult_right_mono) auto
  finally have near: "\<bar>v - x\<bar> \<le> x * 2 powi (- 53)" using v(2) by linarith
  have "1 \<le> v" if "1 \<le> x"
  proof -
    have "0 \<le> ?e"
    proof (rule ccontr)
      assume "\<not> 0 \<le> ?e"
      then have "(2 :: rat) powi (?e + 1) \<le> 2 powi 0" by (intro power_int_increasing) auto
      with e(2) that show False by simp
    qed
    define u :: rat where "u = 2 powi (?e - 52)"
    have u: "two_powi (max (bin_exponent \<bar>x\<bar> - 52) (- 1074)) = u" "0 < u"
      using \<open>0 \<le> ?e\<close> pos by (simp_all add: u_def two_powi_powi)
    have "(2 :: rat) powi ?e = 2 ^ 52 * u"
      using power_int_add [of "2 :: rat" "?e - 52" 52] by (simp add: u_def)
    with e(1) have "of_int (2 ^ 52) \<le> x / u" using u(2) by (simp add: pos_le_divide_eq)
    then have "2 ^ 52 \<le> round_half_even (x / u)" by (rule round_half_even_ge)
    then have "(2 :: rat) ^ 52 \<le> of_int (round_half_even (x / u))"
      by (metis of_int_le_iff of_int_numeral of_int_power)
    then have "2 ^ 52 * u \<le> of_int (round_half_even (x / u)) * u" using u(2) by (intro mult_right_mono) simp_all
    moreover have "v = of_int (round_half_even (x / u)) * u"
      using v(1) pos u(1) by (simp add: f64_round_def Let_def split: if_splits)
    moreover have "(1 :: rat) \<le> 2 powi ?e" using \<open>0 \<le> ?e\<close> power_int_increasing [of 0 ?e "2 :: rat"] by simp
    ultimately show ?thesis using \<open>2 powi ?e = 2 ^ 52 * u\<close> by linarith
  qed
  with v(1) near show ?thesis by blast
qed

section \<open>Tokens\<close>

definition rounding :: rat where
  "rounding = 1 / 2 ^ 53"

lemma rounding_bounds: "0 < rounding" "rounding \<le> 1 / 2"
  by (simp_all add: rounding_def)

lemma rounding_powi: "2 powi (- 53) = rounding"
  by (simp add: rounding_def power_int_minus field_simps)

lemma ordinary_size: "2 powi (- 900) \<le> (1 / 10 ^ 10 :: rat)" "(2 :: rat) ^ 200 \<le> 2 powi 900"
proof -
  have "2 powi (- 900) \<le> (2 powi (- 34) :: rat)" by (intro power_int_increasing) auto
  also have "\<dots> \<le> 1 / 10 ^ 10" by (simp add: power_int_minus field_simps)
  finally show "2 powi (- 900) \<le> (1 / 10 ^ 10 :: rat)" .
  show "(2 :: rat) ^ 200 \<le> 2 powi 900" using power_int_increasing [of 200 900 "2 :: rat"] by simp
qed

lemma f64_round_nonneg:
  assumes "x = 0 \<or> 2 powi (- 900) \<le> x" "x < 2 powi 900"
  shows "\<exists>v. f64_round x = Finite v \<and> 0 \<le> v \<and> x / 2 \<le> v \<and> v \<le> x * (1 + rounding) \<and> (1 \<le> x \<longrightarrow> 1 \<le> v)"
proof (cases "x = 0")
  case False
  then obtain v where v: "f64_round x = Finite v" "\<bar>v - x\<bar> \<le> x * rounding" "1 \<le> x \<longrightarrow> 1 \<le> v"
    using f64_round_pos [of x] assms unfolding rounding_powi by blast
  have pos: "0 < x" using False assms(1) by (auto elim: less_le_trans [rotated])
  have "x * rounding \<le> x * (1 / 2)" using pos rounding_bounds by (intro mult_left_mono) simp_all
  then have "x / 2 \<le> v" using v(2) by (simp only: abs_le_iff) linarith
  moreover have "v \<le> x * (1 + rounding)" using v(2) by (simp add: distrib_left abs_le_iff)
  ultimately show ?thesis using v pos by (intro exI [of _ v]) simp
qed (simp add: f64_round_def)

lemma seconds_split:
  assumes "0 \<le> d" "d < 2 ^ 63"
  shows "seconds d = f64_add (Finite (of_int (d div 10 ^ 9))) (f64_round (of_int (d mod 10 ^ 9) / 10 ^ 9))"
proof -
  have "sgn d * (\<bar>d\<bar> div 10 ^ 9) = d div 10 ^ 9" "sgn d * (\<bar>d\<bar> mod 10 ^ 9) = d mod 10 ^ 9"
    using assms(1) by (cases "d = 0"; simp)+
  moreover have "f64_round (of_int (d div 10 ^ 9)) = Finite (of_int (d div 10 ^ 9))"
    using assms by (intro f64_round_int) simp
  ultimately show ?thesis by (simp only: seconds_def Let_def)
qed

lemma seconds_bounds:
  assumes "0 \<le> d" "d < 2 ^ 63"
  shows "\<exists>s. seconds d = Finite s \<and> (s = 0 \<or> 1 / 10 ^ 10 \<le> s) \<and> s < 2 ^ 40 \<and>
    s \<le> of_int d / 10 ^ 9 * (1 + rounding) ^ 2 \<and> (10 ^ 9 \<le> d \<longrightarrow> 1 \<le> s)"
proof -
  define whole :: rat where "whole = of_int (d div 10 ^ 9)"
  define rest :: rat where "rest = of_int (d mod 10 ^ 9) / 10 ^ 9"
  have "d div 10 ^ 9 < 2 ^ 34" using assms by simp
  then have "whole < of_int (2 ^ 34)" unfolding whole_def by (simp only: of_int_less_iff)
  moreover have "0 \<le> whole" using assms by (simp add: whole_def)
  moreover have "whole = 0 \<or> 1 \<le> whole" using assms by (auto simp: whole_def)
  ultimately have whole: "0 \<le> whole" "whole < 2 ^ 34" "whole = 0 \<or> 1 \<le> whole" by simp_all
  have "of_int d = (of_int (10 ^ 9 * (d div 10 ^ 9) + d mod 10 ^ 9) :: rat)" by simp
  also have "\<dots> = 10 ^ 9 * whole + 10 ^ 9 * rest" unfolding whole_def rest_def of_int_add of_int_mult by simp
  finally have dx: "of_int d / 10 ^ 9 = whole + rest" by simp
  have "d mod 10 ^ 9 = 0 \<or> 1 \<le> d mod 10 ^ 9" "d mod 10 ^ 9 < 10 ^ 9" by auto
  then have rest: "rest = 0 \<or> 1 / 10 ^ 9 \<le> rest" "rest < 1" "0 \<le> rest" by (auto simp: rest_def field_simps)
  note small = ordinary_size
  obtain f where f: "f64_round rest = Finite f" "0 \<le> f" "rest / 2 \<le> f" "f \<le> rest * (1 + rounding)"
    using f64_round_nonneg [of rest] small rest by fastforce
  have "rest * (1 + rounding) \<le> 1 * 2" using rest rounding_bounds by (intro mult_mono) simp_all
  with f have "f \<le> 2" by simp
  have x0: "whole + f = 0 \<or> 1 / 10 ^ 9 / 2 \<le> whole + f" using whole f rest by auto
  then obtain s where s: "f64_round (whole + f) = Finite s" "(whole + f) / 2 \<le> s"
      "s \<le> (whole + f) * (1 + rounding)" "1 \<le> whole + f \<longrightarrow> 1 \<le> s"
    using f64_round_nonneg [of "whole + f"] small whole \<open>f \<le> 2\<close> by fastforce
  have "s = 0 \<or> 1 / 10 ^ 10 \<le> s" using x0 s by auto
  moreover have "(whole + f) * (1 + rounding) \<le> (2 ^ 34 + 2) * 2"
    using whole f \<open>f \<le> 2\<close> rounding_bounds by (intro mult_mono) simp_all
  then have "s < 2 ^ 40" using s(3) by simp
  moreover have "whole + f \<le> (whole + rest) * (1 + rounding)"
    using f(4) mult_nonneg_nonneg [OF whole(1) less_imp_le [OF rounding_bounds(1)]]
    by (simp add: distrib_left distrib_right)
  then have "(whole + f) * (1 + rounding) \<le> (whole + rest) * (1 + rounding) * (1 + rounding)"
    using rounding_bounds by (intro mult_right_mono) simp_all
  then have "s \<le> of_int d / 10 ^ 9 * (1 + rounding) ^ 2"
    unfolding dx power2_eq_square mult.assoc [symmetric] using s(3) by (rule order_trans [rotated])
  moreover have "10 ^ 9 \<le> d \<longrightarrow> 1 \<le> s"
  proof
    assume "10 ^ 9 \<le> d"
    then have "1 \<le> d div 10 ^ 9" by simp
    then have "1 \<le> whole" by (simp add: whole_def)
    with s(4) f(2) show "1 \<le> s" by simp
  qed
  ultimately show ?thesis using seconds_split [OF assms] f(1) s(1) by (simp add: whole_def rest_def)
qed

text \<open>
  A limiter as the servers build it: rate and burst are whole numbers of ordinary size, at most
  \<open>rl_maximum\<close> clients are remembered, and every bucket holds between no token and the burst.
\<close>

definition limits :: "rat \<Rightarrow> rat \<Rightarrow> rate_limiter \<Rightarrow> bool" where
  "limits r b l \<longleftrightarrow> rl_rate l = Finite r \<and> rl_burst l = Finite b \<and> 1 \<le> r \<and> r \<le> 2 ^ 63 \<and> 1 \<le> b \<and> b \<le> 2 ^ 50 \<and>
     b = of_int \<lfloor>b\<rfloor>"

definition bucket_ok :: "rat \<Rightarrow> bucket \<Rightarrow> bool" where
  "bucket_ok b k \<longleftrightarrow> (\<exists>t. bk_tokens k = Finite t \<and> 0 \<le> t \<and> t \<le> b)"

definition limiter_ok :: "rate_limiter \<Rightarrow> bool" where
  "limiter_ok l \<longleftrightarrow>
     (\<exists>r b. limits r b l \<and> (\<forall>k \<in> ran (rl_clients l). bucket_ok b k)) \<and>
     finite (dom (rl_clients l)) \<and> 1 \<le> rl_maximum l \<and> int (card (dom (rl_clients l))) \<le> rl_maximum l"

text \<open>One addition to a bucket, the clamp at the burst included.\<close>

lemma f64_round_any:
  assumes "0 \<le> x" "x < 2 powi 900"
  shows "\<exists>v. f64_round x = Finite v \<and> 0 \<le> v \<and> v \<le> x * (1 + rounding) + rounding \<and> (1 \<le> x \<longrightarrow> 1 \<le> v)"
proof (cases "x = 0 \<or> 2 powi (- 900) \<le> x")
  case True
  then show ?thesis using f64_round_nonneg [OF True assms(2)] rounding_bounds by (metis add_increasing2 less_imp_le order_trans)
next
  case False
  then have x: "0 < x" "\<bar>x\<bar> < 2 powi (- 900)" using assms by auto
  obtain v where v: "f64_round x = Finite v" "\<bar>v - x\<bar> \<le> 2 powi (- 900 - 54)"
    using f64_round_near [OF x(2)] by auto
  have "(2 :: rat) powi (- 900 - 54) \<le> 2 powi (- 53)" by (intro power_int_increasing) auto
  then have "v \<le> x + rounding" using v(2) unfolding rounding_powi by linarith
  moreover have "0 \<le> x * rounding" using x rounding_bounds by simp
  moreover have "0 \<le> v"
  proof -
    define u where "u = two_powi (max (bin_exponent \<bar>x\<bar> - 52) (- 1074))"
    have u: "0 < u" by (simp add: u_def)
    then have "0 \<le> round_half_even (x / u)" using x by (intro round_half_even_ge) simp
    moreover have "v = of_int (round_half_even (x / u)) * u"
      using v(1) x(1) by (simp add: f64_round_def Let_def u_def split: if_splits)
    ultimately show ?thesis using u by simp
  qed
  moreover have "x < 1"
    using x(2) power_int_increasing [of "- 900" 0 "2 :: rat"] by simp
  ultimately show ?thesis using v(1) by (simp add: distrib_left)
qed

lemma add_tokens:
  assumes t: "0 \<le> t" "t \<le> b" and b: "1 \<le> b" "b \<le> 2 ^ 50" and a: "0 \<le> a" "a \<le> 2 ^ 150"
  shows "\<exists>v. f64_add (Finite t) (Finite a) = Finite v \<and> 0 \<le> min v b \<and>
    min v b \<le> t + a + (b + 2) * rounding \<and> (1 \<le> t + a \<longrightarrow> 1 \<le> min v b)"
proof -
  have "t + a < 2 ^ 200" using t(2) b(2) a(2) by simp
  then have "t + a < 2 powi 900" using ordinary_size(2) by (rule less_le_trans)
  then obtain v where v: "f64_round (t + a) = Finite v" "0 \<le> v" "v \<le> (t + a) * (1 + rounding) + rounding"
      "1 \<le> t + a \<longrightarrow> 1 \<le> v"
    using f64_round_any [of "t + a"] a(1) t(1) by auto
  have "min v b \<le> t + a + (b + 2) * rounding"
  proof (cases "t + a \<le> b + 1")
    case True
    then have "(t + a) * rounding \<le> (b + 1) * rounding" using rounding_bounds by (intro mult_right_mono) simp_all
    with v(3) have "v \<le> t + a + (b + 2) * rounding" by (simp add: distrib_left distrib_right)
    then show ?thesis by linarith
  next
    case False
    moreover have "0 \<le> (b + 2) * rounding" using b rounding_bounds by simp
    ultimately show ?thesis by linarith
  qed
  with v b show ?thesis by simp
qed

lemma rate_tokens:
  assumes "0 \<le> d" "d < 2 ^ 63" "1 \<le> r" "r \<le> 2 ^ 63"
  shows "\<exists>a. f64_mul (seconds d) (Finite r) = Finite a \<and> 0 \<le> a \<and> a \<le> 2 ^ 150 \<and>
    a \<le> of_int d / 10 ^ 9 * r * (1 + rounding) ^ 3 \<and> (10 ^ 9 \<le> d \<longrightarrow> 1 \<le> a)"
proof -
  obtain s where s: "seconds d = Finite s" "s = 0 \<or> 1 / 10 ^ 10 \<le> s" "s < 2 ^ 40"
      "s \<le> of_int d / 10 ^ 9 * (1 + rounding) ^ 2" "10 ^ 9 \<le> d \<longrightarrow> 1 \<le> s"
    using seconds_bounds [OF assms(1,2)] by blast
  have s0: "0 \<le> s" using s(2) by auto
  have up: "s * r \<le> 2 ^ 40 * 2 ^ 63" using s s0 assms by (intro mult_mono) simp_all
  then have "s * r < 2 ^ 200" by simp
  then have "s * r < 2 powi 900" using ordinary_size(2) by (rule less_le_trans)
  moreover have "s * 1 \<le> s * r" using s0 assms by (intro mult_left_mono) simp_all
  then have "s * r = 0 \<or> 2 powi (- 900) \<le> s * r"
    using s(2) ordinary_size(1) by (metis mult_zero_left mult_1_right order_trans)
  ultimately obtain a where a: "f64_round (s * r) = Finite a" "0 \<le> a" "a \<le> s * r * (1 + rounding)" "1 \<le> s * r \<longrightarrow> 1 \<le> a"
    using f64_round_nonneg [of "s * r"] by auto
  have "s * r * (1 + rounding) \<le> (2 ^ 40 * 2 ^ 63) * 2"
    using s0 assms rounding_bounds by (intro mult_mono [OF up]) simp_all
  then have "a \<le> 2 ^ 150" using a(3) by simp
  moreover have "s * r * (1 + rounding) \<le> of_int d / 10 ^ 9 * (1 + rounding) ^ 2 * r * (1 + rounding)"
    using s(4) assms rounding_bounds by (intro mult_right_mono) simp_all
  then have "a \<le> of_int d / 10 ^ 9 * r * (1 + rounding) ^ 3"
    using a(3) by (simp only: power3_eq_cube power2_eq_square ac_simps)
  moreover have "10 ^ 9 \<le> d \<longrightarrow> 1 \<le> a" using s(5) a(4) \<open>s * 1 \<le> s * r\<close> by (metis mult_1_right order_trans)
  ultimately show ?thesis using s(1) a(1,2) by simp
qed

lemma refill_bounds:
  assumes "limits r b l" "bucket_ok b k" "bk_updated k \<le> now"
  shows "\<exists>t v. bk_tokens k = Finite t \<and> refill l now k = Finite v \<and> 0 \<le> v \<and> v \<le> b \<and>
    v \<le> t + of_int (now - bk_updated k) / 10 ^ 9 * r * (1 + rounding) ^ 3 + (b + 2) * rounding \<and>
    (10 ^ 9 \<le> now - bk_updated k \<longrightarrow> 1 \<le> v)"
proof -
  let ?d = "time_sub now (bk_updated k)"
  have r: "rl_rate l = Finite r" "rl_burst l = Finite b" "1 \<le> r" "r \<le> 2 ^ 63" "1 \<le> b" "b \<le> 2 ^ 50"
    using assms(1) by (simp_all add: limits_def)
  have d: "0 \<le> ?d" "?d < 2 ^ 63" "?d \<le> now - bk_updated k" "10 ^ 9 \<le> now - bk_updated k \<longrightarrow> 10 ^ 9 \<le> ?d"
    using assms(3) by (auto simp: time_sub_def min_def max_def)
  obtain a where a: "f64_mul (seconds ?d) (Finite r) = Finite a" "0 \<le> a" "a \<le> 2 ^ 150"
      "a \<le> of_int ?d / 10 ^ 9 * r * (1 + rounding) ^ 3" "10 ^ 9 \<le> ?d \<longrightarrow> 1 \<le> a"
    using rate_tokens [OF d(1,2) r(3,4)] by blast
  obtain t where t: "bk_tokens k = Finite t" "0 \<le> t" "t \<le> b" using assms(2) by (auto simp: bucket_ok_def)
  obtain v where v: "f64_add (Finite t) (Finite a) = Finite v" "0 \<le> min v b"
      "min v b \<le> t + a + (b + 2) * rounding" "1 \<le> t + a \<longrightarrow> 1 \<le> min v b"
    using add_tokens [OF t(2,3) r(5,6) a(2,3)] by blast
  have "refill l now k = Finite (min v b)" using v(1) t(1) a(1) r by (simp add: refill_def)
  moreover have "of_int ?d / 10 ^ 9 * r * (1 + rounding) ^ 3
      \<le> of_int (now - bk_updated k) / 10 ^ 9 * r * (1 + rounding) ^ 3"
    using d(3) r(3) rounding_bounds by (intro mult_right_mono divide_right_mono) (simp_all only: of_int_le_iff, simp_all)
  then have "min v b \<le> t + of_int (now - bk_updated k) / 10 ^ 9 * r * (1 + rounding) ^ 3 + (b + 2) * rounding"
    using v(3) a(4) by linarith
  moreover have "10 ^ 9 \<le> now - bk_updated k \<longrightarrow> 1 \<le> min v b" using d(4) a(5) v(4) t(2) by auto
  ultimately show ?thesis using t(1) v(2) by auto
qed

text \<open>Taking one token.\<close>

lemma take_token:
  assumes "1 \<le> v" "v \<le> b" "b \<le> 2 ^ 50"
  shows "\<exists>w. f64_sub (Finite v) (Finite 1) = Finite w \<and> 0 \<le> w \<and> w \<le> b \<and> w \<le> v - 1 + (b + 2) * rounding"
proof -
  have "v - 1 < 2 ^ 200" using assms by simp
  then have "v - 1 < 2 powi 900" using ordinary_size(2) by (rule less_le_trans)
  then obtain w where w: "f64_round (v - 1) = Finite w" "0 \<le> w" "w \<le> (v - 1) * (1 + rounding) + rounding"
    using f64_round_any [of "v - 1"] assms(1) by auto
  have "(v - 1) * rounding \<le> b * rounding" using assms rounding_bounds by (intro mult_right_mono) simp_all
  then have up: "w \<le> v - 1 + (b + 2) * rounding"
    using w(3) rounding_bounds unfolding distrib_left distrib_right mult_1_right by linarith
  have "(b + 2) * rounding \<le> (2 ^ 50 + 2) * rounding" using assms rounding_bounds by (intro mult_right_mono) simp_all
  also have "\<dots> \<le> 1" by (simp add: rounding_def)
  finally show ?thesis using up w(1,2) assms(2) by (simp add: f64_sub_def)
qed

lemma limits_burst:
  assumes "limits r b l"
  shows "f64_sub (rl_burst l) (Finite 1) = Finite (b - 1)"
proof -
  have b: "rl_burst l = Finite b" "1 \<le> b" "b \<le> 2 ^ 50" "b = of_int \<lfloor>b\<rfloor>" using assms by (simp_all add: limits_def)
  moreover have "\<lfloor>b\<rfloor> \<le> 2 ^ 50" using floor_mono [OF b(3)] by simp
  moreover have "1 \<le> \<lfloor>b\<rfloor>" using b(2) by simp
  ultimately have "\<bar>\<lfloor>b\<rfloor> - 1\<bar> < 2 ^ 53" by simp
  then show ?thesis using f64_round_int [of "\<lfloor>b\<rfloor> - 1"] b by (simp add: f64_sub_def)
qed

text \<open>The client to forget is one of the clients.\<close>

lemma oldest_loop_in:
  "oldest_loop m ord k t \<in> insert k (dom m)"
  by (induction m ord k t rule: oldest_loop.induct) (auto split: option.splits)

lemma oldest_loop_found:
  assumes "range_order m ord" "m \<noteq> Map.empty"
  shows "oldest_loop m ord [] t \<in> dom m"
proof -
  have "\<exists>x \<in> set ord. m x \<noteq> None" using assms by (auto simp: range_order_def fun_eq_iff)
  then show ?thesis
  proof (induction m ord "[] :: string" t rule: oldest_loop.induct)
    case (2 m candidate rest oldest)
    then show ?case
      using oldest_loop_in [of m rest candidate] by (cases "m candidate") (auto simp: insert_absorb domI)
  qed simp
qed

section \<open>One request\<close>

lemma allow_known:
  assumes "limits r b l" "rl_clients l key = Some k" "bucket_ok b k" "bk_updated k \<le> now"
  shows "\<exists>t w. bk_tokens k = Finite t \<and>
    fst (allow ord key now l) =
      l\<lparr>rl_clients := (rl_clients l)(key \<mapsto> \<lparr>bk_tokens = Finite w, bk_updated = now\<rparr>)\<rparr> \<and>
    0 \<le> w \<and> w \<le> b \<and>
    of_bool (snd (allow ord key now l)) + w
      \<le> t + of_int (now - bk_updated k) / 10 ^ 9 * r * (1 + rounding) ^ 3 + 2 * ((b + 2) * rounding) \<and>
    (10 ^ 9 \<le> now - bk_updated k \<longrightarrow> snd (allow ord key now l))"
proof -
  obtain t v where v: "bk_tokens k = Finite t" "refill l now k = Finite v" "0 \<le> v" "v \<le> b"
      "v \<le> t + of_int (now - bk_updated k) / 10 ^ 9 * r * (1 + rounding) ^ 3 + (b + 2) * rounding"
      "10 ^ 9 \<le> now - bk_updated k \<longrightarrow> 1 \<le> v"
    using refill_bounds [OF assms(1,3,4)] by blast
  have err: "0 \<le> (b + 2) * rounding" using v rounding_bounds by simp
  show ?thesis
  proof (cases "1 \<le> v")
    case True
    have "b \<le> 2 ^ 50" using assms(1) by (simp add: limits_def)
    then obtain w where w: "f64_sub (Finite v) (Finite 1) = Finite w" "0 \<le> w" "w \<le> b" "w \<le> v - 1 + (b + 2) * rounding"
      using take_token [OF True v(4)] by blast
    have "1 + w \<le> t + of_int (now - bk_updated k) / 10 ^ 9 * r * (1 + rounding) ^ 3 + 2 * ((b + 2) * rounding)"
      using w(4) v(5) by linarith
    then show ?thesis using assms(2) v(1,2) w True by (intro exI [of _ t] exI [of _ w]) (simp add: allow_def)
  next
    case False
    have "v \<le> t + of_int (now - bk_updated k) / 10 ^ 9 * r * (1 + rounding) ^ 3 + 2 * ((b + 2) * rounding)"
      using v(5) err by linarith
    then show ?thesis using assms(2) v False by (intro exI [of _ t] exI [of _ v]) (simp add: allow_def)
  qed
qed

lemma allow_limits: "limits r b (fst (allow ord key now l)) = limits r b l"
  by (simp add: allow_def limits_def evict_def Let_def split: option.splits)

lemma allow_maximum [simp]: "rl_maximum (fst (allow ord key now l)) = rl_maximum l"
  by (simp add: allow_def evict_def Let_def split: option.splits)

lemma allow_new:
  assumes "limits r b l" "rl_clients l key = None"
  shows "allow ord key now l =
    (l\<lparr>rl_clients := (rl_clients (evict ord l))(key \<mapsto> \<lparr>bk_tokens = Finite (b - 1), bk_updated = now\<rparr>)\<rparr>, True)"
  using assms limits_burst [OF assms(1)] by (simp add: allow_def evict_def Let_def)

lemma evict_card:
  assumes "range_order (rl_clients l) ord" "1 \<le> rl_maximum l" "int (card (dom (rl_clients l))) \<le> rl_maximum l"
    "finite (dom (rl_clients l))"
  shows "int (card (dom (rl_clients (evict ord l)))) < rl_maximum l"
proof (cases "rl_maximum l \<le> int (card (dom (rl_clients l)))")
  case True
  then have "rl_clients l \<noteq> Map.empty" using assms(2) by (intro notI) simp
  then have "oldest_loop (rl_clients l) ord [] 0 \<in> dom (rl_clients l)" using oldest_loop_found assms(1) by blast
  with assms(4) have "card (dom (rl_clients l) - {oldest_loop (rl_clients l) ord [] 0}) < card (dom (rl_clients l))"
    by (intro psubset_card_mono) auto
  with True assms(3) show ?thesis by (simp add: evict_def dom_fun_upd)
qed (simp add: evict_def)

lemma ran_update: "\<forall>k \<in> ran m. P k \<Longrightarrow> P x \<Longrightarrow> \<forall>k \<in> ran (m(key \<mapsto> x)). P k"
  by (auto simp: ran_def)

lemma evict_ran: "ran (rl_clients (evict ord l)) \<subseteq> ran (rl_clients l)"
  by (auto simp: evict_def ran_def split: if_splits)

section \<open>Properties\<close>

lemma newRateLimiter_limits:
  assumes "1 \<le> rate" "rate \<le> 2 ^ 50" "1 \<le> burst" "burst \<le> 2 ^ 50"
  shows "limits (of_int rate) (of_int burst) (newRateLimiter rate burst)"
proof -
  have "f64_round (of_int rate) = Finite (of_int rate)" "f64_round (of_int burst) = Finite (of_int burst)"
    using assms by (auto intro!: f64_round_int)
  moreover have "(of_int rate :: rat) \<le> of_int (2 ^ 50)" "(of_int burst :: rat) \<le> of_int (2 ^ 50)"
    using assms(2,4) by (simp_all only: of_int_le_iff)
  ultimately show ?thesis using assms by (simp add: newRateLimiter_def limits_def)
qed

text \<open>
  Whatever the traffic: a limiter remembers at most its maximum of clients, forgetting one before
  it takes a new one, and no bucket is ever overdrawn or overfull.
\<close>

lemma allow_keeps_limiter:
  assumes "limiter_ok l" "range_order (rl_clients l) ord" "\<And>k. rl_clients l key = Some k \<Longrightarrow> bk_updated k \<le> now"
  shows "limiter_ok (fst (allow ord key now l))"
proof -
  obtain r b where lim: "limits r b l" "\<forall>k \<in> ran (rl_clients l). bucket_ok b k" using assms(1) by (auto simp: limiter_ok_def)
  have l: "finite (dom (rl_clients l))" "1 \<le> rl_maximum l" "int (card (dom (rl_clients l))) \<le> rl_maximum l"
    using assms(1) by (simp_all add: limiter_ok_def)
  have b: "1 \<le> b" using lim(1) by (simp add: limits_def)
  show ?thesis
  proof (cases "rl_clients l key")
    case None
    let ?m = "rl_clients (evict ord l)"
    have fin: "finite (dom ?m)" using l(1) by (simp add: evict_def dom_fun_upd)
    have "int (card (dom ?m)) < rl_maximum l" by (rule evict_card [OF assms(2) l(2,3,1)])
    then have "int (card (insert key (dom ?m))) \<le> rl_maximum l" using fin by (simp add: card_insert_if)
    moreover have "bucket_ok b \<lparr>bk_tokens = Finite (b - 1), bk_updated = now\<rparr>" using b by (simp add: bucket_ok_def)
    then have "\<forall>k \<in> ran (?m(key \<mapsto> \<lparr>bk_tokens = Finite (b - 1), bk_updated = now\<rparr>)). bucket_ok b k"
      using lim(2) evict_ran [of ord l] by (intro ran_update) blast+
    ultimately show ?thesis
      using allow_new [OF lim(1) None] allow_limits [of r b ord key now l] lim(1) l(2) fin
      by (auto simp: limiter_ok_def simp del: fun_upd_apply)
  next
    case (Some k)
    have k: "bucket_ok b k" using lim(2) Some by (auto simp: ran_def)
    obtain w where w: "fst (allow ord key now l) =
        l\<lparr>rl_clients := (rl_clients l)(key \<mapsto> \<lparr>bk_tokens = Finite w, bk_updated = now\<rparr>)\<rparr>" "0 \<le> w" "w \<le> b"
      using allow_known [OF lim(1) Some k assms(3) [OF Some], of ord] by blast
    have "dom ((rl_clients l)(key \<mapsto> \<lparr>bk_tokens = Finite w, bk_updated = now\<rparr>)) = dom (rl_clients l)"
      using Some by auto
    moreover have "\<forall>k \<in> ran ((rl_clients l)(key \<mapsto> \<lparr>bk_tokens = Finite w, bk_updated = now\<rparr>)). bucket_ok b k"
      using lim(2) w(2,3) by (intro ran_update) (simp_all add: bucket_ok_def)
    ultimately show ?thesis
      using w(1) allow_limits [of r b ord key now l] lim(1) l
      by (auto simp: limiter_ok_def simp del: fun_upd_apply)
  qed
qed

text \<open>
  \<open>Retry-After: 1\<close> is honest: a client whose last request is at least a second old is
  admitted, whatever happened before, and a client that the limiter does not know is admitted at once.
\<close>

lemma retry_after_one_second:
  assumes "limiter_ok l" "\<And>k. rl_clients l key = Some k \<Longrightarrow> bk_updated k + 10 ^ 9 \<le> now"
  shows "snd (allow ord key now l)"
proof -
  obtain r b where lim: "limits r b l" "\<forall>k \<in> ran (rl_clients l). bucket_ok b k" using assms(1) by (auto simp: limiter_ok_def)
  show ?thesis
  proof (cases "rl_clients l key")
    case None
    then show ?thesis using allow_new [OF lim(1)] by simp
  next
    case (Some k)
    have "bucket_ok b k" using lim(2) Some by (auto simp: ran_def)
    moreover have "10 ^ 9 \<le> now - bk_updated k" using assms(2) [OF Some] by simp
    ultimately show ?thesis using allow_known [OF lim(1) Some, of now ord] by auto
  qed
qed

text \<open>
  Traffic is a sequence of requests, each with the client it comes from, its time and the order in
  which the language ranges over the clients then. \<open>admitted\<close> counts what one client gets through.
\<close>

fun admitted :: "string \<Rightarrow> (string \<times> string list \<times> gotime) list \<Rightarrow> rate_limiter \<Rightarrow> nat" where
  "admitted key [] l = 0"
| "admitted key ((k, ord, now) # rest) l =
     (let (l, yes) = allow ord k now l in (if k = key \<and> yes then 1 else 0) + admitted key rest l)"

definition room :: "string set \<Rightarrow> rate_limiter \<Rightarrow> bool" where
  "room ks l \<longleftrightarrow> finite (dom (rl_clients l)) \<and> finite ks \<and> int (card (dom (rl_clients l) \<union> ks)) \<le> rl_maximum l"

lemma room_no_eviction:
  assumes "room ks l" "k \<in> ks" "rl_clients l k = None"
  shows "evict ord l = l"
proof -
  have "card (dom (rl_clients l)) < card (dom (rl_clients l) \<union> ks)"
    using assms by (intro psubset_card_mono) (auto simp: room_def)
  then show ?thesis using assms(1) by (simp add: evict_def room_def)
qed

lemma room_allow:
  assumes "room ks l" "k \<in> ks"
  shows "room ks (fst (allow ord k now l))"
proof -
  have "dom (rl_clients (fst (allow ord k now l))) = insert k (dom (rl_clients l))"
    using room_no_eviction [OF assms] by (auto simp: allow_def Let_def split: option.splits)
  then show ?thesis using assms by (simp add: room_def insert_absorb)
qed

lemma allow_other:
  assumes "room ks l" "k \<in> ks" "k \<noteq> key"
  shows "rl_clients (fst (allow ord k now l)) key = rl_clients l key"
  using assms room_no_eviction [OF assms(1,2)] by (auto simp: allow_def Let_def split: option.splits)

text \<open>What the client has at a time: the tokens of its bucket, or the whole burst, and since when.\<close>

definition credit :: "rat \<Rightarrow> string \<Rightarrow> gotime \<Rightarrow> rate_limiter \<Rightarrow> rat \<Rightarrow> bool" where
  "credit b key since l t \<longleftrightarrow>
     (case rl_clients l key of
        None \<Rightarrow> t = b
      | Some k \<Rightarrow> bucket_ok b k \<and> bk_tokens k = Finite t \<and> bk_updated k = since)"

definition gain :: "rat \<Rightarrow> duration \<Rightarrow> rat" where
  "gain r d = of_int d / 10 ^ 9 * r * (1 + rounding) ^ 3"

lemma gain_add: "gain r (d + e) = gain r d + gain r e"
  by (simp add: gain_def add_divide_distrib distrib_right)

lemma gain_nonneg: "0 \<le> d \<Longrightarrow> 1 \<le> r \<Longrightarrow> 0 \<le> gain r d"
  using rounding_bounds by (simp add: gain_def)

text \<open>One request of the client: what it gets and what is left, against what it had and what flowed in.\<close>

lemma credit_step:
  assumes "limits r b l" "room ks l" "key \<in> ks" "credit b key since l t" "since \<le> now"
  shows "\<exists>t'. credit b key now (fst (allow ord key now l)) t' \<and>
    of_bool (snd (allow ord key now l)) + t' \<le> t + gain r (now - since) + 2 * ((b + 2) * rounding)"
proof (cases "rl_clients l key")
  case None
  have r: "1 \<le> r" "1 \<le> b" using assms(1) by (simp_all add: limits_def)
  have "evict ord l = l" by (rule room_no_eviction [OF assms(2,3) None])
  moreover have "0 \<le> gain r (now - since)" using assms(5) r by (intro gain_nonneg) simp_all
  ultimately show ?thesis
    using allow_new [OF assms(1) None, of ord now] assms(4) None r rounding_bounds
    by (intro exI [of _ "b - 1"]) (simp add: credit_def bucket_ok_def)
next
  case (Some k)
  then have k: "bucket_ok b k" "bk_tokens k = Finite t" "bk_updated k = since" using assms(4) by (simp_all add: credit_def)
  show ?thesis
    using allow_known [OF assms(1) Some k(1), of now ord] k(2,3) assms(5)
    by (fastforce simp: credit_def bucket_ok_def gain_def)
qed

lemma credit_other:
  assumes "room ks l" "k \<in> ks" "k \<noteq> key"
  shows "credit b key since (fst (allow ord k now l)) t = credit b key since l t"
  by (simp add: credit_def allow_other [OF assms])

lemma admitted_credit:
  assumes "limits r b l" "room ks l" "fst ` set reqs \<subseteq> ks" "credit b key since l t" "since \<le> until"
    "sorted (map (\<lambda>q. snd (snd q)) reqs)" "\<forall>q \<in> set reqs. since \<le> snd (snd q) \<and> snd (snd q) \<le> until"
  shows "of_nat (admitted key reqs l) \<le> t + gain r (until - since) + of_nat (length reqs) * (2 * ((b + 2) * rounding))"
  using assms
proof (induction reqs arbitrary: l since t)
  case Nil
  have "0 \<le> t" using Nil(1,4) by (auto simp: credit_def limits_def bucket_ok_def split: option.splits)
  then show ?case using gain_nonneg [of "until - since" r] Nil(1,5) by (simp add: limits_def)
next
  case (Cons q reqs)
  obtain k ord now where q: "q = (k, ord, now)" by (cases q)
  let ?l = "fst (allow ord k now l)"
  let ?err = "2 * ((b + 2) * rounding)"
  have b: "0 \<le> ?err" using Cons.prems(1) rounding_bounds by (simp add: limits_def)
  have lim: "limits r b ?l" using Cons.prems(1) allow_limits by blast
  have k: "k \<in> ks" using Cons.prems(3) by (simp add: q)
  have room: "room ks ?l" by (rule room_allow [OF Cons.prems(2) k])
  have now: "since \<le> now" "now \<le> until" using Cons.prems(7) by (simp_all add: q)
  have rest: "fst ` set reqs \<subseteq> ks" "sorted (map (\<lambda>q. snd (snd q)) reqs)"
      "\<forall>q \<in> set reqs. now \<le> snd (snd q) \<and> snd (snd q) \<le> until"
      "\<forall>q \<in> set reqs. since \<le> snd (snd q) \<and> snd (snd q) \<le> until"
    using Cons.prems(3,6,7) by (auto simp: q)
  show ?case
  proof (cases "k = key")
    case True
    then obtain t' where t': "credit b key now ?l t'"
        "of_bool (snd (allow ord k now l)) + t' \<le> t + gain r (now - since) + ?err"
      using credit_step [OF Cons.prems(1,2) _ Cons.prems(4) now(1), of ord] k by blast
    have "of_nat (admitted key reqs ?l) \<le> t' + gain r (until - now) + of_nat (length reqs) * ?err"
      by (rule Cons.IH [OF lim room rest(1) t'(1) now(2) rest(2,3)])
    moreover have "gain r (until - since) = gain r (now - since) + gain r (until - now)"
      using gain_add [of r "now - since" "until - now"] by simp
    moreover have "of_nat (admitted key (q # reqs) l) = (of_bool (snd (allow ord k now l)) + of_nat (admitted key reqs ?l) :: rat)"
      using True by (simp add: q case_prod_beta Let_def)
    moreover have "of_nat (length (q # reqs)) * ?err = ?err + of_nat (length reqs) * ?err"
      by (simp add: distrib_right)
    ultimately show ?thesis using t'(2) by linarith
  next
    case False
    have "credit b key since ?l t" using Cons.prems(4) credit_other [OF Cons.prems(2) k False] by blast
    then have "of_nat (admitted key reqs ?l) \<le> t + gain r (until - since) + of_nat (length reqs) * ?err"
      by (rule Cons.IH [OF lim room rest(1) _ Cons.prems(5) rest(2,4)])
    moreover have "admitted key (q # reqs) l = admitted key reqs ?l" using False by (simp add: q case_prod_beta Let_def)
    moreover have "of_nat (length (q # reqs)) * ?err = ?err + of_nat (length reqs) * ?err"
      by (simp add: distrib_right)
    ultimately show ?thesis using b by linarith
  qed
qed

text \<open>
  C26. The rate limit of the API holds in machine arithmetic. Over any traffic of at most 1024 clients,
  what one client gets admitted within a period is at most the burst plus the rate times the length
  of the period, up to the rounding of \<open>float64\<close>: three parts in \<open>2 ^ 53\<close> of the inflow, and per
  request \<open>2 * (burst + 2)\<close> parts in \<open>2 ^ 53\<close>. Requests of other clients do not change this.
\<close>

theorem rate_limit_holds:
  assumes "1 \<le> rate" "rate \<le> 2 ^ 50" "1 \<le> burst" "burst \<le> 2 ^ 50"
    and "card (fst ` set reqs) \<le> 1024" "from \<le> until" "sorted (map (\<lambda>q. snd (snd q)) reqs)"
    and "\<forall>q \<in> set reqs. from \<le> snd (snd q) \<and> snd (snd q) \<le> until"
  shows "(of_nat (admitted key reqs (newRateLimiter rate burst)) :: rat)
    \<le> of_int burst + of_int rate * (of_int (until - from) / 10 ^ 9) * (1 + 1 / 2 ^ 53) ^ 3
      + of_nat (length reqs) * (2 * (of_int burst + 2) / 2 ^ 53)"
proof -
  let ?l = "newRateLimiter rate burst"
  have "room (fst ` set reqs) ?l" "credit (of_int burst) key from ?l (of_int burst)"
    using assms(5) by (simp_all add: room_def credit_def newRateLimiter_def)
  from admitted_credit [OF newRateLimiter_limits [OF assms(1-4)] this(1) order_refl this(2) assms(6-8)]
  show ?thesis by (simp add: gain_def rounding_def field_simps)
qed

theorem rate_limit_holds_witness:
  "admitted ''10.0.0.7''
     [(''10.0.0.7'', [], 5), (''10.0.0.7'', [''10.0.0.7''], 5), (''10.0.0.8'', [''10.0.0.7''], 6),
      (''10.0.0.7'', [''10.0.0.7'', ''10.0.0.8''], 7)] (newRateLimiter 1 2) \<le> 2"
proof -
  let ?reqs = "[(''10.0.0.7'', [], 5), (''10.0.0.7'', [''10.0.0.7''], 5), (''10.0.0.8'', [''10.0.0.7''], 6),
      (''10.0.0.7'', [''10.0.0.7'', ''10.0.0.8''], 7)] :: (string \<times> string list \<times> gotime) list"
  have "(of_nat (admitted ''10.0.0.7'' ?reqs (newRateLimiter 1 2)) :: rat)
    \<le> of_int 2 + of_int 1 * (of_int (7 - 5) / 10 ^ 9) * (1 + 1 / 2 ^ 53) ^ 3 + of_nat (length ?reqs) * (2 * (of_int 2 + 2) / 2 ^ 53)"
    by (rule rate_limit_holds) (simp_all add: card_insert_if)
  also have "\<dots> < of_nat 3" by (simp add: power3_eq_cube)
  finally show ?thesis by (simp only: of_nat_less_iff)
qed

end
