(* ===== verification/GoText.thy ===== *)
theory GoText
  imports GoNet
begin

text \<open>
  Texts that carry numbers: \<open>strconv.Atoi\<close>, \<open>strconv.ParseUint\<close> in base ten, and \<open>base64.RawURLEncoding\<close>, each with
  its round trip.
\<close>

section \<open>Decimal numbers\<close>

definition digit_value :: "char \<Rightarrow> nat option" where
  "digit_value c = (let n = of_char c :: nat in if 48 \<le> n \<and> n \<le> 57 then Some (n - 48) else None)"

fun digits_value :: "nat \<Rightarrow> string \<Rightarrow> nat option" where
  "digits_value acc [] = Some acc"
| "digits_value acc (c # cs) =
     (case digit_value c of None \<Rightarrow> None | Some d \<Rightarrow> digits_value (10 * acc + d) cs)"

definition parse_digits :: "string \<Rightarrow> nat option" where
  "parse_digits s = (if s = [] then None else digits_value 0 s)"

definition ParseUint :: "string \<Rightarrow> 64 word option" where
  "ParseUint s =
     (case parse_digits s of
        None \<Rightarrow> None
      | Some n \<Rightarrow> if n < 2 ^ 64 then Some (of_nat n) else None)"

definition Atoi :: "string \<Rightarrow> int option" where
  "Atoi s =
     (case s of
        [] \<Rightarrow> None
      | c # cs \<Rightarrow>
          (let neg = (c = CHR ''-''); body = (if neg \<or> c = CHR ''+'' then cs else s)
           in case parse_digits body of
                None \<Rightarrow> None
              | Some n \<Rightarrow>
                  (let i = (if neg then - int n else int n)
                   in if - (2 ^ 63) \<le> i \<and> i < 2 ^ 63 then Some i else None)))"

lemma digits_value_append:
  "digits_value acc (xs @ ys) = Option.bind (digits_value acc xs) (\<lambda>a. digits_value a ys)"
  by (induction xs arbitrary: acc) (auto split: option.splits)

lemma digit_value_char: "d < 10 \<Longrightarrow> digit_value (char_of (48 + d)) = Some d"
  by (simp add: digit_value_def)

lemma digits_value_decimal: "digits_value 0 (decimal n) = Some n"
proof (induction n rule: decimal.induct)
  case (1 n)
  show ?case
  proof (cases "n < 10")
    case False
    with 1 show ?thesis
      by (simp add: decimal.simps [of n] digits_value_append digit_value_char)
  qed (simp add: decimal.simps [of n] digit_value_char)
qed

lemma decimal_digit: "\<exists>d cs. d < (10 :: nat) \<and> decimal n = char_of (48 + d) # cs"
proof (induction n rule: decimal.induct)
  case (1 n)
  then show ?case by (cases "n < 10") (auto simp: decimal.simps [of n])
qed

lemma Atoi_decimal:
  assumes "n < 2 ^ 63"
  shows "Atoi (decimal n) = Some (int n)"
proof -
  obtain d :: nat and cs where d: "d < 10" "decimal n = char_of (48 + d) # cs" using decimal_digit by blast
  have "of_char (char_of (48 + d) :: char) = 48 + d" using d(1) by simp
  then have "char_of (48 + d) \<noteq> CHR ''-''" "char_of (48 + d) \<noteq> CHR ''+''"
    using d(1) by (auto dest: arg_cong [of _ _ "of_char :: char \<Rightarrow> nat"])
  moreover have "decimal n \<noteq> []" using d(2) by simp
  then have "parse_digits (decimal n) = Some n" by (simp add: parse_digits_def digits_value_decimal)
  moreover have "int n < 2 ^ 63" using assms by simp
  ultimately show ?thesis using d(2) by (simp add: Atoi_def Let_def)
qed

section \<open>base64.RawURLEncoding\<close>

fun sextets :: "nat list \<Rightarrow> nat list" where
  "sextets [] = []"
| "sextets [a] = [a div 4, (a mod 4) * 16]"
| "sextets [a, b] = [a div 4, (a mod 4) * 16 + b div 16, (b mod 16) * 4]"
| "sextets (a # b # c # rest) =
     a div 4 # ((a mod 4) * 16 + b div 16) # ((b mod 16) * 4 + c div 64) # (c mod 64) # sextets rest"

fun octets :: "nat list \<Rightarrow> nat list option" where
  "octets [] = Some []"
| "octets [a] = None"
| "octets [a, b] = Some [a * 4 + b div 16]"
| "octets [a, b, c] = Some [a * 4 + b div 16, (b mod 16) * 16 + c div 4]"
| "octets (a # b # c # d # rest) =
     (case octets rest of
        None \<Rightarrow> None
      | Some bs \<Rightarrow> Some ((a * 4 + b div 16) # ((b mod 16) * 16 + c div 4) # ((c mod 4) * 64 + d) # bs))"

definition sextet_char :: "nat \<Rightarrow> char" where
  "sextet_char n =
     (if n < 26 then char_of (65 + n) else if n < 52 then char_of (71 + n) else if n < 62 then char_of (n - 4)
      else if n = 62 then CHR ''-'' else CHR ''_'')"

definition char_sextet :: "char \<Rightarrow> nat option" where
  "char_sextet c =
     (let n = of_char c :: nat
      in if 65 \<le> n \<and> n \<le> 90 then Some (n - 65) else if 97 \<le> n \<and> n \<le> 122 then Some (n - 71)
         else if 48 \<le> n \<and> n \<le> 57 then Some (n + 4)
         else if n = 45 then Some 62 else if n = 95 then Some 63 else None)"

definition RawURLEncode :: "string \<Rightarrow> string" where
  "RawURLEncode s = map sextet_char (sextets (byte_codes s))"

text \<open>The decoder skips carriage returns and line feeds, and ignores left-over bits at the end.\<close>

definition RawURLDecode :: "string \<Rightarrow> string option" where
  "RawURLDecode s =
     (let cs = filter (\<lambda>c. of_char c \<noteq> (10 :: nat) \<and> of_char c \<noteq> (13 :: nat)) s
      in case those (map char_sextet cs) of
           None \<Rightarrow> None
         | Some xs \<Rightarrow> map_option (map char_of) (octets xs))"

lemma sextets_less: "\<forall>b \<in> set bs. b < 256 \<Longrightarrow> \<forall>x \<in> set (sextets bs). x < 64"
  by (induction bs rule: sextets.induct) auto

lemma octets_sextets: "\<forall>b \<in> set bs. b < 256 \<Longrightarrow> octets (sextets bs) = Some bs"
  by (induction bs rule: sextets.induct) (auto simp: div_mult2_eq [symmetric])

lemma char_sextet_char: "n < 64 \<Longrightarrow> char_sextet (sextet_char n) = Some n"
  by (auto simp: sextet_char_def char_sextet_def Let_def)

lemma sextet_char_kept: "n < 64 \<Longrightarrow> of_char (sextet_char n) \<noteq> (10 :: nat) \<and> of_char (sextet_char n) \<noteq> (13 :: nat)"
  by (auto simp: sextet_char_def)

lemma RawURL_roundtrip: "RawURLDecode (RawURLEncode s) = Some s"
proof -
  let ?xs = "sextets (byte_codes s)"
  have "\<forall>b \<in> set (byte_codes s). b < 256" by (auto simp: byte_codes_def)
  then have xs: "\<forall>x \<in> set ?xs. x < 64" "octets ?xs = Some (byte_codes s)" using sextets_less octets_sextets by blast+
  have "filter (\<lambda>c. of_char c \<noteq> (10 :: nat) \<and> of_char c \<noteq> (13 :: nat)) (map sextet_char ?xs) = map sextet_char ?xs"
    using xs(1) sextet_char_kept by (intro filter_True) auto
  moreover have "those (map char_sextet (map sextet_char ys)) = Some ys" if "\<forall>x \<in> set ys. x < 64" for ys
    using that by (induction ys) (auto simp: char_sextet_char)
  ultimately show ?thesis
    using xs by (simp add: RawURLDecode_def RawURLEncode_def byte_codes_def comp_def)
qed

end
