(* ===== verification/Api.thy ===== *)
theory Api
  imports RateLimit GoText Output Alarms Devices Sensors EquipmentRegistry ConfigManager
begin

text \<open>
  The HTTP API (\<open>internal/api\<close>): credentials and roles, the two rate limiters, the middleware, the route
  table and every handler of \<open>v1.go\<close>, and the life cycle of the server.

  A request arrives parsed by \<open>net/http\<close>: its method, the segments of its path, its query, the
  headers the code reads and the remote address. What the JSON decoder makes of the body under the limit of
  \<open>http.MaxBytesReader\<close> and what reading the body gives are functions of that limit. A response is its
  status, the correlation header, whether \<open>Retry-After\<close> is set, and the value that is encoded as its body.
  A dependency that is nil is \<open>None\<close>; a handler returns the server with the dependencies it changed.
\<close>

section \<open>Credentials and roles (auth.go)\<close>

datatype role = RoleReader | RoleOperator | RoleAdministrator

record principal =
  pr_id :: string
  pr_roles :: "role list"

definition ErrUnauthorized :: go_error where
  "ErrUnauthorized = Sentinel ''api.ErrUnauthorized''"

definition ErrForbidden :: go_error where
  "ErrForbidden = Sentinel ''api.ErrForbidden''"

datatype authenticator = DenyAuthenticator | BearerAuthenticator string principal

definition NewBearerAuthenticator :: "string \<Rightarrow> principal \<Rightarrow> go_error + authenticator" where
  "NewBearerAuthenticator token p =
     (if length token < 32 \<or> trim_space (pr_id p) = []
      then Inl (ErrorString ''bearer token must contain at least 32 characters and principal ID is required'')
      else Inr (BearerAuthenticator token p))"

text \<open>\<open>subtle.ConstantTimeCompare\<close> answers 1 exactly for equal bytes.\<close>

fun Authenticate :: "authenticator \<Rightarrow> string \<Rightarrow> go_error + principal" where
  "Authenticate DenyAuthenticator header = Inl ErrUnauthorized"
| "Authenticate (BearerAuthenticator token p) header =
     (if \<not> has_prefix header ''Bearer '' then Inl ErrUnauthorized
      else let provided = trim_space (drop 7 header)
           in if length provided \<noteq> length token \<or> provided \<noteq> token then Inl ErrUnauthorized
              else Inr p)"

fun roleAuthorizer :: "role list \<Rightarrow> role \<Rightarrow> go_error option" where
  "roleAuthorizer [] required = Some ErrForbidden"
| "roleAuthorizer (r # rs) required =
     (if r = RoleAdministrator \<or> r = required \<or> (r = RoleOperator \<and> required = RoleReader) then None
      else roleAuthorizer rs required)"

section \<open>Requests, responses and the server\<close>

record command_request =
  creq_on :: bool
  creq_expires :: gotime
  creq_expected :: "revision option"

record ack_request =
  areq_reason :: string
  areq_expected :: revision

record api_request =
  rq_method :: string
  rq_path :: "string list"
  rq_query :: "string \<Rightarrow> string"
  rq_authorization :: string
  rq_correlation :: string
  rq_idempotency :: string
  rq_remote :: string
  rq_host :: "go_error + string"
  rq_command :: "int \<Rightarrow> go_error + command_request"
  rq_ack :: "int \<Rightarrow> go_error + ack_request"
  rq_single :: "int \<Rightarrow> bool"
  rq_read :: "int \<Rightarrow> go_error + string"

datatype detail = Text string | ErrorText go_error

record problem =
  pb_status :: int
  pb_code :: string
  pb_title :: string
  pb_detail :: detail
  pb_instance :: "string list"
  pb_correlation :: string

datatype api_body =
    ProblemBody problem
  | PlainError string
  | NotRouted
  | AliveBody
  | ReadyBody bool health_state
  | ReportBody report
  | SystemBody string string int string
  | DevicesBody "device list" string
  | DeviceBody device
  | SnapshotBody snapshot
  | ValueBody state_value
  | EquipmentBody equipment revision "state_value list"
  | CommandBody result
  | AlarmsBody "alarm list" string
  | AlarmBody alarm
  | PlanBody bool reload_plan
  | ReloadedBody string
  | DiagnosticsBody report string int string

record response =
  rp_status :: int
  rp_retry_after :: bool
  rp_correlation :: string
  rp_body :: api_body

record api_server =
  as_authenticator :: authenticator
  as_authorizer :: "principal \<Rightarrow> role \<Rightarrow> go_error option"
  as_mutations :: rate_limiter
  as_authentication :: rate_limiter
  as_maximum_body :: int
  as_started_at :: gotime
  as_health :: "string health_manager"
  as_devices :: "device_registry option"
  as_sensors :: "sensor_registry option"
  as_equipment :: "equipment_registry option"
  as_state :: "state_manager option"
  as_commands :: "world option"
  as_alarms :: "alarm_manager option"
  as_configuration :: "config_manager option"

text \<open>What surrounds one request: clocks, random bytes, range orders, and the surroundings of each service.\<close>

record api_env =
  ae_now :: gotime
  ae_random :: "go_error + byte list"
  ae_authentication_order :: "string list"
  ae_mutation_order :: "string list"
  ae_health :: "string \<Rightarrow> status"
  ae_version :: "string option"
  ae_go_version :: string
  ae_goroutines :: int
  ae_device :: "device_payload env"
  ae_device_order :: "ident list"
  ae_sensor :: "sensor_payload env"
  ae_equipment :: "equipment_payload env"
  ae_state :: "state_value env"
  ae_state_order :: "state_key list"
  ae_deps :: deps
  ae_alarm :: "alarm env"
  ae_alarm_order :: "ident list"
  ae_config :: config_env
  ae_json :: config_json
  ae_yaml_version :: "string \<Rightarrow> go_error + int option"
  ae_yaml :: "string \<Rightarrow> config \<Rightarrow> go_error + config"
  ae_reload :: "reload_plan env"
  ae_loader :: "(go_error + config) option"

section \<open>Answers (problem.go, v1.go)\<close>

definition writeProblem :: "string \<Rightarrow> api_request \<Rightarrow> int \<Rightarrow> string \<Rightarrow> string \<Rightarrow> detail \<Rightarrow> response" where
  "writeProblem cid rq status code title d =
     \<lparr>rp_status = status, rp_retry_after = False, rp_correlation = cid,
      rp_body = ProblemBody \<lparr>pb_status = status, pb_code = code, pb_title = title, pb_detail = d,
        pb_instance = rq_path rq, pb_correlation = cid\<rparr>\<rparr>"

definition writeJSON :: "string \<Rightarrow> int \<Rightarrow> api_body \<Rightarrow> response" where
  "writeJSON cid code body = \<lparr>rp_status = code, rp_retry_after = False, rp_correlation = cid, rp_body = body\<rparr>"

definition unavailable :: "string \<Rightarrow> api_request \<Rightarrow> response" where
  "unavailable cid rq = writeProblem cid rq 503 ''service_unavailable'' ''Service unavailable''
     (Text ''The requested application service is not configured.'')"

definition invalidID :: "string \<Rightarrow> api_request \<Rightarrow> response" where
  "invalidID cid rq = writeProblem cid rq 400 ''invalid_id'' ''Invalid identifier''
     (Text ''The path identifier must be a canonical UUID.'')"

definition invalid :: "string \<Rightarrow> api_request \<Rightarrow> go_error \<Rightarrow> response" where
  "invalid cid rq err = writeProblem cid rq 400 ''invalid_request'' ''Invalid request'' (ErrorText err)"

definition notFound :: "string \<Rightarrow> api_request \<Rightarrow> response" where
  "notFound cid rq = writeProblem cid rq 404 ''not_found'' ''Not found'' (Text ''The requested resource does not exist.'')"

definition internal :: "string \<Rightarrow> api_request \<Rightarrow> go_error \<Rightarrow> response" where
  "internal cid rq err = writeProblem cid rq 500 ''internal_error'' ''Internal error''
     (Text ''The request could not be completed.'')"

definition stale :: "string \<Rightarrow> api_request \<Rightarrow> response" where
  "stale cid rq = writeProblem cid rq 409 ''stale_revision'' ''Revision conflict''
     (Text ''The expected canonical-state revision is stale.'')"

definition rate_limited :: "string \<Rightarrow> api_request \<Rightarrow> string \<Rightarrow> response" where
  "rate_limited cid rq what =
     (writeProblem cid rq 429 ''rate_limited'' ''Too many requests'' (Text what))\<lparr>rp_retry_after := True\<rparr>"

text \<open>\<open>decodeJSON\<close>: the value must decode, and nothing may follow it.\<close>

definition decodeJSON :: "int \<Rightarrow> (int \<Rightarrow> go_error + 'a) \<Rightarrow> (int \<Rightarrow> bool) \<Rightarrow> go_error + 'a" where
  "decodeJSON limit decode single =
     (case decode limit of
        Inl err \<Rightarrow> Inl err
      | Inr v \<Rightarrow> if single limit then Inr v else Inl (ErrorString ''request must contain one JSON value''))"

definition readBody :: "int \<Rightarrow> (int \<Rightarrow> go_error + string) \<Rightarrow> go_error + string" where
  "readBody limit reader =
     (case reader (limit + 1) of
        Inl err \<Rightarrow> Inl err
      | Inr payload \<Rightarrow>
          if int (length payload) > limit then Inl (ErrorString ''request body is too large'') else Inr payload)"

section \<open>Pagination\<close>

definition pagination :: "string \<Rightarrow> api_request \<Rightarrow> response + int \<times> int" where
  "pagination cid rq =
     (let bad_cursor = writeProblem cid rq 400 ''invalid_cursor'' ''Invalid cursor'' (Text ''cursor is malformed.'');
          limit = (if rq_query rq ''limit'' = [] then Some 100
                   else case Atoi (rq_query rq ''limit'') of
                          None \<Rightarrow> None
                        | Some v \<Rightarrow> if v < 1 \<or> v > 200 then None else Some v);
          start = (if rq_query rq ''cursor'' = [] then Some 0
                   else case RawURLDecode (rq_query rq ''cursor'') of
                          None \<Rightarrow> None
                        | Some decoded \<Rightarrow>
                            (case Atoi decoded of
                               None \<Rightarrow> None
                             | Some v \<Rightarrow> if v < 0 then None else Some v))
      in case limit of
           None \<Rightarrow> Inl (writeProblem cid rq 400 ''invalid_pagination'' ''Invalid pagination''
                     (Text ''limit must be between 1 and 200.''))
         | Some n \<Rightarrow> (case start of None \<Rightarrow> Inl bad_cursor | Some i \<Rightarrow> Inr (i, n)))"

text \<open>The page of \<open>listDevices\<close> and \<open>listAlarms\<close>: the items and the cursor of the next page.\<close>

definition page :: "'a list \<Rightarrow> int \<Rightarrow> int \<Rightarrow> 'a list \<times> string" where
  "page values start limit =
     (let n = int (length values);
          start = (if start > n then n else start);
          end = (if start + limit > n then n else start + limit)
      in (take (nat (end - start)) (drop (nat start) values),
          if end < n then RawURLEncode (itoa end) else []))"

section \<open>Query handlers\<close>

text \<open>
  The shape that the handlers share: a call whose not-found error is answered 404 and any other error 500. A call
  that returns no error returns a value, so the last line of \<open>found\<close> is never reached.
\<close>

definition found :: "string \<Rightarrow> api_request \<Rightarrow> string option \<Rightarrow> 'a ret \<Rightarrow> response + 'a" where
  "found cid rq sentinel r =
     (case r of
        (_, Some err) \<Rightarrow> Inl (if (\<exists>x \<in> set_option sentinel. errors_is err x) then notFound cid rq else internal cid rq err)
      | (Some v, None) \<Rightarrow> Inr v
      | (None, None) \<Rightarrow> Inl (internal cid rq (ErrorString [])))"

definition with_dependency :: "string \<Rightarrow> api_request \<Rightarrow> 'a option \<Rightarrow> ('a \<Rightarrow> response) \<Rightarrow> response" where
  "with_dependency cid rq dep f = (case dep of None \<Rightarrow> unavailable cid rq | Some d \<Rightarrow> f d)"

definition settle :: "response + 'a \<Rightarrow> ('a \<Rightarrow> response) \<Rightarrow> response" where
  "settle r f = (case r of Inl resp \<Rightarrow> resp | Inr v \<Rightarrow> f v)"

definition listDevices :: "api_env \<Rightarrow> string \<Rightarrow> api_request \<Rightarrow> api_server \<Rightarrow> response" where
  "listDevices e cid rq s =
     with_dependency cid rq (as_devices s) (\<lambda>registry.
       settle (found cid rq None (dr_list (ae_device e) (ae_device_order e) registry)) (\<lambda>values.
         settle (pagination cid rq) (\<lambda>(start, limit).
           let (items, next) = page values start limit in writeJSON cid 200 (DevicesBody items next))))"

definition getDevice :: "api_env \<Rightarrow> string \<Rightarrow> ident \<Rightarrow> api_request \<Rightarrow> api_server \<Rightarrow> response" where
  "getDevice e cid i rq s =
     with_dependency cid rq (as_devices s) (\<lambda>registry.
       if validateUUID i \<noteq> None then invalidID cid rq
       else settle (found cid rq (Some ''devices.ErrNotFound'') (dr_get (ae_device e) registry i))
              (\<lambda>v. writeJSON cid 200 (DeviceBody v)))"

definition getState :: "api_env \<Rightarrow> string \<Rightarrow> api_request \<Rightarrow> api_server \<Rightarrow> response" where
  "getState e cid rq s =
     with_dependency cid rq (as_state s) (\<lambda>manager.
       settle (found cid rq None (sm_snapshot (ae_state e) (ae_state_order e) manager)) (\<lambda>snap.
         let raw = rq_query rq ''sinceRevision''
         in if raw = [] then writeJSON cid 200 (SnapshotBody snap)
            else case ParseUint raw of
                   None \<Rightarrow> writeProblem cid rq 400 ''invalid_revision'' ''Invalid revision''
                             (Text ''sinceRevision must be an unsigned integer.'')
                 | Some since \<Rightarrow>
                     writeJSON cid 200 (SnapshotBody
                       (if snap_revision snap \<le> since then snap\<lparr>snap_values := []\<rparr> else snap))))"

definition getSensorState :: "api_env \<Rightarrow> string \<Rightarrow> ident \<Rightarrow> api_request \<Rightarrow> api_server \<Rightarrow> response" where
  "getSensorState e cid i rq s =
     (if validateUUID i \<noteq> None then invalidID cid rq
      else with_dependency cid rq (as_sensors s) (\<lambda>registry.
        with_dependency cid rq (as_state s) (\<lambda>manager.
          settle (found cid rq (Some ''sensors.ErrNotFound'') (sr_get (ae_sensor e) registry i)) (\<lambda>_.
            settle (found cid rq (Some ''state.ErrNotFound'') (sm_get (ae_state e) manager
                \<lparr>key_kind = EntitySensor, key_entity = i, key_plane = PlaneObservation, key_attribute = ''measurement''\<rparr>))
              (\<lambda>v. writeJSON cid 200 (ValueBody v))))))"

definition getEquipmentState :: "api_env \<Rightarrow> string \<Rightarrow> ident \<Rightarrow> api_request \<Rightarrow> api_server \<Rightarrow> response" where
  "getEquipmentState e cid i rq s =
     (if validateUUID i \<noteq> None then invalidID cid rq
      else with_dependency cid rq (as_equipment s) (\<lambda>registry.
        with_dependency cid rq (as_state s) (\<lambda>manager.
          settle (found cid rq (Some ''equipment.ErrNotFound'') (er_get (ae_equipment e) registry i)) (\<lambda>item.
            settle (found cid rq None (sm_snapshot (ae_state e) (ae_state_order e) manager)) (\<lambda>snap.
              writeJSON cid 200 (EquipmentBody item (snap_revision snap)
                (filter (\<lambda>v. key_kind (sv_key v) = EntityEquipment \<and> key_entity (sv_key v) = i) (snap_values snap))))))))"

definition getCommand :: "api_env \<Rightarrow> string \<Rightarrow> ident \<Rightarrow> api_request \<Rightarrow> api_server \<Rightarrow> response" where
  "getCommand e cid i rq s =
     with_dependency cid rq (as_commands s) (\<lambda>w.
       if validateUUID i \<noteq> None then invalidID cid rq
       else settle (found cid rq (Some ''output.ErrNotFound'') (svc_get (d_env (ae_deps e)) (w_service w) i))
              (\<lambda>v. writeJSON cid 200 (CommandBody v)))"

text \<open>The status of the query is compared as text: an unknown one selects no alarm.\<close>

definition alarm_status_of :: "string \<Rightarrow> alarm_status option" where
  "alarm_status_of s =
     (if s = [] then None else if s = ''active'' then Some AlarmStatusActive
      else if s = ''acknowledged'' then Some AlarmStatusAcknowledged
      else if s = ''cleared'' then Some AlarmStatusCleared else Some (AlarmStatusOther s))"

definition listAlarms :: "api_env \<Rightarrow> string \<Rightarrow> api_request \<Rightarrow> api_server \<Rightarrow> response" where
  "listAlarms e cid rq s =
     with_dependency cid rq (as_alarms s) (\<lambda>manager.
       settle (found cid rq None (am_list (ae_alarm e) (ae_alarm_order e) (alarm_status_of (rq_query rq ''status'')) manager))
         (\<lambda>values. settle (pagination cid rq) (\<lambda>(start, limit).
            let (items, next) = page values start limit in writeJSON cid 200 (AlarmsBody items next))))"

definition api_report :: "api_env \<Rightarrow> api_server \<Rightarrow> report" where
  "api_report e s = Report (ae_now e) (ae_health e) (as_health s)"

definition live :: "string \<Rightarrow> response" where
  "live cid = writeJSON cid 200 AliveBody"

definition api_ready :: "api_env \<Rightarrow> string \<Rightarrow> api_server \<Rightarrow> response" where
  "api_ready e cid s =
     (let report = api_report e s
      in writeJSON cid (if report_ready report then 200 else 503) (ReadyBody (report_ready report) (report_state report)))"

definition details :: "api_env \<Rightarrow> string \<Rightarrow> api_server \<Rightarrow> response" where
  "details e cid s = writeJSON cid 200 (ReportBody (api_report e s))"

definition trunc_f64 :: "float64 \<Rightarrow> int" where
  "trunc_f64 x = (case x of Finite q \<Rightarrow> if q < 0 then \<lceil>q\<rceil> else \<lfloor>q\<rfloor> | _ \<Rightarrow> 0)"

definition system :: "api_env \<Rightarrow> string \<Rightarrow> api_request \<Rightarrow> api_server \<Rightarrow> response" where
  "system e cid rq s =
     with_dependency cid rq (as_configuration s) (\<lambda>m.
       writeJSON cid 200 (SystemBody
         (case ae_version e of Some v \<Rightarrow> if v \<noteq> [] then v else ''development'' | None \<Rightarrow> ''development'')
         (mq_site (cfg_mqtt (cm_current m)))
         (trunc_f64 (seconds (time_sub (ae_now e) (as_started_at s)))) (cm_digest m)))"

definition diagnostics :: "api_env \<Rightarrow> string \<Rightarrow> api_request \<Rightarrow> api_server \<Rightarrow> response" where
  "diagnostics e cid rq s =
     with_dependency cid rq (as_configuration s) (\<lambda>m.
       writeJSON cid 200 (DiagnosticsBody (api_report e s) (cm_digest m) (ae_goroutines e) (ae_go_version e)))"

section \<open>Handlers that change something\<close>

definition api_command :: "string \<Rightarrow> string \<Rightarrow> ident \<Rightarrow> principal \<Rightarrow> gotime \<Rightarrow> command_request \<Rightarrow> command" where
  "api_command key cid i p now body =
     \<lparr>cmd_id = [], cmd_key = key, cmd_correlation = cid, cmd_equipment = i, cmd_requester = pr_id p, cmd_issued = now,
      cmd_expires = creq_expires body, cmd_expected = creq_expected body, cmd_on = creq_on body\<rparr>"

definition command_response :: "string \<Rightarrow> api_request \<Rightarrow> result ret \<Rightarrow> response" where
  "command_response cid rq r =
     (case r of
        (_, Some err) \<Rightarrow>
          if errors_is err ''output.ErrConflict''
          then writeProblem cid rq 409 ''idempotency_conflict'' ''Idempotency conflict''
                 (Text ''The key was already used for different command content.'')
          else invalid cid rq err
      | (Some v, None) \<Rightarrow>
          if res_reason v = ReasonRevisionConflict then stale cid rq else writeJSON cid 202 (CommandBody v)
      | (None, None) \<Rightarrow> internal cid rq (ErrorString []))"

definition submitCommand ::
  "api_env \<Rightarrow> string \<Rightarrow> principal \<Rightarrow> ident \<Rightarrow> api_request \<Rightarrow> api_server \<Rightarrow> api_server \<times> response"
where
  "submitCommand e cid p i rq s =
     (case as_commands s of
        None \<Rightarrow> (s, unavailable cid rq)
      | Some w \<Rightarrow>
          (let key = trim_space (rq_idempotency rq)
           in if key = [] \<or> length key > 128
              then (s, writeProblem cid rq 400 ''idempotency_key_required'' ''Idempotency key required''
                         (Text ''Idempotency-Key must contain 1 to 128 characters.''))
              else if validateUUID i \<noteq> None then (s, invalidID cid rq)
              else case decodeJSON (as_maximum_body s) (rq_command rq) (rq_single rq) of
                     Inl err \<Rightarrow> (s, invalid cid rq err)
                   | Inr body \<Rightarrow>
                       (let (w', r) = Submit (ae_deps e) (api_command key cid i p (ae_now e) body) w
                        in (s\<lparr>as_commands := Some w'\<rparr>, command_response cid rq r))))"

definition ack_response :: "string \<Rightarrow> api_request \<Rightarrow> alarm ret \<Rightarrow> response" where
  "ack_response cid rq r =
     (case r of
        (_, Some err) \<Rightarrow> if errors_is err ''alarms.ErrNotFound'' then notFound cid rq else invalid cid rq err
      | (Some a, None) \<Rightarrow> writeJSON cid 200 (AlarmBody a)
      | (None, None) \<Rightarrow> internal cid rq (ErrorString []))"

definition ackAlarm ::
  "api_env \<Rightarrow> string \<Rightarrow> ident \<Rightarrow> api_request \<Rightarrow> api_server \<Rightarrow> api_server \<times> response"
where
  "ackAlarm e cid i rq s =
     (case (as_alarms s, as_state s) of
        (Some alarms, Some manager) \<Rightarrow>
          (case decodeJSON (as_maximum_body s) (rq_ack rq) (rq_single rq) of
             Inl err \<Rightarrow> (s, invalid cid rq err)
           | Inr body \<Rightarrow>
               if trim_space (areq_reason body) = []
               then (s, writeProblem cid rq 400 ''reason_required'' ''Reason required''
                          (Text ''An acknowledgement reason is required.''))
               else case found cid rq None (sm_snapshot (ae_state e) (ae_state_order e) manager) of
                      Inl resp \<Rightarrow> (s, resp)
                    | Inr snap \<Rightarrow>
                        if snap_revision snap \<noteq> areq_expected body then (s, stale cid rq)
                        else if validateUUID i \<noteq> None then (s, invalidID cid rq)
                        else let (alarms', r) = Acknowledge (ae_alarm e) i alarms
                             in (s\<lparr>as_alarms := Some alarms'\<rparr>, ack_response cid rq r))
      | _ \<Rightarrow> (s, unavailable cid rq))"

text \<open>\<open>errors.As\<close> with \<open>ReloadRejectedError\<close>: the error that \<open>Plan\<close> builds when changes need a restart.\<close>

definition reload_rejected :: "go_error \<Rightarrow> bool" where
  "reload_rejected err =
     (case err of ErrorFmt f _ \<Rightarrow> f = ''configuration reload rejected: %d change(s) require restart'' | _ \<Rightarrow> False)"

definition validateConfig :: "api_env \<Rightarrow> string \<Rightarrow> api_request \<Rightarrow> api_server \<Rightarrow> response" where
  "validateConfig e cid rq s =
     with_dependency cid rq (as_configuration s) (\<lambda>m.
       case readBody (as_maximum_body s) (rq_read rq) of
         Inl err \<Rightarrow> invalid cid rq err
       | Inr payload \<Rightarrow>
           (case DecodeCandidate (ae_config e) (ae_yaml_version e) (ae_yaml e) payload of
              Inl err \<Rightarrow> invalid cid rq err
            | Inr candidate \<Rightarrow>
                (case Plan (ae_config e) (ae_json e) candidate m of
                   (Some plan, None) \<Rightarrow> writeJSON cid 200 (PlanBody True plan)
                 | (plan, Some err) \<Rightarrow>
                     if reload_rejected err
                     then (case plan of
                             Some x \<Rightarrow> writeJSON cid 200 (PlanBody False x)
                           | None \<Rightarrow> internal cid rq (ErrorString []))
                     else invalid cid rq err
                 | (None, None) \<Rightarrow> internal cid rq (ErrorString []))))"

definition reloadConfig :: "api_env \<Rightarrow> string \<Rightarrow> api_request \<Rightarrow> api_server \<Rightarrow> api_server \<times> response" where
  "reloadConfig e cid rq s =
     (case as_configuration s of
        None \<Rightarrow> (s, unavailable cid rq)
      | Some m \<Rightarrow>
          (let (m', err) = Reload (ae_config e) (ae_json e) (ae_reload e) (ae_loader e) m; s' = s\<lparr>as_configuration := Some m'\<rparr>
           in case err of
                Some x \<Rightarrow> (s', invalid cid rq x)
              | None \<Rightarrow> (s', writeJSON cid 200 (ReloadedBody (cm_digest m')))))"

section \<open>Routes and middleware\<close>

datatype handler =
    Details | System | ListDevices | GetDevice | GetState | GetSensorState | GetEquipmentState | SubmitCommand
  | GetCommand | ListAlarms | AckAlarm | ValidateConfig | ReloadConfig | Diagnostics

text \<open>A segment of a pattern is a text or the wildcard \<open>{id}\<close>.\<close>

record api_route =
  rt_method :: string
  rt_pattern :: "string option list"
  rt_role :: role
  rt_mutation :: bool
  rt_handler :: handler

definition v1 :: "string \<Rightarrow> string option list \<Rightarrow> role \<Rightarrow> bool \<Rightarrow> handler \<Rightarrow> api_route" where
  "v1 m pattern r mutation h =
     \<lparr>rt_method = m, rt_pattern = Some ''api'' # Some ''v1'' # pattern, rt_role = r, rt_mutation = mutation, rt_handler = h\<rparr>"

definition registerV1 :: "api_route list" where
  "registerV1 =
    [v1 ''GET'' [Some ''health''] RoleReader False Details,
     v1 ''GET'' [Some ''system''] RoleReader False System,
     v1 ''GET'' [Some ''devices''] RoleReader False ListDevices,
     v1 ''GET'' [Some ''devices'', None] RoleReader False GetDevice,
     v1 ''GET'' [Some ''state''] RoleReader False GetState,
     v1 ''GET'' [Some ''sensors'', None, Some ''state''] RoleReader False GetSensorState,
     v1 ''GET'' [Some ''equipment'', None, Some ''state''] RoleReader False GetEquipmentState,
     v1 ''POST'' [Some ''equipment'', None, Some ''commands''] RoleOperator True SubmitCommand,
     v1 ''GET'' [Some ''commands'', None] RoleReader False GetCommand,
     v1 ''GET'' [Some ''alarms''] RoleReader False ListAlarms,
     v1 ''POST'' [Some ''alarms'', None, Some ''ack''] RoleOperator True AckAlarm,
     v1 ''POST'' [Some ''config'', Some ''validate''] RoleAdministrator True ValidateConfig,
     v1 ''POST'' [Some ''config'', Some ''reload''] RoleAdministrator True ReloadConfig,
     v1 ''GET'' [Some ''diagnostics''] RoleAdministrator False Diagnostics]"

text \<open>
  \<open>http.ServeMux\<close>: a GET pattern also serves HEAD, a wildcard matches one segment that is not empty, and a path
  known under other methods only is answered 405 instead of 404. No two patterns of the table overlap.
\<close>

fun match_path :: "string option list \<Rightarrow> string list \<Rightarrow> bool" where
  "match_path [] [] = True"
| "match_path (Some t # ps) (x # xs) = (t = x \<and> match_path ps xs)"
| "match_path (None # ps) (x # xs) = (x \<noteq> [] \<and> match_path ps xs)"
| "match_path _ _ = False"

fun path_value :: "string option list \<Rightarrow> string list \<Rightarrow> string" where
  "path_value (None # ps) (x # xs) = x"
| "path_value (Some t # ps) (x # xs) = path_value ps xs"
| "path_value _ _ = []"

definition serves :: "string \<Rightarrow> string \<Rightarrow> bool" where
  "serves pattern m \<longleftrightarrow> pattern = m \<or> pattern = ''GET'' \<and> m = ''HEAD''"

definition find_route :: "api_request \<Rightarrow> api_route option" where
  "find_route rq = List.find (\<lambda>r. serves (rt_method r) (rq_method rq) \<and> match_path (rt_pattern r) (rq_path rq)) registerV1"

definition live_paths :: "string list list" where
  "live_paths = [[''health'', ''live''], [''healthz'']]"

definition ready_paths :: "string list list" where
  "ready_paths = [[''health'', ''ready''], [''readyz'']]"

definition not_routed :: "string \<Rightarrow> api_request \<Rightarrow> response" where
  "not_routed cid rq =
     writeJSON cid (if rq_path rq \<in> set (live_paths @ ready_paths) \<or> list_ex (\<lambda>r. match_path (rt_pattern r) (rq_path rq)) registerV1 then 405 else 404) NotRouted"

definition handle ::
  "api_env \<Rightarrow> string \<Rightarrow> principal \<Rightarrow> ident \<Rightarrow> api_request \<Rightarrow> handler \<Rightarrow> api_server \<Rightarrow> api_server \<times> response"
where
  "handle e cid p i rq h s =
     (case h of
        Details \<Rightarrow> (s, details e cid s)
      | System \<Rightarrow> (s, system e cid rq s)
      | ListDevices \<Rightarrow> (s, listDevices e cid rq s)
      | GetDevice \<Rightarrow> (s, getDevice e cid i rq s)
      | GetState \<Rightarrow> (s, getState e cid rq s)
      | GetSensorState \<Rightarrow> (s, getSensorState e cid i rq s)
      | GetEquipmentState \<Rightarrow> (s, getEquipmentState e cid i rq s)
      | SubmitCommand \<Rightarrow> submitCommand e cid p i rq s
      | GetCommand \<Rightarrow> (s, getCommand e cid i rq s)
      | ListAlarms \<Rightarrow> (s, listAlarms e cid rq s)
      | AckAlarm \<Rightarrow> ackAlarm e cid i rq s
      | ValidateConfig \<Rightarrow> (s, validateConfig e cid rq s)
      | ReloadConfig \<Rightarrow> reloadConfig e cid rq s
      | Diagnostics \<Rightarrow> (s, diagnostics e cid rq s))"

definition remoteAddress :: "api_request \<Rightarrow> string" where
  "remoteAddress rq = (case rq_host rq of Inr host \<Rightarrow> host | Inl _ \<Rightarrow> rq_remote rq)"

definition authorized ::
  "api_env \<Rightarrow> string \<Rightarrow> role \<Rightarrow> bool \<Rightarrow> (principal \<Rightarrow> api_server \<Rightarrow> api_server \<times> response) \<Rightarrow> api_request \<Rightarrow> api_server \<Rightarrow> api_server \<times> response"
where
  "authorized e cid r mutation next_handler rq s =
     (let (l, yes) = RateLimit.allow (ae_authentication_order e) (remoteAddress rq) (ae_now e) (as_authentication s);
          s = s\<lparr>as_authentication := l\<rparr>
      in if \<not> yes then (s, rate_limited cid rq ''The authentication rate limit was exceeded.'')
         else case Authenticate (as_authenticator s) (rq_authorization rq) of
                Inl _ \<Rightarrow> (s, writeProblem cid rq 401 ''authentication_required'' ''Authentication required''
                              (Text ''Valid bearer credentials are required.''))
              | Inr p \<Rightarrow>
                  (case as_authorizer s p r of
                     Some _ \<Rightarrow> (s, writeProblem cid rq 403 ''forbidden'' ''Forbidden''
                                   (Text ''The authenticated identity lacks the required role.''))
                   | None \<Rightarrow>
                       if mutation
                       then let (l, yes) = RateLimit.allow (ae_mutation_order e) (pr_id p) (ae_now e) (as_mutations s);
                                s = s\<lparr>as_mutations := l\<rparr>
                            in if \<not> yes then (s, rate_limited cid rq ''The mutation rate limit was exceeded.'')
                               else next_handler p s
                       else next_handler p s))"

definition mux :: "api_env \<Rightarrow> string \<Rightarrow> api_request \<Rightarrow> api_server \<Rightarrow> api_server \<times> response" where
  "mux e cid rq s =
     (if serves ''GET'' (rq_method rq) \<and> rq_path rq \<in> set live_paths then (s, live cid)
      else if serves ''GET'' (rq_method rq) \<and> rq_path rq \<in> set ready_paths then (s, api_ready e cid s)
      else case find_route rq of
             None \<Rightarrow> (s, not_routed cid rq)
           | Some r \<Rightarrow>
               authorized e cid (rt_role r) (rt_mutation r)
                 (\<lambda>p. handle e cid p (path_value (rt_pattern r) (rq_path rq)) rq (rt_handler r)) rq s)"

definition withCorrelation :: "api_env \<Rightarrow> api_request \<Rightarrow> go_error + string" where
  "withCorrelation e rq =
     (if validateUUID (rq_correlation rq) \<noteq> None then newUUID (ae_random e) else Inr (rq_correlation rq))"

definition ServeHTTP :: "api_env \<Rightarrow> api_request \<Rightarrow> api_server \<Rightarrow> api_server \<times> response" where
  "ServeHTTP e rq s =
     (case withCorrelation e rq of
        Inl _ \<Rightarrow> (s, writeJSON [] 500 (PlainError ''request identity unavailable''))
      | Inr cid \<Rightarrow> mux e cid rq s)"

section \<open>Construction and life cycle (server.go)\<close>

record api_dependencies =
  dep_devices :: "device_registry option"
  dep_sensors :: "sensor_registry option"
  dep_equipment :: "equipment_registry option"
  dep_state :: "state_manager option"
  dep_commands :: "world option"
  dep_alarms :: "alarm_manager option"
  dep_configuration :: "config_manager option"

datatype api_option =
    WithDependencies api_dependencies
  | WithSecurity "authenticator option" "(principal \<Rightarrow> role \<Rightarrow> go_error option) option"

fun apply_option :: "api_option \<Rightarrow> api_server \<Rightarrow> api_server" where
  "apply_option (WithDependencies d) s =
     s\<lparr>as_devices := dep_devices d, as_sensors := dep_sensors d, as_equipment := dep_equipment d, as_state := dep_state d,
       as_commands := dep_commands d, as_alarms := dep_alarms d, as_configuration := dep_configuration d\<rparr>"
| "apply_option (WithSecurity auth authz) s =
     (let s = (case auth of None \<Rightarrow> s | Some a \<Rightarrow> s\<lparr>as_authenticator := a\<rparr>)
      in case authz of None \<Rightarrow> s | Some a \<Rightarrow> s\<lparr>as_authorizer := a\<rparr>)"

definition NewServer :: "gotime \<Rightarrow> http_config \<Rightarrow> string health_manager \<Rightarrow> api_option list \<Rightarrow> api_server" where
  "NewServer now cfg manager options =
     fold apply_option options
       \<lparr>as_authenticator = DenyAuthenticator, as_authorizer = (\<lambda>p. roleAuthorizer (pr_roles p)),
        as_mutations = newRateLimiter (http_rate cfg) (http_burst cfg),
        as_authentication = newRateLimiter (http_rate cfg) (http_burst cfg), as_maximum_body = http_max_bytes cfg,
        as_started_at = now, as_health = manager, as_devices = None, as_sensors = None, as_equipment = None,
        as_state = None, as_commands = None, as_alarms = None, as_configuration = None\<rparr>"

text \<open>
  The serving side. \<open>hs_closed\<close> is the flag inside \<open>http.Server\<close> that \<open>Shutdown\<close> sets for ever: from then on \<open>Serve\<close>
  returns \<open>http.ErrServerClosed\<close> at once. \<open>hs_serving\<close> says whether the goroutine of \<open>Start\<close> is inside \<open>Serve\<close>, and
  \<open>hs_watching\<close> whether the cancellation watcher waits.
\<close>

record http_server =
  hs_running :: bool
  hs_error :: "go_error option"
  hs_closed :: bool
  hs_serving :: bool
  hs_watching :: bool

definition new_http :: http_server where
  "new_http = \<lparr>hs_running = False, hs_error = None, hs_closed = False, hs_serving = False, hs_watching = False\<rparr>"

definition http_Start :: "go_error option \<Rightarrow> http_server \<Rightarrow> http_server \<times> go_error option" where
  "http_Start listen h =
     (case listen of
        Some err \<Rightarrow> (h, Some (Wrapped ''listen HTTP'' err))
      | None \<Rightarrow> (h\<lparr>hs_running := True, hs_error := None, hs_serving := \<not> hs_closed h, hs_watching := True\<rparr>, None))"

text \<open>\<open>Serve\<close> returns on its own with an error other than \<open>http.ErrServerClosed\<close>.\<close>

definition serve_failed :: "go_error \<Rightarrow> http_server \<Rightarrow> http_server" where
  "serve_failed err h = (if hs_serving h then h\<lparr>hs_error := Some err, hs_running := False, hs_serving := False\<rparr> else h)"

text \<open>\<open>Shutdown\<close> closes the listener, so that \<open>Serve\<close> returns \<open>http.ErrServerClosed\<close>, which the goroutine ignores.\<close>

definition http_Shutdown :: "http_server \<Rightarrow> http_server" where
  "http_Shutdown h = h\<lparr>hs_closed := True, hs_serving := False\<rparr>"

definition stopOnCancellation :: "http_server \<Rightarrow> http_server" where
  "stopOnCancellation h = (if hs_watching h then (http_Shutdown h)\<lparr>hs_watching := False\<rparr> else h)"

text \<open>
  \<open>Stop\<close>: \<open>answer\<close> is what \<open>Shutdown\<close> returns, and \<open>late\<close> the context error if the context ends before the goroutines
  have been joined.
\<close>

definition http_Stop :: "go_error option \<Rightarrow> go_error option \<Rightarrow> http_server \<Rightarrow> http_server \<times> go_error option" where
  "http_Stop answer late h =
     (let h = stopOnCancellation (http_Shutdown h)
      in case late of
           Some err \<Rightarrow> (h, errors_join [answer, Some err])
         | None \<Rightarrow> (h\<lparr>hs_running := False\<rparr>, answer))"

definition http_Health :: "(go_error \<Rightarrow> string) \<Rightarrow> gotime \<Rightarrow> http_server \<Rightarrow> status" where
  "http_Health describe now h =
     (let st = NewStatus ''api'' (if hs_running h \<and> hs_error h = None then StateHealthy else StateUnhealthy) [] now
      in case hs_error h of None \<Rightarrow> st | Some err \<Rightarrow> st\<lparr>status_message := describe err\<rparr>)"

section \<open>Lemmas: what a request reaches\<close>

definition same_services :: "api_server \<Rightarrow> api_server \<Rightarrow> bool" where
  "same_services s t \<longleftrightarrow>
     as_devices t = as_devices s \<and> as_sensors t = as_sensors s \<and> as_equipment t = as_equipment s \<and>
     as_state t = as_state s \<and> as_commands t = as_commands s \<and> as_alarms t = as_alarms s \<and>
     as_configuration t = as_configuration s"

lemma same_services_refl [simp]: "same_services s s"
  by (simp add: same_services_def)

lemma same_services_limits [simp]:
  "same_services s (t\<lparr>as_authentication := a\<rparr>) = same_services s t"
  "same_services s (t\<lparr>as_mutations := b\<rparr>) = same_services s t"
  by (simp_all add: same_services_def)

text \<open>The header that the authenticator accepts.\<close>

definition presents :: "api_request \<Rightarrow> api_server \<Rightarrow> principal \<Rightarrow> bool" where
  "presents rq s p \<longleftrightarrow>
     (\<exists>token. as_authenticator s = BearerAuthenticator token p \<and> has_prefix (rq_authorization rq) ''Bearer '' \<and>
        trim_space (drop 7 (rq_authorization rq)) = token)"

lemma Authenticate_Inr: "Authenticate (as_authenticator s) (rq_authorization rq) = Inr p \<longleftrightarrow> presents rq s p"
  by (cases "as_authenticator s") (auto simp: presents_def Let_def)

text \<open>
  The ways through the middleware: the request is answered before the handler, with the services as they were, or the
  handler runs for an authenticated principal with the role of the route.
\<close>

definition admits :: "api_env \<Rightarrow> role \<Rightarrow> bool \<Rightarrow> api_request \<Rightarrow> api_server \<Rightarrow> principal \<Rightarrow> api_server \<Rightarrow> bool" where
  "admits e r mutation rq s p t \<longleftrightarrow>
     presents rq s p \<and> as_authorizer s p r = None \<and>
     (let (l, yes) = RateLimit.allow (ae_authentication_order e) (remoteAddress rq) (ae_now e) (as_authentication s)
      in yes \<and>
         (if mutation
          then let (l', yes') = RateLimit.allow (ae_mutation_order e) (pr_id p) (ae_now e) (as_mutations s)
               in yes' \<and> t = s\<lparr>as_authentication := l, as_mutations := l'\<rparr>
          else t = s\<lparr>as_authentication := l\<rparr>))"

lemma authorized_cases:
  obtains (refused) t resp where "authorized e cid r mutation f rq s = (t, resp)" "same_services s t"
      "rp_status resp \<in> {401, 403, 429}"
  | (admitted) p t where "admits e r mutation rq s p t" "authorized e cid r mutation f rq s = f p t"
proof -
  obtain l yes where l: "RateLimit.allow (ae_authentication_order e) (remoteAddress rq) (ae_now e) (as_authentication s) = (l, yes)"
    by (cases "RateLimit.allow (ae_authentication_order e) (remoteAddress rq) (ae_now e) (as_authentication s)")
  consider "\<not> yes" | (fail) err where "yes" "Authenticate (as_authenticator s) (rq_authorization rq) = Inl err"
    | (auth) p where "yes" "Authenticate (as_authenticator s) (rq_authorization rq) = Inr p"
    by (cases "Authenticate (as_authenticator s) (rq_authorization rq)") auto
  then show thesis
  proof cases
    case 1
    then show thesis using refused l by (simp add: authorized_def rate_limited_def writeProblem_def)
  next
    case fail
    then show thesis using refused l by (simp add: authorized_def writeProblem_def)
  next
    case (auth p)
    obtain l' yes' where l': "RateLimit.allow (ae_mutation_order e) (pr_id p) (ae_now e) (as_mutations s) = (l', yes')"
      by (cases "RateLimit.allow (ae_mutation_order e) (pr_id p) (ae_now e) (as_mutations s)")
    consider "as_authorizer s p r \<noteq> None" | "as_authorizer s p r = None" "mutation \<and> \<not> yes'"
      | "as_authorizer s p r = None" "\<not> mutation \<or> yes'" by blast
    then show thesis
    proof cases
      case 1
      then show thesis using refused auth l by (auto simp: authorized_def writeProblem_def)
    next
      case 2
      then show thesis using refused auth l l' by (simp add: authorized_def rate_limited_def writeProblem_def)
    next
      case 3
      have "presents rq s p" using auth(2) Authenticate_Inr by blast
      then show thesis
        using 3 auth l l'
          admitted [of p "if mutation then s\<lparr>as_authentication := l, as_mutations := l'\<rparr> else s\<lparr>as_authentication := l\<rparr>"]
        by (cases mutation) (simp_all add: authorized_def admits_def)
    qed
  qed
qed

lemma admits_same: "admits e r mutation rq s p t \<Longrightarrow> same_services s t \<and> as_maximum_body t = as_maximum_body s"
  by (auto simp: admits_def split: prod.splits if_splits)

text \<open>The only handlers that change a service.\<close>

lemma handle_cases:
  "same_services s (fst (handle e cid p i rq h s)) \<or> h \<in> {SubmitCommand, AckAlarm, ReloadConfig}"
  by (cases h) (simp_all add: handle_def)

lemma match_path_iff: "match_path ps xs \<longleftrightarrow> list_all2 (\<lambda>p x. case p of None \<Rightarrow> x \<noteq> [] | Some t \<Rightarrow> t = x) ps xs"
  by (induction ps xs rule: match_path.induct) auto

lemma find_route_Some:
  assumes "find_route rq = Some r"
  shows "r \<in> set registerV1" "serves (rt_method r) (rq_method rq)" "match_path (rt_pattern r) (rq_path rq)"
  using assms by (auto simp: find_route_def find_Some_iff set_conv_nth)

lemmas route_simps = registerV1_def v1_def serves_def match_path_iff list_all2_Cons1

text \<open>What each changing handler does to the services.\<close>

definition submitted :: "api_env \<Rightarrow> string \<Rightarrow> principal \<Rightarrow> api_request \<Rightarrow> api_server \<Rightarrow> api_server \<Rightarrow> bool" where
  "submitted e cid p rq s t \<longleftrightarrow>
     (\<exists>i w body. rq_method rq = ''POST'' \<and> rq_path rq = [''api'', ''v1'', ''equipment'', i, ''commands''] \<and>
        as_authorizer s p RoleOperator = None \<and> validateUUID i = None \<and>
        trim_space (rq_idempotency rq) \<noteq> [] \<and> length (trim_space (rq_idempotency rq)) \<le> 128 \<and>
        rq_command rq (as_maximum_body s) = Inr body \<and> rq_single rq (as_maximum_body s) \<and> as_commands s = Some w \<and>
        same_services (s\<lparr>as_commands :=
          Some (fst (Submit (ae_deps e) (api_command (trim_space (rq_idempotency rq)) cid i p (ae_now e) body) w))\<rparr>) t)"

definition acknowledged_by_api :: "api_env \<Rightarrow> principal \<Rightarrow> api_request \<Rightarrow> api_server \<Rightarrow> api_server \<Rightarrow> bool" where
  "acknowledged_by_api e p rq s t \<longleftrightarrow>
     (\<exists>i m snap body x. rq_method rq = ''POST'' \<and> rq_path rq = [''api'', ''v1'', ''alarms'', i, ''ack''] \<and>
        as_authorizer s p RoleOperator = None \<and> validateUUID i = None \<and>
        rq_ack rq (as_maximum_body s) = Inr body \<and> rq_single rq (as_maximum_body s) \<and> trim_space (areq_reason body) \<noteq> [] \<and>
        as_state s = Some x \<and> sm_snapshot (ae_state e) (ae_state_order e) x = ok snap \<and>
        snap_revision snap = areq_expected body \<and> as_alarms s = Some m \<and>
        same_services (s\<lparr>as_alarms := Some (fst (Acknowledge (ae_alarm e) i m))\<rparr>) t)"

definition reloaded_by_api :: "api_env \<Rightarrow> principal \<Rightarrow> api_request \<Rightarrow> api_server \<Rightarrow> api_server \<Rightarrow> bool" where
  "reloaded_by_api e p rq s t \<longleftrightarrow>
     (\<exists>m. rq_method rq = ''POST'' \<and> rq_path rq = [''api'', ''v1'', ''config'', ''reload''] \<and>
        as_authorizer s p RoleAdministrator = None \<and> as_configuration s = Some m \<and>
        same_services (s\<lparr>as_configuration :=
          Some (fst (Reload (ae_config e) (ae_json e) (ae_reload e) (ae_loader e) m))\<rparr>) t)"

lemma submitCommand_cases:
  obtains "fst (submitCommand e cid p i rq s) = s"
  | w body where "validateUUID i = None" "trim_space (rq_idempotency rq) \<noteq> []" "length (trim_space (rq_idempotency rq)) \<le> 128"
      "rq_command rq (as_maximum_body s) = Inr body" "rq_single rq (as_maximum_body s)" "as_commands s = Some w"
      "submitCommand e cid p i rq s =
        (s\<lparr>as_commands :=
          Some (fst (Submit (ae_deps e) (api_command (trim_space (rq_idempotency rq)) cid i p (ae_now e) body) w))\<rparr>,
         command_response cid rq (snd (Submit (ae_deps e) (api_command (trim_space (rq_idempotency rq)) cid i p (ae_now e) body) w)))"
proof (cases "as_commands s")
  case None
  then show thesis using that(1) by (simp add: submitCommand_def)
next
  case (Some w)
  define key where "key = trim_space (rq_idempotency rq)"
  show thesis
  proof (cases "key = [] \<or> length key > 128 \<or> validateUUID i \<noteq> None")
    case True
    then show thesis using that(1) Some by (auto simp: submitCommand_def key_def [symmetric])
  next
    case False
    show thesis
    proof (cases "decodeJSON (as_maximum_body s) (rq_command rq) (rq_single rq)")
      case (Inl err)
      then show thesis using that(1) Some False by (simp add: submitCommand_def key_def [symmetric])
    next
      case (Inr body)
      have b: "rq_command rq (as_maximum_body s) = Inr body" "rq_single rq (as_maximum_body s)"
        using Inr by (auto simp: decodeJSON_def split: sum.splits if_splits)
      show thesis
        by (rule that(2) [of body w])
          (use False Some Inr b in \<open>simp_all add: submitCommand_def key_def [symmetric] case_prod_beta Let_def\<close>)
    qed
  qed
qed

lemma found_Inr: "found cid rq x r = Inr v \<longleftrightarrow> r = ok v"
  by (cases r) (auto simp: found_def ok_def split: option.splits)

lemma ackAlarm_cases:
  obtains "fst (ackAlarm e cid i rq s) = s"
  | m x snap body where "validateUUID i = None" "rq_ack rq (as_maximum_body s) = Inr body" "rq_single rq (as_maximum_body s)"
      "trim_space (areq_reason body) \<noteq> []" "as_state s = Some x" "sm_snapshot (ae_state e) (ae_state_order e) x = ok snap"
      "snap_revision snap = areq_expected body" "as_alarms s = Some m"
      "fst (ackAlarm e cid i rq s) = s\<lparr>as_alarms := Some (fst (Acknowledge (ae_alarm e) i m))\<rparr>"
proof (cases "\<exists>m x. as_alarms s = Some m \<and> as_state s = Some x")
  case False
  then show thesis using that(1) by (cases "as_alarms s"; cases "as_state s") (auto simp: ackAlarm_def)
next
  case True
  then obtain m x where mx: "as_alarms s = Some m" "as_state s = Some x" by blast
  show thesis
  proof (cases "decodeJSON (as_maximum_body s) (rq_ack rq) (rq_single rq)")
    case (Inl err)
    then show thesis using that(1) mx by (simp add: ackAlarm_def)
  next
    case (Inr body)
    have b: "rq_ack rq (as_maximum_body s) = Inr body" "rq_single rq (as_maximum_body s)"
      using Inr by (auto simp: decodeJSON_def split: sum.splits if_splits)
    show thesis
    proof (cases "found cid rq None (sm_snapshot (ae_state e) (ae_state_order e) x)")
      case (Inl resp)
      then show thesis using that(1) mx Inr by (cases "trim_space (areq_reason body) = []") (simp_all add: ackAlarm_def)
    next
      case snap: (Inr snap)
      show thesis
      proof (cases "trim_space (areq_reason body) \<noteq> [] \<and> snap_revision snap = areq_expected body \<and> validateUUID i = None")
        case True
        then have acked: "fst (ackAlarm e cid i rq s) = s\<lparr>as_alarms := Some (fst (Acknowledge (ae_alarm e) i m))\<rparr>"
          using snap mx Inr by (simp add: ackAlarm_def case_prod_beta Let_def)
        have "sm_snapshot (ae_state e) (ae_state_order e) x = ok snap" using snap by (simp add: found_Inr)
        then show thesis using that(2) [OF _ b _ mx(2) _ _ mx(1) acked] True by simp
      next
        case False
        then show thesis using that(1) mx Inr snap by (auto simp: ackAlarm_def)
      qed
    qed
  qed
qed

lemma reloadConfig_cases:
  obtains "fst (reloadConfig e cid rq s) = s"
  | m where "as_configuration s = Some m"
      "fst (reloadConfig e cid rq s) =
        s\<lparr>as_configuration := Some (fst (Reload (ae_config e) (ae_json e) (ae_reload e) (ae_loader e) m))\<rparr>"
proof (cases "as_configuration s")
  case None
  then show thesis using that(1) by (simp add: reloadConfig_def)
next
  case (Some m)
  then show thesis using that(2) [OF Some] by (simp add: reloadConfig_def case_prod_beta Let_def split: option.splits)
qed

lemma mux_cases:
  obtains (answered) t resp where "mux e cid rq s = (t, resp)" "same_services s t"
  | (routed) r p t where "r \<in> set registerV1" "serves (rt_method r) (rq_method rq)" "match_path (rt_pattern r) (rq_path rq)"
      "admits e (rt_role r) (rt_mutation r) rq s p t"
      "mux e cid rq s = handle e cid p (path_value (rt_pattern r) (rq_path rq)) rq (rt_handler r) t"
proof (cases "mux e cid rq s = (s, live cid) \<or> mux e cid rq s = (s, api_ready e cid s) \<or> mux e cid rq s = (s, not_routed cid rq)")
  case True
  then show thesis using answered by auto
next
  case False
  then obtain r where r: "find_route rq = Some r"
      "mux e cid rq s = authorized e cid (rt_role r) (rt_mutation r)
         (\<lambda>p. handle e cid p (path_value (rt_pattern r) (rq_path rq)) rq (rt_handler r)) rq s"
    by (auto simp: mux_def split: if_splits option.splits)
  show thesis
    by (rule authorized_cases [of e cid "rt_role r" "rt_mutation r"
            "\<lambda>p. handle e cid p (path_value (rt_pattern r) (rq_path rq)) rq (rt_handler r)" rq s])
      (use answered routed r find_route_Some [OF r(1)] in \<open>metis\<close>)+
qed

lemma presents_admitted: "admits e r mutation rq s p t \<Longrightarrow> presents rq s p \<and> as_authorizer s p r = None"
  by (simp add: admits_def)

lemma same_services_simps:
  "same_services s t \<Longrightarrow> same_services (s\<lparr>as_commands := c\<rparr>) (t\<lparr>as_commands := c\<rparr>)"
  "same_services s t \<Longrightarrow> same_services (s\<lparr>as_alarms := a\<rparr>) (t\<lparr>as_alarms := a\<rparr>)"
  "same_services s t \<Longrightarrow> same_services (s\<lparr>as_configuration := m\<rparr>) (t\<lparr>as_configuration := m\<rparr>)"
  by (simp_all add: same_services_def)

lemma same_services_get:
  assumes "same_services s t"
  shows "as_commands t = as_commands s" "as_alarms t = as_alarms s" "as_state t = as_state s"
    "as_configuration t = as_configuration s"
  using assms by (simp_all add: same_services_def)

lemma routed_submit:
  assumes "r \<in> set registerV1" "serves (rt_method r) (rq_method rq)" "match_path (rt_pattern r) (rq_path rq)"
    "admits e (rt_role r) (rt_mutation r) rq s p t" "rt_handler r = SubmitCommand"
  shows "same_services s (fst (submitCommand e cid p (path_value (rt_pattern r) (rq_path rq)) rq t)) \<or>
    submitted e cid p rq s (fst (submitCommand e cid p (path_value (rt_pattern r) (rq_path rq)) rq t))"
proof -
  have r: "r = v1 ''POST'' [Some ''equipment'', None, Some ''commands''] RoleOperator True SubmitCommand"
    using assms(1,5) by (auto simp: registerV1_def v1_def)
  obtain i where i: "rq_method rq = ''POST''" "rq_path rq = [''api'', ''v1'', ''equipment'', i, ''commands'']"
    using assms(2,3) r by (auto simp: route_simps)
  have pv: "path_value (rt_pattern r) (rq_path rq) = i" by (simp add: i r v1_def)
  have st: "same_services s t" "as_maximum_body t = as_maximum_body s" using admits_same [OF assms(4)] by simp_all
  have auth: "as_authorizer s p RoleOperator = None" using presents_admitted [OF assms(4)] by (simp add: r v1_def)
  show ?thesis
  proof (rule submitCommand_cases [of e cid p i rq t])
    fix w body
    assume a: "validateUUID i = None" "trim_space (rq_idempotency rq) \<noteq> []" "length (trim_space (rq_idempotency rq)) \<le> 128"
      "rq_command rq (as_maximum_body t) = Inr body" "rq_single rq (as_maximum_body t)" "as_commands t = Some w"
      "submitCommand e cid p i rq t =
        (t\<lparr>as_commands :=
          Some (fst (Submit (ae_deps e) (api_command (trim_space (rq_idempotency rq)) cid i p (ae_now e) body) w))\<rparr>,
         command_response cid rq (snd (Submit (ae_deps e) (api_command (trim_space (rq_idempotency rq)) cid i p (ae_now e) body) w)))"
    then have "submitted e cid p rq s (fst (submitCommand e cid p i rq t))"
      unfolding submitted_def using i auth st same_services_simps(1) [OF st(1)] same_services_get(1) [OF st(1)]
      by (intro exI [of _ i] exI [of _ w] exI [of _ body]) simp
    then show ?thesis by (simp add: pv)
  qed (use st pv in simp)
qed

lemma routed_ack:
  assumes "r \<in> set registerV1" "serves (rt_method r) (rq_method rq)" "match_path (rt_pattern r) (rq_path rq)"
    "admits e (rt_role r) (rt_mutation r) rq s p t" "rt_handler r = AckAlarm"
  shows "same_services s (fst (ackAlarm e cid (path_value (rt_pattern r) (rq_path rq)) rq t)) \<or>
    acknowledged_by_api e p rq s (fst (ackAlarm e cid (path_value (rt_pattern r) (rq_path rq)) rq t))"
proof -
  have r: "r = v1 ''POST'' [Some ''alarms'', None, Some ''ack''] RoleOperator True AckAlarm"
    using assms(1,5) by (auto simp: registerV1_def v1_def)
  obtain i where i: "rq_method rq = ''POST''" "rq_path rq = [''api'', ''v1'', ''alarms'', i, ''ack'']"
    using assms(2,3) r by (auto simp: route_simps)
  have pv: "path_value (rt_pattern r) (rq_path rq) = i" by (simp add: i r v1_def)
  have st: "same_services s t" "as_maximum_body t = as_maximum_body s" using admits_same [OF assms(4)] by simp_all
  have auth: "as_authorizer s p RoleOperator = None" using presents_admitted [OF assms(4)] by (simp add: r v1_def)
  show ?thesis
  proof (rule ackAlarm_cases [of e cid i rq t])
    fix m x snap body
    assume a: "validateUUID i = None" "rq_ack rq (as_maximum_body t) = Inr body" "rq_single rq (as_maximum_body t)"
      "trim_space (areq_reason body) \<noteq> []" "as_state t = Some x" "sm_snapshot (ae_state e) (ae_state_order e) x = ok snap"
      "snap_revision snap = areq_expected body" "as_alarms t = Some m"
      "fst (ackAlarm e cid i rq t) = t\<lparr>as_alarms := Some (fst (Acknowledge (ae_alarm e) i m))\<rparr>"
    then have "acknowledged_by_api e p rq s (fst (ackAlarm e cid i rq t))"
      unfolding acknowledged_by_api_def
      using i auth st same_services_simps(2) [OF st(1)] same_services_get(2,3) [OF st(1)]
      by (intro exI [of _ i] exI [of _ m] exI [of _ snap] exI [of _ body] exI [of _ x]) simp
    then show ?thesis by (simp add: pv)
  qed (use st pv in simp)
qed

lemma routed_reload:
  assumes "r \<in> set registerV1" "serves (rt_method r) (rq_method rq)" "match_path (rt_pattern r) (rq_path rq)"
    "admits e (rt_role r) (rt_mutation r) rq s p t" "rt_handler r = ReloadConfig"
  shows "same_services s (fst (reloadConfig e cid rq t)) \<or> reloaded_by_api e p rq s (fst (reloadConfig e cid rq t))"
proof -
  have r: "r = v1 ''POST'' [Some ''config'', Some ''reload''] RoleAdministrator True ReloadConfig"
    using assms(1,5) by (auto simp: registerV1_def v1_def)
  have i: "rq_method rq = ''POST''" "rq_path rq = [''api'', ''v1'', ''config'', ''reload'']"
    using assms(2,3) r by (auto simp: route_simps)
  have st: "same_services s t" using admits_same [OF assms(4)] by simp
  have auth: "as_authorizer s p RoleAdministrator = None" using presents_admitted [OF assms(4)] by (simp add: r v1_def)
  show ?thesis
    by (rule reloadConfig_cases [of e cid rq t])
      (use i auth st same_services_simps(3) [OF st] same_services_get(4) [OF st] in \<open>auto simp: reloaded_by_api_def\<close>)
qed

section \<open>Properties\<close>

text \<open>
  C5. Nothing changes through the API without credentials and role. Whatever the request, either every service behind the
  API is as it was, or the request carried the bearer token of the configured principal and is one of the three changing
  routes: one \<open>Submit\<close> of a command in the name of that principal (operator role, canonical equipment identifier,
  key of 1 to 128 bytes), one \<open>Acknowledge\<close> of a named alarm against the current revision with a reason (operator role),
  or one \<open>Reload\<close> (administrator role). No request does two of these.
\<close>

theorem api_changes_need_authority:
  "same_services s (fst (ServeHTTP e rq s)) \<or>
   (\<exists>p cid. presents rq s p \<and> withCorrelation e rq = Inr cid \<and>
      (submitted e cid p rq s (fst (ServeHTTP e rq s)) \<or>
       acknowledged_by_api e p rq s (fst (ServeHTTP e rq s)) \<or>
       reloaded_by_api e p rq s (fst (ServeHTTP e rq s))))"
proof (cases "withCorrelation e rq")
  case (Inl err)
  then show ?thesis by (simp add: ServeHTTP_def)
next
  case (Inr cid)
  have serve: "ServeHTTP e rq s = mux e cid rq s" by (simp add: ServeHTTP_def Inr)
  show ?thesis
  proof (rule mux_cases [of e cid rq s])
    fix t resp
    assume "mux e cid rq s = (t, resp)" "same_services s t"
    then show ?thesis by (simp add: serve)
  next
    fix r :: api_route and p t
    let ?i = "path_value (rt_pattern r) (rq_path rq)"
    assume r: "r \<in> set registerV1" "serves (rt_method r) (rq_method rq)" "match_path (rt_pattern r) (rq_path rq)"
        "admits e (rt_role r) (rt_mutation r) rq s p t"
      and m: "mux e cid rq s = handle e cid p ?i rq (rt_handler r) t"
    have p: "presents rq s p" using presents_admitted [OF r(4)] by blast
    consider (submit) "rt_handler r = SubmitCommand" | (ack) "rt_handler r = AckAlarm" | (reload) "rt_handler r = ReloadConfig"
      | (other) "same_services t (fst (handle e cid p ?i rq (rt_handler r) t))"
      using handle_cases [of t e cid p ?i rq "rt_handler r"] by blast
    then show ?thesis
    proof cases
      case submit
      then show ?thesis using routed_submit [OF r submit, of cid] p Inr by (auto simp: serve m handle_def)
    next
      case ack
      then show ?thesis using routed_ack [OF r ack, of cid] p Inr by (auto simp: serve m handle_def)
    next
      case reload
      then show ?thesis using routed_reload [OF r reload, of cid] p Inr by (auto simp: serve m handle_def)
    next
      case other
      then show ?thesis using admits_same [OF r(4)] by (simp add: serve m same_services_def)
    qed
  qed
qed

lemma authorized_refused:
  assumes "\<nexists>p. presents rq s p"
  shows "snd (authorized e cid r mutation f rq s) =
    (if snd (RateLimit.allow (ae_authentication_order e) (remoteAddress rq) (ae_now e) (as_authentication s))
     then writeProblem cid rq 401 ''authentication_required'' ''Authentication required''
            (Text ''Valid bearer credentials are required.'')
     else rate_limited cid rq ''The authentication rate limit was exceeded.'')"
proof (cases "Authenticate (as_authenticator s) (rq_authorization rq)")
  case (Inl err)
  then show ?thesis by (simp add: authorized_def case_prod_beta Let_def)
next
  case (Inr p)
  then show ?thesis using assms Authenticate_Inr by blast
qed


section \<open>Pages\<close>

lemma RawURLEncode_itoa:
  assumes "0 \<le> i" "i < 2 ^ 63"
  shows "RawURLDecode (RawURLEncode (itoa i)) = Some (itoa i)" "Atoi (itoa i) = Some i" "RawURLEncode (itoa i) \<noteq> []"
proof -
  show a: "Atoi (itoa i) = Some i" using assms Atoi_decimal [of "nat i"] by (simp add: itoa_def nat_less_iff)
  show "RawURLDecode (RawURLEncode (itoa i)) = Some (itoa i)" by (rule RawURL_roundtrip)
  then show "RawURLEncode (itoa i) \<noteq> []"
    using a by (auto simp: RawURLDecode_def Atoi_def)
qed

text \<open>A client that follows the cursors: the first page, then the page of each cursor until there is none.\<close>

fun follow_devices :: "nat \<Rightarrow> api_env \<Rightarrow> string \<Rightarrow> api_request \<Rightarrow> api_server \<Rightarrow> string \<Rightarrow> device list option" where
  "follow_devices 0 e cid rq s cursor = None"
| "follow_devices (Suc n) e cid rq s cursor =
     (case rp_body (listDevices e cid (rq\<lparr>rq_query := (rq_query rq)(''cursor'' := cursor)\<rparr>) s) of
        DevicesBody items next_cursor \<Rightarrow>
          if next_cursor = [] then Some items
          else map_option ((@) items) (follow_devices n e cid rq s next_cursor)
      | _ \<Rightarrow> None)"

definition page_size :: "api_request \<Rightarrow> int option" where
  "page_size rq =
     (if rq_query rq ''limit'' = [] then Some 100
      else case Atoi (rq_query rq ''limit'') of None \<Rightarrow> None | Some v \<Rightarrow> if v < 1 \<or> v > 200 then None else Some v)"

lemma page_size_bounds: "page_size rq = Some n \<Longrightarrow> 1 \<le> n \<and> n \<le> 200"
  by (auto simp: page_size_def split: if_splits option.splits)

lemma pagination_cursor:
  assumes "page_size rq = Some n" "0 \<le> i" "i < 2 ^ 63" "cursor = (if i = 0 then [] else RawURLEncode (itoa i))"
  shows "pagination cid (rq\<lparr>rq_query := (rq_query rq)(''cursor'' := cursor)\<rparr>) = Inr (i, n)"
  using assms RawURLEncode_itoa [OF assms(2,3)]
  by (auto simp: pagination_def page_size_def Let_def split: if_splits option.splits)

lemma follow_devices_from:
  assumes "as_devices s = Some registry" "dr_list (ae_device e) (ae_device_order e) registry = ok values"
    "page_size rq = Some limit" "int (length values) < 2 ^ 63" "0 \<le> i" "i \<le> int (length values)"
    "length values - nat i < n"
  shows "follow_devices n e cid rq s (if i = 0 then [] else RawURLEncode (itoa i)) = Some (drop (nat i) values)"
  using assms(5-7)
proof (induction n arbitrary: i)
  case (Suc n)
  let ?cursor = "if i = 0 then [] else RawURLEncode (itoa i)"
  let ?last = "if i + limit > int (length values) then int (length values) else i + limit"
  have lim: "1 \<le> limit" using page_size_bounds [OF assms(3)] by simp
  have "pagination cid (rq\<lparr>rq_query := (rq_query rq)(''cursor'' := ?cursor)\<rparr>) = Inr (i, limit)"
    using Suc.prems assms(4) by (intro pagination_cursor [OF assms(3)]) auto
  then have body: "rp_body (listDevices e cid (rq\<lparr>rq_query := (rq_query rq)(''cursor'' := ?cursor)\<rparr>) s) =
      DevicesBody (take (nat (?last - i)) (drop (nat i) values)) (if ?last < int (length values) then RawURLEncode (itoa ?last) else [])"
    using assms(1,2) Suc.prems nat_diff_distrib [of i "int (length values)"]
    by (simp add: listDevices_def with_dependency_def settle_def found_def ok_def writeJSON_def page_def Let_def)
  show ?case
  proof (cases "?last < int (length values)")
    case True
    then have last: "?last = i + limit" by (simp split: if_splits)
    have "follow_devices n e cid rq s (RawURLEncode (itoa (i + limit))) = Some (drop (nat (i + limit)) values)"
      using Suc.IH [of "i + limit"] Suc.prems lim True last by simp
    moreover have "drop (nat (i + limit)) values = drop (nat limit) (drop (nat i) values)"
      using Suc.prems(1) lim by (simp add: nat_add_distrib add.commute)
    then have "take (nat limit) (drop (nat i) values) @ drop (nat (i + limit)) values = drop (nat i) values"
      by (simp only: append_take_drop_id)
    moreover have "RawURLEncode (itoa (i + limit)) \<noteq> []"
      using RawURLEncode_itoa(3) [of "i + limit"] Suc.prems lim True last assms(4) by simp
    ultimately show ?thesis using body True by (simp add: last)
  next
    case False
    then have "?last = int (length values)" by (simp split: if_splits)
    then show ?thesis using body by (simp add: nat_diff_distrib')
  qed
qed simp

text \<open>
  C27. Paging is complete and exact: a client that asks for the devices with any valid page size and follows \<open>nextCursor\<close> until
  it is empty gets every device, once, in the order of \<open>List\<close>, after at most one request per device and one more.
\<close>

theorem pages_cover_devices:
  assumes "as_devices s = Some registry" "dr_list (ae_device e) (ae_device_order e) registry = ok values"
    "page_size rq = Some limit" "int (length values) < 2 ^ 63"
  shows "follow_devices (Suc (length values)) e cid rq s [] = Some values"
  using follow_devices_from [OF assms, of 0 "Suc (length values)" cid] by simp

section \<open>Concrete requests\<close>

definition sample_api_env :: api_env where
  "sample_api_env =
     \<lparr>ae_now = noon, ae_random = Inl (ErrorString ''no entropy''), ae_authentication_order = [], ae_mutation_order = [],
      ae_health = (\<lambda>n. NewStatus n StateHealthy [] noon), ae_version = None, ae_go_version = ''go1.24'', ae_goroutines = 12,
      ae_device = sample_env, ae_device_order = [sample_id 3, sample_id 1, sample_id 2], ae_sensor = sample_env,
      ae_equipment = sample_env, ae_state = sample_env, ae_state_order = [], ae_deps = sample_deps, ae_alarm = sample_env,
      ae_alarm_order = [], ae_config = sample_config_env, ae_json = (\<lambda>_. Inr []), ae_yaml_version = (\<lambda>_. Inr None),
      ae_yaml = (\<lambda>_ c. Inr c), ae_reload = sample_env, ae_loader = None\<rparr>"

definition sample_api_request :: "string \<Rightarrow> string list \<Rightarrow> string \<Rightarrow> api_request" where
  "sample_api_request m path token =
     \<lparr>rq_method = m, rq_path = path, rq_query = (\<lambda>_. [])(''limit'' := ''2''), rq_authorization = ''Bearer '' @ token,
      rq_correlation = sample_id 9, rq_idempotency = ''key-1'', rq_remote = ''10.0.0.7:5000'', rq_host = Inr ''10.0.0.7'',
      rq_command = (\<lambda>_. Inr \<lparr>creq_on = True, creq_expires = noon + 60000000000, creq_expected = None\<rparr>),
      rq_ack = (\<lambda>_. Inl (ErrorString ''EOF'')), rq_single = (\<lambda>_. True), rq_read = (\<lambda>_. Inr [])\<rparr>"

definition sample_devices :: device_registry where
  "sample_devices =
     NewDeviceRegistry\<lparr>dr_devices := [sample_id 1 \<mapsto> sample_device\<lparr>device_id := sample_id 1\<rparr>,
       sample_id 2 \<mapsto> sample_device\<lparr>device_id := sample_id 2\<rparr>, sample_id 3 \<mapsto> sample_device\<lparr>device_id := sample_id 3\<rparr>]\<rparr>"

definition sample_server :: "api_dependencies \<Rightarrow> api_server" where
  "sample_server d =
     NewServer noon (cfg_http Defaults) \<lparr>hm_components = [], hm_started = True\<rparr>
       [WithDependencies d,
        WithSecurity (Some (BearerAuthenticator ''0123456789abcdef0123456789abcdef''
          \<lparr>pr_id = ''local-administrator'', pr_roles = [RoleAdministrator]\<rparr>)) None]"

definition no_dependencies :: api_dependencies where
  "no_dependencies =
     \<lparr>dep_devices = None, dep_sensors = None, dep_equipment = None, dep_state = None, dep_commands = None,
      dep_alarms = None, dep_configuration = None\<rparr>"

lemma sample_server_simps [simp]:
  "as_devices (sample_server d) = dep_devices d" "as_commands (sample_server d) = dep_commands d"
  "as_authenticator (sample_server d) = BearerAuthenticator ''0123456789abcdef0123456789abcdef''
     \<lparr>pr_id = ''local-administrator'', pr_roles = [RoleAdministrator]\<rparr>"
  "as_authentication (sample_server d) = newRateLimiter (http_rate (cfg_http Defaults)) (http_burst (cfg_http Defaults))"
  "as_health (sample_server d) = \<lparr>hm_components = [], hm_started = True\<rparr>"
  by (simp_all add: sample_server_def NewServer_def)

theorem pages_cover_devices_witness:
  "follow_devices 4 sample_api_env (sample_id 9) (sample_api_request ''GET'' [''api'', ''v1'', ''devices''] [])
     (sample_server (no_dependencies\<lparr>dep_devices := Some sample_devices\<rparr>)) [] =
   Some (sort_key device_id (map (\<lambda>n. sample_device\<lparr>device_id := sample_id n\<rparr>) [3, 1, 2]))"
proof -
  let ?listed = "sort_key device_id (map (\<lambda>n. sample_device\<lparr>device_id := sample_id n\<rparr>) [3, 1, 2])"
  have "go_range (dr_devices sample_devices) (ae_device_order sample_api_env) =
      map (\<lambda>n. sample_device\<lparr>device_id := sample_id n\<rparr>) [3, 1, 2]"
    by (simp add: sample_devices_def sample_api_env_def go_range_def List.map_filter_def sample_id_def hex_digit_inj)
  moreover have "ctx_err (ae_device sample_api_env) = None" by (simp add: sample_api_env_def sample_env_def)
  ultimately have list: "dr_list (ae_device sample_api_env) (ae_device_order sample_api_env) sample_devices = ok ?listed"
    by (simp only: dr_list_def option.case)
  have "Atoi ''2'' = Some 2" by code_simp
  then have limit: "page_size (sample_api_request ''GET'' [''api'', ''v1'', ''devices''] []) = Some 2"
    by (simp add: page_size_def sample_api_request_def)
  have devices: "as_devices (sample_server (no_dependencies\<lparr>dep_devices := Some sample_devices\<rparr>)) = Some sample_devices" by simp
  have size: "int (length ?listed) < 2 ^ 63" "Suc (length ?listed) = 4" by simp_all
  show ?thesis by (rule pages_cover_devices [OF devices list limit size(1), unfolded size(2)])
qed


section \<open>Responses\<close>

definition statuses :: "int list" where
  "statuses = [200, 202, 400, 401, 403, 404, 405, 409, 429, 500, 503]"

fun body_ok :: "response \<Rightarrow> api_body \<Rightarrow> bool" where
  "body_ok r (ProblemBody pb) = (pb_status pb = rp_status r \<and> pb_correlation pb = rp_correlation r \<and> 400 \<le> rp_status r)"
| "body_ok r (PlainError _) = (rp_status r = 500)"
| "body_ok r NotRouted = (rp_status r \<in> {404, 405})"
| "body_ok r (ReadyBody ready _) = (rp_status r = (if ready then 200 else 503))"
| "body_ok r (CommandBody _) = (rp_status r \<in> {200, 202})"
| "body_ok r _ = (rp_status r = 200)"

definition response_ok :: "string \<Rightarrow> response \<Rightarrow> bool" where
  "response_ok cid r \<longleftrightarrow>
     rp_status r \<in> set statuses \<and> rp_correlation r = cid \<and> body_ok r (rp_body r) \<and> (rp_retry_after r \<longleftrightarrow> rp_status r = 429)"

lemma writeProblem_ok [simp]:
  "response_ok cid (writeProblem cid rq st code title d) \<longleftrightarrow> st \<in> set statuses \<and> 400 \<le> st \<and> st \<noteq> 429"
  by (auto simp: response_ok_def writeProblem_def)

lemma writeJSON_status [simp]: "rp_status (writeJSON cid st body) = st"
  by (simp add: writeJSON_def)

lemma writeJSON_ok [simp]:
  "response_ok cid (writeJSON cid st body) \<longleftrightarrow>
     st \<in> set statuses \<and> st \<noteq> 429 \<and> body_ok (writeJSON cid st body) body"
  by (auto simp: response_ok_def writeJSON_def)

lemma problems_ok [simp]:
  "response_ok cid (unavailable cid rq)" "response_ok cid (invalidID cid rq)" "response_ok cid (invalid cid rq err)"
  "response_ok cid (notFound cid rq)" "response_ok cid (internal cid rq err)" "response_ok cid (stale cid rq)"
  "response_ok cid (rate_limited cid rq what)"
  by (simp_all add: unavailable_def invalidID_def invalid_def notFound_def internal_def stale_def statuses_def)
    (simp add: rate_limited_def response_ok_def writeProblem_def statuses_def)

lemma with_dependency_ok [intro!]: "(\<And>d. response_ok cid (f d)) \<Longrightarrow> response_ok cid (with_dependency cid rq dep f)"
  by (cases dep) (simp_all add: with_dependency_def)

lemma settle_ok [intro!]:
  "(\<And>resp. r = Inl resp \<Longrightarrow> response_ok cid resp) \<Longrightarrow> (\<And>v. response_ok cid (f v)) \<Longrightarrow> response_ok cid (settle r f)"
  by (cases r) (simp_all add: settle_def)

lemma found_ok: "found cid rq x r = Inl resp \<Longrightarrow> response_ok cid resp"
  by (cases r) (auto simp: found_def split: option.splits if_splits)

lemma pagination_ok: "pagination cid rq = Inl resp \<Longrightarrow> response_ok cid resp"
  by (auto simp: pagination_def Let_def statuses_def split: option.splits)

lemmas handler_defs = listDevices_def getDevice_def getState_def getSensorState_def getEquipmentState_def getCommand_def
  listAlarms_def live_def api_ready_def details_def system_def diagnostics_def

lemma queries_ok:
  "response_ok cid (listDevices e cid rq s)" "response_ok cid (getDevice e cid i rq s)" "response_ok cid (getState e cid rq s)"
  "response_ok cid (getSensorState e cid i rq s)" "response_ok cid (getEquipmentState e cid i rq s)"
  "response_ok cid (getCommand e cid i rq s)" "response_ok cid (listAlarms e cid rq s)" "response_ok cid (live cid)"
  "response_ok cid (api_ready e cid s)" "response_ok cid (details e cid s)" "response_ok cid (system e cid rq s)"
  "response_ok cid (diagnostics e cid rq s)"
  unfolding handler_defs
  by (auto simp: Let_def statuses_def split: option.splits prod.splits dest!: found_ok pagination_ok)

lemma command_response_ok: "response_ok cid (command_response cid rq r)"
  by (cases r) (auto simp: command_response_def statuses_def split: option.splits)

lemma ack_response_ok: "response_ok cid (ack_response cid rq r)"
  by (cases r) (auto simp: ack_response_def statuses_def split: option.splits)

lemma validateConfig_ok: "response_ok cid (validateConfig e cid rq s)"
  unfolding validateConfig_def
  by (auto simp: statuses_def split: sum.splits prod.splits option.splits)

lemma reloadConfig_ok: "response_ok cid (snd (reloadConfig e cid rq s))"
  by (auto simp: reloadConfig_def Let_def statuses_def split: prod.splits option.splits)

lemma submitCommand_ok: "response_ok cid (snd (submitCommand e cid p i rq s))"
  by (auto simp: submitCommand_def Let_def statuses_def command_response_ok split: prod.splits option.splits sum.splits)

lemma ackAlarm_ok: "response_ok cid (snd (ackAlarm e cid i rq s))"
  by (auto simp: ackAlarm_def Let_def statuses_def ack_response_ok
        split: prod.splits option.splits sum.splits dest!: found_ok)

lemma handle_ok: "response_ok cid (snd (handle e cid p i rq h s))"
  by (cases h)
    (simp_all add: handle_def queries_ok validateConfig_ok reloadConfig_ok submitCommand_ok ackAlarm_ok)

lemma authorized_ok:
  assumes "\<And>p t. response_ok cid (snd (f p t))"
  shows "response_ok cid (snd (authorized e cid r mutation f rq s))"
  using assms by (auto simp: authorized_def Let_def statuses_def split: prod.splits sum.splits option.splits)

lemma not_routed_ok: "response_ok cid (not_routed cid rq)"
  by (simp add: not_routed_def statuses_def)

lemma mux_ok: "response_ok cid (snd (mux e cid rq s))"
  by (simp add: mux_def queries_ok not_routed_ok authorized_ok handle_ok split: option.split)



section \<open>Restart\<close>

text \<open>
  A stopped server does not come back, but says it is healthy: \<open>http.Server\<close> cannot serve after \<open>Shutdown\<close>. After a \<open>Stop\<close>
  a second \<open>Start\<close> listens, succeeds and reports healthy, while its \<open>Serve\<close> has returned \<open>http.ErrServerClosed\<close> at once,
  which the goroutine takes for an ordinary shutdown. The cancellation of the start context ends the same way.
\<close>

theorem restarted_server_is_deaf:
  "(let h = fst (http_Start None (fst (http_Stop None None (fst (http_Start None new_http)))))
    in snd (http_Start None (fst (http_Stop None None (fst (http_Start None new_http))))) = None \<and>
       status_state (http_Health describe now h) = StateHealthy \<and> \<not> hs_serving h) \<and>
   (let h = stopOnCancellation (fst (http_Start None new_http))
    in status_state (http_Health describe now h) = StateHealthy \<and> \<not> hs_serving h)"
  by (simp add: http_Start_def http_Stop_def http_Shutdown_def stopOnCancellation_def http_Health_def new_http_def NewStatus_def)

end
