(* ===== verification/Container.thy ===== *)
theory Container
  imports ConfigSpec Evaluator Safety HomeAssistant MqttRouter Api Inventory
begin

text \<open>
  The composition root (\<open>app/container.go\<close>), as far as it computes: alarm rules, safety profiles, the registered inventory, the
  notification rules, secrets and the credentials of the API, each derived from a validated configuration. The order
  in which \<open>New\<close> calls the constructors is not modelled.

  The maps that the code builds from a list by assignment hold the last entry of a key. A file is what opening and
  reading its first 4097 bytes gives.
\<close>

section \<open>Alarm rules\<close>

definition last_by :: "('a \<Rightarrow> 'k) \<Rightarrow> 'a list \<Rightarrow> 'k \<rightharpoonup> 'a" where
  "last_by key xs = map_of (rev (map (\<lambda>x. (key x, x)) xs))"

definition severity_of :: "string \<Rightarrow> severity" where
  "severity_of s =
     (if s = ''debug'' then SeverityDebug else if s = ''info'' then SeverityInfo else if s = ''warning'' then SeverityWarning
      else if s = ''critical'' then SeverityCritical else SeverityOther s)"

fun threshold_rules :: "(string \<rightharpoonup> sensor_config) \<Rightarrow> alarm_config list \<Rightarrow> go_error + threshold_rule list" where
  "threshold_rules sensors [] = Inr []"
| "threshold_rules sensors (a # rest) =
     (case sensors (ac_sensor a) of
        None \<Rightarrow> Inl (ErrorFmt ''alarm %s sensor %s has no runtime entity_id'' [ac_id a, ac_sensor a])
      | Some s \<Rightarrow>
          if senc_entity s = [] then Inl (ErrorFmt ''alarm %s sensor %s has no runtime entity_id'' [ac_id a, ac_sensor a])
          else case threshold_rules sensors rest of
                 Inl err \<Rightarrow> Inl err
               | Inr rules \<Rightarrow>
                   (let k = senc_calibration s
                    in Inr (\<lparr>th_id = ac_id a, th_name = ac_name a, th_sensor = senc_entity s, th_condition = ac_condition a,
                          th_threshold = ac_threshold a, th_high = ac_threshold_high a, th_severity = severity_of (ac_severity a),
                          th_delay = ac_delay a, th_clear_delay = ac_clear_delay a, th_latching = ac_latching a,
                          th_scale = (if cal_enabled k then cal_scale k else Finite 1),
                          th_offset = (if cal_enabled k then cal_offset k else Finite 0)\<rparr> # rules)))"

definition configuredThresholdRules :: "config \<Rightarrow> go_error + threshold_rule list" where
  "configuredThresholdRules c = threshold_rules (last_by senc_id (invc_sensors (cfg_inventory c))) (cfg_alarms c)"

section \<open>Safety profiles\<close>

definition kind_of :: "string \<Rightarrow> equipment_kind" where
  "kind_of s =
     (if s = ''outlet'' then KindOutlet else if s = ''heater'' then KindHeater else if s = ''return-pump'' then KindReturnPump
      else if s = ''circulation-pump'' then KindCirculationPump else if s = ''ato'' then KindATO
      else if s = ''dosing-pump'' then KindDosingPump else if s = ''light'' then KindLight else KindOther s)"

definition switch_capabilities :: "capability list" where
  "switch_capabilities =
     [CapabilitySwitch, CapabilityCommandAcknowledgement, CapabilityReportedState, CapabilityPowerTelemetry]"

definition probe_requirement :: "string \<Rightarrow> input_requirement" where
  "probe_requirement i =
     \<lparr>req_key = \<lparr>key_kind = EntitySensor, key_entity = i, key_plane = PlaneObservation, key_attribute = ''measurement''\<rparr>,
      req_boolean = None\<rparr>"

definition shelly_profile ::
  "(string \<rightharpoonup> equipment_config) \<Rightarrow> (string \<rightharpoonup> sensor_config) \<Rightarrow> shelly_config \<Rightarrow> profile"
where
  "shelly_profile definitions sensors e =
     (let definition = definitions (shc_equipment e);
          (kind, hazardous, limits) =
            (case definition of
               Some d \<Rightarrow>
                 if eqc_kind d \<noteq> []
                 then (kind_of (eqc_kind d), eqc_hazardous d,
                       \<lparr>maximum_on = eqc_maximum_on d, maximum_daily_on = eqc_maximum_daily d, minimum_off = eqc_minimum_off d\<rparr>)
                 else (if shc_kind e = ''heater'' then KindHeater else KindOutlet, shc_kind e = ''heater'',
                       \<lparr>maximum_on = shc_maximum_on e, maximum_daily_on = 0, minimum_off = 0\<rparr>)
             | None \<Rightarrow> (if shc_kind e = ''heater'' then KindHeater else KindOutlet, shc_kind e = ''heater'',
                       \<lparr>maximum_on = shc_maximum_on e, maximum_daily_on = 0, minimum_off = 0\<rparr>));
          probes =
            (case definition of
               Some d \<Rightarrow>
                 if eqc_sensors d \<noteq> []
                 then map (\<lambda>i. case sensors i of Some s \<Rightarrow> senc_entity s | None \<Rightarrow> []) (eqc_sensors d)
                 else shc_probes e
             | None \<Rightarrow> shc_probes e)
      in \<lparr>profile_equipment = shc_equipment e, profile_kind = kind, profile_hazardous = hazardous,
          profile_fail_safe_on = shc_safe_on e, profile_capabilities = switch_capabilities, profile_limits = limits,
          profile_required = map probe_requirement probes\<rparr>)"

definition configured_profiles :: "config \<Rightarrow> profile list" where
  "configured_profiles c =
     (if shelly_enabled (cfg_adapters c)
      then map (shelly_profile (last_by eqc_entity (invc_equipment (cfg_inventory c)))
                  (last_by senc_id (invc_sensors (cfg_inventory c)))) (shelly_endpoints (cfg_adapters c))
      else [])"

section \<open>The registered inventory\<close>

record inventory_env =
  ie_device :: "device_payload env"
  ie_sensor :: "sensor_payload env"
  ie_equipment :: "equipment_payload env"

definition named :: "string \<Rightarrow> ('a \<Rightarrow> string) \<Rightarrow> 'a option \<Rightarrow> string" where
  "named standard name definition =
     (case definition of Some d \<Rightarrow> if name d \<noteq> [] then name d else standard | None \<Rightarrow> standard)"

definition shelly_device :: "(string \<rightharpoonup> device_config) \<Rightarrow> shelly_config \<Rightarrow> device" where
  "shelly_device definitions e =
     \<lparr>device_id = shc_id e, device_name = named (''Shelly '' @ shc_kind e) dc_name (definitions (shc_id e)),
      device_capabilities = switch_capabilities,
      device_metadata = Some ([''adapter'' \<mapsto> ''shelly'', ''equipmentKind'' \<mapsto> shc_kind e] ++
        (case definitions (shc_id e) of
           Some d \<Rightarrow> (case dc_metadata d of Some m \<Rightarrow> m | None \<Rightarrow> Map.empty)
         | None \<Rightarrow> Map.empty))\<rparr>"

definition shelly_channel :: "shelly_config \<Rightarrow> endpoint" where
  "shelly_channel e =
     \<lparr>endpoint_id = shc_id e, endpoint_device = shc_id e, endpoint_name = ''Shelly channel'',
      endpoint_capabilities = switch_capabilities\<rparr>"

definition shelly_equipment :: "(string \<rightharpoonup> equipment_config) \<Rightarrow> shelly_config \<Rightarrow> equipment" where
  "shelly_equipment definitions e =
     \<lparr>equipment_id = shc_equipment e, equipment_device = shc_id e, equipment_endpoint = shc_id e,
      equipment_name = named (shc_kind e) eqc_name (definitions (shc_equipment e)),
      equipment_capabilities = switch_capabilities, equipment_metadata = Some [''adapter'' \<mapsto> ''shelly'']\<rparr>"

definition add_device :: "inventory_env \<Rightarrow> device \<Rightarrow> inventory \<Rightarrow> inventory \<times> go_error option" where
  "add_device env d v =
     (let (r, _, err) = dr_register (ie_device env) (inv_devices v) d in (v\<lparr>inv_devices := r\<rparr>, err))"

definition add_endpoint :: "inventory_env \<Rightarrow> endpoint \<Rightarrow> inventory \<Rightarrow> inventory \<times> go_error option" where
  "add_endpoint env e v =
     (let (r, _, err) = dr_register_endpoint (ie_device env) (inv_devices v) e in (v\<lparr>inv_devices := r\<rparr>, err))"

definition add_equipment :: "inventory_env \<Rightarrow> equipment \<Rightarrow> inventory \<Rightarrow> inventory \<times> go_error option" where
  "add_equipment env q v =
     (let (r, _, err) = er_register (ie_equipment env) (inv_owners (ie_device env) v) (inv_equipment v) q
      in (v\<lparr>inv_equipment := r\<rparr>, err))"

definition add_sensor :: "inventory_env \<Rightarrow> sensor \<Rightarrow> inventory \<Rightarrow> inventory \<times> go_error option" where
  "add_sensor env s v =
     (let (r, _, err) = sr_register (ie_sensor env) (inv_owners (ie_device env) v) (inv_sensors v) s
      in (v\<lparr>inv_sensors := r\<rparr>, err))"

text \<open>Steps in order until one returns an error.\<close>

fun in_order :: "(inventory \<Rightarrow> inventory \<times> go_error option) list \<Rightarrow> inventory \<Rightarrow> inventory \<times> go_error option" where
  "in_order [] v = (v, None)"
| "in_order (f # fs) v = (case f v of (v', Some err) \<Rightarrow> (v', Some err) | (v', None) \<Rightarrow> in_order fs v')"

definition register_shelly ::
  "inventory_env \<Rightarrow> config \<Rightarrow> shelly_config \<Rightarrow> (inventory \<Rightarrow> inventory \<times> go_error option) list"
where
  "register_shelly env c e =
     [add_device env (shelly_device (last_by dc_entity (invc_devices (cfg_inventory c))) e),
      add_endpoint env (shelly_channel e),
      add_equipment env (shelly_equipment (last_by eqc_entity (invc_equipment (cfg_inventory c))) e)]"

definition esp_device_of :: "(string \<rightharpoonup> device_config) \<Rightarrow> esp32_config \<Rightarrow> device" where
  "esp_device_of definitions e =
     \<lparr>device_id = espc_device e, device_name = named ''ESP32 sensor node'' dc_name (definitions (espc_device e)),
      device_capabilities = [CapabilityObserve], device_metadata = Some [''adapter'' \<mapsto> ''esp32'']\<rparr>"

definition esp_endpoint_of :: "esp32_config \<Rightarrow> endpoint" where
  "esp_endpoint_of e =
     \<lparr>endpoint_id = espc_id e, endpoint_device = espc_device e, endpoint_name = ''ESP32 dual-probe endpoint'',
      endpoint_capabilities = [CapabilityObserve]\<rparr>"

definition esp_sensor_of :: "(string \<rightharpoonup> sensor_config) \<Rightarrow> esp32_config \<Rightarrow> nat \<Rightarrow> string \<Rightarrow> sensor" where
  "esp_sensor_of definitions e index probe =
     \<lparr>sensor_id = probe, sensor_device = espc_device e, sensor_endpoint = espc_id e,
      sensor_name = named (''Temperature probe '' @ decimal (index + 1)) senc_name (definitions probe),
      sensor_quantity = QuantityTemperature, sensor_unit = UnitCelsius, sensor_capabilities = [CapabilityObserve],
      sensor_metadata = Some [''adapter'' \<mapsto> ''esp32'']\<rparr>"

definition register_esp32 ::
  "inventory_env \<Rightarrow> config \<Rightarrow> esp32_config \<Rightarrow> (inventory \<Rightarrow> inventory \<times> go_error option) list"
where
  "register_esp32 env c e =
     [add_device env (esp_device_of (last_by dc_entity (invc_devices (cfg_inventory c))) e),
      add_endpoint env (esp_endpoint_of e)] @
     map (\<lambda>(n, p). add_sensor env (esp_sensor_of (last_by senc_entity (invc_sensors (cfg_inventory c))) e n p))
       (List.enumerate 0 (espc_probes e))"

definition registerAdapterInventory :: "inventory_env \<Rightarrow> config \<Rightarrow> inventory \<Rightarrow> inventory \<times> go_error option" where
  "registerAdapterInventory env c =
     in_order (concat (map (register_shelly env c) (shelly_endpoints (cfg_adapters c))) @
               concat (map (register_esp32 env c) (esp32_endpoints (cfg_adapters c))))"

section \<open>Notification rules, secrets and credentials\<close>

definition notificationRuleIDs :: "config \<Rightarrow> string list" where
  "notificationRuleIDs c =
     map ac_id (filter (\<lambda>a. list_ex (\<lambda>target. target = ''home-assistant'') (ac_notifications a)) (cfg_alarms c))"

definition home_assistant_settings :: "config \<Rightarrow> ha_config" where
  "home_assistant_settings c =
     (let m = cfg_mqtt c
      in \<lparr>hc_site = mq_site m, hc_ttl = ha_command_ttl (mq_home_assistant m), hc_maximum = mq_max_payload m,
          hc_tombstones = map (\<lambda>t. (tomb_component t, tomb_object t)) (ha_tombstones (mq_home_assistant m)),
          hc_rules = notificationRuleIDs c\<rparr>)"

record secret_file =
  sf_open :: "go_error option"
  sf_read :: "go_error + string"

definition readSecretFile :: "(string \<Rightarrow> secret_file) \<Rightarrow> string \<Rightarrow> go_error + string" where
  "readSecretFile files path =
     (if path = [] then Inr []
      else case sf_open (files path) of
             Some err \<Rightarrow> Inl (Wrapped ''open token file'' err)
           | None \<Rightarrow>
               (case sf_read (files path) of
                  Inl err \<Rightarrow> Inl (Wrapped ''read token file'' err)
                | Inr payload \<Rightarrow>
                    if length payload > 4096 then Inl (ErrorString ''token file exceeds 4096 bytes'')
                    else let token = trim_space payload
                         in if token = [] then Inl (ErrorString ''token file is empty'') else Inr token))"

definition api_server_of ::
  "(string \<Rightarrow> secret_file) \<Rightarrow> gotime \<Rightarrow> config \<Rightarrow> string health_manager \<Rightarrow> api_dependencies \<Rightarrow> go_error + api_server"
where
  "api_server_of files now c manager d =
     (if http_token_file (cfg_http c) = [] then Inr (NewServer now (cfg_http c) manager [WithDependencies d])
      else case readSecretFile files (http_token_file (cfg_http c)) of
             Inl err \<Rightarrow> Inl (Wrapped ''construct API credentials'' err)
           | Inr token \<Rightarrow>
               (case NewBearerAuthenticator token \<lparr>pr_id = ''local-administrator'', pr_roles = [RoleAdministrator]\<rparr> of
                  Inl err \<Rightarrow> Inl (Wrapped ''construct API authenticator'' err)
                | Inr a \<Rightarrow> Inr (NewServer now (cfg_http c) manager [WithDependencies d, WithSecurity (Some a) None])))"

section \<open>Lemmas\<close>

lemma last_by_Some:
  assumes "last_by key xs k = Some x"
  shows "x \<in> set xs \<and> key x = k"
  using assms by (auto simp: last_by_def dest!: map_of_SomeD)

text \<open>A definition overrides the profile of an endpoint when it names a kind or required sensors.\<close>

definition overridden :: "config \<Rightarrow> shelly_config \<Rightarrow> bool" where
  "overridden c e \<longleftrightarrow>
     (\<exists>d \<in> set (invc_equipment (cfg_inventory c)). eqc_entity d = shc_equipment e \<and> (eqc_kind d \<noteq> [] \<or> eqc_sensors d \<noteq> []))"

definition plain_profile :: "shelly_config \<Rightarrow> profile" where
  "plain_profile e =
     \<lparr>profile_equipment = shc_equipment e, profile_kind = (if shc_kind e = ''heater'' then KindHeater else KindOutlet),
      profile_hazardous = (shc_kind e = ''heater''), profile_fail_safe_on = shc_safe_on e,
      profile_capabilities = switch_capabilities,
      profile_limits = \<lparr>maximum_on = shc_maximum_on e, maximum_daily_on = 0, minimum_off = 0\<rparr>,
      profile_required = map probe_requirement (shc_probes e)\<rparr>"

lemma shelly_profile_plain:
  assumes "\<not> overridden c e"
  shows "shelly_profile (last_by eqc_entity (invc_equipment (cfg_inventory c))) sensors e = plain_profile e"
proof (cases "last_by eqc_entity (invc_equipment (cfg_inventory c)) (shc_equipment e)")
  case None
  then show ?thesis by (simp add: shelly_profile_def plain_profile_def)
next
  case (Some d)
  then have "d \<in> set (invc_equipment (cfg_inventory c))" "eqc_entity d = shc_equipment e" using last_by_Some by fast+
  then have "eqc_kind d = []" "eqc_sensors d = []" using assms by (auto simp: overridden_def)
  then show ?thesis using Some by (simp add: shelly_profile_def plain_profile_def)
qed

lemma switch_capabilities_ok:
  "ValidateCapabilities switch_capabilities = None"
  "SupportsAll switch_capabilities [CapabilitySwitch, CapabilityCommandAcknowledgement, CapabilityReportedState]"
  by (simp_all add: switch_capabilities_def ValidateCapabilities_def SupportsAll_def)

lemma probe_requirement_ok: "uuid i \<Longrightarrow> requirement_validate (probe_requirement i) = None"
  by (simp add: requirement_validate_None probe_requirement_def)

lemma plain_profile_ok:
  assumes "shelly_ok env e"
  shows "profile_validate (plain_profile e) = None"
proof -
  have "\<forall>i \<in> set (shc_probes e). uuid i" using assms by (auto simp: shelly_ok_def heater_ok_def split: if_splits)
  then have "first_error (map requirement_validate (map probe_requirement (shc_probes e))) = None"
    by (auto simp: first_error_None probe_requirement_ok)
  moreover have "profile_kind_validate (plain_profile e) = None"
    using assms by (auto simp: profile_kind_validate_def plain_profile_def shelly_ok_def heater_ok_def)
  ultimately show ?thesis
    using assms switch_capabilities_ok
    by (auto simp: profile_validate_def first_error_append_None plain_profile_def shelly_ok_def heater_ok_def split: if_splits)
qed

lemma add_profiles_ok:
  assumes "\<forall>p \<in> set ps. profile_validate p = None" "distinct (map profile_equipment ps)"
    "\<forall>p \<in> set ps. eng_profiles e (profile_equipment p) = None"
  shows "\<exists>e'. add_profiles ps e = Inr e' \<and> (\<forall>p \<in> set ps. eng_profiles e' (profile_equipment p) = Some p) \<and>
    (\<forall>i. i \<notin> profile_equipment ` set ps \<longrightarrow> eng_profiles e' i = eng_profiles e i)"
  using assms
proof (induction ps arbitrary: e)
  case (Cons p ps)
  let ?e = "e\<lparr>eng_profiles := (eng_profiles e)(profile_equipment p \<mapsto> p)\<rparr>"
  have "\<forall>q \<in> set ps. eng_profiles ?e (profile_equipment q) = None" using Cons.prems by (auto simp: image_iff)
  then obtain e' where e': "add_profiles ps ?e = Inr e'" "\<forall>q \<in> set ps. eng_profiles e' (profile_equipment q) = Some q"
      "\<forall>i. i \<notin> profile_equipment ` set ps \<longrightarrow> eng_profiles e' i = eng_profiles ?e i"
    using Cons.IH [of ?e] Cons.prems by auto
  moreover have "profile_equipment p \<notin> profile_equipment ` set ps" using Cons.prems(2) by simp
  ultimately show ?case using Cons.prems by auto
qed simp

section \<open>Properties\<close>

text \<open>
  C8. A validated configuration guards its heaters. When no equipment definition overrides a switch, the safety engine accepts the
  profiles that are derived from the configuration, and the profile of every heater is hazardous, fails safe off, limits the
  time on, and requires exactly the two probes of the endpoint, both of which an enabled sensor node observes.
\<close>

theorem validated_heaters_are_guarded:
  assumes "ranges_ok env" "Validate env c = None" "shelly_enabled (cfg_adapters c)"
    "\<And>e. e \<in> set (shelly_endpoints (cfg_adapters c)) \<Longrightarrow> \<not> overridden c e"
  shows "\<exists>engine. NewEngine True (configured_profiles c) = Inr engine \<and>
    (\<forall>e \<in> set (shelly_endpoints (cfg_adapters c)). shc_kind e = ''heater'' \<longrightarrow>
       (\<exists>p q. shc_probes e = [p, q] \<and> p \<noteq> q \<and> esp32_enabled (cfg_adapters c) \<and>
          (\<exists>n \<in> set (esp32_endpoints (cfg_adapters c)). p \<in> set (espc_probes n)) \<and>
          (\<exists>n \<in> set (esp32_endpoints (cfg_adapters c)). q \<in> set (espc_probes n)) \<and>
          (\<exists>prof. eng_profiles engine (shc_equipment e) = Some prof \<and> profile_hazardous prof \<and> \<not> profile_fail_safe_on prof \<and>
             0 < maximum_on (profile_limits prof) \<and> maximum_on (profile_limits prof) = shc_maximum_on e \<and>
             profile_required prof = [probe_requirement p, probe_requirement q])))"
proof -
  let ?sh = "shelly_endpoints (cfg_adapters c)"
  have ok: "adapters_ok env c"
    using assms(2) validateAdapters_None [OF assms(1)] by (simp add: Validate_def first_error_None)
  have sh: "\<forall>e \<in> set ?sh. shelly_ok env e" "distinct (map shc_equipment ?sh)"
    using ok by (simp_all add: adapters_ok_def Let_def)
  have profiles: "configured_profiles c = map plain_profile ?sh"
    using assms(3,4) by (auto simp: configured_profiles_def shelly_profile_plain)
  have valid: "\<forall>p \<in> set (map plain_profile ?sh). profile_validate p = None" using sh(1) plain_profile_ok by auto
  have dist: "distinct (map profile_equipment (map plain_profile ?sh))" using sh(2) by (simp add: plain_profile_def comp_def)
  obtain engine where engine: "NewEngine True (configured_profiles c) = Inr engine"
      "\<forall>p \<in> set (configured_profiles c). eng_profiles engine (profile_equipment p) = Some p"
    using add_profiles_ok [OF valid dist, of "\<lparr>eng_mode = ModeNormal, eng_profiles = Map.empty, eng_overrides = Map.empty,
         eng_runtime = Map.empty, eng_started = False\<rparr>"]
    unfolding NewEngine_def profiles by auto
  show ?thesis
  proof (intro exI [of _ engine] conjI ballI impI)
    fix e
    assume e: "e \<in> set ?sh" "shc_kind e = ''heater''"
    then have "heater_ok e" using sh(1) by (auto simp: shelly_ok_def)
    then obtain p q where pq: "shc_probes e = [p, q]" "p \<noteq> q" and h: "\<not> shc_safe_on e" "0 < shc_maximum_on e"
      by (auto simp: heater_ok_def)
    have nodes: "esp32_enabled (cfg_adapters c)"
        "set (shc_probes e) \<subseteq> set (concat (map espc_probes (esp32_endpoints (cfg_adapters c))))"
      using ok e assms(3) unfolding adapters_ok_def Let_def by blast+
    have "eng_profiles engine (shc_equipment e) = Some (plain_profile e)"
      using engine(2) e(1) by (auto simp: profiles plain_profile_def)
    then show "\<exists>p q. shc_probes e = [p, q] \<and> p \<noteq> q \<and> esp32_enabled (cfg_adapters c) \<and>
          (\<exists>n \<in> set (esp32_endpoints (cfg_adapters c)). p \<in> set (espc_probes n)) \<and>
          (\<exists>n \<in> set (esp32_endpoints (cfg_adapters c)). q \<in> set (espc_probes n)) \<and>
          (\<exists>prof. eng_profiles engine (shc_equipment e) = Some prof \<and> profile_hazardous prof \<and> \<not> profile_fail_safe_on prof \<and>
             0 < maximum_on (profile_limits prof) \<and> maximum_on (profile_limits prof) = shc_maximum_on e \<and>
             profile_required prof = [probe_requirement p, probe_requirement q])"
      using pq h nodes e(2) by (auto simp: plain_profile_def)
  qed (rule engine(1))
qed

text \<open>A configuration with one heater and its sensor node, and the same one with a definition that calls the heater an outlet.\<close>

lemma Validate_bench:
  assumes "inventory_validate sample_config_env i = None"
  shows "Validate sample_config_env (bench_configuration\<lparr>cfg_inventory := i\<rparr>) = None"
proof -
  have "adapters_ok sample_config_env (bench_configuration\<lparr>cfg_inventory := i\<rparr>)"
    using bench_adapters_ok by (simp add: adapters_ok_def)
  then have "validateAdapters sample_config_env (bench_configuration\<lparr>cfg_inventory := i\<rparr>) = None"
    using validateAdapters_None [OF sample_ranges] by blast
  moreover have "validate_timeouts sample_config_env (bench_configuration\<lparr>cfg_inventory := i\<rparr>) =
      validate_timeouts sample_config_env Defaults"
    by (simp add: bench_configuration_def validate_timeouts_def)
  ultimately show ?thesis
    using assms sample_defaults by (simp add: Validate_def first_error_None bench_configuration_def alarms_validate_def Defaults_def)
qed

definition outlet_definition :: equipment_config where
  "outlet_definition =
     \<lparr>eqc_id = ''heater'', eqc_entity = sample_id 2, eqc_device = ''plug'', eqc_name = ''Heater'', eqc_kind = ''outlet'',
      eqc_capabilities = [CapabilitySwitch], eqc_hazardous = False, eqc_fail_safe_on = False, eqc_maximum_on = 0,
      eqc_maximum_daily = 0, eqc_minimum_off = 0, eqc_sensors = [],
      eqc_commissioning = \<lparr>com_stage = ''commissioned'', com_safe_load = True, com_fail_safe = True, com_power_return = True,
        com_safeguard = True, com_by = ''operator'', com_at = noon\<rparr>\<rparr>"

definition outlet_inventory :: inventory_config where
  "outlet_inventory =
     \<lparr>invc_devices = [\<lparr>dc_id = ''plug'', dc_entity = sample_id 1, dc_name = [], dc_description = [], dc_manufacturer = [],
        dc_model = [], dc_firmware = [], dc_metadata = None\<rparr>],
      invc_sensors = [], invc_equipment = [outlet_definition]\<rparr>"

lemma outlet_inventory_valid: "inventory_validate env outlet_inventory = None"
proof -
  have "identifierPattern ''plug''" "identifierPattern ''heater''" by code_simp+
  moreover have "ValidateCapabilities [CapabilitySwitch] = None" by (simp add: ValidateCapabilities_def)
  ultimately show ?thesis
    unfolding inventory_validate_None
    by (simp add: ConfigSpec.inventory_ok_def outlet_inventory_def outlet_definition_def entity_ok_def equipment_ok_def
          hazardous_kind_def commissioning_validate_def)
qed

theorem validated_heaters_are_guarded_witness:
  "\<exists>engine prof. NewEngine True (configured_profiles bench_configuration) = Inr engine \<and>
     eng_profiles engine (sample_id 2) = Some prof \<and> profile_hazardous prof \<and>
     profile_required prof = [probe_requirement (sample_id 11), probe_requirement (sample_id 12)]"
proof -
  have valid: "Validate sample_config_env bench_configuration = None"
    using Validate_bench [of "cfg_inventory bench_configuration"] sample_defaults
    by (simp add: Validate_def first_error_None bench_configuration_def)
  have sh: "shelly_endpoints (cfg_adapters bench_configuration) = [heater_endpoint]" "shelly_enabled (cfg_adapters bench_configuration)"
    by (simp_all add: bench_configuration_def)
  have plain: "\<not> overridden bench_configuration e" for e
    by (simp add: overridden_def bench_configuration_def Defaults_def)
  from validated_heaters_are_guarded [OF sample_ranges valid sh(2) plain]
  show ?thesis by (auto simp: sh(1)) (auto simp: heater_endpoint_def)
qed



definition notified_rule :: alarm_config where
  "notified_rule =
     \<lparr>ac_id = ''tank-hot'', ac_name = ''Tank too hot'', ac_sensor = ''tank'', ac_condition = ''above'', ac_threshold = Finite 28,
      ac_threshold_high = None, ac_severity = ''critical'', ac_delay = 0, ac_clear_delay = 0, ac_latching = False,
      ac_notifications = [''home-assistant'']\<rparr>"


section \<open>Registration succeeds\<close>

text \<open>Nothing outside the registries fails: no context error, and the events of a registration are published.\<close>

definition quiet :: "inventory_env \<Rightarrow> bool" where
  "quiet env \<longleftrightarrow>
     ctx_err (ie_device env) = None \<and> ctx_err (ie_sensor env) = None \<and> ctx_err (ie_equipment env) = None \<and>
     (\<forall>p. dr_emit (ie_device env) DeviceRegistered p = None) \<and> (\<forall>p. sr_emit (ie_sensor env) SensorRegistered p = None) \<and>
     (\<forall>p. er_emit (ie_equipment env) EquipmentRegistered p = None)"

lemma in_order_append:
  "in_order (fs @ gs) v = (case in_order fs v of (v', Some err) \<Rightarrow> (v', Some err) | (v', None) \<Rightarrow> in_order gs v')"
  by (induction fs arbitrary: v) (auto split: prod.splits option.splits)

lemma uuid_nonempty: "uuid i \<Longrightarrow> i \<noteq> []"
  by auto

lemma add_device_ok:
  assumes "quiet env" "uuid (device_id d)" "device_name d \<noteq> []" "ValidateCapabilities (device_capabilities d) = None"
    "dr_devices (inv_devices v) (device_id d) = None"
  shows "add_device env d v =
    (v\<lparr>inv_devices := (inv_devices v)\<lparr>dr_devices := (dr_devices (inv_devices v))(device_id d \<mapsto> d)\<rparr>\<rparr>, None)"
  using assms uuid_nonempty [OF assms(2)]
  by (simp add: add_device_def dr_register_def quiet_def assign_id_def wrap_def validateDevice_def Let_def)

lemma add_endpoint_ok:
  assumes "quiet env" "uuid (endpoint_id e)" "endpoint_name e \<noteq> []" "ValidateCapabilities (endpoint_capabilities e) = None"
    "dr_devices (inv_devices v) (endpoint_device e) = Some d" "SupportsAll (device_capabilities d) (endpoint_capabilities e)"
    "dr_endpoints (inv_devices v) (endpoint_id e) = None"
  shows "add_endpoint env e v =
    (v\<lparr>inv_devices := (inv_devices v)\<lparr>dr_endpoints := (dr_endpoints (inv_devices v))(endpoint_id e \<mapsto> e)\<rparr>\<rparr>, None)"
  using assms uuid_nonempty [OF assms(2)]
  by (simp add: add_endpoint_def dr_register_endpoint_def quiet_def assign_id_def wrap_def Let_def ok_def)

lemma add_equipment_ok:
  assumes "quiet env" "uuid (equipment_id q)" "equipment_name q \<noteq> []" "ValidateCapabilities (equipment_capabilities q) = None"
    "SupportsAll (equipment_capabilities q) [CapabilitySwitch]"
    "dr_endpoints (inv_devices v) (equipment_endpoint q) = Some e" "endpoint_device e = equipment_device q"
    "SupportsAll (endpoint_capabilities e) (equipment_capabilities q)" "er_equipment (inv_equipment v) (equipment_id q) = None"
  shows "add_equipment env q v =
    (v\<lparr>inv_equipment := (inv_equipment v)\<lparr>er_equipment := (er_equipment (inv_equipment v))(equipment_id q \<mapsto> q)\<rparr>\<rparr>, None)"
  using assms uuid_nonempty [OF assms(2)]
  by (simp add: add_equipment_def er_register_def quiet_def assign_id_def wrap_def er_validate_def dr_endpoint_def Let_def ok_def)

lemma add_sensor_ok:
  assumes "quiet env" "uuid (sensor_id s)" "sensor_name s \<noteq> []" "sensor_capabilities s = [CapabilityObserve]"
    "sensor_quantity s = QuantityTemperature" "sensor_unit s = UnitCelsius"
    "dr_endpoints (inv_devices v) (sensor_endpoint s) = Some e" "endpoint_device e = sensor_device s"
    "SupportsAll (endpoint_capabilities e) [CapabilityObserve]" "sr_sensors (inv_sensors v) (sensor_id s) = None"
  shows "add_sensor env s v =
    (v\<lparr>inv_sensors := (inv_sensors v)\<lparr>sr_sensors := (sr_sensors (inv_sensors v))(sensor_id s \<mapsto> s)\<rparr>\<rparr>, None)"
proof -
  have "snd (NewQuantity QuantityTemperature (Finite 0) UnitCelsius) = None" by (simp add: NewQuantity_def quantity_validate_def)
  moreover have "ValidateCapabilities [CapabilityObserve] = None" by (simp add: ValidateCapabilities_def)
  ultimately show ?thesis
    using assms uuid_nonempty [OF assms(2)]
    by (simp add: add_sensor_def sr_register_def quiet_def assign_id_def wrap_def sr_validate_def dr_endpoint_def Let_def ok_def)
qed

lemma named_nonempty: "standard \<noteq> [] \<Longrightarrow> named standard name d \<noteq> []"
  by (cases d) (auto simp: named_def)

text \<open>The identifiers that an inventory holds.\<close>

definition holds :: "string set \<Rightarrow> string set \<Rightarrow> string set \<Rightarrow> string set \<Rightarrow> inventory \<Rightarrow> bool" where
  "holds ds es ss qs v \<longleftrightarrow>
     dom (dr_devices (inv_devices v)) = ds \<and> dom (dr_endpoints (inv_devices v)) = es \<and>
     dom (sr_sensors (inv_sensors v)) = ss \<and> dom (er_equipment (inv_equipment v)) = qs"

lemma register_shelly_ok:
  assumes "quiet env" "shelly_ok cenv e" "holds ds es ss qs v" "shc_id e \<notin> ds" "shc_id e \<notin> es" "shc_equipment e \<notin> qs"
  shows "\<exists>v'. in_order (register_shelly env c e) v = (v', None) \<and>
    holds (insert (shc_id e) ds) (insert (shc_id e) es) ss (insert (shc_equipment e) qs) v'"
proof -
  let ?d = "shelly_device (last_by dc_entity (invc_devices (cfg_inventory c))) e"
  let ?q = "shelly_equipment (last_by eqc_entity (invc_equipment (cfg_inventory c))) e"
  let ?v1 = "v\<lparr>inv_devices := (inv_devices v)\<lparr>dr_devices := (dr_devices (inv_devices v))(shc_id e \<mapsto> ?d)\<rparr>\<rparr>"
  let ?v2 = "?v1\<lparr>inv_devices := (inv_devices ?v1)\<lparr>dr_endpoints := (dr_endpoints (inv_devices ?v1))(shc_id e \<mapsto> shelly_channel e)\<rparr>\<rparr>"
  let ?v3 = "?v2\<lparr>inv_equipment := (inv_equipment ?v2)\<lparr>er_equipment := (er_equipment (inv_equipment ?v2))(shc_equipment e \<mapsto> ?q)\<rparr>\<rparr>"
  have e: "uuid (shc_id e)" "uuid (shc_equipment e)" "shc_kind e \<noteq> []"
    using assms(2) by (auto simp: shelly_ok_def split: if_splits)
  have new: "dr_devices (inv_devices v) (shc_id e) = None" "dr_endpoints (inv_devices v) (shc_id e) = None"
      "er_equipment (inv_equipment v) (shc_equipment e) = None"
    using assms(3-6) by (auto simp: holds_def)
  have caps: "SupportsAll switch_capabilities switch_capabilities" "SupportsAll switch_capabilities [CapabilitySwitch]"
    by (simp_all add: SupportsAll_subset switch_capabilities_def)
  have "add_device env ?d v = (?v1, None)"
    using add_device_ok [OF assms(1), of ?d v] e new switch_capabilities_ok(1) by (simp add: shelly_device_def named_nonempty)
  moreover have "add_endpoint env (shelly_channel e) ?v1 = (?v2, None)"
    using add_endpoint_ok [OF assms(1), of "shelly_channel e" ?v1 ?d] e new switch_capabilities_ok(1) caps
    by (simp add: shelly_channel_def shelly_device_def)
  moreover have "add_equipment env ?q ?v2 = (?v3, None)"
    using add_equipment_ok [OF assms(1), of ?q ?v2 "shelly_channel e"] e new switch_capabilities_ok(1) caps
    by (simp add: shelly_channel_def shelly_equipment_def named_nonempty)
  ultimately have "in_order (register_shelly env c e) v = (?v3, None)" by (simp add: register_shelly_def)
  moreover have "holds (insert (shc_id e) ds) (insert (shc_id e) es) ss (insert (shc_equipment e) qs) ?v3"
    using assms(3) by (simp add: holds_def)
  ultimately show ?thesis by blast
qed

lemma register_shelly_all:
  assumes "quiet env" "\<forall>e \<in> set sh. shelly_ok cenv e" "distinct (map shc_id sh)" "distinct (map shc_equipment sh)"
    "holds ds es ss qs v" "shc_id ` set sh \<inter> (ds \<union> es) = {}" "shc_equipment ` set sh \<inter> qs = {}"
  shows "\<exists>v'. in_order (concat (map (register_shelly env c) sh)) v = (v', None) \<and>
    holds (ds \<union> shc_id ` set sh) (es \<union> shc_id ` set sh) ss (qs \<union> shc_equipment ` set sh) v'"
  using assms(2-)
proof (induction sh arbitrary: v ds es qs)
  case (Cons e sh)
  obtain v1 where v1: "in_order (register_shelly env c e) v = (v1, None)"
      "holds (insert (shc_id e) ds) (insert (shc_id e) es) ss (insert (shc_equipment e) qs) v1"
    using register_shelly_ok [OF assms(1), of cenv e ds es ss qs v c] Cons.prems by auto
  have disjoint: "shc_id ` set sh \<inter> (insert (shc_id e) ds \<union> insert (shc_id e) es) = {}"
      "shc_equipment ` set sh \<inter> insert (shc_equipment e) qs = {}"
    using Cons.prems(2,3,5,6) by auto
  obtain v' where "in_order (concat (map (register_shelly env c) sh)) v1 = (v', None)"
      "holds (insert (shc_id e) ds \<union> shc_id ` set sh) (insert (shc_id e) es \<union> shc_id ` set sh) ss
        (insert (shc_equipment e) qs \<union> shc_equipment ` set sh) v'"
    using Cons.IH [OF _ _ _ v1(2) disjoint] Cons.prems(1-3) by auto
  then show ?case using v1(1) by (simp add: in_order_append)
qed simp

lemma register_esp32_ok:
  assumes "quiet env" "esp32_ok cenv e" "holds ds es ss qs v" "espc_device e \<notin> ds" "espc_id e \<notin> es"
    "set (espc_probes e) \<inter> ss = {}"
  shows "\<exists>v'. in_order (register_esp32 env c e) v = (v', None) \<and>
    holds (insert (espc_device e) ds) (insert (espc_id e) es) (ss \<union> set (espc_probes e)) qs v'"
proof -
  obtain p q where pq: "espc_probes e = [p, q]" using assms(2) by (auto simp: esp32_ok_def length_Suc_conv numeral_2_eq_2)
  have e: "uuid (espc_id e)" "uuid (espc_device e)" "uuid p" "uuid q" "p \<noteq> q"
    using assms(2) by (simp_all add: esp32_ok_def pq)
  let ?d = "esp_device_of (last_by dc_entity (invc_devices (cfg_inventory c))) e"
  let ?s = "esp_sensor_of (last_by senc_entity (invc_sensors (cfg_inventory c))) e"
  let ?v1 = "v\<lparr>inv_devices := (inv_devices v)\<lparr>dr_devices := (dr_devices (inv_devices v))(espc_device e \<mapsto> ?d)\<rparr>\<rparr>"
  let ?v2 = "?v1\<lparr>inv_devices := (inv_devices ?v1)\<lparr>dr_endpoints := (dr_endpoints (inv_devices ?v1))(espc_id e \<mapsto> esp_endpoint_of e)\<rparr>\<rparr>"
  let ?v3 = "?v2\<lparr>inv_sensors := (inv_sensors ?v2)\<lparr>sr_sensors := (sr_sensors (inv_sensors ?v2))(p \<mapsto> ?s 0 p)\<rparr>\<rparr>"
  let ?v4 = "?v3\<lparr>inv_sensors := (inv_sensors ?v3)\<lparr>sr_sensors := (sr_sensors (inv_sensors ?v3))(q \<mapsto> ?s 1 q)\<rparr>\<rparr>"
  have new: "dr_devices (inv_devices v) (espc_device e) = None" "dr_endpoints (inv_devices v) (espc_id e) = None"
      "sr_sensors (inv_sensors v) p = None" "sr_sensors (inv_sensors v) q = None"
    using assms(3-6) by (auto simp: holds_def pq)
  have caps: "ValidateCapabilities [CapabilityObserve] = None" "SupportsAll [CapabilityObserve] [CapabilityObserve]"
    by (simp_all add: ValidateCapabilities_def SupportsAll_subset)
  have "add_device env ?d v = (?v1, None)"
    using add_device_ok [OF assms(1), of ?d v] e new caps by (simp add: esp_device_of_def named_nonempty)
  moreover have "add_endpoint env (esp_endpoint_of e) ?v1 = (?v2, None)"
    using add_endpoint_ok [OF assms(1), of "esp_endpoint_of e" ?v1 ?d] e new caps by (simp add: esp_endpoint_of_def esp_device_of_def)
  moreover have "add_sensor env (?s 0 p) ?v2 = (?v3, None)"
    using add_sensor_ok [OF assms(1), of "?s 0 p" ?v2 "esp_endpoint_of e"] e new caps
    by (simp add: esp_endpoint_of_def esp_sensor_of_def named_nonempty)
  moreover have "add_sensor env (?s 1 q) ?v3 = (?v4, None)"
    using add_sensor_ok [OF assms(1), of "?s 1 q" ?v3 "esp_endpoint_of e"] e new caps
    by (simp add: esp_endpoint_of_def esp_sensor_of_def named_nonempty)
  ultimately have "in_order (register_esp32 env c e) v = (?v4, None)"
    by (simp add: register_esp32_def pq)
  moreover have "holds (insert (espc_device e) ds) (insert (espc_id e) es) (ss \<union> set (espc_probes e)) qs ?v4"
    using assms(3) by (auto simp: holds_def pq)
  ultimately show ?thesis by blast
qed

lemma register_esp32_all:
  assumes "quiet env" "\<forall>e \<in> set nodes. esp32_ok cenv e" "distinct (map espc_device nodes)" "distinct (map espc_id nodes)"
    "distinct (concat (map espc_probes nodes))" "holds ds es ss qs v" "espc_device ` set nodes \<inter> ds = {}"
    "espc_id ` set nodes \<inter> es = {}" "set (concat (map espc_probes nodes)) \<inter> ss = {}"
  shows "\<exists>v'. in_order (concat (map (register_esp32 env c) nodes)) v = (v', None) \<and>
    holds (ds \<union> espc_device ` set nodes) (es \<union> espc_id ` set nodes) (ss \<union> set (concat (map espc_probes nodes))) qs v'"
  using assms(2-)
proof (induction nodes arbitrary: v ds es ss)
  case (Cons e nodes)
  obtain v1 where v1: "in_order (register_esp32 env c e) v = (v1, None)"
      "holds (insert (espc_device e) ds) (insert (espc_id e) es) (ss \<union> set (espc_probes e)) qs v1"
    using register_esp32_ok [OF assms(1), of cenv e ds es ss qs v c] Cons.prems by auto
  have disjoint: "espc_device ` set nodes \<inter> insert (espc_device e) ds = {}" "espc_id ` set nodes \<inter> insert (espc_id e) es = {}"
      "set (concat (map espc_probes nodes)) \<inter> (ss \<union> set (espc_probes e)) = {}"
    using Cons.prems(2-4,6-8) by auto
  obtain v' where "in_order (concat (map (register_esp32 env c) nodes)) v1 = (v', None)"
      "holds (insert (espc_device e) ds \<union> espc_device ` set nodes) (insert (espc_id e) es \<union> espc_id ` set nodes)
        (ss \<union> set (espc_probes e) \<union> set (concat (map espc_probes nodes))) qs v'"
    using Cons.IH [OF _ _ _ _ v1(2) disjoint] Cons.prems(1-4) by auto
  then show ?case using v1(1) by (simp add: in_order_append Un_assoc)
qed simp

text \<open>
  C23. A validated configuration can be registered. Unless a sensor node is given the identifier of a Shelly endpoint as its device,
  \<open>registerAdapterInventory\<close> on empty registries returns without an error, and afterwards the registries hold exactly the
  devices, endpoints, sensors and equipment that the adapters of the configuration name.
\<close>

theorem validated_inventory_registers:
  assumes "ranges_ok cenv" "Validate cenv c = None" "quiet env"
    "espc_device ` set (esp32_endpoints (cfg_adapters c)) \<inter> shc_id ` set (shelly_endpoints (cfg_adapters c)) = {}"
  shows "\<exists>v. registerAdapterInventory env c NewInventory = (v, None) \<and>
    holds (shc_id ` set (shelly_endpoints (cfg_adapters c)) \<union> espc_device ` set (esp32_endpoints (cfg_adapters c)))
      (shc_id ` set (shelly_endpoints (cfg_adapters c)) \<union> espc_id ` set (esp32_endpoints (cfg_adapters c)))
      (set (concat (map espc_probes (esp32_endpoints (cfg_adapters c)))))
      (shc_equipment ` set (shelly_endpoints (cfg_adapters c))) v"
proof -
  let ?sh = "shelly_endpoints (cfg_adapters c)" and ?es = "esp32_endpoints (cfg_adapters c)"
  have ok: "adapters_ok cenv c"
    using assms(2) validateAdapters_None [OF assms(1)] by (simp add: Validate_def first_error_None)
  have parts: "\<forall>e \<in> set ?sh. shelly_ok cenv e" "\<forall>e \<in> set ?es. esp32_ok cenv e" "distinct (map shc_id ?sh @ map espc_id ?es)"
      "distinct (map shc_equipment ?sh)" "distinct (map espc_device ?es)" "distinct (concat (map espc_probes ?es))"
    using ok by (simp_all add: adapters_ok_def Let_def)
  have empty: "holds {} {} {} {} NewInventory"
    by (simp add: holds_def NewInventory_def NewDeviceRegistry_def NewSensorRegistry_def NewEquipmentRegistry_def)
  obtain v1 where v1: "in_order (concat (map (register_shelly env c) ?sh)) NewInventory = (v1, None)"
      "holds (shc_id ` set ?sh) (shc_id ` set ?sh) {} (shc_equipment ` set ?sh) v1"
    using register_shelly_all [OF assms(3) parts(1) _ parts(4) empty, of c] parts(3) by auto
  have "espc_id ` set ?es \<inter> shc_id ` set ?sh = {}" using parts(3) by auto
  then obtain v where "in_order (concat (map (register_esp32 env c) ?es)) v1 = (v, None)"
      "holds (shc_id ` set ?sh \<union> espc_device ` set ?es) (shc_id ` set ?sh \<union> espc_id ` set ?es)
        ({} \<union> set (concat (map espc_probes ?es))) (shc_equipment ` set ?sh) v"
    using register_esp32_all [OF assms(3) parts(2,5) _ parts(6) v1(2) assms(4), of c] parts(3) by auto
  then show ?thesis using v1(1) by (simp add: registerAdapterInventory_def in_order_append)
qed

theorem validated_inventory_registers_witness:
  "\<exists>v. registerAdapterInventory \<lparr>ie_device = sample_env, ie_sensor = sample_env, ie_equipment = sample_env\<rparr>
      (bench_configuration\<lparr>cfg_inventory := outlet_inventory\<rparr>) NewInventory = (v, None) \<and>
    dom (sr_sensors (inv_sensors v)) = {sample_id 11, sample_id 12} \<and> dom (er_equipment (inv_equipment v)) = {sample_id 2}"
proof -
  let ?c = "bench_configuration\<lparr>cfg_inventory := outlet_inventory\<rparr>"
  let ?env = "\<lparr>ie_device = sample_env, ie_sensor = sample_env, ie_equipment = sample_env\<rparr>"
  have quiet: "quiet ?env" by (simp add: quiet_def sample_env_def dr_emit_def sr_emit_def er_emit_def emit_def)
  have lists: "shelly_endpoints (cfg_adapters ?c) = [heater_endpoint]" "esp32_endpoints (cfg_adapters ?c) = [node_endpoint]"
    by (simp_all add: bench_configuration_def)
  have apart: "espc_device ` set (esp32_endpoints (cfg_adapters ?c)) \<inter> shc_id ` set (shelly_endpoints (cfg_adapters ?c)) = {}"
    unfolding lists by (simp add: heater_endpoint_def node_endpoint_def)
  from validated_inventory_registers [OF sample_ranges Validate_bench [OF outlet_inventory_valid] quiet apart]
  show ?thesis unfolding lists by (auto simp: holds_def) (auto simp: heater_endpoint_def node_endpoint_def)
qed

section \<open>The API without a token\<close>

text \<open>Without a token file the API of the running system changes nothing, whatever is requested.\<close>

lemma api_without_token_file:
  assumes "http_token_file (cfg_http c) = []" "api_server_of files now c manager d = Inr s"
  shows "\<not> presents rq s p"
  using assms by (auto simp: api_server_of_def NewServer_def presents_def)

text \<open>With one, the accepted token has at least 32 bytes and its principal is the local administrator.\<close>

lemma api_with_token_file:
  assumes "http_token_file (cfg_http c) \<noteq> []" "api_server_of files now c manager d = Inr s"
  shows "\<exists>token. readSecretFile files (http_token_file (cfg_http c)) = Inr token \<and> 32 \<le> length token \<and>
    as_authenticator s = BearerAuthenticator token \<lparr>pr_id = ''local-administrator'', pr_roles = [RoleAdministrator]\<rparr>"
  using assms by (auto simp: api_server_of_def NewServer_def NewBearerAuthenticator_def split: sum.splits if_splits)

end
