(* ===== verification/Spec2Isabelle.thy ===== *)
theory Spec2Isabelle
  imports Lifecycle Inventory Evaluator MqttRouter Bench ConfigManager MqttClient Storage Api Container
begin

text \<open>
  A verification development for the control plane of AquaOS, an aquarium controller written in Go. File names below are
  relative to \<open>src/internal\<close> where nothing else is said.

  \<^bold>\<open>The program.\<close> Adapters poll sensor nodes (ESP32) and switches (Shelly). A bench coordinator turns what they report into canonical
  state, alarms and reconciled commands. A command reaches an executor only through the command service, which asks the
  safety engine first; requests for commands come from the MQTT broker, from Home Assistant, from the HTTP API and from the
  watchdog. Registries hold devices, sensors and equipment; a bus carries events to the alarm evaluator, the MQTT exporter and
  the time-series writer; a lifecycle manager starts and stops all of it, from one validated configuration.

  \<^bold>\<open>How the code is modelled.\<close> A Go struct is a record, an enumeration a datatype, a method a function from the receiver to the changed
  receiver and its results. Errors are values of \<open>go_error\<close>; a result with an error is \<open>'a ret\<close>, a pair of optional value and optional
  error. Times are integer nanoseconds, durations wrap at 64 bits and time differences saturate as in the language; revisions and
  counters are words; \<open>float64\<close> is an extended rational with rounding after every operation (\<open>GoFloat\<close>, lemmas in
  \<open>GoRound\<close>). A map is a partial function; a loop over it takes the iteration order as an argument, and theorems hold for every
  order. A clock, a random source, a context, the network, a decoder of JSON or YAML and the Paho client are arguments of the
  definitions that use them. Methods that hold a lock for their whole body are atomic; where the code releases a lock inside an operation
  (\<open>Submit\<close>, the MQTT queue, the storage writer, state subscriptions) the steps between lock regions are definitions of their own and the theorems
  range over interleavings.

  \<^bold>\<open>Theories and sources.\<close>
  \<^item> \<open>Prelude\<close>, \<open>GoFloat\<close>, \<open>GoRound\<close>, \<open>GoNet\<close>, \<open>GoText\<close>, \<open>Sha256\<close>: the parts of the language and its standard library that the code uses.
  \<^item> \<open>Domain\<close> (\<open>domain\<close>, \<open>core\<close>), \<open>Events\<close> (\<open>events\<close>), \<open>Health\<close> (\<open>health\<close>, \<open>subsystem\<close>), \<open>Lifecycle\<close> (\<open>lifecycle\<close>): identifiers and
    values, the event bus, health reports, start with rollback.
  \<^item> \<open>Registry\<close>, \<open>Devices\<close>, \<open>Sensors\<close>, \<open>EquipmentRegistry\<close>, \<open>Inventory\<close> (\<open>devices\<close>, \<open>sensors\<close>, \<open>equipment/registry.go\<close>): the registries over the
    locales \<open>keyed_registry\<close> and \<open>endpoint_lookup\<close>, and their composition.
  \<^item> \<open>StateManager\<close> (\<open>state\<close>): canonical state, subscriptions as bounded channels that may block or panic.
  \<^item> \<open>Equipment\<close> (\<open>equipment/machine.go\<close>, \<open>profile.go\<close>), \<open>Safety\<close> (\<open>safety/engine.go\<close>), \<open>Output\<close> (\<open>output\<close>): the state machine, the policy engine
    with its watchdogs, and the command service, whose \<open>Submit\<close> is also given as seven interleavable steps.
  \<^item> \<open>Alarms\<close>, \<open>Evaluator\<close> (\<open>alarms\<close>): debounce, hysteresis, latching; threshold rules.
  \<^item> \<open>MqttTopics\<close>, \<open>MqttCodec\<close>, \<open>MqttRouter\<close>, \<open>MqttClient\<close> (\<open>mqtt\<close>): topics, envelopes, idempotent consumption, command requests, event
    export, the offline queue and reconnecting.
  \<^item> \<open>Shelly\<close>, \<open>Esp32\<close> (\<open>adapters\<close>), \<open>Bench\<close> (\<open>bench/coordinator.go\<close>): the adapters, the coordinator, and the plant that they form with the state
    manager, the alarm manager and the command service.
  \<^item> \<open>Config\<close>, \<open>ConfigSpec\<close>, \<open>ConfigManager\<close> (\<open>config\<close>): records, defaults, environment, validators, and reload.
  \<^item> \<open>HomeAssistant\<close> (\<open>integrations/homeassistant/manager.go\<close>), \<open>Storage\<close> (\<open>storage\<close>): discovery and switch requests; the time-series writer.
  \<^item> \<open>RateLimit\<close>, \<open>Api\<close> (\<open>api\<close>): token buckets, credentials, middleware, routes, every handler, the life cycle of the server.
  \<^item> \<open>Container\<close> (\<open>app/container.go\<close>): what the composition root derives from a validated configuration.
  \<^item> This theory composes the route from a broker message to an executor.

  \<^bold>\<open>What is shown.\<close>
  \<^item> Safety of commands: nothing hazardous is switched on without good and fresh inputs; the exact conditions of the safety engine and the
    watchdogs; dispatch only of validated, new, authorised commands; success only by report; a failed poll blocks hazardous equipment; a
    validated configuration yields a safety engine that guards its heaters.
  \<^item> Boundaries: broker messages, switch requests and HTTP requests change commands by at most one submission; the API changes nothing
    without token and role and tells nothing to a request without them; its responses are well formed and its pages complete; the rate limit
    holds with the rounding of the machine.
  \<^item> Invariants and liveness: ownership in the inventory, state operations that never block, accounting for every update, point and offline
    publication, the end of the writer after its context.
  \<^item> Exact specifications: alarms over whole histories, probe quality, configuration validators, publishable topics, retained discovery
    messages, backoff of reconnects.
  \<^item> Defects, as theorems: overlapping submissions are both dispatched, a failed publication strands a command, back-dated intents pass, on-time
    after midnight is lost, the switch filter of Home Assistant is refused, a restarted API server is deaf, an equipment definition
    disarms a heater, and notifications are never counted.

  \<^bold>\<open>Bounds.\<close> \<open>Submit\<close> finishes in 7 steps (\<open>Output.steps_are_submit\<close>). Shelly retries are bounded by the accepted configuration (at most 6 attempts), so their
  loop is structural. The backoff theorem takes a maximum delay below \<open>2 ^ 62\<close> nanoseconds and the limiter theorem rates and bursts up to \<open>2 ^ 50\<close>, which
  keeps \<open>float64\<close> arithmetic in its ordinary range; the validators accept far smaller numbers only. \<open>follow_devices\<close>, the client that follows
  cursors, has fuel, and one unit per device and one more is proved to be enough. No other function has fuel.

  \<^bold>\<open>Not modelled.\<close>
  \<^item> The sequence of constructor calls in \<open>New\<close> of \<open>app/container.go\<close>; the constructors themselves are modelled.
  \<^item> \<open>admin/server.go\<close>, \<open>firstboot\<close>, \<open>discovery\<close>, \<open>operations\<close>: HTML handlers, proxies, processes, archives and network scans; their content is input and
    output. The request limiter of \<open>admin\<close> is the algorithm of \<open>RateLimit\<close>.
  \<^item> \<open>adapters/simulator\<close>: simulated hardware, replaced by the real adapters in operation.
  \<^item> \<open>integrations/homeassistant/registry.go\<close>, \<open>assets.go\<close>, \<open>integrations/vision\<close>: a registry client, dashboard text, decoding of camera observations.
  \<^item> \<open>plugins\<close>, \<open>telemetry\<close>, \<open>logging\<close>, \<open>cmd\<close>: entry points, build data and log setup.
  \<^item> Log lines everywhere, tickers that repeat a poll, and defensive copies, which are the identity on values.
\<close>

section \<open>From the broker to the executor\<close>

lemma Evaluate_inputs:
  assumes "granted (snd (Evaluate env reader x e))"
  shows "\<exists>p. eng_profiles e (intent_equipment x) = Some p \<and>
    (intent_on x \<longrightarrow> profile_hazardous p \<longrightarrow> granted (validateInputs reader (profile_required p)))"
  using assms
  by (auto simp: Evaluate_decision evaluate_on_granted validateInputs_granted simp del: ok_simps
      split: option.splits if_splits)

text \<open>
  C1. Nothing hazardous is switched on blindly, across all components a command passes: when a
  message from the broker makes the command service hand a command to an executor, it is one
  command, for equipment the safety engine has a profile of, and if it switches hazardous equipment
  on, then every input the profile requires is held by the state manager, was observed for that very key,
  is good and as required, and is fresh at the time of the call.
\<close>

theorem hazard_needs_fresh_inputs:
  assumes "sm_reach m" "d_reader (rd_deps d) = sm_get env m"
  shows "let sent = w_sent (rw_world w); sent' = w_sent (rw_world (snd (fst (Handle d target payload (c, w)))))
    in sent' = sent \<or>
      (\<exists>e cmd0 cmd p. pay_envelope payload = Inr e \<and> decode_command e = Inr cmd0 \<and>
         prepare (d_env (rd_deps d)) cmd0 = Inr cmd \<and> sent' = sent @ [cmd] \<and>
         eng_profiles (w_policy (rw_world w)) (cmd_equipment cmd) = Some p \<and>
         (if cmd_on cmd \<and> profile_hazardous p
          then list_all (\<lambda>q. input_satisfied (sm_get env m) q \<and>
            (\<exists>v. sm_get env m (req_key q) = (Some v, None) \<and> sv_key v = req_key q \<and>
               env_now env < sv_observed v + sv_fresh_for v)) (profile_required p)
          else True))"
proof -
  let ?w = "rw_world w"
  consider "rw_world (snd (fst (Handle d target payload (c, w)))) = ?w"
    | e cmd where "pay_envelope payload = Inr e" "decode_command e = Inr cmd"
        "rw_world (snd (fst (Handle d target payload (c, w)))) = fst (Submit (rd_deps d) cmd ?w)"
    using Handle_submits [of d target payload c w] Decode_ok(2) by metis
  then show ?thesis
  proof cases
    case (2 e cmd)
    from Submit_sent [of "rd_deps d" cmd ?w] consider
      "w_sent (fst (Submit (rd_deps d) cmd ?w)) = w_sent ?w"
      | c' where "prepare (d_env (rd_deps d)) cmd = Inr c'"
          "w_sent (fst (Submit (rd_deps d) cmd ?w)) = w_sent ?w @ [c']"
          "granted (snd (Evaluate (d_env (rd_deps d)) (d_reader (rd_deps d)) (command_intent c') (w_policy ?w)))"
      by blast
    then show ?thesis
    proof cases
      case sent: (2 c')
      from Evaluate_inputs [OF this(3)] obtain p where p: "eng_profiles (w_policy ?w) (cmd_equipment c') = Some p"
        "cmd_on c' \<Longrightarrow> profile_hazardous p \<Longrightarrow> granted (validateInputs (sm_get env m) (profile_required p))"
        by (auto simp: command_intent_def assms(2))
      from p(2) state_get.inputs_fresh [OF sm_reach_inv [OF assms(1)] p(2)]
      have "if cmd_on c' \<and> profile_hazardous p
        then list_all (\<lambda>q. input_satisfied (sm_get env m) q \<and>
          (\<exists>v. sm_get env m (req_key q) = (Some v, None) \<and> sv_key v = req_key q \<and>
             env_now env < sv_observed v + sv_fresh_for v)) (profile_required p)
        else True"
        by (fastforce simp: list_all_iff validateInputs_granted)
      with p(1) sent(1,2) 2 show ?thesis
        unfolding 2(3) Let_def by blast
    qed (simp add: 2)
  qed simp
qed

text \<open>With nothing in the state manager no request switches the heater on.\<close>

definition heater_request :: "request payload" where
  "heater_request = sample_request\<lparr>pay_envelope :=
     Inr \<lparr>env_schema = ''1.0'', env_message = ''m1'', env_correlation = sample_id 1, env_source = ''ha'',
       env_site = ''reef'', env_occurred = noon, env_expires = Some (noon + 60000000000), env_revision = None,
       env_data = RawJSON (Inr (sample_command\<lparr>cmd_equipment := sample_id 5\<rparr>))\<rparr>\<rparr>"

theorem hazard_needs_fresh_inputs_witness:
  "w_sent (rw_world (snd (fst (Handle
     (sample_route\<lparr>rd_deps := sample_deps\<lparr>d_reader := sm_get sample_env NewStateManager\<rparr>\<rparr>) ''heater''
     heater_request (sample_consumer, sample_route_world))))) = []"
proof -
  have cmd: "decode_command e = Inr c \<Longrightarrow> pay_envelope heater_request = Inr e \<Longrightarrow> prepare env c = Inr c' \<Longrightarrow>
      cmd_equipment c' = sample_id 5 \<and> cmd_on c'" for e c c' env
    using prepare_Inr(4,6) [of env c c']
    by (auto simp: heater_request_def decode_command_def sample_command_def split: if_splits)
  let ?d = "sample_route\<lparr>rd_deps := sample_deps\<lparr>d_reader := sm_get sample_env NewStateManager\<rparr>\<rparr>"
  have start: "w_policy (rw_world sample_route_world) = sample_engine" "w_sent (rw_world sample_route_world) = []"
    "eng_profiles sample_engine (sample_id 5) = Some sample_heater"
    "profile_hazardous sample_heater" "profile_required sample_heater \<noteq> []"
    by (simp_all add: sample_route_world_def sample_engine_def sample_heater_def)
  have "\<not> input_satisfied (sm_get sample_env NewStateManager) q" for q
    by (simp add: input_satisfied_def sm_get_def NewStateManager_def sm_ErrNotFound_def fail_def)
  then have missing: "\<not> list_all (\<lambda>q. input_satisfied (sm_get sample_env NewStateManager) q \<and> P q)
      (profile_required sample_heater)" for P
    using start(5) by (cases "profile_required sample_heater") simp_all
  have "d_reader (rd_deps ?d) = sm_get sample_env NewStateManager" by simp
  from hazard_needs_fresh_inputs [OF reach_new this, of sample_route_world "''heater''" heater_request sample_consumer]
  show ?thesis unfolding Let_def start(1,2) using missing start(3,4) cmd by fastforce
qed

end
